(* ===== verification/Prelude.thy ===== *)
theory Prelude
  imports Main "HOL-Library.Word" "HOL-Library.Multiset" "HOL-Library.AList" "HOL-Library.List_Lexorder" "HOL-Library.Char_ord"
begin

text \<open>
  Shared vocabulary of the development: Go's 64-bit and PostgreSQL's 32-bit integer ranges,
  the calendar arithmetic the ordering rules use, and SQL's set-oriented row operations over
  tables that are lists of rows (\<open>UPDATE ... WHERE\<close>, \<open>RowsAffected\<close>, single-row
  \<open>SELECT\<close>, aggregate sums), with the generic facts the component proofs rest on.
\<close>

named_theorems io_simps "evaluation of the database monad"
named_theorems run_simps "evaluation of an operation on a concrete state"
named_theorems ro_intros "operations that leave the database unchanged"
named_theorems atomic_intros "operations that leave the database unchanged when they fail"
named_theorems hoare_intros "rules of the success calculus"
named_theorems keeps_intros "operations that preserve a database predicate, on success and on failure"
named_theorems raises_intros "operations that only fail with certain errors"

section \<open>Integers of the program\<close>

text \<open>Go's \<open>int64\<close>: arithmetic wraps in two's complement.\<close>

definition i64 :: "int \<Rightarrow> int" where
  "i64 x = sint (word_of_int x :: 64 word)"

definition in_i64 :: "int \<Rightarrow> bool" where
  "in_i64 x \<longleftrightarrow> - (2 ^ 63) \<le> x \<and> x < 2 ^ 63"

lemma i64_id: "in_i64 x \<Longrightarrow> i64 x = x"
  by (simp add: i64_def in_i64_def sint_sbintrunc' signed_take_bit_int_eq_self)

lemma i64_range: "in_i64 (i64 x)"
  using sint_greater_eq [of "word_of_int x :: 64 word"] sint_less [of "word_of_int x :: 64 word"]
  by (simp add: i64_def in_i64_def)

lemma i64_add_left [simp]: "i64 (i64 a + b) = i64 (a + b)"
  by (simp add: i64_def)

lemma i64_run [run_simps]: "i64 x = (x + 2 ^ 63) mod 2 ^ 64 - 2 ^ 63"
  by (simp add: i64_def sint_sbintrunc' signed_take_bit_eq_take_bit_shift take_bit_eq_mod)

text \<open>PostgreSQL's \<open>INTEGER\<close> columns hold 32-bit values; a value outside is an error.\<close>

definition int4_max :: int where "int4_max = 2147483647"

definition int4_ok :: "int \<Rightarrow> bool" where
  "int4_ok n \<longleftrightarrow> - 2147483648 \<le> n \<and> n \<le> int4_max"

definition int8_ok :: "int \<Rightarrow> bool" where
  "int8_ok n \<longleftrightarrow> in_i64 n"

section \<open>Time\<close>

text \<open>
  Instants are nanoseconds since 1970-01-01 00:00 UTC, calendar days are day numbers since
  that day. A fixed-offset location is its number of seconds east of UTC.
\<close>

type_synonym time = int
type_synonym date = int

definition sec_ns :: int where "sec_ns = 1000000000"
definition hour_ns :: int where "hour_ns = 3600 * sec_ns"
definition day_ns :: int where "day_ns = 24 * hour_ns"

text \<open>\<open>time.Parse("2006-01-02", s)\<close> yields midnight UTC of the day.\<close>

definition midnight_utc :: "date \<Rightarrow> time" where
  "midnight_utc d = d * day_ns"

text \<open>\<open>time.Date(y, m, d, h, 0, 0, 0, loc)\<close> on a day number.\<close>

definition date_in :: "int \<Rightarrow> date \<Rightarrow> int \<Rightarrow> time" where
  "date_in tz d h = d * day_ns + h * hour_ns - tz * sec_ns"

text \<open>The calendar day of an instant read in UTC.\<close>

definition utc_day :: "time \<Rightarrow> date" where
  "utc_day t = t div day_ns"

lemma day_ns_pos [simp]: "0 < day_ns" "0 \<le> day_ns" "day_ns \<noteq> 0"
  by (simp_all add: day_ns_def hour_ns_def sec_ns_def)

lemma utc_day_midnight [simp]: "utc_day (midnight_utc d) = d"
  by (simp add: utc_day_def midnight_utc_def)

lemma utc_day_bounds: "midnight_utc (utc_day t) \<le> t" "t < midnight_utc (utc_day t + 1)"
proof -
  have "t div day_ns * day_ns \<le> t"
    by (metis day_ns_pos(1) div_mult_mod_eq le_add_same_cancel1 pos_mod_sign)
  moreover have "t < (t div day_ns + 1) * day_ns"
    by (metis add.commute add_less_cancel_left day_ns_pos(1) div_mult_mod_eq
        distrib_right mult_1 pos_mod_bound add_0)
  ultimately show "midnight_utc (utc_day t) \<le> t" "t < midnight_utc (utc_day t + 1)"
    by (simp_all add: midnight_utc_def utc_day_def)
qed

section \<open>Rows and tables\<close>

text \<open>
  A table is the list of its rows. \<open>sql_update\<close> is \<open>UPDATE t SET f WHERE P\<close>,
  \<open>sql_affected\<close> the command tag's row count, \<open>find\<close> a single-row \<open>SELECT\<close>.
\<close>

definition sql_update :: "('r \<Rightarrow> bool) \<Rightarrow> ('r \<Rightarrow> 'r) \<Rightarrow> 'r list \<Rightarrow> 'r list" where
  "sql_update P f rows = map (\<lambda>r. if P r then f r else r) rows"

definition sql_affected :: "('r \<Rightarrow> bool) \<Rightarrow> 'r list \<Rightarrow> nat" where
  "sql_affected P rows = length (filter P rows)"

definition sql_sum :: "('r \<Rightarrow> bool) \<Rightarrow> ('r \<Rightarrow> int) \<Rightarrow> 'r list \<Rightarrow> int" where
  "sql_sum P f rows = sum_list (map f (filter P rows))"

lemma sql_update_simps [simp]:
  "sql_update P f [] = []"
  "sql_update P f (r # rs) = (if P r then f r else r) # sql_update P f rs"
  "sql_update P f (rs @ ss) = sql_update P f rs @ sql_update P f ss"
  by (simp_all add: sql_update_def)

lemma length_sql_update [simp]: "length (sql_update P f rows) = length rows"
  by (simp add: sql_update_def)

lemma set_sql_update: "set (sql_update P f rows) = (\<lambda>r. if P r then f r else r) ` set rows"
  by (simp add: sql_update_def)

lemma map_sql_update:
  "(\<And>r. P r \<Longrightarrow> k (f r) = k r) \<Longrightarrow> map k (sql_update P f rows) = map k rows"
  by (simp add: sql_update_def)

lemma distinct_sql_update_at:
  assumes "distinct (map k rs)" "distinct (map i rs)" "\<And>r. r \<in> set rs \<Longrightarrow> i r \<noteq> x \<Longrightarrow> k r \<noteq> y"
    "\<And>r. i r = x \<Longrightarrow> k (f r) = y"
  shows "distinct (map k (sql_update (\<lambda>r. i r = x) f rs))"
  using assms
proof (induction rs)
  case (Cons r rs)
  then have IH: "distinct (map k (sql_update (\<lambda>r. i r = x) f rs))" by simp
  have m: "k ` set (sql_update (\<lambda>r. i r = x) f rs) \<subseteq> k ` set rs \<union> {k (f q) | q. q \<in> set rs \<and> i q = x}"
    by (auto simp: set_sql_update split: if_splits)
  show ?case
  proof (cases "i r = x")
    case True
    with Cons.prems(2) have "\<forall>q\<in>set rs. i q \<noteq> x" by (auto simp: image_iff)
    with Cons.prems True have "k (f r) \<notin> k ` set rs" by auto
    with \<open>\<forall>q\<in>set rs. i q \<noteq> x\<close> m IH True show ?thesis by auto
  next
    case False
    with Cons.prems have "k r \<noteq> y" "k r \<notin> k ` set rs" by auto
    with Cons.prems(4) m IH False show ?thesis by auto
  qed
qed simp

lemma sql_update_none: "\<not> list_ex P rows \<Longrightarrow> sql_update P f rows = rows"
  by (induction rows) auto

lemma sql_affected_0_iff: "sql_affected P rows = 0 \<longleftrightarrow> \<not> list_ex P rows"
  by (simp add: sql_affected_def list_ex_iff filter_empty_conv)

lemma sql_sum_simps [simp]:
  "sql_sum P f [] = 0"
  "sql_sum P f (r # rs) = (if P r then f r else 0) + sql_sum P f rs"
  "sql_sum P f (rs @ ss) = sql_sum P f rs + sql_sum P f ss"
  by (simp_all add: sql_sum_def)

lemma sql_sum_cong:
  "(\<And>r. r \<in> set rs \<Longrightarrow> P r = Q r) \<Longrightarrow> (\<And>r. r \<in> set rs \<Longrightarrow> P r \<Longrightarrow> f r = g r) \<Longrightarrow>
    sql_sum P f rs = sql_sum Q g rs"
  by (induction rs) auto

lemma sql_sum_nonneg: "(\<And>r. r \<in> set rs \<Longrightarrow> P r \<Longrightarrow> 0 \<le> f r) \<Longrightarrow> 0 \<le> sql_sum P f rs"
  by (induction rs) auto

lemma sql_sum_split: "sql_sum P f rs = sql_sum (\<lambda>r. P r \<and> Q r) f rs + sql_sum (\<lambda>r. P r \<and> \<not> Q r) f rs"
  by (induction rs) auto

lemma sql_sum_none: "(\<And>r. r \<in> set rs \<Longrightarrow> \<not> P r) \<Longrightarrow> sql_sum P f rs = 0"
  by (induction rs) auto

lemma sql_sum_filter: "sql_sum P f (filter Q rs) = sql_sum (\<lambda>r. P r \<and> Q r) f rs"
  by (induction rs) auto

subsection \<open>Look-ups by key\<close>

definition by_key :: "('r \<Rightarrow> 'k) \<Rightarrow> 'k \<Rightarrow> 'r list \<Rightarrow> 'r option" where
  "by_key k x rows = find (\<lambda>r. k r = x) rows"

lemma by_key_simps [simp]:
  "by_key k x [] = None"
  "by_key k x (r # rs) = (if k r = x then Some r else by_key k x rs)"
  by (simp_all add: by_key_def)

lemma by_key_append:
  "by_key k x (rs @ ss) = (case by_key k x rs of None \<Rightarrow> by_key k x ss | Some r \<Rightarrow> Some r)"
  by (induction rs) auto

lemma by_key_None: "by_key k x rows = None \<longleftrightarrow> x \<notin> k ` set rows"
  by (induction rows) auto

lemma by_key_SomeD: "by_key k x rows = Some r \<Longrightarrow> r \<in> set rows \<and> k r = x"
  by (induction rows) (auto split: if_splits)

lemma by_key_mem:
  "distinct (map k rows) \<Longrightarrow> r \<in> set rows \<Longrightarrow> by_key k (k r) rows = Some r"
  by (induction rows) (auto simp: image_iff)

lemma by_key_iff:
  "distinct (map k rows) \<Longrightarrow> by_key k x rows = Some r \<longleftrightarrow> r \<in> set rows \<and> k r = x"
  using by_key_SomeD by_key_mem by fastforce

lemma by_key_sql_update:
  assumes "\<And>r. P r \<Longrightarrow> k (f r) = k r"
  shows "by_key k x (sql_update P f rows)
    = map_option (\<lambda>r. if P r then f r else r) (by_key k x rows)"
  by (induction rows) (auto simp: assms)

lemma affected_by_key:
  assumes "distinct (map k rows)"
  shows "sql_affected (\<lambda>r. k r = x \<and> Q r) rows
    = (case by_key k x rows of None \<Rightarrow> 0 | Some r \<Rightarrow> if Q r then 1 else 0)"
  using assms
proof (induction rows)
  case Nil
  then show ?case by (simp add: sql_affected_def)
next
  case (Cons r rows)
  have "filter (\<lambda>s. k s = x \<and> Q s) rows = []" if "k r = x"
    using Cons.prems that by (auto simp: filter_empty_conv) (metis image_eqI)
  then show ?case using Cons by (auto simp: sql_affected_def)
qed

lemma sql_sum_key:
  assumes "distinct (map k rows)"
  shows "sql_sum (\<lambda>r. k r = x) f rows = (case by_key k x rows of None \<Rightarrow> 0 | Some r \<Rightarrow> f r)"
  using assms
proof (induction rows)
  case Nil
  then show ?case by simp
next
  case (Cons r rows)
  have "sql_sum (\<lambda>s. k s = x) f rows = 0" if "k r = x"
    by (rule sql_sum_none) (use Cons.prems that in \<open>auto, metis image_eqI\<close>)
  then show ?case using Cons by auto
qed

text \<open>
  Go's \<open>delta[k] += n\<close> on a map with zero default, as an association list in the order
  the keys were first written.
\<close>

definition bump :: "'k \<Rightarrow> int \<Rightarrow> ('k \<times> int) list \<Rightarrow> ('k \<times> int) list" where
  "bump k n m = AList.update k ((case map_of m k of None \<Rightarrow> 0 | Some v \<Rightarrow> v) + n) m"

definition total_at :: "('k \<times> int) list \<Rightarrow> 'k \<Rightarrow> int" where
  "total_at m k = (case map_of m k of None \<Rightarrow> 0 | Some v \<Rightarrow> v)"

lemma total_at_bump: "total_at (bump k n m) k' = total_at m k' + (if k = k' then n else 0)"
  by (simp add: total_at_def bump_def update_conv)

lemma total_at_Nil [simp]: "total_at [] k = 0"
  by (simp add: total_at_def)

lemma bump_keys: "fst ` set (bump k n m) = insert k (fst ` set m)"
  by (simp add: bump_def dom_update)

lemma distinct_bump: "distinct (map fst m) \<Longrightarrow> distinct (map fst (bump k n m))"
  by (simp add: bump_def distinct_update)

section \<open>Iteration over a Go map\<close>

text \<open>
  \<open>for k, v := range m\<close> visits the entries in an unspecified order. \<open>map_order p\<close>
  takes, with \<open>n\<close> entries left, the one at position \<open>p n\<close>; every order is \<open>map_order p\<close>
  of some \<open>p\<close>, and no \<open>p\<close> loses or repeats an entry.
\<close>

fun take_nth :: "nat \<Rightarrow> 'a list \<Rightarrow> ('a \<times> 'a list) option" where
  "take_nth n [] = None"
| "take_nth 0 (x # xs) = Some (x, xs)"
| "take_nth (Suc n) (x # xs) = (case take_nth n xs of None \<Rightarrow> Some (x, xs)
     | Some (y, ys) \<Rightarrow> Some (y, x # ys))"

lemma take_nth_mset: "take_nth n xs = Some (y, ys) \<Longrightarrow> mset xs = add_mset y (mset ys)"
  by (induction n xs arbitrary: y ys rule: take_nth.induct) (auto split: option.splits)

lemma take_nth_length: "take_nth n xs = Some (y, ys) \<Longrightarrow> length ys < length xs"
  using take_nth_mset [of n xs y ys] by (metis lessI size_add_mset size_mset)

lemma take_nth_None: "take_nth n xs = None \<longleftrightarrow> xs = []"
  by (induction n xs rule: take_nth.induct) (auto split: option.splits)

function map_order :: "(nat \<Rightarrow> nat) \<Rightarrow> 'a list \<Rightarrow> 'a list" where
  "map_order p xs = (case take_nth (p (length xs)) xs of
     None \<Rightarrow> [] | Some (y, ys) \<Rightarrow> y # map_order p ys)"
  by pat_completeness auto
termination
  by (relation "measure (\<lambda>(p, xs). length xs)") (auto dest!: sym [of "Some _"] take_nth_length)

declare map_order.simps [simp del]

lemma map_order_run:
  "map_order p [] = []"
  "map_order p (x # xs) = (case take_nth (p (Suc (length xs))) (x # xs) of
     None \<Rightarrow> [] | Some (y, ys) \<Rightarrow> y # map_order p ys)"
  by (simp_all add: map_order.simps [of p "[]"] map_order.simps [of p "x # xs"])

lemma mset_map_order: "mset (map_order p xs) = mset xs"
proof (induction p xs rule: map_order.induct)
  case (1 p xs)
  show ?case
  proof (cases "take_nth (p (length xs)) xs")
    case None
    then have "xs = []" by (simp add: take_nth_None)
    then show ?thesis by (simp add: map_order.simps [of p "[]"])
  next
    case (Some yys)
    then obtain y ys where s: "take_nth (p (length xs)) xs = Some (y, ys)" by (cases yys) auto
    have "mset (map_order p ys) = mset ys" using "1.IH" s by auto
    then show ?thesis using take_nth_mset [OF s] by (simp add: map_order.simps [of p xs] s)
  qed
qed

lemma map_order_props:
  "set (map_order p xs) = set xs" "length (map_order p xs) = length xs"
  "sum_list (map f (map_order p xs)) = (sum_list (map f xs) :: int)"
  "distinct (map g (map_order p xs)) = distinct (map g xs)"
  using mset_map_order [of p xs]
  by (metis mset_eq_setD, metis size_mset, metis mset_map sum_mset_sum_list,
      metis mset_map mset_eq_imp_distinct_iff)

section \<open>Text of numbers and dates\<close>

fun nat_text :: "nat \<Rightarrow> string" where
  "nat_text n = (if n < 10 then [''0123456789'' ! n] else nat_text (n div 10) @ [''0123456789'' ! (n mod 10)])"

declare nat_text.simps [simp del]

definition int_text :: "int \<Rightarrow> string" where
  "int_text x = (if x < 0 then CHR ''-'' # nat_text (nat (- x)) else nat_text (nat x))"

text \<open>Numbers are read back from their text.\<close>

lemma digit_inj: "a < 10 \<Longrightarrow> b < 10 \<Longrightarrow> ''0123456789'' ! a = ''0123456789'' ! b \<Longrightarrow> a = (b::nat)"
  by (rule nth_eq_iff_index_eq [of "''0123456789''", THEN iffD1]) simp_all

lemma nat_text_not_Nil [simp]: "nat_text n \<noteq> []" "[] \<noteq> nat_text n"
  by (subst nat_text.simps, simp)+

lemma nat_text_digits: "set (nat_text n) \<subseteq> set ''0123456789''"
proof (induction n rule: nat_text.induct)
  case (1 n)
  have "''0123456789'' ! (n mod 10) \<in> set ''0123456789''" by (rule nth_mem) simp
  moreover have "n < 10 \<Longrightarrow> ''0123456789'' ! n \<in> set ''0123456789''" by (rule nth_mem) simp
  ultimately show ?case using 1 by (subst nat_text.simps) (simp split: if_splits)
qed

lemma nat_text_inj: "nat_text m = nat_text n \<Longrightarrow> m = n"
proof (induction m arbitrary: n rule: nat_text.induct)
  case (1 m)
  have split: "nat_text k = (if k < 10 then [] else nat_text (k div 10)) @ [''0123456789'' ! (k mod 10)]" for k
    by (subst nat_text.simps) simp
  from 1(2) have "(if m < 10 then [] else nat_text (m div 10)) = (if n < 10 then [] else nat_text (n div 10))"
    and "''0123456789'' ! (m mod 10) = ''0123456789'' ! (n mod 10)"
    unfolding split [of m] split [of n] by simp_all
  then have "m mod 10 = n mod 10" "m < 10 \<longleftrightarrow> n < 10" "\<not> m < 10 \<Longrightarrow> nat_text (m div 10) = nat_text (n div 10)"
    by (auto dest: digit_inj [rotated 2] split: if_splits)
  with 1(1) [of "n div 10"] have "m mod 10 = n mod 10" "m div 10 = n div 10" by (cases "m < 10"; simp)+
  then show ?case by (metis div_mult_mod_eq)
qed

lemma int_text_inj: "int_text x = int_text y \<longleftrightarrow> x = y"
proof
  have no: "CHR ''-'' # s \<noteq> nat_text n" for s n
  proof
    assume "CHR ''-'' # s = nat_text n"
    then have "CHR ''-'' \<in> set (nat_text n)" by (metis list.set_intros(1))
    with nat_text_digits [of n] show False by auto
  qed
  assume "int_text x = int_text y"
  then show "x = y"
    by (auto simp: int_text_def no no [symmetric] dest!: nat_text_inj split: if_splits)
qed simp

definition pad_text :: "nat \<Rightarrow> nat \<Rightarrow> string" where
  "pad_text k n = (let s = nat_text n in replicate (k - length s) (CHR ''0'') @ s)"

text \<open>Year, month and day of a day number (proleptic Gregorian, as \<open>time.Time\<close> has it).\<close>

definition civil :: "date \<Rightarrow> int \<times> int \<times> int" where
  "civil d = (let z = d + 719468; era = z div 146097; doe = z mod 146097;
     yoe = (doe - doe div 1460 + doe div 36524 - doe div 146096) div 365;
     doy = doe - (365 * yoe + yoe div 4 - yoe div 100);
     mp = (5 * doy + 2) div 153;
     m = (if mp < 10 then mp + 3 else mp - 9);
     y = yoe + era * 400 + (if m \<le> 2 then 1 else 0)
   in (y, m, doy - (153 * mp + 2) div 5 + 1))"

text \<open>\<open>t.Format("2006-01-02")\<close>, for years 0 to 9999.\<close>

definition date_text :: "date \<Rightarrow> string" where
  "date_text d = (case civil d of (y, m, dd) \<Rightarrow>
     pad_text 4 (nat y) @ ''-'' @ pad_text 2 (nat m) @ ''-'' @ pad_text 2 (nat dd))"

lemma date_text_examples:
  "date_text 0 = ''1970-01-01''" "date_text 19782 = ''2024-02-29''" "date_text 20454 = ''2026-01-01''"
  by code_simp+

end
