(* ===== verification/Schema.thy ===== *)
theory Schema
  imports Prelude
begin

text \<open>
  The data of the system: the enumerations and structs of the Go packages (\<open>types.go\<close> of
  order, menu, quota, vendors, payroll, settlement, feedback, identity), which are at the same
  time the rows of the PostgreSQL tables in \<open>migrations/\<close>, the sentinel errors of every
  package (\<open>errors.go\<close>), and the state of the whole system: the database, the sequences
  that survive a rollback, and the environment a call runs in.
\<close>

type_synonym uuid = string

section \<open>Enumerations\<close>

datatype order_status =
  Draft | Placed | Cutoff | Cancelled | Ready | PickedUp | NoShow | Refunded

fun status_text :: "order_status \<Rightarrow> string" where
  "status_text Draft = ''draft''"
| "status_text Placed = ''placed''"
| "status_text Cutoff = ''cutoff''"
| "status_text Cancelled = ''cancelled''"
| "status_text Ready = ''ready''"
| "status_text PickedUp = ''picked_up''"
| "status_text NoShow = ''no_show''"
| "status_text Refunded = ''refunded''"

text \<open>The declaration order of the SQL type \<open>order_status\<close>, by which PostgreSQL compares.\<close>

fun status_rank :: "order_status \<Rightarrow> nat" where
  "status_rank Draft = 0"
| "status_rank Placed = 1"
| "status_rank Cutoff = 2"
| "status_rank Cancelled = 3"
| "status_rank Ready = 4"
| "status_rank PickedUp = 5"
| "status_rank NoShow = 6"
| "status_rank Refunded = 7"

lemma status_rank_inj: "status_rank a = status_rank b \<Longrightarrow> a = b"
  by (cases a; cases b) auto

instantiation order_status :: linorder
begin

definition less_eq_order_status :: "order_status \<Rightarrow> order_status \<Rightarrow> bool" where
  "less_eq_order_status a b \<longleftrightarrow> status_rank a \<le> status_rank b"

definition less_order_status :: "order_status \<Rightarrow> order_status \<Rightarrow> bool" where
  "less_order_status a b \<longleftrightarrow> status_rank a < status_rank b"

instance
  by standard (auto simp: less_eq_order_status_def less_order_status_def intro: status_rank_inj)

end

datatype user_role = Employee | VendorOperator | WelfareAdmin
datatype user_status = UserActive | UserSuspended | UserTerminated
datatype menu_item_status = ItemDraft | ItemActive | ItemArchived
datatype vendor_status = VPending | VApproved | VSuspended | VTerminated
datatype operator_status = OpActive | OpSuspended | OpVendorSuspended
datatype document_kind = BusinessLicense | FoodSafetyPermit | TaxRegistration | Insurance | OtherDocument
datatype document_status = DocPending | DocApproved | DocRejected | DocExpired
datatype severity = Low | Medium | High | Critical
datatype anomaly_status = AnomalyOpen | AnomalyTriaged | AnomalyClosed
datatype batch_status = BDraft | BLocked | BExported | BClosed
datatype dispute_status = DOpen | DRefund | DReject | DCancelled
datatype exception_kind = EmployeeDeparted | DeductionFailed
datatype exception_status = ExOpen | ExResolved | ExExcluded
datatype settlement_status = StClosed | StVoid
datatype complaint_category =
  WrongItem | MissingItem | Quality | Portion | Hygiene | OtherCategory
datatype complaint_status = COpen | CVendorResponded | CEscalated | CResolved

fun user_status_text :: "user_status \<Rightarrow> string" where
  "user_status_text UserActive = ''active''"
| "user_status_text UserSuspended = ''suspended''"
| "user_status_text UserTerminated = ''terminated''"

fun dispute_status_text :: "dispute_status \<Rightarrow> string" where
  "dispute_status_text DOpen = ''open''"
| "dispute_status_text DRefund = ''resolved_refund''"
| "dispute_status_text DReject = ''resolved_reject''"
| "dispute_status_text DCancelled = ''cancelled''"

fun exception_kind_text :: "exception_kind \<Rightarrow> string" where
  "exception_kind_text EmployeeDeparted = ''employee_departed''"
| "exception_kind_text DeductionFailed = ''deduction_failed''"

fun exception_status_text :: "exception_status \<Rightarrow> string" where
  "exception_status_text ExOpen = ''open''"
| "exception_status_text ExResolved = ''resolved''"
| "exception_status_text ExExcluded = ''excluded''"

fun document_kind_text :: "document_kind \<Rightarrow> string" where
  "document_kind_text BusinessLicense = ''business_license''"
| "document_kind_text FoodSafetyPermit = ''food_safety_permit''"
| "document_kind_text TaxRegistration = ''tax_registration''"
| "document_kind_text Insurance = ''insurance''"
| "document_kind_text OtherDocument = ''other''"

fun document_status_text :: "document_status \<Rightarrow> string" where
  "document_status_text DocPending = ''pending''"
| "document_status_text DocApproved = ''approved''"
| "document_status_text DocRejected = ''rejected''"
| "document_status_text DocExpired = ''expired''"

fun complaint_status_text :: "complaint_status \<Rightarrow> string" where
  "complaint_status_text COpen = ''open''"
| "complaint_status_text CVendorResponded = ''vendor_responded''"
| "complaint_status_text CEscalated = ''escalated''"
| "complaint_status_text CResolved = ''resolved''"

fun category_text :: "complaint_category \<Rightarrow> string" where
  "category_text WrongItem = ''wrong_item''"
| "category_text MissingItem = ''missing_item''"
| "category_text Quality = ''quality''"
| "category_text Portion = ''portion''"
| "category_text Hygiene = ''hygiene''"
| "category_text OtherCategory = ''other''"

section \<open>Errors\<close>

text \<open>
  A failure of the database connection, with the SQLSTATE when the server reported one.
  \<open>fmt.Errorf("...: %w", err)\<close> keeps the identity of the error it wraps, so the model
  drops the message and keeps the wrapped error.
\<close>

datatype pg_error = PgErr string | IoErr

datatype order_err =
    ErrOrderNotFound | ErrInvalidTransition | ErrCutoffPassed | ErrOutsidePreorderWindow
  | ErrEmptyOrder | ErrMultiVendor | ErrPlantMismatch | ErrVendorPlantMismatch | ErrForbidden
  | ErrConcurrentModification | ErrQtyNotPositive | ErrInvalidSupplyDate
datatype menu_err = ErrItemNotFound | ErrMenuForbidden | ErrCategoryNotFound | ErrImageNotFound
datatype quota_err = ErrSupplyNotFound | ErrOutOfStock | ErrQuotaNNotPositive
datatype vendor_err =
    ErrVendorNotFound | ErrOperatorNotFound | ErrAlreadyApproved | ErrInvalidStatus
  | ErrInvalidOperator | ErrProvisioningSetup | ErrInvalidSettings
datatype compliance_err =
    ErrDocumentNotFound | ErrAnomalyNotFound | ErrComplianceInvalidStatus | ErrInvalidResupply
  | ErrInvalidAction | ErrInvalidFilename | ErrFileTooLarge | ErrReadUpload | ErrDocumentUpload | ErrDecodePayload
datatype plant_err = ErrPlantNotFound | ErrDuplicateCode | ErrPlantInvalid
datatype payroll_err =
    ErrBatchNotFound | ErrEntryNotFound | ErrDisputeNotFound | ErrBatchLocked
  | ErrBatchPeriodExists | ErrPayrollInvalidTransition | ErrPayrollForbidden
  | ErrExceptionNotFound | ErrInvalidException | ErrRefundExceedsOrder
  | ErrOrderNotDisputable | ErrPeriodOrder | ErrOrderNotInEntry | ErrInvalidResolution
  | ErrRefundNegative | ErrEventMissingBatch | ErrDecodeEvent | ErrUpload | ErrUserNotFound
datatype settlement_err =
    ErrSettlementNotFound | ErrPeriodAlreadyClosed | ErrInvalidPeriod | ErrNoOrdersInPeriod
  | ErrSettlementInvalidTransition | ErrSettlementForbidden
datatype feedback_err =
    ErrFbOrderNotFound | ErrComplaintNotFound | ErrRatingNotFound | ErrOrderNotPickedUp
  | ErrAlreadyRated | ErrComplaintExists | ErrFbInvalidTransition | ErrEscalateTooEarly
  | ErrFbForbidden | ErrValidation | ErrReverserMissing

datatype identity_err =
    ErrIdUserNotFound | ErrIdentityNotFound | ErrInvalidClaims | ErrRoleMismatch | ErrAccountSuspended
  | ErrInvalidProvider | ErrInvalidRole | ErrSessionNotFound | ErrHandoffNotFound | ErrInvalidApp
  | ErrProviderMismatch | ErrStateNotFound | ErrStateConsumed | ErrExchange

datatype err =
    OrderErr order_err | MenuErr menu_err | QuotaErr quota_err | VendorErr vendor_err
  | PayrollErr payroll_err | SettlementErr settlement_err | FeedbackErr feedback_err
  | ComplianceErr compliance_err | PlantErr plant_err | IdentityErr identity_err
  | DbErr pg_error

section \<open>Rows\<close>

text \<open>
  JSON payloads of events and audit records (\<open>map[string]any\<close>), as key/value lists in
  the order the code writes them. \<open>JFrac p q\<close> is a \<open>float64\<close>, as the exact quotient it rounds.
\<close>

datatype json = JNull | JStr string | JInt int | JFrac int int | JBool bool | JList "json list" | JObj "(string \<times> json) list"

type_synonym payload = "(string \<times> json) list"

record user =
  u_id :: uuid
  u_email :: string
  u_name :: string
  u_role :: user_role
  u_status :: user_status
  u_employee_id :: "string option"
  u_vendor :: "uuid option"
  u_plant :: "string option"
  u_department :: "string option"
  u_created_at :: time
  u_updated_at :: time

text \<open>An external subject linked to a user.\<close>

record user_identity =
  id_id :: uuid
  id_user :: uuid
  id_provider :: string
  id_subject :: string
  id_claims :: payload
  id_linked_at :: time

record vendor =
  v_id :: uuid
  v_name :: string
  v_legal :: string
  v_email :: string
  v_status :: vendor_status
  v_approved_at :: "time option"
  v_approved_by :: "uuid option"
  v_cutoff_hour :: int
  v_preorder_days :: int
  v_created_at :: time
  v_updated_at :: time

record plant_mapping =
  pm_id :: uuid
  pm_vendor :: uuid
  pm_plant :: string
  pm_active :: bool
  pm_window :: string
  pm_created_at :: time

record operator_account =
  oa_id :: uuid
  oa_vendor :: uuid
  oa_email :: string
  oa_name :: string
  oa_provider :: string
  oa_subject :: "string option"
  oa_status :: operator_status
  oa_setup_url :: "string option"
  oa_synced_at :: "time option"
  oa_created_at :: time
  oa_updated_at :: time

record plant =
  p_code :: string
  p_label :: string
  p_address :: string
  p_active :: bool
  p_sort :: int
  p_created_at :: time
  p_updated_at :: time

record category =
  cat_id :: uuid
  cat_vendor :: uuid
  cat_name :: string
  cat_sort :: int
  cat_created_at :: time

record menu_item =
  m_id :: uuid
  m_vendor :: uuid
  m_category :: "uuid option"
  m_name :: string
  m_desc :: string
  m_price :: int
  m_tags :: "string list"
  m_status :: menu_item_status
  m_archived_at :: "time option"
  m_created_at :: time
  m_updated_at :: time

record image =
  im_id :: uuid
  im_item :: uuid
  im_uri :: string
  im_alt :: string
  im_sort :: int
  im_created_at :: time

record favorite =
  f_user :: uuid
  f_item :: uuid
  f_created_at :: time

record meal_supply =
  s_id :: uuid
  s_item :: uuid
  s_date :: date
  s_capacity :: int
  s_remain :: int
  s_pickup_window :: string
  s_eta_label :: string
  s_cutoff_at :: time
  s_sold_out :: bool
  s_created_at :: time
  s_updated_at :: time

text \<open>
  \<open>order.Order\<close> without its items is a row of table \<open>order\<close>; with them
  (\<open>order\<close> below) it is the struct the services pass around. The column
  \<open>totp_secret\<close> is a leftover no operation writes or reads for a decision; it is left out.
\<close>

record order_row =
  o_id :: uuid
  o_number :: int
  o_user :: uuid
  o_vendor :: uuid
  o_plant :: string
  o_date :: date
  o_status :: order_status
  o_total :: int
  o_notes :: string
  o_placed_at :: "time option"
  o_cutoff_at :: time
  o_ready_at :: "time option"
  o_picked_up_at :: "time option"
  o_no_show_at :: "time option"
  o_cancelled_at :: "time option"
  o_created_at :: time
  o_updated_at :: time

record item =
  i_id :: uuid
  i_order :: uuid
  i_menu_item :: uuid
  i_name :: string
  i_qty :: int
  i_price :: int

record order = order_row +
  o_items :: "item list"

record state_event =
  ev_id :: int
  ev_order :: uuid
  ev_from :: "order_status option"
  ev_to :: order_status
  ev_actor :: "uuid option"
  ev_role :: "user_role option"
  ev_reason :: string
  ev_payload :: payload
  ev_at :: time

record audit_entry =
  au_actor :: "uuid option"
  au_role :: "user_role option"
  au_action :: string
  au_kind :: string
  au_target :: string
  au_payload :: payload
  au_request :: string

record audit_row = audit_entry +
  au_id :: int
  au_at :: time

record outbox_event =
  ox_id :: int
  ox_type :: string
  ox_agg :: uuid
  ox_subject :: string
  ox_payload :: payload
  ox_headers :: payload
  ox_created_at :: time
  ox_published_at :: "time option"
  ox_attempts :: int
  ox_last_error :: "string option"

record batch =
  b_id :: uuid
  b_start :: date
  b_end :: date
  b_status :: batch_status
  b_locked_at :: "time option"
  b_locked_by :: "uuid option"
  b_exported_at :: "time option"
  b_export_uri :: "string option"
  b_created_at :: time
  b_updated_at :: time

record entry =
  e_id :: uuid
  e_batch :: uuid
  e_user :: uuid
  e_orders :: "uuid list"
  e_amount :: int
  e_refunded :: int
  e_created_at :: time

record payroll_exception =
  x_id :: uuid
  x_batch :: uuid
  x_entry :: uuid
  x_user :: uuid
  x_kind :: exception_kind
  x_status :: exception_status
  x_detail :: string
  x_resolution :: string
  x_resolved_by :: "uuid option"
  x_resolved_at :: "time option"
  x_created_at :: time
  x_updated_at :: time

record dispute =
  d_id :: uuid
  d_entry :: "uuid option"
  d_order :: uuid
  d_opened_by :: uuid
  d_reason :: string
  d_status :: dispute_status
  d_resolution :: string
  d_resolved_by :: "uuid option"
  d_resolved_at :: "time option"
  d_refund :: int
  d_created_at :: time
  d_updated_at :: time

record settlement =
  st_id :: uuid
  st_vendor :: uuid
  st_start :: date
  st_end :: date
  st_order_count :: int
  st_portions :: int
  st_gross :: int
  st_orders :: "uuid list"
  st_status :: settlement_status
  st_closed_at :: time
  st_closed_by :: "uuid option"
  st_created_at :: time

record rating =
  r_id :: uuid
  r_order :: uuid
  r_user :: uuid
  r_vendor :: uuid
  r_score :: int
  r_comment :: string
  r_created_at :: time

record complaint =
  c_id :: uuid
  c_order :: uuid
  c_user :: uuid
  c_vendor :: uuid
  c_category :: complaint_category
  c_description :: string
  c_status :: complaint_status
  c_response :: string
  c_responded_at :: "time option"
  c_escalated_at :: "time option"
  c_resolution :: string
  c_resolved_by :: "uuid option"
  c_resolved_at :: "time option"
  c_created_at :: time
  c_updated_at :: time

record document =
  dc_id :: uuid
  dc_vendor :: uuid
  dc_kind :: document_kind
  dc_uri :: string
  dc_filename :: string
  dc_uploaded_by :: "uuid option"
  dc_expires :: "date option"
  dc_status :: document_status
  dc_reviewed_by :: "uuid option"
  dc_reviewed_at :: "time option"
  dc_notes :: string
  dc_supersedes :: "uuid option"
  dc_created_at :: time
  dc_updated_at :: time

record anomaly =
  an_id :: uuid
  an_kind :: string
  an_target_kind :: string
  an_target :: string
  an_severity :: severity
  an_status :: anomaly_status
  an_payload :: payload
  an_evidence :: "string list"
  an_triaged_at :: "time option"
  an_triaged_by :: "uuid option"
  an_closed_at :: "time option"
  an_closed_by :: "uuid option"
  an_notes :: string
  an_created_at :: time
  an_updated_at :: time

section \<open>The system state\<close>

record db =
  users :: "user list"
  vendors :: "vendor list"
  plant_mappings :: "plant_mapping list"
  menu_items :: "menu_item list"
  supplies :: "meal_supply list"
  orders :: "order_row list"
  order_items :: "item list"
  state_events :: "state_event list"
  audits :: "audit_row list"
  outbox :: "outbox_event list"
  batches :: "batch list"
  entries :: "entry list"
  exceptions :: "payroll_exception list"
  disputes :: "dispute list"
  settlements :: "settlement list"
  ratings :: "rating list"
  complaints :: "complaint list"
  operators :: "operator_account list"
  plants :: "plant list"
  categories :: "category list"
  images :: "image list"
  favorites :: "favorite list"
  documents :: "document list"
  anomalies :: "anomaly list"
  identities :: "user_identity list"

text \<open>
  What the program keeps in Redis, typed by what it encodes there, each entry with the instant it
  expires at: login sessions, the tokens of a user, single-use login codes and OIDC states.
\<close>

record session_doc =
  sd_user :: uuid
  sd_role :: user_role
  sd_created_at :: time
  sd_seen_at :: time

record state_payload =
  sp_app :: string
  sp_provider :: string
  sp_return_to :: string
  sp_verifier :: string
  sp_nonce :: string

datatype cache_value = CSession session_doc | CTokens "string list" | CToken string | CState state_payload

type_synonym cache = "(string \<times> cache_value \<times> time option) list"

text \<open>A call to the identity provider's administration interface.\<close>

datatype idp_call =
    IdpUpsert string string uuid
  | IdpSuspend string string
  | IdpReinstate string string uuid

text \<open>
  The world adds to the database what a rollback does not undo: the number of statements the
  server has been sent so far, the sequences behind \<open>order_number\<close> and the
  \<open>BIGSERIAL\<close> keys, the Redis store, and the calls made to the identity provider.
\<close>

record world =
  w_db :: db
  w_tick :: nat
  w_order_seq :: int
  w_event_seq :: int
  w_audit_seq :: int
  w_outbox_seq :: int
  w_cache :: cache
  w_idp :: "idp_call list"

text \<open>
  The environment of a call: the service clock (\<open>clock.SystemClock\<close>, which reads UTC), the
  transaction time \<open>now()\<close> of the server, the configured business location as an offset in
  seconds, which statement fails (by its position) and with which error, what
  \<open>gen_random_uuid()\<close> returns for the statement at a position (and for each row of a statement
  that inserts several), and the order in which Go iterates over a map.
\<close>

record env =
  e_now :: time
  e_dbnow :: time
  e_tz :: int
  e_fault :: "nat \<Rightarrow> pg_error option"
  e_uuid :: "nat \<Rightarrow> uuid"
  e_row_uuid :: "nat \<Rightarrow> nat \<Rightarrow> uuid"
  e_pick :: "nat \<Rightarrow> nat"

definition empty_db :: db where
  "empty_db = \<lparr>users = [], vendors = [], plant_mappings = [], menu_items = [], supplies = [],
     orders = [], order_items = [], state_events = [], audits = [], outbox = [],
     batches = [], entries = [], exceptions = [], disputes = [], settlements = [],
     ratings = [], complaints = [], operators = [], plants = [], categories = [], images = [],
     favorites = [], documents = [], anomalies = [], identities = []\<rparr>"

text \<open>Foreign keys into \<open>user\<close>; a NULL reference is always allowed.\<close>

definition fk_user :: "db \<Rightarrow> uuid option \<Rightarrow> bool" where
  "fk_user d u = (case u of None \<Rightarrow> True | Some i \<Rightarrow> list_ex (\<lambda>x. u_id x = i) (users d))"

definition fk_violation :: err where "fk_violation = DbErr (PgErr ''23503'')"
definition unique_violation :: err where "unique_violation = DbErr (PgErr ''23505'')"
definition check_violation :: err where "check_violation = DbErr (PgErr ''23514'')"
definition out_of_range :: err where "out_of_range = DbErr (PgErr ''22003'')"

end
