(* ===== verification/Store.thy ===== *)
theory Store
  imports Schema
begin

text \<open>
  The database access layer the services are written against: statements sent through
  \<open>pgx\<close> (each of which may fail), \<open>pgx.BeginFunc\<close> transactions, the loops of the
  services over statements, and \<open>order.MaybeConcurrencyErr\<close>. The second part is the calculus
  the component theories use: read-only operations, operations that change nothing when they
  fail, preservation of a database predicate, and a success calculus; the third part states the
  two repository contracts several components share as locales.
\<close>

section \<open>The database monad\<close>

type_synonym 'a io = "world \<Rightarrow> (err + 'a) \<times> world"

definition ret :: "'a \<Rightarrow> 'a io" where
  "ret a = (\<lambda>w. (Inr a, w))"

definition fail :: "err \<Rightarrow> 'a io" where
  "fail e = (\<lambda>w. (Inl e, w))"

definition bind :: "'a io \<Rightarrow> ('a \<Rightarrow> 'b io) \<Rightarrow> 'b io" where
  "bind m f = (\<lambda>w. case m w of (Inl e, w1) \<Rightarrow> (Inl e, w1) | (Inr a, w1) \<Rightarrow> f a w1)"

text \<open>\<open>x, err := m\<close> where the caller looks at \<open>err\<close> itself.\<close>

definition attempt :: "'a io \<Rightarrow> (err + 'a) io" where
  "attempt m = (\<lambda>w. case m w of (r, w1) \<Rightarrow> (Inr r, w1))"

definition from_res :: "err + 'a \<Rightarrow> 'a io" where
  "from_res r = (\<lambda>w. (r, w))"

text \<open>One statement: it is counted, the environment may make it fail, otherwise it runs.\<close>

definition exec :: "env \<Rightarrow> (world \<Rightarrow> err + 'a \<times> world) \<Rightarrow> 'a io" where
  "exec E f = (\<lambda>w.
     case e_fault E (w_tick w) of
       Some p \<Rightarrow> (Inl (DbErr p), w\<lparr>w_tick := Suc (w_tick w)\<rparr>)
     | None \<Rightarrow> (case f w of
         Inl e \<Rightarrow> (Inl e, w\<lparr>w_tick := Suc (w_tick w)\<rparr>)
       | Inr (a, w1) \<Rightarrow> (Inr a, w1\<lparr>w_tick := Suc (w_tick w)\<rparr>)))"

text \<open>A query on the caller's connection, and one on a given snapshot.\<close>

definition query :: "env \<Rightarrow> (db \<Rightarrow> err + 'a) \<Rightarrow> 'a io" where
  "query E q = exec E (\<lambda>w. case q (w_db w) of Inl e \<Rightarrow> Inl e | Inr a \<Rightarrow> Inr (a, w))"

definition query_at :: "env \<Rightarrow> db \<Rightarrow> (db \<Rightarrow> err + 'a) \<Rightarrow> 'a io" where
  "query_at E snap q = exec E (\<lambda>w. case q snap of Inl e \<Rightarrow> Inl e | Inr a \<Rightarrow> Inr (a, w))"

fun for_each :: "('a \<Rightarrow> unit io) \<Rightarrow> 'a list \<Rightarrow> unit io" where
  "for_each f [] = ret ()"
| "for_each f (x # xs) = bind (f x) (\<lambda>_. for_each f xs)"

fun collect :: "('a \<Rightarrow> 'b io) \<Rightarrow> 'a list \<Rightarrow> 'b list io" where
  "collect f [] = ret []"
| "collect f (x # xs) = bind (f x) (\<lambda>y. bind (collect f xs) (\<lambda>ys. ret (y # ys)))"

text \<open>
  \<open>pgx.BeginFunc(ctx, pool, fn)\<close>: BEGIN, the body on the transaction's own view, COMMIT when
  it returns nil and ROLLBACK otherwise. The body also gets the state committed before it
  started, which is what a query sent through the pool instead of the transaction sees.
\<close>

definition begin_func :: "env \<Rightarrow> (db \<Rightarrow> 'a io) \<Rightarrow> 'a io" where
  "begin_func E body = (\<lambda>w.
     case exec E (\<lambda>x. Inr ((), x)) w of
       (Inl e, w1) \<Rightarrow> (Inl e, w1)
     | (Inr _, w1) \<Rightarrow> (case body (w_db w1) w1 of
         (Inl e, w2) \<Rightarrow> (Inl e, w2\<lparr>w_db := w_db w\<rparr>)
       | (Inr a, w2) \<Rightarrow> (case exec E (\<lambda>x. Inr ((), x)) w2 of
           (Inl e, w3) \<Rightarrow> (Inl e, w3\<lparr>w_db := w_db w\<rparr>)
         | (Inr _, w3) \<Rightarrow> (Inr a, w3))))"

text \<open>Deadlocks (40P01) and serialization failures (40001) become a retryable conflict.\<close>

fun maybe_concurrency_err :: "err \<Rightarrow> err" where
  "maybe_concurrency_err (DbErr (PgErr code)) =
     (if code = ''40P01'' \<or> code = ''40001'' then OrderErr ErrConcurrentModification
      else DbErr (PgErr code))"
| "maybe_concurrency_err e = e"

definition map_err :: "(err \<Rightarrow> err) \<Rightarrow> 'a io \<Rightarrow> 'a io" where
  "map_err g m = (\<lambda>w. case m w of (Inl e, w1) \<Rightarrow> (Inl (g e), w1) | (Inr a, w1) \<Rightarrow> (Inr a, w1))"

section \<open>The laws of the monad\<close>

text \<open>They turn a call into the checks it makes followed by the transaction it runs.\<close>

lemma bind_assoc: "bind (bind m f) g = bind m (\<lambda>a. bind (f a) g)"
  by (auto simp: bind_def fun_eq_iff split: prod.splits sum.splits)

lemma bind_ret: "bind (ret a) f = f a"
  by (simp add: bind_def ret_def)

lemma bind_ret_right: "bind m ret = m"
  by (auto simp: bind_def ret_def fun_eq_iff split: prod.splits sum.splits)

lemma bind_fail: "bind (fail e) f = fail e"
  by (simp add: bind_def fail_def fun_eq_iff)

lemma bind_if: "bind (if b then m else n) f = (if b then bind m f else bind n f)"
  by simp

lemma bind_option: "bind (case x of None \<Rightarrow> m | Some a \<Rightarrow> g a) f = (case x of None \<Rightarrow> bind m f | Some a \<Rightarrow> bind (g a) f)"
  by (cases x) simp_all

lemma bind_sum: "bind (case x of Inl e \<Rightarrow> g e | Inr a \<Rightarrow> h a) f = (case x of Inl e \<Rightarrow> bind (g e) f | Inr a \<Rightarrow> bind (h a) f)"
  by (cases x) simp_all

lemmas monad_laws = bind_assoc bind_ret bind_fail bind_if bind_option bind_sum

section \<open>Evaluation of successful runs\<close>

lemma ret_ok [io_simps]: "ret a w = (r, w') \<longleftrightarrow> r = Inr a \<and> w' = w"
  by (auto simp: ret_def)

lemma fail_ok [io_simps]: "fail e w = (r, w') \<longleftrightarrow> r = Inl e \<and> w' = w"
  by (auto simp: fail_def)

lemma from_res_ok [io_simps]: "from_res x w = (r, w') \<longleftrightarrow> r = x \<and> w' = w"
  by (auto simp: from_res_def)

lemma bind_ok [io_simps]:
  "bind m f w = (Inr b, w') \<longleftrightarrow> (\<exists>a w1. m w = (Inr a, w1) \<and> f a w1 = (Inr b, w'))"
  by (auto simp: bind_def split: prod.splits sum.splits)

lemma bind_err:
  "bind m f w = (Inl e, w') \<longleftrightarrow>
     m w = (Inl e, w') \<or> (\<exists>a w1. m w = (Inr a, w1) \<and> f a w1 = (Inl e, w'))"
  by (auto simp: bind_def split: prod.splits sum.splits)

lemma attempt_ok [io_simps]:
  "attempt m w = (r, w') \<longleftrightarrow> (\<exists>x. r = Inr x \<and> m w = (x, w'))"
  by (auto simp: attempt_def split: prod.splits)

lemma map_err_ok [io_simps]: "map_err g m w = (Inr a, w') \<longleftrightarrow> m w = (Inr a, w')"
  by (auto simp: map_err_def split: prod.splits sum.splits)

lemma map_err_err: "map_err g m w = (Inl e, w') \<longleftrightarrow> (\<exists>x. e = g x \<and> m w = (Inl x, w'))"
  by (auto simp: map_err_def split: prod.splits sum.splits)

lemma exec_ok [io_simps]:
  "exec E f w = (Inr a, w') \<longleftrightarrow>
     e_fault E (w_tick w) = None \<and>
     (\<exists>w1. f w = Inr (a, w1) \<and> w' = w1\<lparr>w_tick := Suc (w_tick w)\<rparr>)"
  by (auto simp: exec_def split: option.splits sum.splits)

lemma exec_err:
  "exec E f w = (Inl e, w') \<longleftrightarrow>
     w' = w\<lparr>w_tick := Suc (w_tick w)\<rparr> \<and>
     ((\<exists>p. e_fault E (w_tick w) = Some p \<and> e = DbErr p) \<or>
      (e_fault E (w_tick w) = None \<and> f w = Inl e))"
  by (auto simp: exec_def split: option.splits sum.splits)

lemma query_ok [io_simps]:
  "query E q w = (Inr a, w') \<longleftrightarrow>
     e_fault E (w_tick w) = None \<and> q (w_db w) = Inr a \<and> w' = w\<lparr>w_tick := Suc (w_tick w)\<rparr>"
  by (auto simp: query_def io_simps split: sum.splits)

lemma query_at_ok [io_simps]:
  "query_at E s q w = (Inr a, w') \<longleftrightarrow>
     e_fault E (w_tick w) = None \<and> q s = Inr a \<and> w' = w\<lparr>w_tick := Suc (w_tick w)\<rparr>"
  by (auto simp: query_at_def io_simps split: sum.splits)

lemma query_err:
  "query E q w = (Inl e, w') \<longleftrightarrow>
     w' = w\<lparr>w_tick := Suc (w_tick w)\<rparr> \<and>
     ((\<exists>p. e_fault E (w_tick w) = Some p \<and> e = DbErr p) \<or>
      (e_fault E (w_tick w) = None \<and> q (w_db w) = Inl e))"
  by (auto simp: query_def exec_err split: sum.splits)

text \<open>An early return that did not happen.\<close>

lemma guard_ok:
  "(if c then fail e else m) w = (Inr a, w') \<longleftrightarrow> \<not> c \<and> m w = (Inr a, w')"
  by (simp add: fail_def)

lemma begin_func_ok:
  "begin_func E body w = (Inr a, w') \<longleftrightarrow>
     (\<exists>w2. e_fault E (w_tick w) = None \<and>
        body (w_db w) (w\<lparr>w_tick := Suc (w_tick w)\<rparr>) = (Inr a, w2) \<and>
        e_fault E (w_tick w2) = None \<and> w' = w2\<lparr>w_tick := Suc (w_tick w2)\<rparr>)"
  by (auto simp: begin_func_def exec_def split: prod.splits sum.splits option.splits)

lemma for_each_append_ok [io_simps]:
  "for_each f (xs @ ys) w = (Inr (), w') \<longleftrightarrow>
     (\<exists>w1. for_each f xs w = (Inr (), w1) \<and> for_each f ys w1 = (Inr (), w'))"
  by (induction xs arbitrary: w) (auto simp: io_simps)

section \<open>Evaluation on a concrete state\<close>

text \<open>
  Definitions applied to a state, so that the simplifier runs an operation from its first
  statement on and does not look into continuations before they are reached.
\<close>

lemma bind_run [run_simps]:
  "bind m f w = (case m w of (Inl e, w1) \<Rightarrow> (Inl e, w1) | (Inr a, w1) \<Rightarrow> f a w1)"
  by (simp add: bind_def)

lemmas store_runs [run_simps] = fun_cong [OF ret_def] fun_cong [OF fail_def] fun_cong [OF attempt_def]
  fun_cong [OF exec_def] fun_cong [OF query_def] fun_cong [OF query_at_def] fun_cong [OF begin_func_def]
  fun_cong [OF map_err_def] fun_cong [OF from_res_def]
  fun_cong [OF for_each.simps(1)] fun_cong [OF for_each.simps(2)]
  fun_cong [OF collect.simps(1)] fun_cong [OF collect.simps(2)] Let_def

section \<open>Read-only operations and failures without effect\<close>

definition ro :: "'a io \<Rightarrow> bool" where
  "ro m \<longleftrightarrow> (\<forall>w r w'. m w = (r, w') \<longrightarrow> w_db w' = w_db w)"

definition atomic :: "'a io \<Rightarrow> bool" where
  "atomic m \<longleftrightarrow> (\<forall>w e w'. m w = (Inl e, w') \<longrightarrow> w_db w' = w_db w)"

lemma roD: "ro m \<Longrightarrow> m w = (r, w') \<Longrightarrow> w_db w' = w_db w"
  by (auto simp: ro_def)

lemma atomicD: "atomic m \<Longrightarrow> m w = (Inl e, w') \<Longrightarrow> w_db w' = w_db w"
  by (auto simp: atomic_def)

lemma ro_ret [ro_intros]: "ro (ret a)"
  and ro_fail [ro_intros]: "ro (fail e)"
  and ro_from_res [ro_intros]: "ro (from_res r)"
  by (auto simp: ro_def io_simps)

lemma ro_bind [ro_intros]: "ro m \<Longrightarrow> (\<And>a. ro (f a)) \<Longrightarrow> ro (bind m f)"
  unfolding ro_def bind_def by (fastforce split: prod.splits sum.splits)

lemma ro_attempt [ro_intros]: "ro m \<Longrightarrow> ro (attempt m)"
  by (fastforce simp: ro_def io_simps)

lemma ro_if [ro_intros]: "(c \<Longrightarrow> ro m) \<Longrightarrow> (\<not> c \<Longrightarrow> ro n) \<Longrightarrow> ro (if c then m else n)"
  by simp

lemma ro_option [ro_intros]:
  "(x = None \<Longrightarrow> ro m) \<Longrightarrow> (\<And>a. x = Some a \<Longrightarrow> ro (f a)) \<Longrightarrow> ro (case x of None \<Rightarrow> m | Some a \<Rightarrow> f a)"
  by (cases x) auto

lemma ro_sum [ro_intros]:
  "(\<And>e. x = Inl e \<Longrightarrow> ro (g e)) \<Longrightarrow> (\<And>a. x = Inr a \<Longrightarrow> ro (f a)) \<Longrightarrow>
     ro (case x of Inl e \<Rightarrow> g e | Inr a \<Rightarrow> f a)"
  by (cases x) auto

lemma ro_prod [ro_intros]: "(\<And>a b. ro (f a b)) \<Longrightarrow> ro (case p of (a, b) \<Rightarrow> f a b)"
  by (cases p) auto

lemma ro_query [ro_intros]: "ro (query E q)"
  by (auto simp: ro_def query_def exec_def split: option.splits sum.splits)

lemma ro_query_at [ro_intros]: "ro (query_at E s q)"
  by (auto simp: ro_def query_at_def exec_def split: option.splits sum.splits)

lemma ro_collect [ro_intros]: "(\<And>x. ro (f x)) \<Longrightarrow> ro (collect f xs)"
  by (induction xs) (auto intro!: ro_intros)

lemma ro_for_each [ro_intros]: "(\<And>x. ro (f x)) \<Longrightarrow> ro (for_each f xs)"
  by (induction xs) (auto intro!: ro_intros)

lemma ro_map_err [ro_intros]: "ro m \<Longrightarrow> ro (map_err g m)"
  unfolding ro_def map_err_def by (fastforce split: prod.splits sum.splits)

lemma atomic_ro [atomic_intros]: "ro m \<Longrightarrow> atomic m"
  by (auto simp: ro_def atomic_def)

lemma atomic_exec [atomic_intros]: "atomic (exec E f)"
  by (auto simp: atomic_def exec_err)

text \<open>Reads, then one atomic write: the shape of every service operation.\<close>

lemma atomic_bind_ro [atomic_intros]: "ro m \<Longrightarrow> (\<And>a. atomic (f a)) \<Longrightarrow> atomic (bind m f)"
  unfolding atomic_def bind_err by (metis roD)

lemma atomic_if [atomic_intros]:
  "(c \<Longrightarrow> atomic m) \<Longrightarrow> (\<not> c \<Longrightarrow> atomic n) \<Longrightarrow> atomic (if c then m else n)"
  by simp

lemma atomic_option [atomic_intros]:
  "(x = None \<Longrightarrow> atomic m) \<Longrightarrow> (\<And>a. x = Some a \<Longrightarrow> atomic (f a)) \<Longrightarrow>
     atomic (case x of None \<Rightarrow> m | Some a \<Rightarrow> f a)"
  by (cases x) auto

lemma atomic_sum [atomic_intros]:
  "(\<And>e. x = Inl e \<Longrightarrow> atomic (g e)) \<Longrightarrow> (\<And>a. x = Inr a \<Longrightarrow> atomic (f a)) \<Longrightarrow>
     atomic (case x of Inl e \<Rightarrow> g e | Inr a \<Rightarrow> f a)"
  by (cases x) auto

lemma atomic_prod [atomic_intros]: "(\<And>a b. atomic (f a b)) \<Longrightarrow> atomic (case p of (a, b) \<Rightarrow> f a b)"
  by (cases p) auto

lemma atomic_begin_func [atomic_intros]: "atomic (begin_func E body)"
  unfolding atomic_def begin_func_def exec_def
  by (auto split: prod.splits sum.splits option.splits)

lemma atomic_map_err [atomic_intros]: "atomic m \<Longrightarrow> atomic (map_err g m)"
  by (auto simp: atomic_def map_err_err)

lemma atomic_fail [atomic_intros]: "atomic (fail e)"
  by (auto simp: atomic_def io_simps)

text \<open>The rules for an operation that reads, checks and runs one transaction.\<close>

lemmas atomic_op = atomic_if atomic_bind_ro atomic_option atomic_prod atomic_sum atomic_map_err
  atomic_begin_func atomic_fail

text \<open>An atomic write followed by nothing that can fail.\<close>

lemma atomic_bind_ret [atomic_intros]: "atomic m \<Longrightarrow> atomic (bind m (\<lambda>a. ret (g a)))"
  by (auto simp: atomic_def bind_err io_simps)

section \<open>Preserved predicates\<close>

text \<open>
  \<open>keeps I m\<close>: a predicate on the database that holds before \<open>m\<close> holds after it, whatever
  the outcome. Inside a transaction only the successful outcome matters, because a failing body
  is rolled back: that is what \<open>hoare\<close> states.
\<close>

definition keeps :: "(db \<Rightarrow> bool) \<Rightarrow> 'a io \<Rightarrow> bool" where
  "keeps I m \<longleftrightarrow> (\<forall>w r w'. I (w_db w) \<longrightarrow> m w = (r, w') \<longrightarrow> I (w_db w'))"

definition hoare :: "(world \<Rightarrow> bool) \<Rightarrow> 'a io \<Rightarrow> ('a \<Rightarrow> world \<Rightarrow> bool) \<Rightarrow> bool" where
  "hoare P m Q \<longleftrightarrow> (\<forall>w a w'. P w \<longrightarrow> m w = (Inr a, w') \<longrightarrow> Q a w')"

lemma keepsD: "keeps I m \<Longrightarrow> I (w_db w) \<Longrightarrow> m w = (r, w') \<Longrightarrow> I (w_db w')"
  by (auto simp: keeps_def)

lemma hoareD: "hoare P m Q \<Longrightarrow> P w \<Longrightarrow> m w = (Inr a, w') \<Longrightarrow> Q a w'"
  by (auto simp: hoare_def)

lemma keeps_ro: "ro m \<Longrightarrow> keeps I m"
  by (auto simp: keeps_def dest: roD)

lemmas keeps_reads [keeps_intros] =
  ro_ret [THEN keeps_ro] ro_fail [THEN keeps_ro] ro_from_res [THEN keeps_ro]
  ro_query [THEN keeps_ro] ro_query_at [THEN keeps_ro]

lemma keeps_exec:
  "(\<And>w a w'. I (w_db w) \<Longrightarrow> f w = Inr (a, w') \<Longrightarrow> I (w_db w')) \<Longrightarrow> keeps I (exec E f)"
  by (auto simp: keeps_def exec_def split: option.splits sum.splits)

lemma keeps_bind [keeps_intros]:
  assumes "keeps I m" "\<And>a. keeps I (f a)"
  shows "keeps I (bind m f)"
  unfolding keeps_def
proof (intro allI impI)
  fix w r w'
  assume I: "I (w_db w)" and run: "bind m f w = (r, w')"
  obtain x w1 where 1: "m w = (x, w1)" by (cases "m w")
  note I1 = keepsD [OF assms(1) I 1]
  show "I (w_db w')"
    using run 1 I1 keepsD [OF assms(2) I1] by (cases x) (auto simp: bind_def)
qed

lemma keeps_attempt [keeps_intros]: "keeps I m \<Longrightarrow> keeps I (attempt m)"
  by (fastforce simp: keeps_def io_simps)

lemma keeps_map_err [keeps_intros]: "keeps I m \<Longrightarrow> keeps I (map_err g m)"
  unfolding keeps_def map_err_def by (auto split: prod.splits sum.splits)

lemma keeps_if [keeps_intros]:
  "(c \<Longrightarrow> keeps I m) \<Longrightarrow> (\<not> c \<Longrightarrow> keeps I n) \<Longrightarrow> keeps I (if c then m else n)"
  by simp

lemma keeps_option [keeps_intros]:
  "(x = None \<Longrightarrow> keeps I m) \<Longrightarrow> (\<And>a. x = Some a \<Longrightarrow> keeps I (f a)) \<Longrightarrow>
     keeps I (case x of None \<Rightarrow> m | Some a \<Rightarrow> f a)"
  by (cases x) auto

lemma keeps_sum [keeps_intros]:
  "(\<And>e. x = Inl e \<Longrightarrow> keeps I (g e)) \<Longrightarrow> (\<And>a. x = Inr a \<Longrightarrow> keeps I (f a)) \<Longrightarrow>
     keeps I (case x of Inl e \<Rightarrow> g e | Inr a \<Rightarrow> f a)"
  by (cases x) auto

lemma keeps_prod [keeps_intros]:
  "(\<And>a b. keeps I (f a b)) \<Longrightarrow> keeps I (case p of (a, b) \<Rightarrow> f a b)"
  by (cases p) auto

lemma keeps_for_each [keeps_intros]: "(\<And>x. keeps I (f x)) \<Longrightarrow> keeps I (for_each f xs)"
  by (induction xs) (auto intro!: keeps_intros)

lemma keeps_collect [keeps_intros]: "(\<And>x. keeps I (f x)) \<Longrightarrow> keeps I (collect f xs)"
  by (induction xs) (auto intro!: keeps_intros)

text \<open>A transaction keeps what its body establishes when it succeeds.\<close>

lemma keeps_begin_func:
  assumes "\<And>s. I s \<Longrightarrow> hoare (\<lambda>w. I (w_db w) \<and> w_db w = s) (body s) (\<lambda>_ w. I (w_db w))"
  shows "keeps I (begin_func E body)"
  unfolding keeps_def
proof (intro allI impI)
  fix w r w'
  assume I: "I (w_db w)" and run: "begin_func E body w = (r, w')"
  show "I (w_db w')"
  proof (cases r)
    case (Inl e)
    with run I show ?thesis using atomicD [OF atomic_begin_func] by metis
  next
    case (Inr a)
    with run obtain w2 where
      b: "body (w_db w) (w\<lparr>w_tick := Suc (w_tick w)\<rparr>) = (Inr a, w2)" and w': "w_db w' = w_db w2"
      by (auto simp: begin_func_ok)
    from hoareD [OF assms [OF I] _ b] I have "I (w_db w2)" by simp
    with w' show ?thesis by simp
  qed
qed

lemma keeps_of_ok:
  assumes "atomic m" "\<And>w a w'. I (w_db w) \<Longrightarrow> m w = (Inr a, w') \<Longrightarrow> I (w_db w')"
  shows "keeps I m"
  unfolding keeps_def
proof (intro allI impI)
  fix w r w'
  assume "I (w_db w)" "m w = (r, w')"
  then show "I (w_db w')"
    using assms(2) atomicD [OF assms(1)] by (cases r) auto
qed

lemmas keeps_op = keeps_bind keeps_if keeps_option keeps_sum keeps_prod keeps_map_err
  keeps_for_each keeps_attempt keeps_reads

lemma keeps_hoare: "keeps I m \<Longrightarrow> hoare (\<lambda>w. I (w_db w)) m (\<lambda>_ w. I (w_db w))"
  by (auto simp: keeps_def hoare_def)

lemma keeps_tx [keeps_intros]: "(\<And>s. keeps I (body s)) \<Longrightarrow> keeps I (begin_func E body)"
  by (rule keeps_begin_func) (auto simp: hoare_def dest: keepsD)

lemma hoare_bind [hoare_intros]:
  "hoare P m R \<Longrightarrow> (\<And>a. hoare (R a) (f a) Q) \<Longrightarrow> hoare P (bind m f) Q"
  unfolding hoare_def by (auto simp: io_simps)

lemma hoare_for_each:
  assumes "\<And>x xs. hoare (P (x # xs)) (f x) (\<lambda>_. P xs)"
  shows "hoare (P xs) (for_each f xs) (\<lambda>_. P [])"
  by (induction xs) (use assms in \<open>auto simp: hoare_def io_simps, blast\<close>)

section \<open>Which errors an operation fails with\<close>

definition raises :: "(err \<Rightarrow> bool) \<Rightarrow> 'a io \<Rightarrow> bool" where
  "raises P m \<longleftrightarrow> (\<forall>w e w'. m w = (Inl e, w') \<longrightarrow> P e)"

lemma raisesD: "raises P m \<Longrightarrow> m w = (Inl e, w') \<Longrightarrow> P e"
  by (auto simp: raises_def)

lemma raises_basic [raises_intros]:
  "raises P (ret a)" "P e \<Longrightarrow> raises P (fail e)" "raises P (attempt m)"
  "(\<And>e. r = Inl e \<Longrightarrow> P e) \<Longrightarrow> raises P (from_res r)"
  by (auto simp: raises_def ret_def fail_def from_res_def attempt_def split: prod.splits)

lemma raises_bind [raises_intros]: "raises P m \<Longrightarrow> (\<And>a. raises P (f a)) \<Longrightarrow> raises P (bind m f)"
  unfolding raises_def bind_err by metis

lemma raises_attempt:
  assumes "raises P m" "\<And>e. P e \<Longrightarrow> raises P (f (Inl e))" "\<And>a. raises P (f (Inr a))"
  shows "raises P (bind (attempt m) f)"
  unfolding raises_def
proof (intro allI impI)
  fix w e w'
  assume run: "bind (attempt m) f w = (Inl e, w')"
  obtain r w1 where r: "m w = (r, w1)" by fastforce
  with run have f: "f r w1 = (Inl e, w')" by (simp add: bind_def attempt_def)
  show "P e"
  proof (cases r)
    case (Inl x)
    with r assms(1) have "P x" by (auto simp: raises_def)
    with f Inl assms(2) show ?thesis by (auto simp: raises_def)
  next
    case (Inr a)
    with f assms(3) show ?thesis by (auto simp: raises_def)
  qed
qed

lemma raises_split [raises_intros]:
  "(c \<Longrightarrow> raises P m) \<Longrightarrow> (\<not> c \<Longrightarrow> raises P n) \<Longrightarrow> raises P (if c then m else n)"
  "(x = None \<Longrightarrow> raises P m) \<Longrightarrow> (\<And>a. x = Some a \<Longrightarrow> raises P (g a)) \<Longrightarrow> raises P (case x of None \<Rightarrow> m | Some a \<Rightarrow> g a)"
  "(\<And>a. y = Inl a \<Longrightarrow> raises P (h a)) \<Longrightarrow> (\<And>b. y = Inr b \<Longrightarrow> raises P (k b)) \<Longrightarrow>
     raises P (case y of Inl a \<Rightarrow> h a | Inr b \<Rightarrow> k b)"
  "(\<And>a b. raises P (l a b)) \<Longrightarrow> raises P (case q of (a, b) \<Rightarrow> l a b)"
  by (cases x; cases y; cases q; simp)+

lemma raises_exec [raises_intros]:
  "(\<And>p. P (DbErr p)) \<Longrightarrow> (\<And>w e. f w = Inl e \<Longrightarrow> P e) \<Longrightarrow> raises P (exec E f)"
  "(\<And>p. P (DbErr p)) \<Longrightarrow> (\<And>d e. q d = Inl e \<Longrightarrow> P e) \<Longrightarrow> raises P (query E q)"
  by (auto simp: raises_def exec_err query_err)

lemma raises_loops [raises_intros]:
  "(\<And>x. raises P (f x)) \<Longrightarrow> raises P (for_each f xs)" "(\<And>x. raises P (g x)) \<Longrightarrow> raises P (collect g ys)"
  by (induction xs) (auto intro!: raises_intros, induction ys, auto intro!: raises_intros)

lemma raises_begin_func [raises_intros]:
  "(\<And>p. P (DbErr p)) \<Longrightarrow> (\<And>s. raises P (body s)) \<Longrightarrow> raises P (begin_func E body)"
  unfolding raises_def begin_func_def exec_def
  by (auto split: prod.splits sum.splits option.splits) metis

section \<open>Contracts shared by the repositories\<close>

text \<open>
  An append-only table (\<open>order_state_event\<close>, \<open>audit_event\<close>, \<open>outbox_event\<close>): a
  successful append adds one row, at the end, that records the given entry.
\<close>

locale append_log =
  fixes append :: "'e \<Rightarrow> unit io"
    and log :: "db \<Rightarrow> 'r list"
    and records :: "'r \<Rightarrow> 'e \<Rightarrow> bool"
  assumes append_row: "append e w = (Inr (), w') \<Longrightarrow>
      \<exists>r. log (w_db w') = log (w_db w) @ [r] \<and> records r e"
begin

lemma append_grows:
  "append e w = (Inr (), w') \<Longrightarrow> length (log (w_db w')) = Suc (length (log (w_db w)))"
  using append_row by fastforce

lemma append_last:
  "append e w = (Inr (), w') \<Longrightarrow> log (w_db w') \<noteq> [] \<and> records (last (log (w_db w'))) e"
  using append_row by fastforce

lemma append_keeps_rows:
  "append e w = (Inr (), w') \<Longrightarrow> take (length (log (w_db w))) (log (w_db w')) = log (w_db w)"
  using append_row by fastforce

lemma append_all:
  "for_each append es w = (Inr (), w') \<Longrightarrow>
     \<exists>rs. log (w_db w') = log (w_db w) @ rs \<and> list_all2 records rs es"
proof (induction es arbitrary: w)
  case Nil
  then show ?case by (auto simp: io_simps)
next
  case (Cons e es)
  then obtain w1 where 1: "append e w = (Inr (), w1)" and 2: "for_each append es w1 = (Inr (), w')"
    by (auto simp: io_simps)
  from append_row [OF 1] obtain r where r: "log (w_db w1) = log (w_db w) @ [r]" "records r e" by blast
  from Cons.IH [OF 2] obtain rs where "log (w_db w') = log (w_db w1) @ rs" "list_all2 records rs es"
    by blast
  with r show ?case by (auto intro: exI [of _ "r # rs"])
qed

end

text \<open>
  A conditional status update (\<open>UPDATE ... SET status = to WHERE id = k AND status IN from\<close>
  and a sentinel error when no row was affected).
\<close>

locale guarded_update =
  fixes upd :: "'k \<Rightarrow> unit io"
    and status :: "db \<Rightarrow> 'k \<Rightarrow> 's option"
    and inv :: "db \<Rightarrow> bool"
    and from_ok :: "'s \<Rightarrow> bool"
    and to_st :: 's
    and lost :: err
  assumes upd_from: "inv (w_db w) \<Longrightarrow> upd k w = (Inr (), w') \<Longrightarrow>
      \<exists>s. status (w_db w) k = Some s \<and> from_ok s"
    and upd_to: "inv (w_db w) \<Longrightarrow> upd k w = (Inr (), w') \<Longrightarrow> status (w_db w') k = Some to_st"
    and upd_other: "inv (w_db w) \<Longrightarrow> upd k w = (Inr (), w') \<Longrightarrow> k' \<noteq> k \<Longrightarrow>
      status (w_db w') k' = status (w_db w) k'"
    and upd_inv: "inv (w_db w) \<Longrightarrow> upd k w = (Inr (), w') \<Longrightarrow> inv (w_db w')"
    and upd_lost: "upd k w = (Inl e, w') \<Longrightarrow> e = lost \<or> (\<exists>p. e = DbErr p)"
    and to_not_from: "\<not> from_ok to_st"
begin

lemma upd_status:
  "inv (w_db w) \<Longrightarrow> upd k w = (Inr (), w') \<Longrightarrow> status (w_db w') = (status (w_db w))(k \<mapsto> to_st)"
  using upd_to upd_other by fastforce

text \<open>One winner: once the update has gone through, it cannot go through again.\<close>

lemma one_winner:
  assumes "inv (w_db w)" "upd k w = (Inr (), w1)"
    and "inv (w_db w2)" "status (w_db w2) k = status (w_db w1) k"
  shows "upd k w2 \<noteq> (Inr (), w3)"
proof
  assume "upd k w2 = (Inr (), w3)"
  with upd_from [OF assms(3)] obtain s where "status (w_db w2) k = Some s" "from_ok s" by blast
  with upd_to [OF assms(1,2)] assms(4) to_not_from show False by simp
qed

text \<open>A batch of updates that goes through names every row once, each in a source status.\<close>

lemma batch:
  assumes "inv (w_db w)" "for_each upd ks w = (Inr (), w')"
  shows "distinct ks
    \<and> (\<forall>k\<in>set ks. \<exists>s. status (w_db w) k = Some s \<and> from_ok s)
    \<and> (\<forall>k. status (w_db w') k = (if k \<in> set ks then Some to_st else status (w_db w) k))
    \<and> inv (w_db w')"
  using assms
proof (induction ks arbitrary: w)
  case Nil
  then show ?case by (auto simp: io_simps)
next
  case (Cons k ks)
  then obtain w1 where 1: "upd k w = (Inr (), w1)" and 2: "for_each upd ks w1 = (Inr (), w')"
    by (auto simp: io_simps)
  note inv1 = upd_inv [OF Cons.prems(1) 1]
  note IH = Cons.IH [OF inv1 2]
  have "k \<notin> set ks"
    using IH upd_to [OF Cons.prems(1) 1] to_not_from by auto
  then show ?case
    using IH upd_from [OF Cons.prems(1) 1] upd_to [OF Cons.prems(1) 1] upd_other [OF Cons.prems(1) 1]
    by auto metis
qed

end

end
