(* ===== verification/Catalog.thy ===== *)
theory Catalog
  imports Store
begin

text \<open>
  The catalogue reads every other component depends on: \<open>menu/postgres/item_repo.go\<close>
  (\<open>GetByID\<close>), \<open>vendors/postgres/vendor_repo.go\<close> (\<open>GetByID\<close>) and
  \<open>vendors/postgres/plant_mapping_repo.go\<close> (\<open>ListByVendor\<close>). All of them are read-only.
\<close>

definition item_get_by_id :: "env \<Rightarrow> uuid \<Rightarrow> menu_item io" where
  "item_get_by_id E i = query E (\<lambda>d.
     case by_key m_id i (menu_items d) of
       None \<Rightarrow> Inl (MenuErr ErrItemNotFound)
     | Some m \<Rightarrow> Inr m)"

definition vendor_get_by_id :: "env \<Rightarrow> uuid \<Rightarrow> vendor io" where
  "vendor_get_by_id E i = query E (\<lambda>d.
     case by_key v_id i (vendors d) of
       None \<Rightarrow> Inl (VendorErr ErrVendorNotFound)
     | Some v \<Rightarrow> Inr v)"

definition plants_list_by_vendor :: "env \<Rightarrow> uuid \<Rightarrow> plant_mapping list io" where
  "plants_list_by_vendor E vid = query E (\<lambda>d.
     Inr (sort_key pm_plant (filter (\<lambda>p. pm_vendor p = vid \<and> pm_active p) (plant_mappings d))))"

lemma ro_catalog [ro_intros]:
  "ro (item_get_by_id E i)" "ro (vendor_get_by_id E i)" "ro (plants_list_by_vendor E i)"
  by (auto simp: item_get_by_id_def vendor_get_by_id_def plants_list_by_vendor_def intro: ro_intros)

lemmas catalog_runs [run_simps] = fun_cong [OF item_get_by_id_def] fun_cong [OF vendor_get_by_id_def] fun_cong [OF
  plants_list_by_vendor_def]

lemma item_get_ok:
  "item_get_by_id E i w = (Inr m, w') \<Longrightarrow> by_key m_id i (menu_items (w_db w)) = Some m \<and> w_db w' = w_db w"
  by (auto simp: item_get_by_id_def io_simps split: option.splits)

lemma vendor_get_ok:
  "vendor_get_by_id E i w = (Inr v, w') \<Longrightarrow> by_key v_id i (vendors (w_db w)) = Some v \<and> w_db w' = w_db w"
  by (auto simp: vendor_get_by_id_def io_simps split: option.splits)

lemma plants_list_ok:
  "plants_list_by_vendor E i w = (Inr ps, w') \<Longrightarrow>
     set ps = {p \<in> set (plant_mappings (w_db w)). pm_vendor p = i \<and> pm_active p} \<and> w_db w' = w_db w"
  by (auto simp: plants_list_by_vendor_def io_simps)

end
