(* ===== verification/Text.thy ===== *)
theory Text
  imports Prelude
begin

text \<open>
  What the code uses of Go's \<open>strings\<close> package, on the bytes of a string: the encodings of the
  white space runes (\<open>unicode.IsSpace\<close>), \<open>strings.TrimSpace\<close>, \<open>strings.ToLower\<close> on ASCII
  letters, \<open>strings.Split\<close> at a byte and \<open>path.Base\<close>.
\<close>

section \<open>White space\<close>

definition bytes :: "nat list \<Rightarrow> string" where
  "bytes ns = map char_of ns"

definition space_runes :: "string list" where
  "space_runes = map bytes ([[9], [10], [11], [12], [13], [32], [0xC2, 0x85], [0xC2, 0xA0], [0xE1, 0x9A, 0x80]]
     @ map (\<lambda>k. [0xE2, 0x80, k]) ([0x80..<0x8B] @ [0xA8, 0xA9, 0xAF]) @ [[0xE2, 0x81, 0x9F], [0xE3, 0x80, 0x80]])"

definition leading :: "string list \<Rightarrow> string \<Rightarrow> string option" where
  "leading runes s = find (\<lambda>r. r \<noteq> [] \<and> take (length r) s = r) runes"

definition starts_space :: "string \<Rightarrow> bool" where
  "starts_space s \<longleftrightarrow> leading space_runes s \<noteq> None"

lemma leading_SomeD: "leading runes s = Some r \<Longrightarrow> r \<noteq> [] \<and> s = r @ drop (length r) s"
  unfolding leading_def by (auto simp: find_Some_iff) (metis append_take_drop_id)

function trim_left :: "string list \<Rightarrow> string \<Rightarrow> string" where
  "trim_left runes s = (case leading runes s of None \<Rightarrow> s | Some r \<Rightarrow> trim_left runes (drop (length r) s))"
  by pat_completeness auto
termination
proof (relation "measure (\<lambda>(runes, s). length s)")
  fix runes s r
  assume "leading runes s = Some r"
  from leading_SomeD [OF this] have "r \<noteq> []" "s = r @ drop (length r) s" by blast+
  then have "0 < length r" "length r \<le> length s" by (simp, metis length_append le_add1)
  then have "length s - length r < length s" by linarith
  then show "((runes, drop (length r) s), runes, s) \<in> measure (\<lambda>(runes, s). length s)" by simp
qed simp

declare trim_left.simps [simp del]

definition trim_space :: "string \<Rightarrow> string" where
  "trim_space s = rev (trim_left (map rev space_runes) (rev (trim_left space_runes s)))"

lemma trim_left_fixed: "leading runes (trim_left runes s) = None"
proof (induction runes s rule: trim_left.induct)
  case (1 runes s)
  then show ?case by (subst trim_left.simps) (auto split: option.splits simp: trim_left.simps [of runes s])
qed

lemma trim_left_length: "length (trim_left runes s) \<le> length s"
proof (induction runes s rule: trim_left.induct)
  case (1 runes s)
  show ?case
  proof (cases "leading runes s")
    case None
    then show ?thesis by (subst trim_left.simps) simp
  next
    case (Some r)
    with 1 [OF Some] show ?thesis by (subst trim_left.simps) simp
  qed
qed

lemma trim_space_length: "length (trim_space s) \<le> length s"
  unfolding trim_space_def using trim_left_length le_trans by (metis length_rev)

text \<open>A text that begins and ends with a printable ASCII character other than a space is not trimmed.\<close>

definition plain :: "char \<Rightarrow> bool" where
  "plain c \<longleftrightarrow> 33 \<le> (of_char c :: nat) \<and> (of_char c :: nat) \<le> 126"

lemma space_runes_plain: "\<forall>r\<in>set space_runes. r \<noteq> [] \<and> \<not> plain (hd r) \<and> \<not> plain (last r)"
  by (simp add: space_runes_def bytes_def plain_def upt_rec)

lemma leading_plain:
  assumes "s \<noteq> []" "plain (hd s)" "\<forall>r\<in>set runes. r \<noteq> [] \<longrightarrow> \<not> plain (hd r)"
  shows "leading runes s = None"
proof (rule ccontr)
  assume "leading runes s \<noteq> None"
  then obtain r where r: "leading runes s = Some r" by auto
  from leading_SomeD [OF r] have "r \<noteq> []" "hd s = hd r" by (auto simp: hd_append) (metis hd_append)
  moreover from r have "r \<in> set runes" by (auto simp: leading_def find_Some_iff)
  ultimately show False using assms by metis
qed

lemma trim_space_plain:
  assumes "s \<noteq> [] \<Longrightarrow> plain (hd s) \<and> plain (last s)"
  shows "trim_space s = s"
proof (cases "s = []")
  case True
  then show ?thesis using trim_space_length [of s] by simp
next
  case False
  have "leading space_runes s = None"
    using False assms space_runes_plain by (intro leading_plain) auto
  moreover have "leading (map rev space_runes) (rev s) = None"
    using False assms space_runes_plain by (intro leading_plain) (auto simp: hd_rev)
  ultimately show ?thesis by (simp add: trim_space_def trim_left.simps)
qed

section \<open>Case and splitting\<close>

definition lower_char :: "char \<Rightarrow> char" where
  "lower_char c = (let n = (of_char c :: nat) in if 65 \<le> n \<and> n \<le> 90 then char_of (n + 32) else c)"

definition to_lower :: "string \<Rightarrow> string" where
  "to_lower s = map lower_char s"

fun split_at :: "char \<Rightarrow> string \<Rightarrow> string list" where
  "split_at sep [] = [[]]"
| "split_at sep (c # cs) = (if c = sep then [] # split_at sep cs
     else case split_at sep cs of [] \<Rightarrow> [[c]] | p # ps \<Rightarrow> (c # p) # ps)"

text \<open>
  \<open>path.Base\<close>: trailing slashes are dropped, then everything up to the last slash; the empty
  path is \<open>.\<close> and a path of slashes only is \<open>/\<close>.
\<close>

definition path_base :: "string \<Rightarrow> string" where
  "path_base s = (if s = [] then ''.'' else
     let t = rev (dropWhile (\<lambda>c. c = CHR ''/'') (rev s)) in
     let b = rev (takeWhile (\<lambda>c. c \<noteq> CHR ''/'') (rev t)) in
     if b = [] then ''/'' else b)"

lemma path_base_no_slash: "path_base s \<noteq> ''/'' \<Longrightarrow> CHR ''/'' \<notin> set (path_base s)"
  by (auto simp: path_base_def Let_def dest: set_takeWhileD split: if_splits)

lemma split_at_not_Nil [simp]: "split_at sep s \<noteq> []"
  by (induction s) (auto split: list.splits)


text \<open>\<open>strings.Contains\<close>.\<close>

fun contains_text :: "string \<Rightarrow> string \<Rightarrow> bool" where
  "contains_text sub [] \<longleftrightarrow> sub = []"
| "contains_text sub (c # cs) \<longleftrightarrow> take (length sub) (c # cs) = sub \<or> contains_text sub cs"

text \<open>\<open>strings.Join\<close>.\<close>

fun join_text :: "string \<Rightarrow> string list \<Rightarrow> string" where
  "join_text sep [] = []"
| "join_text sep [s] = s"
| "join_text sep (s # t # ts) = s @ sep @ join_text sep (t # ts)"

text \<open>\<open>strings.CutPrefix\<close>.\<close>

definition cut_prefix :: "string \<Rightarrow> string \<Rightarrow> string option" where
  "cut_prefix pre s = (if take (length pre) s = pre then Some (drop (length pre) s) else None)"

lemma cut_prefix_Some: "cut_prefix pre s = Some t \<longleftrightarrow> s = pre @ t"
  by (auto simp: cut_prefix_def) (metis append_take_drop_id)

text \<open>\<open>url.QueryEscape\<close>: letters, digits and \<open>-_.~\<close> stay, a space is a plus sign, every other byte is a percent code.\<close>

definition hex_digit :: "nat \<Rightarrow> char" where
  "hex_digit n = ''0123456789ABCDEF'' ! n"

definition unreserved :: "char \<Rightarrow> bool" where
  "unreserved c \<longleftrightarrow> c \<in> set ''ABCDEFGHIJKLMNOPQRSTUVWXYZabcdefghijklmnopqrstuvwxyz0123456789-_.~''"

definition escape_char :: "char \<Rightarrow> string" where
  "escape_char c = (if unreserved c then [c] else if c = CHR '' '' then ''+''
     else let n = (of_char c :: nat) in [CHR ''%'', hex_digit (n div 16), hex_digit (n mod 16)])"

definition query_escape :: "string \<Rightarrow> string" where
  "query_escape s = concat (map escape_char s)"

end
