(* ===== verification/Sessions.thy ===== *)
theory Sessions
  imports Store Text
begin

text \<open>
  What the program keeps in Redis: the commands it sends, the session store of
  \<open>identity/redis/session_store.go\<close> and the OIDC state store of \<open>identity/oidc/state_store.go\<close>.
  A command is a statement of the environment like any other and may fail; an entry past its
  expiry is absent. Random texts are drawn from the environment at the position of the call.
\<close>

section \<open>Commands\<close>

definition cache_at :: "time \<Rightarrow> cache \<Rightarrow> string \<Rightarrow> cache_value option" where
  "cache_at now c k = (case map_of c k of
     None \<Rightarrow> None
   | Some (v, until) \<Rightarrow> (case until of None \<Rightarrow> Some v | Some t \<Rightarrow> if t \<le> now then None else Some v))"

definition expiry :: "time \<Rightarrow> time \<Rightarrow> time option" where
  "expiry now ttl = (if ttl \<le> 0 then None else Some (now + ttl))"

definition drop_keys :: "string list \<Rightarrow> cache \<Rightarrow> cache" where
  "drop_keys ks c = filter (\<lambda>(k, _). k \<notin> set ks) c"

definition cache_get :: "env \<Rightarrow> string \<Rightarrow> cache_value option io" where
  "cache_get E k = exec E (\<lambda>w. Inr (cache_at (e_now E) (w_cache w) k, w))"

definition cache_set :: "env \<Rightarrow> string \<Rightarrow> cache_value \<Rightarrow> time \<Rightarrow> unit io" where
  "cache_set E k v ttl = exec E (\<lambda>w. Inr ((), w\<lparr>w_cache := AList.update k (v, expiry (e_now E) ttl) (w_cache w)\<rparr>))"

definition cache_del :: "env \<Rightarrow> string list \<Rightarrow> unit io" where
  "cache_del E ks = exec E (\<lambda>w. Inr ((), w\<lparr>w_cache := drop_keys ks (w_cache w)\<rparr>))"

definition token_set :: "cache_value option \<Rightarrow> string list" where
  "token_set v = (case v of Some (CTokens ts) \<Rightarrow> ts | _ \<Rightarrow> [])"

definition cache_sadd :: "env \<Rightarrow> string \<Rightarrow> string \<Rightarrow> unit io" where
  "cache_sadd E k m = exec E (\<lambda>w. let ts = token_set (cache_at (e_now E) (w_cache w) k) in
     Inr ((), w\<lparr>w_cache := AList.update k (CTokens (List.insert m ts), None) (w_cache w)\<rparr>))"

definition cache_smembers :: "env \<Rightarrow> string \<Rightarrow> string list io" where
  "cache_smembers E k = exec E (\<lambda>w. Inr (token_set (cache_at (e_now E) (w_cache w) k), w))"

definition cache_getdel :: "env \<Rightarrow> string \<Rightarrow> cache_value option io" where
  "cache_getdel E k = exec E (\<lambda>w. Inr (cache_at (e_now E) (w_cache w) k,
     w\<lparr>w_cache := drop_keys [k] (w_cache w)\<rparr>))"

definition decode_failure :: err where "decode_failure = DbErr IoErr"

section \<open>Sessions\<close>

definition session_key :: "string \<Rightarrow> string" where "session_key token = ''sess:'' @ token"
definition user_key :: "uuid \<Rightarrow> string" where "user_key user = ''sess-user:'' @ user"
definition handoff_key :: "string \<Rightarrow> string" where "handoff_key code = ''handoff:'' @ code"

record session =
  ss_token :: string
  ss_user :: uuid
  ss_role :: user_role
  ss_created_at :: time
  ss_seen_at :: time

definition session_of :: "string \<Rightarrow> session_doc \<Rightarrow> session" where
  "session_of token d = \<lparr>ss_token = token, ss_user = sd_user d, ss_role = sd_role d,
     ss_created_at = sd_created_at d, ss_seen_at = sd_seen_at d\<rparr>"

definition new_token :: "env \<Rightarrow> world \<Rightarrow> string" where
  "new_token E w = ''tb_'' @ e_uuid E (w_tick w)"

definition session_create :: "env \<Rightarrow> time \<Rightarrow> uuid \<Rightarrow> user_role \<Rightarrow> session io" where
  "session_create E ttl user role = (\<lambda>w.
     let token = new_token E w;
         doc = \<lparr>sd_user = user, sd_role = role, sd_created_at = e_now E, sd_seen_at = e_now E\<rparr> in
     bind (cache_set E (session_key token) (CSession doc) ttl) (\<lambda>_.
     bind (cache_sadd E (user_key user) token) (\<lambda>_.
     ret (session_of token doc))) w)"

definition session_read :: "env \<Rightarrow> string \<Rightarrow> session_doc io" where
  "session_read E token = bind (cache_get E (session_key token)) (\<lambda>v. case v of
       None \<Rightarrow> fail (IdentityErr ErrSessionNotFound)
     | Some (CSession d) \<Rightarrow> ret d
     | Some _ \<Rightarrow> fail decode_failure)"

definition session_get :: "env \<Rightarrow> string \<Rightarrow> session io" where
  "session_get E token = bind (session_read E token) (\<lambda>d. ret (session_of token d))"

text \<open>A touch is a read and a write; other commands may run in between.\<close>

definition session_touch_write :: "env \<Rightarrow> time \<Rightarrow> string \<Rightarrow> session_doc \<Rightarrow> unit io" where
  "session_touch_write E ttl token d = cache_set E (session_key token) (CSession (d\<lparr>sd_seen_at := e_now E\<rparr>)) ttl"

definition session_touch :: "env \<Rightarrow> time \<Rightarrow> string \<Rightarrow> unit io" where
  "session_touch E ttl token = bind (session_read E token) (session_touch_write E ttl token)"

definition session_revoke :: "env \<Rightarrow> string \<Rightarrow> unit io" where
  "session_revoke E token = cache_del E [session_key token]"

definition session_revoke_all :: "env \<Rightarrow> uuid \<Rightarrow> unit io" where
  "session_revoke_all E user = bind (cache_smembers E (user_key user)) (\<lambda>tokens.
     if tokens = [] then ret ()
     else bind (cache_del E (map session_key tokens)) (\<lambda>_. cache_del E [user_key user]))"

definition issue_code :: "env \<Rightarrow> string \<Rightarrow> string io" where
  "issue_code E token = (\<lambda>w. let code = e_uuid E (w_tick w) in
     bind (cache_set E (handoff_key code) (CToken token) (120 * sec_ns)) (\<lambda>_. ret code) w)"

definition redeem_code :: "env \<Rightarrow> string \<Rightarrow> string io" where
  "redeem_code E code = bind (cache_getdel E (handoff_key code)) (\<lambda>v. case v of
       None \<Rightarrow> fail (IdentityErr ErrHandoffNotFound)
     | Some (CToken t) \<Rightarrow> ret t
     | Some _ \<Rightarrow> fail decode_failure)"

section \<open>OIDC states\<close>

definition state_key :: "string \<Rightarrow> string" where "state_key st = ''oidc:'' @ st"
definition consumed_key :: "string \<Rightarrow> string" where "consumed_key st = ''oidc-consumed:'' @ st"

definition state_put :: "env \<Rightarrow> time \<Rightarrow> string \<Rightarrow> state_payload \<Rightarrow> unit io" where
  "state_put E ttl st p = cache_set E (state_key st) (CState p) ttl"

text \<open>The result is the payload, or the payload of a state that was used before.\<close>

definition state_get :: "env \<Rightarrow> string \<Rightarrow> (state_payload + state_payload) io" where
  "state_get E st = bind (cache_get E (state_key st)) (\<lambda>v. case v of
       None \<Rightarrow> bind (cache_get E (consumed_key st)) (\<lambda>c. case c of
           None \<Rightarrow> fail (IdentityErr ErrStateNotFound)
         | Some (CState p) \<Rightarrow> ret (Inl p)
         | Some _ \<Rightarrow> fail decode_failure)
     | Some (CState p) \<Rightarrow> ret (Inr p)
     | Some _ \<Rightarrow> fail decode_failure)"

text \<open>The transaction pipeline is one round trip.\<close>

definition state_consume :: "env \<Rightarrow> time \<Rightarrow> string \<Rightarrow> unit io" where
  "state_consume E ttl st = bind (cache_get E (state_key st)) (\<lambda>v. case v of
       None \<Rightarrow> ret ()
     | Some raw \<Rightarrow> exec E (\<lambda>w. Inr ((), w\<lparr>w_cache := drop_keys [state_key st]
         (AList.update (consumed_key st) (raw, expiry (e_now E) ttl) (w_cache w))\<rparr>)))"

lemmas cache_runs [run_simps] = fun_cong [OF cache_get_def] fun_cong [OF cache_set_def] fun_cong [OF cache_del_def]
  fun_cong [OF cache_sadd_def] fun_cong [OF cache_smembers_def] fun_cong [OF cache_getdel_def]
  fun_cong [OF session_create_def] fun_cong [OF session_read_def] fun_cong [OF session_get_def]
  fun_cong [OF session_touch_write_def] fun_cong [OF session_touch_def] fun_cong [OF session_revoke_def]
  fun_cong [OF session_revoke_all_def] fun_cong [OF issue_code_def] fun_cong [OF redeem_code_def]
  fun_cong [OF state_put_def] fun_cong [OF state_get_def] fun_cong [OF state_consume_def]
  new_token_def session_key_def user_key_def handoff_key_def state_key_def consumed_key_def session_of_def
  cache_at_def drop_keys_def expiry_def token_set_def

section \<open>The database is out of reach\<close>

lemma ro_cache_commands [ro_intros]:
  "ro (cache_get E k)" "ro (cache_set E k v ttl)" "ro (cache_del E ks)" "ro (cache_sadd E k m)"
  "ro (cache_smembers E k)" "ro (cache_getdel E k)"
  by (auto simp: ro_def cache_get_def cache_set_def cache_del_def cache_sadd_def cache_smembers_def
      cache_getdel_def exec_def Let_def split: option.splits)

lemma ro_value [ro_intros]:
  "(v = None \<Longrightarrow> ro m) \<Longrightarrow> (\<And>d. v = Some (CSession d) \<Longrightarrow> ro (f d)) \<Longrightarrow> (\<And>ts. v = Some (CTokens ts) \<Longrightarrow> ro (g ts))
    \<Longrightarrow> (\<And>t. v = Some (CToken t) \<Longrightarrow> ro (h t)) \<Longrightarrow> (\<And>p. v = Some (CState p) \<Longrightarrow> ro (k p)) \<Longrightarrow>
   ro (case v of None \<Rightarrow> m | Some x \<Rightarrow> (case x of CSession d \<Rightarrow> f d | CTokens ts \<Rightarrow> g ts | CToken t \<Rightarrow> h t | CState p \<Rightarrow> k p))"
  by (auto split: option.splits cache_value.splits)

lemma ro_app: "(\<And>w. ro (m w)) \<Longrightarrow> ro (\<lambda>w. m w w)"
  unfolding ro_def by blast

lemma ro_exec_cache: "ro (exec E (\<lambda>w. Inr ((), w\<lparr>w_cache := f (w_cache w)\<rparr>)))"
  by (auto simp: ro_def exec_def split: option.splits)

lemma ro_sessions [ro_intros]:
  "ro (session_create E ttl u r)" "ro (session_read E t)" "ro (session_get E t)" "ro (session_touch E ttl t)"
  "ro (session_revoke E t)" "ro (session_revoke_all E u)" "ro (issue_code E t)" "ro (redeem_code E c)"
  "ro (state_put E ttl s p)" "ro (state_get E s)" "ro (state_consume E ttl s)"
proof -
  show r: "ro (session_read E t)" unfolding session_read_def by (intro ro_intros)
  show "ro (session_create E ttl u r)" unfolding session_create_def Let_def by (rule ro_app) (intro ro_intros)
  show "ro (session_get E t)" unfolding session_get_def by (intro ro_intros r)
  show "ro (session_touch E ttl t)" unfolding session_touch_def session_touch_write_def by (intro ro_intros r)
  show "ro (session_revoke E t)" "ro (session_revoke_all E u)" "ro (redeem_code E c)" "ro (state_put E ttl s p)"
    unfolding session_revoke_def session_revoke_all_def redeem_code_def state_put_def by (intro ro_intros)+
  show "ro (issue_code E t)" unfolding issue_code_def Let_def by (rule ro_app) (intro ro_intros)
  show "ro (state_get E s)" unfolding state_get_def by (intro ro_intros)
  show "ro (state_consume E ttl s)" unfolding state_consume_def
    by (rule ro_bind [OF ro_cache_commands(1)]) (auto intro: ro_exec_cache ro_ret split: option.splits)
qed

section \<open>What the commands do\<close>

lemma cache_at_update: "cache_at now (AList.update k (v, e) c) k' = (if k' = k
    then (case e of None \<Rightarrow> Some v | Some t \<Rightarrow> if t \<le> now then None else Some v) else cache_at now c k')"
  by (simp add: cache_at_def update_conv)

lemma map_of_drop [simp]: "map_of (drop_keys ks c) k = (if k \<in> set ks then None else map_of c k)"
  by (induction c) (auto simp: drop_keys_def)

lemma cache_at_drop: "cache_at now (drop_keys ks c) k = (if k \<in> set ks then None else cache_at now c k)"
  by (simp add: cache_at_def)

lemma session_keys [simp]:
  "session_key a = session_key b \<longleftrightarrow> a = b" "user_key a = user_key b \<longleftrightarrow> a = b" "handoff_key a = handoff_key b \<longleftrightarrow> a = b"
  "session_key a \<noteq> user_key b" "user_key b \<noteq> session_key a" "session_key a \<noteq> handoff_key b" "handoff_key b \<noteq> session_key a"
  "user_key a \<noteq> handoff_key b" "handoff_key b \<noteq> user_key a"
  by (auto simp: session_key_def user_key_def handoff_key_def)

text \<open>Who a token stands for, and the tokens on file for a user.\<close>

definition session_at :: "time \<Rightarrow> cache \<Rightarrow> string \<Rightarrow> session_doc option" where
  "session_at now c token = (case cache_at now c (session_key token) of Some (CSession d) \<Rightarrow> Some d | _ \<Rightarrow> None)"

definition tokens_of :: "time \<Rightarrow> cache \<Rightarrow> uuid \<Rightarrow> string list" where
  "tokens_of now c user = token_set (cache_at now c (user_key user))"

text \<open>A new session is live and takes nothing from the others.\<close>

lemma create_session_ok:
  assumes "session_create E ttl user role w = (Inr s, w')" "0 < ttl"
  shows "session_at (e_now E) (w_cache w') t = (if t = ss_token s
      then Some \<lparr>sd_user = user, sd_role = role, sd_created_at = e_now E, sd_seen_at = e_now E\<rparr>
      else session_at (e_now E) (w_cache w) t)"
    and "ss_user s = user" "ss_role s = role" "ss_token s = new_token E w" "w_db w' = w_db w"
proof -
  let ?now = "e_now E"
  show "w_db w' = w_db w" by (rule roD [OF ro_sessions(1) assms(1)])
  let ?tok = "new_token E w"
  let ?doc = "\<lparr>sd_user = user, sd_role = role, sd_created_at = ?now, sd_seen_at = ?now\<rparr>"
  from assms(1) have s: "s = session_of ?tok ?doc"
    and c: "w_cache w' = AList.update (user_key user) (CTokens (List.insert ?tok (tokens_of ?now (w_cache w) user)), None)
      (AList.update (session_key ?tok) (CSession ?doc, expiry ?now ttl) (w_cache w))"
    by (auto simp: session_create_def Let_def bind_ok cache_set_def cache_sadd_def exec_ok ret_ok tokens_of_def
        cache_at_update)
  show "ss_user s = user" "ss_role s = role" "ss_token s = ?tok" by (simp_all add: s session_of_def)
  show "session_at ?now (w_cache w') t = (if t = ss_token s then Some ?doc else session_at ?now (w_cache w) t)"
    using assms(2) by (simp add: c s session_of_def session_at_def cache_at_update expiry_def)
qed

end
