(* ===== verification/Quota.thy ===== *)
theory Quota
  imports Catalog
begin

text \<open>
  Daily supply and its remaining quota: \<open>quota/postgres/supply_repo.go\<close> and
  \<open>quota/service.go\<close>. A row of \<open>meal_supply\<close> per menu item and day holds the capacity and
  what remains of it; order placement decrements it inside its own transaction, cancellation
  restores it. The section on the ledger contract states what order placement relies on
  (\<open>QuotaTx\<close> in \<open>order/service.go\<close>) and proves the loops over it once.
\<close>

section \<open>The supply repository\<close>

type_synonym supply_key = "uuid \<times> date"

definition skey :: "meal_supply \<Rightarrow> supply_key" where
  "skey s = (s_item s, s_date s)"

definition encode_error :: err where "encode_error = DbErr IoErr"

text \<open>The row \<open>UPDATE\<close> of \<open>Decrement\<close>: enough left, and not flagged sold out.\<close>

definition decrementable :: "supply_key \<Rightarrow> int \<Rightarrow> meal_supply \<Rightarrow> bool" where
  "decrementable k n s \<longleftrightarrow> skey s = k \<and> n \<le> s_remain s \<and> \<not> s_sold_out s"

definition sql_decrement :: "env \<Rightarrow> supply_key \<Rightarrow> int \<Rightarrow> int option io" where
  "sql_decrement E k n = exec E (\<lambda>w. let d = w_db w in
     if \<not> int4_ok n then Inl encode_error
     else case find (decrementable k n) (supplies d) of
       None \<Rightarrow> Inr (None, w)
     | Some s \<Rightarrow> Inr (Some (s_remain s - n),
         w\<lparr>w_db := d\<lparr>supplies := sql_update (decrementable k n)
              (\<lambda>s. s\<lparr>s_remain := s_remain s - n, s_updated_at := e_dbnow E\<rparr>) (supplies d)\<rparr>\<rparr>))"

definition decrement_tx :: "env \<Rightarrow> uuid \<Rightarrow> date \<Rightarrow> int \<Rightarrow> int io" where
  "decrement_tx E i dt n =
     (if n \<le> 0 then fail (QuotaErr ErrQuotaNNotPositive)
      else bind (sql_decrement E (i, dt) n) (\<lambda>r.
        case r of
          Some newRemain \<Rightarrow> ret newRemain
        | None \<Rightarrow>
            bind (query E (\<lambda>d. Inr (by_key skey (i, dt) (supplies d) \<noteq> None))) (\<lambda>exists.
              if \<not> exists then fail (QuotaErr ErrSupplyNotFound)
              else fail (QuotaErr ErrOutOfStock))))"

text \<open>\<open>Restore\<close> never exceeds the capacity; a missing row is not an error.\<close>

definition restore_tx :: "env \<Rightarrow> uuid \<Rightarrow> date \<Rightarrow> int \<Rightarrow> unit io" where
  "restore_tx E i dt n =
     (if n \<le> 0 then fail (QuotaErr ErrQuotaNNotPositive)
      else exec E (\<lambda>w. let d = w_db w in
        if \<not> int4_ok n then Inl encode_error
        else if list_ex (\<lambda>s. skey s = (i, dt) \<and> int4_max < s_remain s + n) (supplies d)
        then Inl out_of_range
        else Inr ((), w\<lparr>w_db := d\<lparr>supplies := sql_update (\<lambda>s. skey s = (i, dt))
               (\<lambda>s. s\<lparr>s_remain := min (s_remain s + n) (s_capacity s), s_updated_at := e_dbnow E\<rparr>)
               (supplies d)\<rparr>\<rparr>)))"

text \<open>The variants outside a transaction send the same statements through the pool.\<close>

definition decrement :: "env \<Rightarrow> uuid \<Rightarrow> date \<Rightarrow> int \<Rightarrow> int io" where
  "decrement E i dt n = decrement_tx E i dt n"

definition restore :: "env \<Rightarrow> uuid \<Rightarrow> date \<Rightarrow> int \<Rightarrow> unit io" where
  "restore E i dt n = restore_tx E i dt n"

definition supply_get :: "env \<Rightarrow> uuid \<Rightarrow> date \<Rightarrow> meal_supply io" where
  "supply_get E i dt = query E (\<lambda>d.
     case by_key skey (i, dt) (supplies d) of
       None \<Rightarrow> Inl (QuotaErr ErrSupplyNotFound)
     | Some s \<Rightarrow> Inr s)"

text \<open>\<open>JOIN menu_item ... WHERE vendor_id = $1 AND supply_date = $2 ORDER BY mi.name\<close>.\<close>

definition supply_list_by_vendor :: "env \<Rightarrow> uuid \<Rightarrow> date \<Rightarrow> meal_supply list io" where
  "supply_list_by_vendor E vid dt = query E (\<lambda>d.
     Inr (sort_key (\<lambda>s. case by_key m_id (s_item s) (menu_items d) of None \<Rightarrow> '''' | Some m \<Rightarrow> m_name m)
       (filter (\<lambda>s. s_date s = dt \<and>
          (case by_key m_id (s_item s) (menu_items d) of None \<Rightarrow> False | Some m \<Rightarrow> m_vendor m = vid))
        (supplies d))))"

definition supply_set_sold_out :: "env \<Rightarrow> uuid \<Rightarrow> date \<Rightarrow> bool \<Rightarrow> unit io" where
  "supply_set_sold_out E i dt b = exec E (\<lambda>w. let d = w_db w in
     if sql_affected (\<lambda>s. skey s = (i, dt)) (supplies d) = 0
     then Inl (QuotaErr ErrSupplyNotFound)
     else Inr ((), w\<lparr>w_db := d\<lparr>supplies := sql_update (\<lambda>s. skey s = (i, dt))
            (\<lambda>s. s\<lparr>s_sold_out := b, s_updated_at := e_dbnow E\<rparr>) (supplies d)\<rparr>\<rparr>))"

text \<open>
  \<open>INSERT ... ON CONFLICT (menu_item_id, supply_date) DO UPDATE\<close>: the proposed row must
  satisfy the CHECK constraints and the foreign key, the existing row keeps its id,
  \<open>created_at\<close> and \<open>sold_out\<close>.
\<close>

definition supply_checks :: "int \<Rightarrow> int \<Rightarrow> bool" where
  "supply_checks capacity remain \<longleftrightarrow> 0 \<le> capacity \<and> 0 \<le> remain \<and> remain \<le> capacity"

definition supply_upsert :: "env \<Rightarrow> meal_supply \<Rightarrow> meal_supply io" where
  "supply_upsert E s = exec E (\<lambda>w. let d = w_db w; now = e_dbnow E in
     if \<not> int4_ok (s_capacity s) \<or> \<not> int4_ok (s_remain s) then Inl encode_error
     else if \<not> supply_checks (s_capacity s) (s_remain s) then Inl check_violation
     else case by_key skey (skey s) (supplies d) of
       Some old \<Rightarrow> Inr (s\<lparr>s_id := s_id old, s_created_at := s_created_at old, s_updated_at := now\<rparr>,
         w\<lparr>w_db := d\<lparr>supplies := sql_update (\<lambda>r. skey r = skey s)
            (\<lambda>r. r\<lparr>s_capacity := s_capacity s, s_remain := min (s_remain s) (s_capacity s),
                    s_pickup_window := s_pickup_window s, s_eta_label := s_eta_label s,
                    s_cutoff_at := s_cutoff_at s, s_updated_at := now\<rparr>) (supplies d)\<rparr>\<rparr>)
     | None \<Rightarrow>
        (if by_key m_id (s_item s) (menu_items d) = None then Inl fk_violation
         else let i = e_uuid E (w_tick w) in
         if i \<in> s_id ` set (supplies d) then Inl unique_violation
         else Inr (s\<lparr>s_id := i, s_created_at := now, s_updated_at := now\<rparr>,
           w\<lparr>w_db := d\<lparr>supplies := supplies d @
             [s\<lparr>s_id := i, s_sold_out := False, s_created_at := now, s_updated_at := now\<rparr>]\<rparr>\<rparr>)))"

section \<open>The quota service\<close>

record set_capacity_input =
  sc_item :: uuid
  sc_date :: date
  sc_capacity :: int
  sc_pickup_window :: string
  sc_eta_label :: string
  sc_cutoff_at :: time

text \<open>What remains after a capacity change: sold units stay sold, never below zero.\<close>

definition new_remain :: "int \<Rightarrow> meal_supply option \<Rightarrow> int" where
  "new_remain capacity existing =
     (case existing of
        None \<Rightarrow> capacity
      | Some s \<Rightarrow>
         (let sold = s_capacity s - s_remain s; r = capacity - sold
          in if r < 0 then 0 else r))"

definition quota_set_capacity :: "env \<Rightarrow> uuid \<Rightarrow> set_capacity_input \<Rightarrow> meal_supply io" where
  "quota_set_capacity E vid inp =
     bind (item_get_by_id E (sc_item inp)) (\<lambda>it.
       if m_vendor it \<noteq> vid then fail (MenuErr ErrMenuForbidden)
       else bind (attempt (supply_get E (sc_item inp) (sc_date inp))) (\<lambda>r.
         case (case r of
                 Inr s \<Rightarrow> Inr (Some s)
               | Inl e \<Rightarrow> if e = QuotaErr ErrSupplyNotFound then Inr None else Inl e) of
           Inl e \<Rightarrow> fail e
         | Inr existing \<Rightarrow>
             supply_upsert E
               \<lparr>s_id = '''', s_item = sc_item inp, s_date = sc_date inp,
                s_capacity = sc_capacity inp, s_remain = new_remain (sc_capacity inp) existing,
                s_pickup_window = sc_pickup_window inp, s_eta_label = sc_eta_label inp,
                s_cutoff_at = sc_cutoff_at inp, s_sold_out = False,
                s_created_at = 0, s_updated_at = 0\<rparr>))"

definition quota_set_sold_out :: "env \<Rightarrow> uuid \<Rightarrow> uuid \<Rightarrow> date \<Rightarrow> bool \<Rightarrow> meal_supply io" where
  "quota_set_sold_out E vid i dt b =
     bind (item_get_by_id E i) (\<lambda>it.
       if m_vendor it \<noteq> vid then fail (MenuErr ErrMenuForbidden)
       else bind (supply_set_sold_out E i dt b) (\<lambda>_. supply_get E i dt))"

definition quota_get_for_item :: "env \<Rightarrow> uuid \<Rightarrow> uuid \<Rightarrow> date \<Rightarrow> meal_supply io" where
  "quota_get_for_item E vid i dt =
     bind (item_get_by_id E i) (\<lambda>it.
       if m_vendor it \<noteq> vid then fail (MenuErr ErrMenuForbidden)
       else supply_get E i dt)"

definition quota_list_for_vendor :: "env \<Rightarrow> uuid \<Rightarrow> date \<Rightarrow> meal_supply list io" where
  "quota_list_for_vendor E vid dt = supply_list_by_vendor E vid dt"

lemmas quota_runs [run_simps] = fun_cong [OF sql_decrement_def] fun_cong [OF decrement_tx_def] fun_cong [OF restore_tx_def]
  fun_cong [OF supply_get_def] fun_cong [OF supply_list_by_vendor_def] fun_cong [OF
  supply_set_sold_out_def] fun_cong [OF supply_upsert_def] fun_cong [OF quota_set_capacity_def]
  fun_cong [OF quota_set_sold_out_def] fun_cong [OF quota_get_for_item_def] fun_cong [OF
  quota_list_for_vendor_def] decrementable_def skey_def int4_ok_def int4_max_def supply_checks_def
  new_remain_def

section \<open>What a supply row promises\<close>

definition remain_at :: "db \<Rightarrow> supply_key \<Rightarrow> int option" where
  "remain_at d k = map_option s_remain (by_key skey k (supplies d))"

definition capacity_at :: "db \<Rightarrow> supply_key \<Rightarrow> int option" where
  "capacity_at d k = map_option s_capacity (by_key skey k (supplies d))"

text \<open>
  The constraints of table \<open>meal_supply\<close>: one row per item and day, and
  \<open>0 \<le> remain \<le> capacity\<close> in the range of the column.
\<close>

definition wf_supplies :: "db \<Rightarrow> bool" where
  "wf_supplies d \<longleftrightarrow> distinct (map skey (supplies d)) \<and>
     (\<forall>s\<in>set (supplies d). 0 \<le> s_remain s \<and> s_remain s \<le> s_capacity s \<and> s_capacity s \<le> int4_max)"

text \<open>Everything in the database but the supplies.\<close>

definition but_supplies :: "db \<Rightarrow> db" where
  "but_supplies d = d\<lparr>supplies := []\<rparr>"

lemma but_supplies_update [simp]: "but_supplies (d\<lparr>supplies := x\<rparr>) = but_supplies d"
  by (simp add: but_supplies_def)

lemma but_supplies_fields:
  assumes "but_supplies d = but_supplies d'"
  shows "orders d = orders d'" "order_items d = order_items d'" "users d = users d'"
    "menu_items d = menu_items d'" "vendors d = vendors d'" "plant_mappings d = plant_mappings d'"
    "state_events d = state_events d'" "audits d = audits d'" "outbox d = outbox d'"
    "d' = d\<lparr>supplies := supplies d'\<rparr>"
  using assms by (cases d; cases d'; simp add: but_supplies_def)+

lemma skey_update [simp]:
  "skey (s\<lparr>s_remain := x\<rparr>) = skey s" "skey (s\<lparr>s_updated_at := t\<rparr>) = skey s"
  "skey (s\<lparr>s_sold_out := b\<rparr>) = skey s" "skey (s\<lparr>s_capacity := x\<rparr>) = skey s"
  "skey (s\<lparr>s_pickup_window := x1\<rparr>) = skey s" "skey (s\<lparr>s_eta_label := x2\<rparr>) = skey s"
  "skey (s\<lparr>s_cutoff_at := t\<rparr>) = skey s" "skey (s\<lparr>s_id := i\<rparr>) = skey s"
  "skey (s\<lparr>s_created_at := t\<rparr>) = skey s"
  by (simp_all add: skey_def)

text \<open>An \<open>UPDATE\<close> that keeps the keys acts on remain and capacity row by row.\<close>

lemma remain_at_update:
  assumes "\<And>s. P s \<Longrightarrow> skey (f s) = skey s"
  shows "remain_at (d\<lparr>supplies := sql_update P f (supplies d)\<rparr>) k =
    (case by_key skey k (supplies d) of None \<Rightarrow> None
     | Some s \<Rightarrow> Some (if P s then s_remain (f s) else s_remain s))"
  by (simp add: remain_at_def by_key_sql_update assms split: option.split)

lemma capacity_at_update:
  assumes "\<And>s. P s \<Longrightarrow> skey (f s) = skey s"
  shows "capacity_at (d\<lparr>supplies := sql_update P f (supplies d)\<rparr>) k =
    (case by_key skey k (supplies d) of None \<Rightarrow> None
     | Some s \<Rightarrow> Some (if P s then s_capacity (f s) else s_capacity s))"
  by (simp add: capacity_at_def by_key_sql_update assms split: option.split)

lemma wf_supplies_update:
  assumes "wf_supplies d" "\<And>s. P s \<Longrightarrow> skey (f s) = skey s"
    and "\<And>s. s \<in> set (supplies d) \<Longrightarrow> P s \<Longrightarrow>
      0 \<le> s_remain (f s) \<and> s_remain (f s) \<le> s_capacity (f s) \<and> s_capacity (f s) \<le> int4_max"
  shows "wf_supplies (d\<lparr>supplies := sql_update P f (supplies d)\<rparr>)"
  using assms(1,3) by (auto simp: wf_supplies_def map_sql_update assms(2) set_sql_update)

lemma wf_supplies_row:
  "wf_supplies d \<Longrightarrow> by_key skey k (supplies d) = Some s \<Longrightarrow>
     0 \<le> s_remain s \<and> s_remain s \<le> s_capacity s \<and> s_capacity s \<le> int4_max"
  by (auto simp: wf_supplies_def dest: by_key_SomeD)

lemma wf_supplies_remain:
  "wf_supplies d \<Longrightarrow> remain_at d k = Some v \<Longrightarrow>
     \<exists>c. capacity_at d k = Some c \<and> 0 \<le> v \<and> v \<le> c \<and> c \<le> int4_max"
  by (auto simp: remain_at_def capacity_at_def dest: wf_supplies_row)

text \<open>On a well-formed table the first decrementable row is the row of the key.\<close>

lemma find_decrementable:
  assumes "wf_supplies d"
  shows "find (decrementable k n) (supplies d) = (case by_key skey k (supplies d) of
      None \<Rightarrow> None | Some s \<Rightarrow> if n \<le> s_remain s \<and> \<not> s_sold_out s then Some s else None)"
proof -
  have "distinct (map skey rows) \<Longrightarrow> find (decrementable k n) rows = (case by_key skey k rows of
      None \<Rightarrow> None | Some s \<Rightarrow> if n \<le> s_remain s \<and> \<not> s_sold_out s then Some s else None)" for rows
  proof (induction rows)
    case Nil
    then show ?case by simp
  next
    case (Cons s rows)
    have "by_key skey k rows = None" if "skey s = k"
      using Cons.prems that by (auto simp: by_key_None)
    moreover have "find (decrementable k n) (s # rows) =
      (if decrementable k n s then Some s else find (decrementable k n) rows)" by simp
    ultimately show ?case using Cons by (auto simp: decrementable_def)
  qed
  with assms show ?thesis by (auto simp: wf_supplies_def)
qed

lemma decrement_ok:
  assumes "wf_supplies (w_db w)" "decrement_tx E i dt n w = (Inr r, w')"
  shows "0 < n"
    and "\<exists>v. remain_at (w_db w) (i, dt) = Some v \<and> n \<le> v \<and> r = v - n \<and>
          remain_at (w_db w') = (remain_at (w_db w))((i, dt) \<mapsto> v - n)"
    and "capacity_at (w_db w') = capacity_at (w_db w)"
    and "wf_supplies (w_db w')"
    and "but_supplies (w_db w') = but_supplies (w_db w)"
proof -
  let ?d = "w_db w"
  let ?f = "\<lambda>s. s\<lparr>s_remain := s_remain s - n, s_updated_at := e_dbnow E\<rparr>"
  from assms(2) show n: "0 < n"
    by (auto simp: decrement_tx_def io_simps split: if_splits)
  from assms(2) n obtain s where s: "find (decrementable (i, dt) n) (supplies ?d) = Some s"
    and r: "r = s_remain s - n"
    and w': "w_db w' = ?d\<lparr>supplies := sql_update (decrementable (i, dt) n) ?f (supplies ?d)\<rparr>"
    by (auto simp: decrement_tx_def sql_decrement_def io_simps Let_def
        split: if_splits option.splits)
  from s have key: "by_key skey (i, dt) (supplies ?d) = Some s" and le: "n \<le> s_remain s"
    and avail: "\<not> s_sold_out s"
    by (auto simp: find_decrementable [OF assms(1)] split: option.splits if_splits)
  show "\<exists>v. remain_at (w_db w) (i, dt) = Some v \<and> n \<le> v \<and> r = v - n \<and>
          remain_at (w_db w') = (remain_at (w_db w))((i, dt) \<mapsto> v - n)"
  proof (intro exI conjI ext)
    show "remain_at ?d (i, dt) = Some (s_remain s)" by (simp add: remain_at_def key)
    fix k
    show "remain_at (w_db w') k = ((remain_at ?d)((i, dt) \<mapsto> s_remain s - n)) k"
      using key le avail unfolding w'
      by (subst remain_at_update)
        (auto simp: remain_at_def decrementable_def split: option.splits dest: by_key_SomeD)
  qed (use le r in auto)
  show "capacity_at (w_db w') = capacity_at (w_db w)"
    unfolding w' by (rule ext, subst capacity_at_update) (auto simp: capacity_at_def split: option.splits)
  show "wf_supplies (w_db w')"
    unfolding w' using n assms(1)
    by (intro wf_supplies_update) (auto simp: decrementable_def wf_supplies_def)
  show "but_supplies (w_db w') = but_supplies (w_db w)"
    by (simp add: w')
qed

lemma restore_ok:
  assumes "wf_supplies (w_db w)" "restore_tx E i dt n w = (Inr (), w')"
  shows "0 < n"
    and "remain_at (w_db w') = (\<lambda>k. if k = (i, dt)
          then map_option (\<lambda>v. min (v + n) (the (capacity_at (w_db w) k))) (remain_at (w_db w) k)
          else remain_at (w_db w) k)"
    and "capacity_at (w_db w') = capacity_at (w_db w)"
    and "wf_supplies (w_db w')"
    and "but_supplies (w_db w') = but_supplies (w_db w)"
proof -
  let ?d = "w_db w"
  let ?f = "\<lambda>s. s\<lparr>s_remain := min (s_remain s + n) (s_capacity s), s_updated_at := e_dbnow E\<rparr>"
  from assms(2) show n: "0 < n"
    by (auto simp: restore_tx_def io_simps split: if_splits)
  from assms(2) n have w': "w_db w' = ?d\<lparr>supplies := sql_update (\<lambda>s. skey s = (i, dt)) ?f (supplies ?d)\<rparr>"
    by (auto simp: restore_tx_def io_simps Let_def split: if_splits)
  show "remain_at (w_db w') = (\<lambda>k. if k = (i, dt)
          then map_option (\<lambda>v. min (v + n) (the (capacity_at (w_db w) k))) (remain_at (w_db w) k)
          else remain_at (w_db w) k)"
    unfolding w' by (rule ext, subst remain_at_update)
      (auto simp: remain_at_def capacity_at_def split: option.splits dest: by_key_SomeD)
  show "capacity_at (w_db w') = capacity_at (w_db w)"
    unfolding w' by (rule ext, subst capacity_at_update) (auto simp: capacity_at_def split: option.splits)
  show "wf_supplies (w_db w')"
    unfolding w' using n assms(1)
    by (intro wf_supplies_update) (auto simp: wf_supplies_def)
  show "but_supplies (w_db w') = but_supplies (w_db w)"
    by (simp add: w')
qed

section \<open>The ledger contract of order placement\<close>

text \<open>
  What the order service relies on when it decrements and restores quota inside its
  transactions: an exact decrement that never goes below zero, a restore capped at the
  capacity, and no effect on anything else (\<open>rest\<close>).
\<close>

locale quota_ledger =
  fixes dec :: "'k \<Rightarrow> int \<Rightarrow> int io"
    and res :: "'k \<Rightarrow> int \<Rightarrow> unit io"
    and remain :: "db \<Rightarrow> 'k \<Rightarrow> int option"
    and cap :: "db \<Rightarrow> 'k \<Rightarrow> int option"
    and inv :: "db \<Rightarrow> bool"
    and rest :: "db \<Rightarrow> 'r"
  assumes dec_pos: "dec k n w = (Inr r, w') \<Longrightarrow> 0 < n"
    and dec_remain: "inv (w_db w) \<Longrightarrow> dec k n w = (Inr r, w') \<Longrightarrow>
      \<exists>v. remain (w_db w) k = Some v \<and> n \<le> v \<and> remain (w_db w') = (remain (w_db w))(k \<mapsto> v - n)"
    and dec_cap: "inv (w_db w) \<Longrightarrow> dec k n w = (Inr r, w') \<Longrightarrow> cap (w_db w') = cap (w_db w)"
    and dec_inv: "inv (w_db w) \<Longrightarrow> dec k n w = (Inr r, w') \<Longrightarrow> inv (w_db w')"
    and dec_rest: "inv (w_db w) \<Longrightarrow> dec k n w = (Inr r, w') \<Longrightarrow> rest (w_db w') = rest (w_db w)"
    and res_pos: "res k n w = (Inr (), w') \<Longrightarrow> 0 < n"
    and res_remain: "inv (w_db w) \<Longrightarrow> res k n w = (Inr (), w') \<Longrightarrow>
      remain (w_db w') = (\<lambda>j. if j = k then map_option (\<lambda>v. min (v + n) (the (cap (w_db w) j))) (remain (w_db w) j)
                             else remain (w_db w) j)"
    and res_cap: "inv (w_db w) \<Longrightarrow> res k n w = (Inr (), w') \<Longrightarrow> cap (w_db w') = cap (w_db w)"
    and res_inv: "inv (w_db w) \<Longrightarrow> res k n w = (Inr (), w') \<Longrightarrow> inv (w_db w')"
    and res_rest: "inv (w_db w) \<Longrightarrow> res k n w = (Inr (), w') \<Longrightarrow> rest (w_db w') = rest (w_db w)"
    and inv_bounds: "inv d \<Longrightarrow> remain d k = Some v \<Longrightarrow> \<exists>c. cap d k = Some c \<and> 0 \<le> v \<and> v \<le> c"
begin

definition need :: "('k \<times> int) list \<Rightarrow> 'k \<Rightarrow> int" where
  "need kns k = sum_list (map snd (filter (\<lambda>p. fst p = k) kns))"

lemma need_simps [simp]:
  "need [] k = 0"
  "need (p # kns) k = (if fst p = k then snd p else 0) + need kns k"
  by (simp_all add: need_def)

abbreviation dec_all :: "('k \<times> int) list \<Rightarrow> unit io" where
  "dec_all \<equiv> for_each (\<lambda>(k, n). bind (dec k n) (\<lambda>_. ret ()))"

abbreviation res_all :: "('k \<times> int) list \<Rightarrow> unit io" where
  "res_all \<equiv> for_each (\<lambda>(k, n). res k n)"

lemma need_nonneg: "dec_all kns w = (Inr (), w') \<or> res_all kns w = (Inr (), w') \<Longrightarrow> 0 \<le> need kns k"
proof (induction kns arbitrary: w)
  case Nil
  then show ?case by simp
next
  case (Cons p kns)
  then have "0 < snd p" "0 \<le> need kns k"
    by (cases p; auto simp: io_simps dest: dec_pos res_pos)+
  then show ?case by simp
qed

text \<open>Decrementing a whole list takes exactly the summed amount per key, from rows that had it.\<close>

lemma dec_all:
  assumes "inv (w_db w)" "dec_all kns w = (Inr (), w')"
  shows "(\<forall>k. remain (w_db w') k = map_option (\<lambda>v. v - need kns k) (remain (w_db w) k))
    \<and> (\<forall>k \<in> fst ` set kns. \<exists>v. remain (w_db w) k = Some v \<and> need kns k \<le> v)
    \<and> cap (w_db w') = cap (w_db w) \<and> inv (w_db w') \<and> rest (w_db w') = rest (w_db w)"
  using assms
proof (induction kns arbitrary: w)
  case Nil
  then show ?case by (auto simp: io_simps option.map_ident)
next
  case (Cons p kns)
  obtain k n where p: "p = (k, n)" by (cases p)
  from Cons.prems(2) p obtain r w1 where 1: "dec k n w = (Inr r, w1)"
    and 2: "dec_all kns w1 = (Inr (), w')"
    by (auto simp: io_simps)
  note I = Cons.prems(1)
  from dec_remain [OF I 1] obtain v where
    v: "remain (w_db w) k = Some v" "n \<le> v" "remain (w_db w1) = (remain (w_db w))(k \<mapsto> v - n)" by blast
  note IH = Cons.IH [OF dec_inv [OF I 1] 2]
  have upd: "remain (w_db w') j = map_option (\<lambda>v. v - need (p # kns) j) (remain (w_db w) j)" for j
    using IH v p by (cases "j = k") auto
  have enough: "\<exists>v. remain (w_db w) j = Some v \<and> need (p # kns) j \<le> v" if "j \<in> fst ` set (p # kns)" for j
  proof (cases "j \<in> fst ` set kns")
    case True
    then obtain u where "remain (w_db w1) j = Some u" "need kns j \<le> u" using IH by blast
    with v p show ?thesis by (cases "j = k") auto
  next
    case False
    with that p have "j = k" by auto
    moreover have "filter (\<lambda>p. fst p = j) kns = []" using False by (auto simp: filter_empty_conv)
    then have "need kns j = 0" by (simp add: need_def)
    ultimately show ?thesis using v p by auto
  qed
  show ?case using upd enough IH dec_cap [OF I 1] dec_rest [OF I 1] by auto
qed

lemma res_all:
  assumes "inv (w_db w)" "res_all kns w = (Inr (), w')"
  shows "(\<forall>k. remain (w_db w') k =
      map_option (\<lambda>v. min (v + need kns k) (the (cap (w_db w) k))) (remain (w_db w) k))
    \<and> cap (w_db w') = cap (w_db w) \<and> inv (w_db w') \<and> rest (w_db w') = rest (w_db w)"
  using assms
proof (induction kns arbitrary: w)
  case Nil
  then show ?case
    by (auto simp: io_simps dest: inv_bounds intro!: option.map_ident_strong [symmetric]) 
next
  case (Cons p kns)
  obtain k n where p: "p = (k, n)" by (cases p)
  from Cons.prems(2) p obtain w1 where 1: "res k n w = (Inr (), w1)"
    and 2: "res_all kns w1 = (Inr (), w')"
    by (auto simp: io_simps)
  note I = Cons.prems(1)
  note IH = Cons.IH [OF res_inv [OF I 1] 2]
  have pos: "0 \<le> need kns k" using 2 need_nonneg by blast
  have "remain (w_db w') j =
      map_option (\<lambda>v. min (v + need (p # kns) j) (the (cap (w_db w) j))) (remain (w_db w) j)" for j
    using IH res_remain [OF I 1] res_cap [OF I 1] p pos
    by (cases "j = k"; cases "remain (w_db w) j") (auto simp: min_def)
  then show ?case using IH res_cap [OF I 1] res_rest [OF I 1] by auto
qed

text \<open>Cancelling exactly what was placed gives every row back what it had.\<close>

lemma dec_then_res:
  assumes "inv (w_db w)" "dec_all kns w = (Inr (), w1)"
    and "inv (w_db w2)" "remain (w_db w2) = remain (w_db w1)" "cap (w_db w2) = cap (w_db w1)"
    and "res_all kns w2 = (Inr (), w3)"
  shows "remain (w_db w3) = remain (w_db w)"
proof
  fix k
  note D = dec_all [OF assms(1,2)] and R = res_all [OF assms(3,6)]
  show "remain (w_db w3) k = remain (w_db w) k"
  proof (cases "remain (w_db w) k")
    case None
    then show ?thesis using D R assms(4,5) by auto
  next
    case (Some v)
    from inv_bounds [OF assms(1) Some] obtain c where "cap (w_db w) k = Some c" "v \<le> c" by blast
    then show ?thesis using D R Some assms(4,5) by auto
  qed
qed

end

interpretation ledger: quota_ledger
  "\<lambda>k n. decrement_tx E (fst k) (snd k) n" "\<lambda>k n. restore_tx E (fst k) (snd k) n"
  remain_at capacity_at wf_supplies but_supplies for E
proof (unfold_locales, goal_cases)
  case (1 k n w r w')
  then show ?case by (auto simp: decrement_tx_def io_simps split: if_splits)
next
  case (2 w k n r w')
  then show ?case using decrement_ok(2) [of w E "fst k" "snd k" n r w'] by auto
next
  case (3 w k n r w')
  then show ?case by (rule decrement_ok(3))
next
  case (4 w k n r w')
  then show ?case by (rule decrement_ok(4))
next
  case (5 w k n r w')
  then show ?case by (rule decrement_ok(5))
next
  case (6 k n w w')
  then show ?case by (auto simp: restore_tx_def io_simps split: if_splits)
next
  case (7 w k n w')
  then show ?case using restore_ok(2) [of w E "fst k" "snd k" n w'] by auto
next
  case (8 w k n w')
  then show ?case by (rule restore_ok(3))
next
  case (9 w k n w')
  then show ?case by (rule restore_ok(4))
next
  case (10 w k n w')
  then show ?case by (rule restore_ok(5))
next
  case (11 d k v)
  then show ?case by (auto dest: wf_supplies_remain)
qed

section \<open>Capacity changes\<close>

lemma ro_supply_get [ro_intros]: "ro (supply_get E i dt)"
  by (auto simp: supply_get_def intro: ro_intros)

lemma supply_get_ok:
  "supply_get E i dt w = (r, w') \<Longrightarrow> w_db w' = w_db w \<and>
     (case r of Inr s \<Rightarrow> by_key skey (i, dt) (supplies (w_db w)) = Some s
      | Inl e \<Rightarrow> e = QuotaErr ErrSupplyNotFound \<longrightarrow> by_key skey (i, dt) (supplies (w_db w)) = None)"
  by (cases r)
    (auto simp: supply_get_def io_simps query_err dest: roD [OF ro_query] split: option.splits)

lemma supply_upsert_ok:
  assumes "wf_supplies (w_db w)" "supply_upsert E s w = (Inr r, w')"
  shows "wf_supplies (w_db w')"
    and "but_supplies (w_db w') = but_supplies (w_db w)"
    and "0 \<le> s_remain s \<and> s_remain s \<le> s_capacity s"
    and "remain_at (w_db w') = (remain_at (w_db w))(skey s \<mapsto> s_remain s)"
    and "capacity_at (w_db w') = (capacity_at (w_db w))(skey s \<mapsto> s_capacity s)"
    and "s_remain r = s_remain s \<and> s_capacity r = s_capacity s \<and> skey r = skey s"
proof -
  let ?d = "w_db w"
  let ?f = "\<lambda>q. q\<lparr>s_capacity := s_capacity s, s_remain := min (s_remain s) (s_capacity s),
                    s_pickup_window := s_pickup_window s, s_eta_label := s_eta_label s,
                    s_cutoff_at := s_cutoff_at s, s_updated_at := e_dbnow E\<rparr>"
  let ?new = "s\<lparr>s_id := e_uuid E (w_tick w), s_sold_out := False,
                 s_created_at := e_dbnow E, s_updated_at := e_dbnow E\<rparr>"
  have chk: "supply_checks (s_capacity s) (s_remain s)" "int4_ok (s_capacity s)"
    using assms(2) by (auto simp: supply_upsert_def io_simps Let_def split: if_splits)
  then show rng: "0 \<le> s_remain s \<and> s_remain s \<le> s_capacity s" by (simp add: supply_checks_def)
  consider (upd) old where "by_key skey (skey s) (supplies ?d) = Some old"
      "w_db w' = ?d\<lparr>supplies := sql_update (\<lambda>q. skey q = skey s) ?f (supplies ?d)\<rparr>"
      "r = s\<lparr>s_id := s_id old, s_created_at := s_created_at old, s_updated_at := e_dbnow E\<rparr>"
    | (ins) "by_key skey (skey s) (supplies ?d) = None"
      "w_db w' = ?d\<lparr>supplies := supplies ?d @ [?new]\<rparr>"
      "r = s\<lparr>s_id := e_uuid E (w_tick w), s_created_at := e_dbnow E, s_updated_at := e_dbnow E\<rparr>"
    using assms(2) by (auto simp: supply_upsert_def io_simps Let_def split: if_splits option.splits)
  note cases = this
  have keyf: "skey q = skey s \<Longrightarrow> skey (?f q) = skey q" for q by simp
  from cases show "wf_supplies (w_db w')"
  proof cases
    case upd
    show ?thesis unfolding upd(2)
      by (rule wf_supplies_update [OF assms(1) keyf]) (use rng chk in \<open>auto simp: int4_ok_def\<close>)
  next
    case ins
    have "skey ?new = skey s" by (simp add: skey_def)
    with ins rng chk assms(1) show ?thesis
      by (auto simp: wf_supplies_def by_key_None int4_ok_def)
  qed
  from cases show "but_supplies (w_db w') = but_supplies (w_db w)"
    by cases simp_all
  from cases show "remain_at (w_db w') = (remain_at (w_db w))(skey s \<mapsto> s_remain s)"
  proof cases
    case upd
    show ?thesis unfolding upd(2)
      by (rule ext, subst remain_at_update [OF keyf])
        (use upd rng in \<open>auto simp: remain_at_def min_def split: option.splits dest: by_key_SomeD\<close>)
  next
    case ins
    have "skey ?new = skey s" by (simp add: skey_def)
    with ins show ?thesis
      by (auto simp: remain_at_def by_key_append split: option.splits)
  qed
  from cases show "capacity_at (w_db w') = (capacity_at (w_db w))(skey s \<mapsto> s_capacity s)"
  proof cases
    case upd
    show ?thesis unfolding upd(2)
      by (rule ext, subst capacity_at_update [OF keyf])
        (use upd in \<open>auto simp: capacity_at_def split: option.splits dest: by_key_SomeD\<close>)
  next
    case ins
    have "skey ?new = skey s" by (simp add: skey_def)
    with ins show ?thesis
      by (auto simp: capacity_at_def by_key_append split: option.splits)
  qed
  from cases show "s_remain r = s_remain s \<and> s_capacity r = s_capacity s \<and> skey r = skey s"
    by cases (auto simp: skey_def)
qed

text \<open>A capacity change is read-compute-write: what it writes is computed from the row it read.\<close>

lemma set_capacity_ok:
  assumes "wf_supplies (w_db w)" "quota_set_capacity E vid inp w = (Inr r, w')"
  defines "k \<equiv> (sc_item inp, sc_date inp)"
  shows "0 \<le> sc_capacity inp"
    and "capacity_at (w_db w') = (capacity_at (w_db w))(k \<mapsto> sc_capacity inp)"
    and "remain_at (w_db w') = (remain_at (w_db w))
           (k \<mapsto> new_remain (sc_capacity inp) (by_key skey k (supplies (w_db w))))"
    and "wf_supplies (w_db w')"
    and "but_supplies (w_db w') = but_supplies (w_db w)"
    and "\<exists>m. by_key m_id (sc_item inp) (menu_items (w_db w)) = Some m \<and> m_vendor m = vid"
proof -
  let ?row = "\<lambda>x. \<lparr>s_id = [], s_item = sc_item inp, s_date = sc_date inp,
     s_capacity = sc_capacity inp, s_remain = new_remain (sc_capacity inp) x,
     s_pickup_window = sc_pickup_window inp, s_eta_label = sc_eta_label inp,
     s_cutoff_at = sc_cutoff_at inp, s_sold_out = False, s_created_at = 0, s_updated_at = 0\<rparr>"
  from assms(2) obtain it w1 where it: "item_get_by_id E (sc_item inp) w = (Inr it, w1)" "m_vendor it = vid"
    and rest: "bind (attempt (supply_get E (sc_item inp) (sc_date inp))) (\<lambda>r.
         case (case r of Inr s \<Rightarrow> Inr (Some s)
               | Inl e \<Rightarrow> if e = QuotaErr ErrSupplyNotFound then Inr None else Inl e) of
           Inl e \<Rightarrow> fail e
         | Inr existing \<Rightarrow> supply_upsert E (?row existing)) w1 = (Inr r, w')"
    unfolding quota_set_capacity_def by (simp add: io_simps split: if_splits) (elim exE conjE, simp)
  obtain ex w2 where g: "supply_get E (sc_item inp) (sc_date inp) w1 = (ex, w2)"
    by (cases "supply_get E (sc_item inp) (sc_date inp) w1")
  have ok: "\<And>e. ex = Inl e \<Longrightarrow> e = QuotaErr ErrSupplyNotFound"
    and u: "supply_upsert E (?row (case ex of Inr s \<Rightarrow> Some s | Inl _ \<Rightarrow> None)) w2 = (Inr r, w')"
    using rest g by (auto simp: io_simps split: if_splits sum.splits)
  note I = item_get_ok [OF it(1)] and G = supply_get_ok [OF g]
  have ex: "(case ex of Inr s \<Rightarrow> Some s | Inl _ \<Rightarrow> None) = by_key skey k (supplies (w_db w))"
    using G I ok unfolding k_def by (cases ex) auto
  have w2: "w_db w2 = w_db w" using G I by simp
  then have wf: "wf_supplies (w_db w2)" using assms(1) by simp
  note U = supply_upsert_ok [OF wf u]
  show "0 \<le> sc_capacity inp" using U(3) by simp
  show "capacity_at (w_db w') = (capacity_at (w_db w))(k \<mapsto> sc_capacity inp)"
    using U(5) w2 by (simp add: k_def skey_def)
  show "remain_at (w_db w') = (remain_at (w_db w))
           (k \<mapsto> new_remain (sc_capacity inp) (by_key skey k (supplies (w_db w))))"
    using U(4) w2 unfolding ex by (simp add: k_def skey_def)
  show "wf_supplies (w_db w')" by (rule U(1))
  show "but_supplies (w_db w') = but_supplies (w_db w)" using U(2) w2 by simp
  show "\<exists>m. by_key m_id (sc_item inp) (menu_items (w_db w)) = Some m \<and> m_vendor m = vid"
    using I it(2) by auto
qed

text \<open>Every write to the supplies keeps the table well formed, also when it fails.\<close>

lemma atomic_supply_writes [atomic_intros]:
  "atomic (sql_decrement E k n)" "atomic (restore_tx E i dt n)"
  "atomic (supply_upsert E s)" "atomic (supply_set_sold_out E i dt b)"
  by (auto simp: sql_decrement_def restore_tx_def supply_upsert_def supply_set_sold_out_def
      intro!: atomic_intros intro: ro_intros)

lemma atomic_decrement_tx [atomic_intros]: "atomic (decrement_tx E i dt n)"
  unfolding atomic_def
proof (intro allI impI)
  fix w e w'
  assume "decrement_tx E i dt n w = (Inl e, w')"
  then show "w_db w' = w_db w"
    by (auto simp: decrement_tx_def bind_err io_simps query_err sql_decrement_def exec_err Let_def
        split: if_splits option.splits)
qed

lemma set_sold_out_ok:
  assumes "wf_supplies (w_db w)" "supply_set_sold_out E i dt b w = (Inr (), w')"
  shows "wf_supplies (w_db w') \<and> but_supplies (w_db w') = but_supplies (w_db w)
    \<and> remain_at (w_db w') = remain_at (w_db w) \<and> capacity_at (w_db w') = capacity_at (w_db w)"
proof -
  let ?d = "w_db w"
  let ?f = "\<lambda>s. s\<lparr>s_sold_out := b, s_updated_at := e_dbnow E\<rparr>"
  from assms(2) have w': "w_db w' = ?d\<lparr>supplies := sql_update (\<lambda>s. skey s = (i, dt)) ?f (supplies ?d)\<rparr>"
    by (auto simp: supply_set_sold_out_def io_simps Let_def split: if_splits)
  have "wf_supplies (w_db w')" unfolding w' using assms(1)
    by (intro wf_supplies_update) (auto simp: wf_supplies_def)
  moreover have "remain_at (w_db w') = remain_at ?d" "capacity_at (w_db w') = capacity_at ?d"
    unfolding w' by (rule ext, subst remain_at_update capacity_at_update,
        auto simp: remain_at_def capacity_at_def split: option.splits)+
  ultimately show ?thesis by (simp add: w')
qed

lemma keeps_wf_supplies [keeps_intros]:
  "keeps wf_supplies (decrement_tx E i dt n)" "keeps wf_supplies (restore_tx E i dt n)"
  "keeps wf_supplies (supply_upsert E s)" "keeps wf_supplies (supply_set_sold_out E i dt b)"
  by (rule keeps_of_ok, rule atomic_intros, metis decrement_ok(4))
    (rule keeps_of_ok, rule atomic_intros, use restore_ok(4) in force,
     rule keeps_of_ok, rule atomic_intros, metis supply_upsert_ok(1),
     rule keeps_of_ok, rule atomic_intros, use set_sold_out_ok in force)

end
