(* ===== verification/Order_Repo.thy ===== *)
theory Order_Repo
  imports Quota
begin

text \<open>
  The order state machine (\<open>order/state_machine.go\<close>) and the repositories of
  \<open>order/postgres\<close>: orders with their items (\<open>order_repo.go\<close>), the append-only state
  events (\<open>state_event_repo.go\<close>), the outbox (\<open>outbox_repo.go\<close>, \<open>AppendTx\<close>) and the
  audit log (\<open>audit_repo.go\<close>). The conditional updates are instances of the contract
  \<open>guarded_update\<close>, the three append operations of \<open>append_log\<close>.
\<close>

section \<open>The state machine\<close>

fun allowed_transitions :: "order_status \<Rightarrow> order_status list" where
  "allowed_transitions Draft = [Placed, Cancelled]"
| "allowed_transitions Placed = [Cutoff, Ready, Cancelled]"
| "allowed_transitions Cutoff = [Ready, Cancelled]"
| "allowed_transitions Ready = [PickedUp, NoShow]"
| "allowed_transitions PickedUp = [Refunded]"
| "allowed_transitions NoShow = [Refunded]"
| "allowed_transitions Cancelled = []"
| "allowed_transitions Refunded = []"

definition can_transition :: "order_status \<Rightarrow> order_status \<Rightarrow> bool" where
  "can_transition from to \<longleftrightarrow> to \<in> set (allowed_transitions from)"

lemma can_transition_rank: "can_transition a b \<Longrightarrow> status_rank a < status_rank b"
  by (cases a; auto simp: can_transition_def)

lemma can_transition_irrefl [simp]: "\<not> can_transition a a"
  using can_transition_rank by blast

lemma can_transition_Ready: "can_transition a Ready \<longleftrightarrow> a = Placed \<or> a = Cutoff"
  by (cases a; auto simp: can_transition_def)

section \<open>Orders and their items\<close>

text \<open>The joined item rows of an order; the name comes from the menu, empty when it is gone.\<close>

definition item_name_in :: "db \<Rightarrow> item \<Rightarrow> item" where
  "item_name_in d i = i\<lparr>i_name :=
     (case by_key m_id (i_menu_item i) (menu_items d) of None \<Rightarrow> '''' | Some m \<Rightarrow> m_name m)\<rparr>"

definition items_of :: "db \<Rightarrow> uuid \<Rightarrow> item list" where
  "items_of d oid = map (item_name_in d) (filter (\<lambda>i. i_order i = oid) (order_items d))"

definition with_items :: "order_row \<Rightarrow> item list \<Rightarrow> order" where
  "with_items r is = order_row.extend r (order.fields is)"

definition row_of :: "order \<Rightarrow> order_row" where
  "row_of o1 = order_row.truncate o1"

definition insert_item :: "env \<Rightarrow> uuid \<Rightarrow> item \<Rightarrow> item io" where
  "insert_item E oid it = exec E (\<lambda>w. let d = w_db w; i = e_uuid E (w_tick w) in
     if \<not> int4_ok (i_qty it) then Inl encode_error
     else if i_qty it \<le> 0 \<or> i_price it < 0 then Inl check_violation
     else if i \<in> i_id ` set (order_items d) then Inl unique_violation
     else if by_key o_id oid (orders d) = None
       \<or> by_key m_id (i_menu_item it) (menu_items d) = None then Inl fk_violation
     else Inr (it\<lparr>i_id := i, i_order := oid\<rparr>,
       w\<lparr>w_db := d\<lparr>order_items := order_items d @ [it\<lparr>i_id := i, i_order := oid, i_name := ''''\<rparr>]\<rparr>\<rparr>))"

definition insert_order_row :: "env \<Rightarrow> order \<Rightarrow> order io" where
  "insert_order_row E x = exec E (\<lambda>w. let d = w_db w; i = e_uuid E (w_tick w); now = e_dbnow E;
       y = x\<lparr>o_id := i, o_number := w_order_seq w, o_created_at := now, o_updated_at := now\<rparr> in
     if o_total x < 0 then Inl check_violation
     else if i \<in> o_id ` set (orders d) \<or> w_order_seq w \<in> o_number ` set (orders d)
     then Inl unique_violation
     else if by_key u_id (o_user x) (users d) = None \<or> by_key v_id (o_vendor x) (vendors d) = None
     then Inl fk_violation
     else Inr (y, w\<lparr>w_order_seq := w_order_seq w + 1,
       w_db := d\<lparr>orders := orders d @ [(row_of y)\<lparr>o_ready_at := None, o_picked_up_at := None,
         o_no_show_at := None, o_cancelled_at := None\<rparr>]\<rparr>\<rparr>))"

definition order_create_tx :: "env \<Rightarrow> order \<Rightarrow> order io" where
  "order_create_tx E x =
     bind (insert_order_row E x) (\<lambda>y.
     bind (collect (insert_item E (o_id y)) (o_items y)) (\<lambda>is.
     ret (y\<lparr>o_items := is\<rparr>)))"

definition order_get_row :: "uuid \<Rightarrow> db \<Rightarrow> err + order_row" where
  "order_get_row i d = (case by_key o_id i (orders d) of
      None \<Rightarrow> Inl (OrderErr ErrOrderNotFound) | Some r \<Rightarrow> Inr r)"

definition order_get_by_id :: "env \<Rightarrow> uuid \<Rightarrow> order io" where
  "order_get_by_id E i =
     bind (query E (order_get_row i)) (\<lambda>r.
     bind (query E (\<lambda>d. Inr (items_of d i))) (\<lambda>is.
     ret (with_items r is)))"

text \<open>The same read sent through the pool while a transaction is open.\<close>

definition order_get_by_id_at :: "env \<Rightarrow> db \<Rightarrow> uuid \<Rightarrow> order io" where
  "order_get_by_id_at E snap i =
     bind (query_at E snap (order_get_row i)) (\<lambda>r.
     bind (query_at E snap (\<lambda>d. Inr (items_of d i))) (\<lambda>is.
     ret (with_items r is)))"

text \<open>
  \<open>UPDATE "order" SET ... WHERE id = k AND status IN (...)\<close>, and
  \<open>ErrInvalidTransition\<close> when no row was affected.
\<close>

definition order_update_where ::
    "env \<Rightarrow> (order_status \<Rightarrow> bool) \<Rightarrow> (order_row \<Rightarrow> order_row) \<Rightarrow> uuid \<Rightarrow> unit io" where
  "order_update_where E Q f k = exec E (\<lambda>w. let d = w_db w; P = (\<lambda>r. o_id r = k \<and> Q (o_status r)) in
     if sql_affected P (orders d) = 0 then Inl (OrderErr ErrInvalidTransition)
     else Inr ((), w\<lparr>w_db := d\<lparr>orders := sql_update P f (orders d)\<rparr>\<rparr>))"

definition update_status_tx :: "env \<Rightarrow> order_status \<Rightarrow> order_status \<Rightarrow> uuid \<Rightarrow> unit io" where
  "update_status_tx E from to = order_update_where E (\<lambda>s. s = from)
     (\<lambda>r. r\<lparr>o_status := to,
             o_cancelled_at := (if to = Cancelled then Some (e_dbnow E) else o_cancelled_at r),
             o_updated_at := e_dbnow E\<rparr>)"

definition mark_ready_tx :: "env \<Rightarrow> uuid \<Rightarrow> unit io" where
  "mark_ready_tx E = order_update_where E (\<lambda>s. s = Cutoff \<or> s = Placed)
     (\<lambda>r. r\<lparr>o_status := Ready, o_ready_at := Some (e_dbnow E), o_updated_at := e_dbnow E\<rparr>)"

definition mark_picked_up_tx :: "env \<Rightarrow> uuid \<Rightarrow> unit io" where
  "mark_picked_up_tx E = order_update_where E (\<lambda>s. s = Ready)
     (\<lambda>r. r\<lparr>o_status := PickedUp, o_picked_up_at := Some (e_dbnow E), o_updated_at := e_dbnow E\<rparr>)"

definition mark_no_show_tx :: "env \<Rightarrow> uuid \<Rightarrow> unit io" where
  "mark_no_show_tx E = order_update_where E (\<lambda>s. s = Ready)
     (\<lambda>r. r\<lparr>o_status := NoShow, o_no_show_at := Some (e_dbnow E), o_updated_at := e_dbnow E\<rparr>)"

definition delete_items :: "env \<Rightarrow> uuid \<Rightarrow> unit io" where
  "delete_items E oid = exec E (\<lambda>w. let d = w_db w in
     Inr ((), w\<lparr>w_db := d\<lparr>order_items := filter (\<lambda>i. i_order i \<noteq> oid) (order_items d)\<rparr>\<rparr>))"

definition update_order_total :: "env \<Rightarrow> uuid \<Rightarrow> int \<Rightarrow> string \<Rightarrow> unit io" where
  "update_order_total E oid total_minor notes = exec E (\<lambda>w. let d = w_db w in
     if sql_affected (\<lambda>r. o_id r = oid) (orders d) = 0 then Inl (OrderErr ErrOrderNotFound)
     else if total_minor < 0 then Inl check_violation
     else Inr ((), w\<lparr>w_db := d\<lparr>orders := sql_update (\<lambda>r. o_id r = oid)
       (\<lambda>r. r\<lparr>o_total := total_minor, o_notes := notes, o_updated_at := e_dbnow E\<rparr>) (orders d)\<rparr>\<rparr>))"

definition replace_items_tx :: "env \<Rightarrow> uuid \<Rightarrow> item list \<Rightarrow> int \<Rightarrow> string \<Rightarrow> item list io" where
  "replace_items_tx E oid is total_minor notes =
     bind (delete_items E oid) (\<lambda>_.
     bind (collect (insert_item E oid) is) (\<lambda>js.
     bind (update_order_total E oid total_minor notes) (\<lambda>_.
     ret js)))"

subsection \<open>Listings\<close>

text \<open>\<open>collectOrders\<close> leaves the items empty, \<open>hydrateItems\<close> adds them in one query.\<close>

definition select_orders :: "env \<Rightarrow> (order_row \<Rightarrow> bool) \<Rightarrow> (order_row list \<Rightarrow> order_row list) \<Rightarrow> order list io" where
  "select_orders E P srt = query E (\<lambda>d. Inr (map (\<lambda>r. with_items r []) (srt (filter P (orders d)))))"

definition hydrate_items :: "env \<Rightarrow> order list \<Rightarrow> order list io" where
  "hydrate_items E os =
     (if os = [] then ret []
      else query E (\<lambda>d. Inr (map (\<lambda>x. x\<lparr>o_items := o_items x @ sort_key i_id (items_of d (o_id x))\<rparr>) os)))"

definition list_by_user :: "env \<Rightarrow> uuid \<Rightarrow> date \<Rightarrow> order list io" where
  "list_by_user E u since =
     bind (select_orders E (\<lambda>r. o_user r = u \<and> since \<le> o_date r)
       (\<lambda>rs. sort_key (\<lambda>r. - o_date r) (sort_key (\<lambda>r. - o_created_at r) rs)))
     (hydrate_items E)"

definition list_placed_due_for_cutoff :: "env \<Rightarrow> time \<Rightarrow> order list io" where
  "list_placed_due_for_cutoff E before =
     select_orders E (\<lambda>r. o_status r = Placed \<and> o_cutoff_at r \<le> before) (sort_key o_cutoff_at)"

definition list_ready_older_than :: "env \<Rightarrow> time \<Rightarrow> order list io" where
  "list_ready_older_than E threshold =
     select_orders E
       (\<lambda>r. o_status r = Ready \<and> (case o_ready_at r of None \<Rightarrow> False | Some t \<Rightarrow> t < threshold))
       (sort_key (\<lambda>r. the (o_ready_at r)))"

definition list_by_vendor_day :: "env \<Rightarrow> uuid \<Rightarrow> date \<Rightarrow> order_status list \<Rightarrow> order list io" where
  "list_by_vendor_day E vid day statuses =
     (if statuses = []
      then bind (select_orders E (\<lambda>r. o_vendor r = vid \<and> o_date r = day) (sort_key o_created_at))
             (hydrate_items E)
      else bind (select_orders E
                  (\<lambda>r. o_vendor r = vid \<and> o_date r = day \<and> o_status r \<in> set statuses)
                  (sort_key o_created_at))
             (hydrate_items E))"

definition list_picked_or_no_show_in_period :: "env \<Rightarrow> date \<Rightarrow> date \<Rightarrow> order list io" where
  "list_picked_or_no_show_in_period E from to =
     select_orders E
       (\<lambda>r. (o_status r = PickedUp \<or> o_status r = NoShow) \<and> from \<le> o_date r \<and> o_date r \<le> to)
       (\<lambda>rs. sort_key o_user (sort_key o_date rs))"

section \<open>State events, outbox and audit\<close>

definition state_append_tx :: "env \<Rightarrow> state_event \<Rightarrow> unit io" where
  "state_append_tx E ev = exec E (\<lambda>w. let d = w_db w in
     if by_key o_id (ev_order ev) (orders d) = None \<or> \<not> fk_user d (ev_actor ev) then Inl fk_violation
     else Inr ((), w\<lparr>w_event_seq := w_event_seq w + 1,
       w_db := d\<lparr>state_events := state_events d @ [ev\<lparr>ev_id := w_event_seq w, ev_at := e_dbnow E\<rparr>]\<rparr>\<rparr>))"

definition state_append :: "env \<Rightarrow> state_event \<Rightarrow> unit io" where
  "state_append E ev = begin_func E (\<lambda>_. state_append_tx E ev)"

definition state_list_by_order :: "env \<Rightarrow> uuid \<Rightarrow> state_event list io" where
  "state_list_by_order E oid = query E (\<lambda>d.
     Inr (sort_key ev_at (filter (\<lambda>e. ev_order e = oid) (state_events d))))"

definition outbox_append_tx ::
    "env \<Rightarrow> string \<Rightarrow> uuid \<Rightarrow> string \<Rightarrow> payload \<Rightarrow> payload \<Rightarrow> unit io" where
  "outbox_append_tx E agg_type agg_id subject pl headers = exec E (\<lambda>w. let d = w_db w in
     Inr ((), w\<lparr>w_outbox_seq := w_outbox_seq w + 1,
       w_db := d\<lparr>outbox := outbox d @
         [\<lparr>ox_id = w_outbox_seq w, ox_type = agg_type, ox_agg = agg_id, ox_subject = subject,
           ox_payload = pl, ox_headers = headers, ox_created_at = e_dbnow E,
           ox_published_at = None, ox_attempts = 0, ox_last_error = None\<rparr>]\<rparr>\<rparr>))"

definition audit_write_tx :: "env \<Rightarrow> audit_entry \<Rightarrow> unit io" where
  "audit_write_tx E e = exec E (\<lambda>w. let d = w_db w in
     if \<not> fk_user d (au_actor e) then Inl fk_violation
     else Inr ((), w\<lparr>w_audit_seq := w_audit_seq w + 1,
       w_db := d\<lparr>audits := audits d @
         [audit_entry.extend e (audit_row.fields (w_audit_seq w) (e_dbnow E))]\<rparr>\<rparr>))"

definition audit_write :: "env \<Rightarrow> audit_entry \<Rightarrow> unit io" where
  "audit_write E e = begin_func E (\<lambda>_. audit_write_tx E e)"

text \<open>An audit record of the given kind and target; the request id is always empty.\<close>

definition audit_of ::
    "uuid option \<Rightarrow> user_role option \<Rightarrow> string \<Rightarrow> string \<Rightarrow> uuid \<Rightarrow> payload \<Rightarrow> audit_entry" where
  "audit_of actor role action kind target pl =
     \<lparr>au_actor = actor, au_role = role, au_action = action, au_kind = kind, au_target = target,
      au_payload = pl, au_request = ''''\<rparr>"

record audit_filter =
  af_kind :: string
  af_target :: string
  af_since :: "time option"
  af_limit :: int

definition audit_list :: "env \<Rightarrow> audit_filter \<Rightarrow> audit_row list io" where
  "audit_list E f = query E (\<lambda>d.
     let limit = (if af_limit f \<le> 0 \<or> 200 < af_limit f then 100 else af_limit f)
     in Inr (take (nat limit) (sort_key (\<lambda>a. - au_at a)
       (filter (\<lambda>a. (af_kind f = '''' \<or> au_kind a = af_kind f)
                  \<and> (af_target f = '''' \<or> au_target a = af_target f)
                  \<and> (case af_since f of None \<Rightarrow> True | Some t \<Rightarrow> t \<le> au_at a)) (audits d)))))"

lemmas order_repo_runs [run_simps] = fun_cong [OF insert_item_def] fun_cong [OF insert_order_row_def] fun_cong [OF
  order_create_tx_def] fun_cong [OF order_get_by_id_def] fun_cong [OF order_get_by_id_at_def]
  fun_cong [OF order_update_where_def] fun_cong [OF delete_items_def] fun_cong [OF
  update_order_total_def] fun_cong [OF replace_items_tx_def] fun_cong [OF select_orders_def]
  fun_cong [OF hydrate_items_def] fun_cong [OF list_by_user_def] fun_cong [OF
  list_placed_due_for_cutoff_def] fun_cong [OF list_ready_older_than_def] fun_cong [OF
  list_by_vendor_day_def] fun_cong [OF list_picked_or_no_show_in_period_def] fun_cong [OF
  state_append_tx_def] fun_cong [OF outbox_append_tx_def] fun_cong [OF audit_write_tx_def]

lemmas order_update_runs [run_simps] = update_status_tx_def mark_ready_tx_def mark_picked_up_tx_def
  mark_no_show_tx_def order_get_row_def items_of_def item_name_in_def with_items_def row_of_def
  can_transition_def order_row.defs order.defs audit_entry.defs audit_row.defs fk_user_def
  sql_affected_def

section \<open>What the statements do\<close>

definition status_at :: "db \<Rightarrow> uuid \<Rightarrow> order_status option" where
  "status_at d k = map_option o_status (by_key o_id k (orders d))"

definition wf_order_ids :: "db \<Rightarrow> bool" where
  "wf_order_ids d \<longleftrightarrow> distinct (map o_id (orders d))"

text \<open>What of an item is independent of the row it is stored in.\<close>

definition line :: "item \<Rightarrow> uuid \<times> int \<times> int" where
  "line i = (i_menu_item i, i_qty i, i_price i)"

definition stored :: "item \<Rightarrow> item" where
  "stored i = i\<lparr>i_name := ''''\<rparr>"

lemma line_simps [simp]:
  "line (i\<lparr>i_id := a\<rparr>) = line i" "line (i\<lparr>i_order := b\<rparr>) = line i" "line (i\<lparr>i_name := n\<rparr>) = line i"
  by (simp_all add: line_def)

lemma item_name_in_simps [simp]:
  "i_id (item_name_in d i) = i_id i" "i_order (item_name_in d i) = i_order i"
  "i_menu_item (item_name_in d i) = i_menu_item i" "i_qty (item_name_in d i) = i_qty i"
  "i_price (item_name_in d i) = i_price i" "line (item_name_in d i) = line i"
  by (simp_all add: item_name_in_def)

lemma stored_simps [simp]:
  "i_id (stored i) = i_id i" "i_order (stored i) = i_order i"
  "i_menu_item (stored i) = i_menu_item i" "i_qty (stored i) = i_qty i"
  "i_price (stored i) = i_price i" "line (stored i) = line i"
  by (simp_all add: stored_def)

lemma with_items_simps [simp]:
  "o_id (with_items r is) = o_id r" "o_user (with_items r is) = o_user r"
  "o_vendor (with_items r is) = o_vendor r" "o_plant (with_items r is) = o_plant r"
  "o_date (with_items r is) = o_date r" "o_status (with_items r is) = o_status r"
  "o_total (with_items r is) = o_total r" "o_notes (with_items r is) = o_notes r"
  "o_cutoff_at (with_items r is) = o_cutoff_at r" "o_items (with_items r is) = is"
  "o_number (with_items r is) = o_number r" "o_placed_at (with_items r is) = o_placed_at r"
  "row_of (with_items r is) = r"
  by (simp_all add: with_items_def row_of_def order_row.defs order.defs)

lemma row_of_simps [simp]:
  "o_id (row_of x) = o_id x" "o_user (row_of x) = o_user x" "o_vendor (row_of x) = o_vendor x"
  "o_plant (row_of x) = o_plant x" "o_date (row_of x) = o_date x" "o_status (row_of x) = o_status x"
  "o_total (row_of x) = o_total x" "o_notes (row_of x) = o_notes x"
  "o_number (row_of x) = o_number x" "o_placed_at (row_of x) = o_placed_at x"
  "o_cutoff_at (row_of x) = o_cutoff_at x" "o_created_at (row_of x) = o_created_at x"
  "row_of (x\<lparr>o_items := is\<rparr>) = row_of x"
  by (simp_all add: row_of_def order_row.defs)

subsection \<open>Reads\<close>

lemma ro_order_reads [ro_intros]:
  "ro (order_get_by_id E i)" "ro (order_get_by_id_at E s i)" "ro (select_orders E P srt)"
  "ro (hydrate_items E os)" "ro (list_by_user E u since)" "ro (list_placed_due_for_cutoff E t)"
  "ro (list_ready_older_than E t)" "ro (list_by_vendor_day E v day sts)"
  "ro (list_picked_or_no_show_in_period E from until)" "ro (state_list_by_order E i)" "ro (audit_list E f)"
  by (auto simp: order_get_by_id_def order_get_by_id_at_def select_orders_def hydrate_items_def
      list_by_user_def list_placed_due_for_cutoff_def list_ready_older_than_def list_by_vendor_day_def
      list_picked_or_no_show_in_period_def state_list_by_order_def audit_list_def intro!: ro_intros)

lemma order_get_ok:
  assumes "order_get_by_id E i w = (Inr x, w')"
  shows "\<exists>r. by_key o_id i (orders (w_db w)) = Some r \<and> x = with_items r (items_of (w_db w) i)
    \<and> o_id r = i \<and> w_db w' = w_db w"
  using assms
  by (auto simp: order_get_by_id_def order_get_row_def io_simps split: option.splits dest: by_key_SomeD)

lemma order_get_at_ok:
  assumes "order_get_by_id_at E s i w = (Inr x, w')"
  shows "\<exists>r. by_key o_id i (orders s) = Some r \<and> x = with_items r (items_of s i)
    \<and> o_id r = i \<and> w_db w' = w_db w"
  using assms
  by (auto simp: order_get_by_id_at_def order_get_row_def io_simps split: option.splits dest: by_key_SomeD)

lemma select_orders_ok:
  "select_orders E P srt w = (Inr xs, w') \<Longrightarrow>
     xs = map (\<lambda>r. with_items r []) (srt (filter P (orders (w_db w)))) \<and> w_db w' = w_db w"
  by (auto simp: select_orders_def io_simps)

subsection \<open>Conditional updates\<close>

lemma order_update_where_ok:
  assumes "order_update_where E Q f k w = (Inr (), w')"
  shows "w_db w' = (w_db w)\<lparr>orders := sql_update (\<lambda>r. o_id r = k \<and> Q (o_status r)) f (orders (w_db w))\<rparr>"
    and "\<exists>r\<in>set (orders (w_db w)). o_id r = k \<and> Q (o_status r)"
  using assms
  by (auto simp: order_update_where_def io_simps Let_def sql_affected_0_iff list_ex_iff split: if_splits)

lemma order_update_guarded:
  assumes "\<And>r. o_id (f r) = o_id r" "\<And>r. o_status (f r) = st" "\<not> Q st"
  shows "guarded_update (order_update_where E Q f) status_at wf_order_ids Q st (OrderErr ErrInvalidTransition)"
proof
  let ?P = "\<lambda>k r. o_id r = k \<and> Q (o_status r)"
  fix w k w'
  assume wf: "wf_order_ids (w_db w)" and run: "order_update_where E Q f k w = (Inr (), w')"
  note U = order_update_where_ok [OF run]
  from U(2) wf obtain r where r: "by_key o_id k (orders (w_db w)) = Some r" "Q (o_status r)"
    by (auto simp: wf_order_ids_def by_key_iff)
  then show "\<exists>s. status_at (w_db w) k = Some s \<and> Q s" by (simp add: status_at_def)
  have at: "by_key o_id j (orders (w_db w')) =
      map_option (\<lambda>r. if ?P k r then f r else r) (by_key o_id j (orders (w_db w)))" for j
    by (simp add: U(1) by_key_sql_update assms(1))
  show "status_at (w_db w') k = Some st"
    using at [of k] r by (auto simp: status_at_def assms(2) dest: by_key_SomeD)
  show "status_at (w_db w') k' = status_at (w_db w) k'" if "k' \<noteq> k" for k'
    using at [of k'] that
    by (cases "by_key o_id k' (orders (w_db w))") (auto simp: status_at_def dest: by_key_SomeD)
  show "wf_order_ids (w_db w')"
    using wf by (simp add: U(1) wf_order_ids_def map_sql_update assms(1))
next
  fix k w e w'
  assume "order_update_where E Q f k w = (Inl e, w')"
  then show "e = OrderErr ErrInvalidTransition \<or> (\<exists>p. e = DbErr p)"
    by (auto simp: order_update_where_def exec_err Let_def split: if_splits)
qed (fact assms(3))

interpretation cutoff_upd: guarded_update "update_status_tx E Placed Cutoff" status_at wf_order_ids
    "\<lambda>s. s = Placed" Cutoff "OrderErr ErrInvalidTransition" for E
  unfolding update_status_tx_def by (rule order_update_guarded) auto

interpretation cancel_upd: guarded_update "update_status_tx E Placed Cancelled" status_at wf_order_ids
    "\<lambda>s. s = Placed" Cancelled "OrderErr ErrInvalidTransition" for E
  unfolding update_status_tx_def by (rule order_update_guarded) auto

interpretation ready_upd: guarded_update "mark_ready_tx E" status_at wf_order_ids
    "\<lambda>s. s = Cutoff \<or> s = Placed" Ready "OrderErr ErrInvalidTransition" for E
  unfolding mark_ready_tx_def by (rule order_update_guarded) auto

interpretation pickup_upd: guarded_update "mark_picked_up_tx E" status_at wf_order_ids
    "\<lambda>s. s = Ready" PickedUp "OrderErr ErrInvalidTransition" for E
  unfolding mark_picked_up_tx_def by (rule order_update_guarded) auto

interpretation no_show_upd: guarded_update "mark_no_show_tx E" status_at wf_order_ids
    "\<lambda>s. s = Ready" NoShow "OrderErr ErrInvalidTransition" for E
  unfolding mark_no_show_tx_def by (rule order_update_guarded) auto

subsection \<open>Inserting an order\<close>

lemma insert_item_ok:
  assumes "insert_item E oid it w = (Inr j, w')"
  shows "w_db w' = (w_db w)\<lparr>order_items := order_items (w_db w) @ [stored j]\<rparr>"
    and "line j = line it \<and> i_order j = oid \<and> i_name j = i_name it"
    and "i_id j \<notin> i_id ` set (order_items (w_db w))"
    and "0 < i_qty it \<and> i_qty it \<le> int4_max \<and> 0 \<le> i_price it"
    and "by_key m_id (i_menu_item it) (menu_items (w_db w)) \<noteq> None"
    and "by_key o_id oid (orders (w_db w)) \<noteq> None"
  using assms
  by (auto simp: insert_item_def io_simps Let_def int4_ok_def stored_def split: if_splits)

lemma insert_items_ok:
  assumes "collect (insert_item E oid) is w = (Inr js, w')"
  shows "w_db w' = (w_db w)\<lparr>order_items := order_items (w_db w) @ map stored js\<rparr>
    \<and> map line js = map line is \<and> (\<forall>j\<in>set js. i_order j = oid)
    \<and> distinct (map i_id js) \<and> i_id ` set js \<inter> i_id ` set (order_items (w_db w)) = {}
    \<and> (\<forall>i\<in>set is. 0 < i_qty i \<and> i_qty i \<le> int4_max \<and> 0 \<le> i_price i
        \<and> by_key m_id (i_menu_item i) (menu_items (w_db w)) \<noteq> None)
    \<and> (is \<noteq> [] \<longrightarrow> by_key o_id oid (orders (w_db w)) \<noteq> None)"
  using assms
proof (induction "is" arbitrary: js w)
  case Nil
  then show ?case by (auto simp: io_simps)
next
  case (Cons i "is")
  from Cons.prems obtain j w1 ks where 1: "insert_item E oid i w = (Inr j, w1)"
    and 2: "collect (insert_item E oid) is w1 = (Inr ks, w')" and js: "js = j # ks"
    by (auto simp: io_simps)
  note I = insert_item_ok [OF 1]
  note IH = Cons.IH [OF 2]
  from IH I(1) have "i_id j \<notin> i_id ` set ks" by auto
  with IH I js show ?case by (auto simp del: not_None_eq)
qed

lemma insert_order_row_ok:
  assumes "insert_order_row E x w = (Inr y, w')"
  shows "\<exists>i n t. y = x\<lparr>o_id := i, o_number := n, o_created_at := t, o_updated_at := t\<rparr>
    \<and> n = w_order_seq w \<and> w_order_seq w' = n + 1
    \<and> i \<notin> o_id ` set (orders (w_db w)) \<and> n \<notin> o_number ` set (orders (w_db w))
    \<and> 0 \<le> o_total x \<and> by_key u_id (o_user x) (users (w_db w)) \<noteq> None
    \<and> by_key v_id (o_vendor x) (vendors (w_db w)) \<noteq> None
    \<and> w_db w' = (w_db w)\<lparr>orders := orders (w_db w) @ [(row_of y)\<lparr>o_ready_at := None,
        o_picked_up_at := None, o_no_show_at := None, o_cancelled_at := None\<rparr>]\<rparr>"
  using assms by (auto simp: insert_order_row_def io_simps Let_def split: if_splits)

text \<open>The row a new order becomes.\<close>

definition fresh_row :: "order \<Rightarrow> order_row" where
  "fresh_row y = (row_of y)\<lparr>o_ready_at := None, o_picked_up_at := None, o_no_show_at := None,
     o_cancelled_at := None\<rparr>"

lemma fresh_row_simps [simp]:
  "o_id (fresh_row x) = o_id x" "o_user (fresh_row x) = o_user x" "o_vendor (fresh_row x) = o_vendor x"
  "o_plant (fresh_row x) = o_plant x" "o_date (fresh_row x) = o_date x"
  "o_status (fresh_row x) = o_status x" "o_total (fresh_row x) = o_total x"
  "o_notes (fresh_row x) = o_notes x" "o_number (fresh_row x) = o_number x"
  "o_cutoff_at (fresh_row x) = o_cutoff_at x" "o_placed_at (fresh_row x) = o_placed_at x"
  by (simp_all add: fresh_row_def)

lemma order_create_tx_ok:
  assumes "order_create_tx E x w = (Inr y, w')"
  shows "w_db w' = (w_db w)\<lparr>orders := orders (w_db w) @ [fresh_row y],
      order_items := order_items (w_db w) @ map stored (o_items y)\<rparr>"
    and "o_id y \<notin> o_id ` set (orders (w_db w))"
    and "o_number y \<notin> o_number ` set (orders (w_db w))"
    and "o_user y = o_user x \<and> o_vendor y = o_vendor x \<and> o_plant y = o_plant x \<and> o_date y = o_date x
      \<and> o_status y = o_status x \<and> o_total y = o_total x \<and> o_notes y = o_notes x
      \<and> o_cutoff_at y = o_cutoff_at x \<and> o_placed_at y = o_placed_at x"
    and "map line (o_items y) = map line (o_items x)"
    and "\<forall>i\<in>set (o_items y). i_order i = o_id y"
    and "distinct (map i_id (o_items y))"
    and "i_id ` set (o_items y) \<inter> i_id ` set (order_items (w_db w)) = {}"
    and "0 \<le> o_total x"
    and "\<forall>i\<in>set (o_items x). 0 < i_qty i \<and> i_qty i \<le> int4_max \<and> 0 \<le> i_price i
      \<and> by_key m_id (i_menu_item i) (menu_items (w_db w)) \<noteq> None"
proof -
  from assms obtain y0 w1 js where 1: "insert_order_row E x w = (Inr y0, w1)"
    and 2: "collect (insert_item E (o_id y0)) (o_items y0) w1 = (Inr js, w')"
    and y: "y = y0\<lparr>o_items := js\<rparr>"
    by (auto simp: order_create_tx_def io_simps)
  note R = insert_order_row_ok [OF 1] and I = insert_items_ok [OF 2]
  from R obtain i n t where y0: "y0 = x\<lparr>o_id := i, o_number := n, o_created_at := t, o_updated_at := t\<rparr>"
    by blast
  then have its: "o_items y0 = o_items x" by simp
  show "w_db w' = (w_db w)\<lparr>orders := orders (w_db w) @ [fresh_row y],
      order_items := order_items (w_db w) @ map stored (o_items y)\<rparr>"
    using R I y by (auto simp: fresh_row_def)
  show "o_id y \<notin> o_id ` set (orders (w_db w))" "o_number y \<notin> o_number ` set (orders (w_db w))"
    "0 \<le> o_total x"
    using R y by auto
  show "o_user y = o_user x \<and> o_vendor y = o_vendor x \<and> o_plant y = o_plant x \<and> o_date y = o_date x
      \<and> o_status y = o_status x \<and> o_total y = o_total x \<and> o_notes y = o_notes x
      \<and> o_cutoff_at y = o_cutoff_at x \<and> o_placed_at y = o_placed_at x"
    using y y0 by simp
  show "map line (o_items y) = map line (o_items x)" "\<forall>i\<in>set (o_items y). i_order i = o_id y"
    "distinct (map i_id (o_items y))"
    "i_id ` set (o_items y) \<inter> i_id ` set (order_items (w_db w)) = {}"
    using I y its R by auto
  show "\<forall>i\<in>set (o_items x). 0 < i_qty i \<and> i_qty i \<le> int4_max \<and> 0 \<le> i_price i
      \<and> by_key m_id (i_menu_item i) (menu_items (w_db w)) \<noteq> None"
    using I R unfolding its by (auto simp del: not_None_eq)
qed

subsection \<open>Replacing the items\<close>

lemma replace_items_tx_ok:
  assumes "replace_items_tx E oid is tot notes w = (Inr js, w')"
  shows "w_db w' = (w_db w)\<lparr>
      orders := sql_update (\<lambda>r. o_id r = oid)
        (\<lambda>r. r\<lparr>o_total := tot, o_notes := notes, o_updated_at := e_dbnow E\<rparr>) (orders (w_db w)),
      order_items := filter (\<lambda>i. i_order i \<noteq> oid) (order_items (w_db w)) @ map stored js\<rparr>"
    and "map line js = map line is \<and> (\<forall>j\<in>set js. i_order j = oid) \<and> distinct (map i_id js)"
    and "i_id ` set js \<inter> i_id ` set (filter (\<lambda>i. i_order i \<noteq> oid) (order_items (w_db w))) = {}"
    and "\<forall>i\<in>set is. 0 < i_qty i \<and> i_qty i \<le> int4_max \<and> 0 \<le> i_price i"
    and "by_key o_id oid (orders (w_db w)) \<noteq> None" and "0 \<le> tot"
proof -
  from assms obtain w1 w2 where 1: "delete_items E oid w = (Inr (), w1)"
    and 2: "collect (insert_item E oid) is w1 = (Inr js, w2)"
    and 3: "update_order_total E oid tot notes w2 = (Inr (), w')"
    by (auto simp: replace_items_tx_def io_simps)
  from 1 have w1: "w_db w1 = (w_db w)\<lparr>order_items := filter (\<lambda>i. i_order i \<noteq> oid) (order_items (w_db w))\<rparr>"
    by (auto simp: delete_items_def io_simps Let_def)
  note I = insert_items_ok [OF 2]
  from 3 have w': "w_db w' = (w_db w2)\<lparr>orders := sql_update (\<lambda>r. o_id r = oid)
       (\<lambda>r. r\<lparr>o_total := tot, o_notes := notes, o_updated_at := e_dbnow E\<rparr>) (orders (w_db w2))\<rparr>"
    and ex: "0 \<le> tot" "list_ex (\<lambda>r. o_id r = oid) (orders (w_db w2))"
    by (auto simp: update_order_total_def io_simps Let_def sql_affected_0_iff split: if_splits)
  show "w_db w' = (w_db w)\<lparr>
      orders := sql_update (\<lambda>r. o_id r = oid)
        (\<lambda>r. r\<lparr>o_total := tot, o_notes := notes, o_updated_at := e_dbnow E\<rparr>) (orders (w_db w)),
      order_items := filter (\<lambda>i. i_order i \<noteq> oid) (order_items (w_db w)) @ map stored js\<rparr>"
    using w' I w1 by simp
  show "map line js = map line is \<and> (\<forall>j\<in>set js. i_order j = oid) \<and> distinct (map i_id js)"
    "i_id ` set js \<inter> i_id ` set (filter (\<lambda>i. i_order i \<noteq> oid) (order_items (w_db w))) = {}"
    "\<forall>i\<in>set is. 0 < i_qty i \<and> i_qty i \<le> int4_max \<and> 0 \<le> i_price i"
    using I by (simp_all add: w1)
  show "0 \<le> tot" by (rule ex(1))
  show "by_key o_id oid (orders (w_db w)) \<noteq> None"
    using ex(2) I w1 by (auto simp: by_key_None list_ex_iff)
qed

subsection \<open>Appends\<close>

lemma state_append_tx_ok:
  assumes "state_append_tx E ev w = (Inr (), w')"
  shows "w_db w' = (w_db w)\<lparr>state_events := state_events (w_db w) @
      [ev\<lparr>ev_id := w_event_seq w, ev_at := e_dbnow E\<rparr>]\<rparr>"
    and "by_key o_id (ev_order ev) (orders (w_db w)) \<noteq> None" and "fk_user (w_db w) (ev_actor ev)"
  using assms by (auto simp: state_append_tx_def io_simps Let_def split: if_splits)

lemma outbox_append_tx_ok:
  assumes "outbox_append_tx E ty i subj pl hs w = (Inr (), w')"
  shows "w_db w' = (w_db w)\<lparr>outbox := outbox (w_db w) @
      [\<lparr>ox_id = w_outbox_seq w, ox_type = ty, ox_agg = i, ox_subject = subj, ox_payload = pl,
        ox_headers = hs, ox_created_at = e_dbnow E, ox_published_at = None, ox_attempts = 0,
        ox_last_error = None\<rparr>]\<rparr>"
  using assms by (auto simp: outbox_append_tx_def io_simps Let_def)

lemma audit_write_tx_ok:
  assumes "audit_write_tx E e w = (Inr (), w')"
  shows "w_db w' = (w_db w)\<lparr>audits := audits (w_db w) @
      [audit_entry.extend e (audit_row.fields (w_audit_seq w) (e_dbnow E))]\<rparr>"
  using assms by (auto simp: audit_write_tx_def io_simps Let_def split: if_splits)

text \<open>The columns a log row takes over from the entry it records.\<close>

definition records_event :: "state_event \<Rightarrow> state_event \<Rightarrow> bool" where
  "records_event r e \<longleftrightarrow> r\<lparr>ev_id := ev_id e, ev_at := ev_at e\<rparr> = e"

definition records_audit :: "audit_row \<Rightarrow> audit_entry \<Rightarrow> bool" where
  "records_audit r e \<longleftrightarrow> audit_entry.truncate r = e"

definition records_message ::
    "outbox_event \<Rightarrow> string \<times> uuid \<times> string \<times> payload \<Rightarrow> bool" where
  "records_message r e \<longleftrightarrow> (ox_type r, ox_agg r, ox_subject r, ox_payload r) = e
     \<and> ox_published_at r = None \<and> ox_attempts r = 0"

interpretation event_log: append_log "state_append_tx E" state_events records_event for E
  by unfold_locales (auto dest!: state_append_tx_ok(1) simp: records_event_def)

interpretation audit_log: append_log "audit_write_tx E" audits records_audit for E
  by unfold_locales (auto dest!: audit_write_tx_ok simp: records_audit_def audit_entry.defs audit_row.defs)

interpretation outbox_log: append_log "\<lambda>(ty, i, subj, pl). outbox_append_tx E ty i subj pl []"
    outbox records_message for E
  by unfold_locales (auto dest!: outbox_append_tx_ok simp: records_message_def split: prod.splits)

section \<open>The constraints of the order tables\<close>

text \<open>
  Primary keys and the unique order number, the foreign key from items to orders, and the
  CHECK constraints on quantities, prices and totals.
\<close>

definition wf_orders :: "db \<Rightarrow> bool" where
  "wf_orders d \<longleftrightarrow> wf_order_ids d \<and> distinct (map o_number (orders d))
    \<and> distinct (map i_id (order_items d))
    \<and> (\<forall>i\<in>set (order_items d). 0 < i_qty i \<and> i_qty i \<le> int4_max \<and> 0 \<le> i_price i
         \<and> i_order i \<in> o_id ` set (orders d))
    \<and> (\<forall>r\<in>set (orders d). 0 \<le> o_total r)"

lemma wf_orders_ids: "wf_orders d \<Longrightarrow> wf_order_ids d"
  by (simp add: wf_orders_def)

lemma wf_orders_update:
  assumes "wf_orders d" "\<And>r. P r \<Longrightarrow> o_id (f r) = o_id r" "\<And>r. P r \<Longrightarrow> o_number (f r) = o_number r"
    and "\<And>r. P r \<Longrightarrow> 0 \<le> o_total r \<Longrightarrow> 0 \<le> o_total (f r)"
  shows "wf_orders (d\<lparr>orders := sql_update P f (orders d)\<rparr>)"
proof -
  have ids: "map o_id (sql_update P f (orders d)) = map o_id (orders d)"
    by (rule map_sql_update) (rule assms(2))
  moreover have "map o_number (sql_update P f (orders d)) = map o_number (orders d)"
    by (rule map_sql_update) (rule assms(3))
  moreover from ids have "o_id ` set (sql_update P f (orders d)) = o_id ` set (orders d)"
    by (metis list.set_map)
  ultimately show ?thesis
    using assms(1,4) by (auto simp: wf_orders_def wf_order_ids_def set_sql_update)
qed

lemma wf_orders_fields [simp]:
  "wf_orders (d\<lparr>supplies := a\<rparr>) = wf_orders d" "wf_orders (d\<lparr>state_events := b\<rparr>) = wf_orders d"
  "wf_orders (d\<lparr>outbox := c\<rparr>) = wf_orders d" "wf_orders (d\<lparr>audits := e\<rparr>) = wf_orders d"
  by (simp_all add: wf_orders_def wf_order_ids_def)

lemma keeps_order_update_where:
  assumes "\<And>r. o_id (f r) = o_id r" "\<And>r. o_number (f r) = o_number r" "\<And>r. o_total (f r) = o_total r"
  shows "keeps wf_orders (order_update_where E Q f k)"
  unfolding order_update_where_def
  by (rule keeps_exec) (auto simp: Let_def assms split: if_splits intro!: wf_orders_update)

lemma keeps_wf_order_updates [keeps_intros]:
  "keeps wf_orders (update_status_tx E from to k)" "keeps wf_orders (mark_ready_tx E k)"
  "keeps wf_orders (mark_picked_up_tx E k)" "keeps wf_orders (mark_no_show_tx E k)"
  unfolding update_status_tx_def mark_ready_tx_def mark_picked_up_tx_def mark_no_show_tx_def
  by (rule keeps_order_update_where; simp)+

lemma keeps_wf_insert_item [keeps_intros]: "keeps wf_orders (insert_item E oid it)"
  unfolding insert_item_def
  by (rule keeps_exec)
    (auto simp: Let_def wf_orders_def wf_order_ids_def int4_ok_def by_key_None split: if_splits)

lemma keeps_wf_order_inserts [keeps_intros]:
  "keeps wf_orders (insert_order_row E x)" "keeps wf_orders (delete_items E oid)"
  "keeps wf_orders (update_order_total E oid tot notes)"
proof -
  show "keeps wf_orders (insert_order_row E x)" unfolding insert_order_row_def
    by (rule keeps_exec) (auto simp: Let_def wf_orders_def wf_order_ids_def split: if_splits)
  show "keeps wf_orders (delete_items E oid)" unfolding delete_items_def
    by (rule keeps_exec) (auto simp: Let_def wf_orders_def wf_order_ids_def
        intro: distinct_map_filter)
  show "keeps wf_orders (update_order_total E oid tot notes)" unfolding update_order_total_def
    by (rule keeps_exec) (auto simp: Let_def split: if_splits intro!: wf_orders_update)
qed

lemma keeps_wf_order_repo [keeps_intros]:
  "keeps wf_orders (order_create_tx E x)" "keeps wf_orders (replace_items_tx E oid is tot notes)"
  unfolding order_create_tx_def replace_items_tx_def by (auto intro!: keeps_intros)

text \<open>A predicate that does not look at a log is kept by an append to it.\<close>

lemma keeps_state_append:
  "(\<And>d x. I (d\<lparr>state_events := x\<rparr>) = I d) \<Longrightarrow> keeps I (state_append_tx E ev)"
  unfolding state_append_tx_def by (rule keeps_exec) (auto simp: Let_def split: if_splits)

lemma keeps_outbox_append:
  "(\<And>d x. I (d\<lparr>outbox := x\<rparr>) = I d) \<Longrightarrow> keeps I (outbox_append_tx E ty i subj pl hs)"
  unfolding outbox_append_tx_def by (rule keeps_exec) (auto simp: Let_def)

lemma keeps_audit_write:
  "(\<And>d x. I (d\<lparr>audits := x\<rparr>) = I d) \<Longrightarrow> keeps I (audit_write_tx E e)"
  unfolding audit_write_tx_def by (rule keeps_exec) (auto simp: Let_def split: if_splits)

lemma keeps_wf_orders_logs [keeps_intros]:
  "keeps wf_orders (state_append_tx E ev)" "keeps wf_orders (outbox_append_tx E ty i subj pl hs)"
  "keeps wf_orders (audit_write_tx E e)"
  by (simp_all add: keeps_state_append keeps_outbox_append keeps_audit_write)

lemma wf_supplies_fields [simp]:
  "wf_supplies (d\<lparr>orders := a\<rparr>) = wf_supplies d" "wf_supplies (d\<lparr>order_items := b\<rparr>) = wf_supplies d"
  "wf_supplies (d\<lparr>state_events := c\<rparr>) = wf_supplies d" "wf_supplies (d\<lparr>outbox := e\<rparr>) = wf_supplies d"
  "wf_supplies (d\<lparr>audits := f\<rparr>) = wf_supplies d"
  by (simp_all add: wf_supplies_def)

text \<open>No statement of the order repositories looks at the supplies.\<close>

lemma keeps_insensitive_exec:
  assumes "\<And>w a w'. f w = Inr (a, w') \<Longrightarrow> I (w_db w') = I (w_db w)"
  shows "keeps I (exec E f)"
  by (rule keeps_exec) (simp add: assms)

lemma keeps_wf_supplies_orders [keeps_intros]:
  "keeps wf_supplies (order_update_where E Q f k)" "keeps wf_supplies (insert_item E oid it)"
  "keeps wf_supplies (insert_order_row E x)" "keeps wf_supplies (delete_items E oid)"
  "keeps wf_supplies (update_order_total E oid tot notes)"
  "keeps wf_supplies (state_append_tx E ev)" "keeps wf_supplies (outbox_append_tx E ty i subj pl hs)"
  "keeps wf_supplies (audit_write_tx E e)"
  unfolding order_update_where_def insert_item_def insert_order_row_def delete_items_def
    update_order_total_def state_append_tx_def outbox_append_tx_def audit_write_tx_def
  by (rule keeps_insensitive_exec; auto simp: Let_def split: if_splits)+

lemma keeps_wf_supplies_order_repo [keeps_intros]:
  "keeps wf_supplies (order_create_tx E x)" "keeps wf_supplies (replace_items_tx E oid is tot notes)"
  "keeps wf_supplies (update_status_tx E from to k)" "keeps wf_supplies (mark_ready_tx E k)"
  "keeps wf_supplies (mark_picked_up_tx E k)" "keeps wf_supplies (mark_no_show_tx E k)"
  unfolding order_create_tx_def replace_items_tx_def update_status_tx_def mark_ready_tx_def
    mark_picked_up_tx_def mark_no_show_tx_def
  by (auto intro!: keeps_intros)

lemma keeps_wf_orders_quota [keeps_intros]:
  "keeps wf_orders (decrement_tx E i dt n)" "keeps wf_orders (restore_tx E i dt n)"
  "keeps wf_orders (supply_upsert E s)" "keeps wf_orders (supply_set_sold_out E i dt b)"
proof -
  have dec: "keeps wf_orders (sql_decrement E (i, dt) n)" unfolding sql_decrement_def
    by (rule keeps_insensitive_exec) (auto simp: Let_def split: if_splits option.splits)
  show "keeps wf_orders (decrement_tx E i dt n)" unfolding decrement_tx_def
    by (auto intro!: keeps_intros dec)
  show "keeps wf_orders (restore_tx E i dt n)" unfolding restore_tx_def
    by (auto intro!: keeps_intros keeps_insensitive_exec simp: Let_def split: if_splits)
  show "keeps wf_orders (supply_upsert E s)" unfolding supply_upsert_def
    by (rule keeps_insensitive_exec) (auto simp: Let_def split: if_splits option.splits)
  show "keeps wf_orders (supply_set_sold_out E i dt b)" unfolding supply_set_sold_out_def
    by (rule keeps_insensitive_exec) (auto simp: Let_def split: if_splits)
qed

end
