(* ===== verification/Tables.thy ===== *)
theory Tables
  imports Order_Repo
begin

text \<open>
  The statement shapes the remaining repositories are made of, over any table of the database:
  a single-row \<open>SELECT ... WHERE id = $1\<close> with the sentinel error for no row, a listing, an
  \<open>INSERT ... RETURNING\<close> and an \<open>UPDATE ... WHERE\<close> with the sentinel error for no affected
  row. Locale \<open>table\<close> states what a table is (a field of \<^typ>\<open>db\<close> and its update), and the
  conditional updates of its rows are instances of the contract \<open>guarded_update\<close> of theory
  \<open>Store\<close>.
\<close>

section \<open>Statements\<close>

definition get_row :: "env \<Rightarrow> (db \<Rightarrow> 'r list) \<Rightarrow> ('r \<Rightarrow> 'k) \<Rightarrow> err \<Rightarrow> 'k \<Rightarrow> 'r io" where
  "get_row E tbl key missing k = query E (\<lambda>d.
     case by_key key k (tbl d) of None \<Rightarrow> Inl missing | Some r \<Rightarrow> Inr r)"

definition select_rows ::
    "env \<Rightarrow> (db \<Rightarrow> 'r list) \<Rightarrow> ('r \<Rightarrow> bool) \<Rightarrow> ('r list \<Rightarrow> 'r list) \<Rightarrow> 'r list io" where
  "select_rows E tbl P srt = query E (\<lambda>d. Inr (srt (filter P (tbl d))))"

text \<open>
  \<open>chk\<close> is what the constraints of the table say to the new row in the given database:
  \<open>None\<close>, or the error of the violated one.
\<close>

definition insert_row ::
    "env \<Rightarrow> (('r list \<Rightarrow> 'r list) \<Rightarrow> db \<Rightarrow> db) \<Rightarrow> (db \<Rightarrow> 'r \<Rightarrow> err option) \<Rightarrow> (uuid \<Rightarrow> 'r) \<Rightarrow> 'r io" where
  "insert_row E upd chk mk = exec E (\<lambda>w. let d = w_db w; r = mk (e_uuid E (w_tick w)) in
     case chk d r of
       Some e \<Rightarrow> Inl e
     | None \<Rightarrow> Inr (r, w\<lparr>w_db := upd (\<lambda>rs. rs @ [r]) d\<rparr>))"

fun first_err :: "('r \<Rightarrow> err option) \<Rightarrow> 'r list \<Rightarrow> err option" where
  "first_err chk [] = None"
| "first_err chk (r # rs) = (case chk r of Some e \<Rightarrow> Some e | None \<Rightarrow> first_err chk rs)"

definition update_rows ::
    "env \<Rightarrow> (db \<Rightarrow> 'r list) \<Rightarrow> (('r list \<Rightarrow> 'r list) \<Rightarrow> db \<Rightarrow> db) \<Rightarrow> (db \<Rightarrow> 'r \<Rightarrow> err option) \<Rightarrow>
     err option \<Rightarrow> ('r \<Rightarrow> bool) \<Rightarrow> ('r \<Rightarrow> 'r) \<Rightarrow> unit io" where
  "update_rows E tbl upd chk lost P f = exec E (\<lambda>w. let d = w_db w; hit = filter P (tbl d) in
     if hit = [] then (case lost of None \<Rightarrow> Inr ((), w) | Some e \<Rightarrow> Inl e)
     else case first_err (\<lambda>r. chk d (f r)) hit of
       Some e \<Rightarrow> Inl e
     | None \<Rightarrow> Inr ((), w\<lparr>w_db := upd (sql_update P f) d\<rparr>))"

definition no_check :: "db \<Rightarrow> 'r \<Rightarrow> err option" where
  "no_check d r = None"

text \<open>A sequence of constraints, each the condition that violates it and its error.\<close>

fun checks :: "(bool \<times> err) list \<Rightarrow> err option" where
  "checks [] = None"
| "checks ((bad, e) # cs) = (if bad then Some e else checks cs)"

lemmas table_runs [run_simps] = fun_cong [OF get_row_def] fun_cong [OF select_rows_def]
  fun_cong [OF insert_row_def] fun_cong [OF update_rows_def] no_check_def

section \<open>What they do\<close>

lemma ro_table_reads [ro_intros]: "ro (get_row E tbl key e k)" "ro (select_rows E tbl P srt)"
  by (auto simp: get_row_def select_rows_def intro: ro_intros)

lemma atomic_table_writes [atomic_intros]:
  "atomic (insert_row E upd chk mk)" "atomic (update_rows E tbl upd' chk' lost P f)"
  by (auto simp: insert_row_def update_rows_def intro: atomic_intros)

lemma get_row_ok [io_simps]:
  "get_row E tbl key e k w = (Inr r, w') \<longleftrightarrow>
     e_fault E (w_tick w) = None \<and> by_key key k (tbl (w_db w)) = Some r \<and> w' = w\<lparr>w_tick := Suc (w_tick w)\<rparr>"
  by (auto simp: get_row_def io_simps split: option.splits)

lemma select_rows_ok [io_simps]:
  "select_rows E tbl P srt w = (Inr rs, w') \<longleftrightarrow>
     e_fault E (w_tick w) = None \<and> rs = srt (filter P (tbl (w_db w))) \<and> w' = w\<lparr>w_tick := Suc (w_tick w)\<rparr>"
  by (auto simp: select_rows_def io_simps)

lemma insert_row_ok:
  assumes "insert_row E upd chk mk w = (Inr r, w')"
  shows "r = mk (e_uuid E (w_tick w))" "chk (w_db w) r = None" "w_db w' = upd (\<lambda>rs. rs @ [r]) (w_db w)"
  using assms by (auto simp: insert_row_def io_simps Let_def split: option.splits)

lemma first_err_None: "first_err chk rs = None \<longleftrightarrow> (\<forall>r\<in>set rs. chk r = None)"
  by (induction rs) (auto split: option.splits)

lemma no_check_passes: "first_err (\<lambda>r. no_check d (f r)) rs = None"
  by (simp add: first_err_None no_check_def)

lemma checks_None [simp]: "checks ((b, e) # cs) = None \<longleftrightarrow> \<not> b \<and> checks cs = None"
  by simp

declare checks.simps(2) [simp del]

lemma checks_run [run_simps]: "checks ((b, e) # cs) = (if b then Some e else checks cs)"
  by (rule checks.simps)

lemma update_rows_ok:
  assumes "update_rows E tbl upd chk (Some e) P f w = (Inr (), w')"
  shows "w_db w' = upd (sql_update P f) (w_db w)" "\<exists>r\<in>set (tbl (w_db w)). P r"
    "\<forall>r\<in>set (tbl (w_db w)). P r \<longrightarrow> chk (w_db w) (f r) = None"
  using assms
  by (auto simp: update_rows_def io_simps Let_def first_err_None filter_empty_conv
      split: option.splits if_splits)

lemma update_rows_lost:
  "update_rows E tbl upd chk (Some e) P f w = (Inl x, w') \<Longrightarrow> (\<And>d r y. chk d r = Some y \<Longrightarrow> \<exists>p. y = DbErr p) \<Longrightarrow>
     x = e \<or> (\<exists>p. x = DbErr p)"
proof -
  have fe: "first_err g rs = Some y \<Longrightarrow> \<exists>r. g r = Some y" for g rs y
    by (induction rs) (auto split: option.splits)
  assume "update_rows E tbl upd chk (Some e) P f w = (Inl x, w')"
    and c: "\<And>d r y. chk d r = Some y \<Longrightarrow> \<exists>p. y = DbErr p"
  then show ?thesis
    by (auto simp: update_rows_def exec_err Let_def split: option.splits if_splits dest!: fe)
qed

section \<open>Tables\<close>

locale table =
  fixes tbl :: "db \<Rightarrow> 'r list"
    and upd :: "('r list \<Rightarrow> 'r list) \<Rightarrow> db \<Rightarrow> db"
    and key :: "'r \<Rightarrow> uuid"
  assumes tbl_upd: "tbl (upd g d) = g (tbl d)"
begin

text \<open>The primary key: no two rows have the same id.\<close>

definition keyed :: "db \<Rightarrow> bool" where
  "keyed d \<longleftrightarrow> distinct (map key (tbl d))"

lemma keyed_insert:
  assumes "keyed (w_db w)" "insert_row E upd chk mk w = (Inr r, w')" "key r \<notin> key ` set (tbl (w_db w))"
  shows "keyed (w_db w')" "by_key key k (tbl (w_db w')) = (if k = key r then Some r else by_key key k (tbl (w_db w)))"
  using assms(1,3) insert_row_ok(3) [OF assms(2)]
  by (auto simp: keyed_def tbl_upd by_key_append by_key_None [symmetric] split: option.splits)

lemma update_at:
  assumes "\<And>r. P r \<Longrightarrow> key (f r) = key r" "update_rows E tbl upd chk (Some e) P f w = (Inr (), w')"
  shows "by_key key k (tbl (w_db w')) = map_option (\<lambda>r. if P r then f r else r) (by_key key k (tbl (w_db w)))"
    and "map key (tbl (w_db w')) = map key (tbl (w_db w))"
  by (simp_all add: update_rows_ok(1) [OF assms(2)] tbl_upd by_key_sql_update map_sql_update assms(1))

lemma update_keeps_rows:
  assumes "\<And>r. P r \<Longrightarrow> key (f r) = key r"
  shows "keyed (upd (sql_update P f) d) = keyed d"
  by (simp add: keyed_def tbl_upd map_sql_update assms)

text \<open>A conditional update of the status column has one winner.\<close>

lemma guarded:
  assumes "\<And>r. key (f r) = key r" "\<And>r. st (f r) = to" "\<not> Q to"
    and "\<And>d r y. chk d r = Some y \<Longrightarrow> \<exists>p. y = DbErr p"
  shows "guarded_update (\<lambda>k. update_rows E tbl upd chk (Some e) (\<lambda>r. key r = k \<and> Q (st r)) f)
     (\<lambda>d k. map_option st (by_key key k (tbl d))) keyed Q to e"
proof
  let ?P = "\<lambda>k r. key r = k \<and> Q (st r)"
  fix w k w'
  assume wf: "keyed (w_db w)" and run: "update_rows E tbl upd chk (Some e) (?P k) f w = (Inr (), w')"
  note at = update_at(1) [OF assms(1) run]
  from update_rows_ok(2) [OF run] wf obtain r where r: "by_key key k (tbl (w_db w)) = Some r" "Q (st r)"
    by (auto simp: keyed_def by_key_iff)
  then show "\<exists>s. map_option st (by_key key k (tbl (w_db w))) = Some s \<and> Q s" by simp
  show "map_option st (by_key key k (tbl (w_db w'))) = Some to"
    using at r by (auto simp: assms(2) dest: by_key_SomeD)
  show "map_option st (by_key key k' (tbl (w_db w'))) = map_option st (by_key key k' (tbl (w_db w)))"
    if "k' \<noteq> k" for k'
    using at [of k'] that by (cases "by_key key k' (tbl (w_db w))") (auto dest: by_key_SomeD)
  show "keyed (w_db w')"
    using wf update_at(2) [OF assms(1) run] by (simp add: keyed_def)
next
  fix k w x w'
  assume "update_rows E tbl upd chk (Some e) (\<lambda>r. key r = k \<and> Q (st r)) f w = (Inl x, w')"
  then show "x = e \<or> (\<exists>p. x = DbErr p)" using assms(4) by (rule update_rows_lost)
qed (fact assms(3))

end

interpretation batch_tbl: table batches batches_update b_id by unfold_locales simp
interpretation entry_tbl: table entries entries_update e_id by unfold_locales simp
interpretation exception_tbl: table exceptions exceptions_update x_id by unfold_locales simp
interpretation dispute_tbl: table disputes disputes_update d_id by unfold_locales simp
interpretation settlement_tbl: table settlements settlements_update st_id by unfold_locales simp
interpretation rating_tbl: table ratings ratings_update r_id by unfold_locales simp
interpretation complaint_tbl: table complaints complaints_update c_id by unfold_locales simp

text \<open>Statements on other tables keep a predicate that does not read them.\<close>

lemma keeps_table_writes:
  assumes "\<And>g d. I (upd g d) = I d"
  shows "keeps I (insert_row E upd chk mk)" "keeps I (update_rows E tbl upd chk' lost P f)"
  by (auto simp: insert_row_def update_rows_def assms Let_def intro!: keeps_exec
      split: option.splits if_splits)

lemma fk_user_None [simp]: "fk_user d None"
  by (simp add: fk_user_def)

lemma db_errors [simp]:
  "\<exists>p. fk_violation = DbErr p" "\<exists>p. unique_violation = DbErr p" "\<exists>p. check_violation = DbErr p"
  "\<exists>p. out_of_range = DbErr p"
  by (simp_all add: fk_violation_def unique_violation_def check_violation_def out_of_range_def)

end
