(* ===== verification/Identity.thy ===== *)
theory Identity
  imports Sessions Tables "HOL-Library.List_Lexorder" "HOL-Library.Char_ord"
begin

text \<open>
  Who may enter: the user and identity repositories (\<open>identity/postgres\<close>), the login service
  (\<open>identity/service.go\<close>, with \<open>identity/oidc/generic.go\<close>), the HTTP layer of the logins
  (\<open>identity/http/handlers.go\<close>), the bearer authentication (\<open>identity/http/middleware.go\<close>,
  \<open>identity/hydra/jwt.go\<close>) and the role gates (\<open>identity/http/authz.go\<close>). The OpenID client
  libraries are parameters: the authorization URL, the answer of the token endpoint once its ID
  token is verified, and the verified content of an access token.
\<close>

section \<open>Users and identities\<close>

definition fk_vendor :: "db \<Rightarrow> uuid option \<Rightarrow> bool" where
  "fk_vendor d v = (case v of None \<Rightarrow> True | Some i \<Rightarrow> list_ex (\<lambda>x. v_id x = i) (vendors d))"

definition user_email_taken :: "db \<Rightarrow> user \<Rightarrow> bool" where
  "user_email_taken d u \<longleftrightarrow> list_ex (\<lambda>x. u_id x \<noteq> u_id u \<and> u_email x = u_email u) (users d)"

definition user_check :: "db \<Rightarrow> user \<Rightarrow> err option" where
  "user_check d u = checks [(u_email u \<noteq> to_lower (u_email u), check_violation), (user_email_taken d u, unique_violation),
     (\<not> fk_vendor d (u_vendor u), fk_violation)]"

definition user_insert_check :: "db \<Rightarrow> user \<Rightarrow> err option" where
  "user_insert_check d u = checks
     [(u_email u \<noteq> to_lower (u_email u), check_violation),
      (u_id u \<in> u_id ` set (users d) \<or> u_email u \<in> u_email ` set (users d), unique_violation),
      (\<not> fk_vendor d (u_vendor u), fk_violation)]"

definition user_create :: "env \<Rightarrow> user \<Rightarrow> user io" where
  "user_create E u = insert_row E users_update user_insert_check
     (\<lambda>i. u\<lparr>u_id := i, u_created_at := e_dbnow E, u_updated_at := e_dbnow E\<rparr>)"

definition user_get_by_id :: "env \<Rightarrow> uuid \<Rightarrow> user io" where
  "user_get_by_id E i = get_row E users u_id (IdentityErr ErrIdUserNotFound) i"

definition user_get_by_email :: "env \<Rightarrow> string \<Rightarrow> user io" where
  "user_get_by_email E em = get_row E users u_email (IdentityErr ErrIdUserNotFound) em"

definition user_update_status :: "env \<Rightarrow> uuid \<Rightarrow> user_status \<Rightarrow> unit io" where
  "user_update_status E i s = update_rows E users users_update no_check None (\<lambda>u. u_id u = i)
     (\<lambda>u. u\<lparr>u_status := s, u_updated_at := e_dbnow E\<rparr>)"

text \<open>Everything but the id and the creation time is overwritten.\<close>

definition with_profile :: "env \<Rightarrow> user \<Rightarrow> user \<Rightarrow> user" where
  "with_profile E c u = c\<lparr>u_id := u_id u, u_created_at := u_created_at u, u_updated_at := e_dbnow E\<rparr>"

definition user_update_profile :: "env \<Rightarrow> user \<Rightarrow> user io" where
  "user_update_profile E c = exec E (\<lambda>w. let d = w_db w in case by_key u_id (u_id c) (users d) of
       None \<Rightarrow> Inl (DbErr IoErr)
     | Some u \<Rightarrow> (case user_check d (with_profile E c u) of
         Some e \<Rightarrow> Inl e
       | None \<Rightarrow> Inr (with_profile E c u, w\<lparr>w_db := d\<lparr>users := sql_update (\<lambda>x. u_id x = u_id c) (with_profile E c) (users d)\<rparr>\<rparr>)))"

definition slug_start :: "char \<Rightarrow> bool" where
  "slug_start c \<longleftrightarrow> c \<in> set ''abcdefghijklmnopqrstuvwxyz0123456789''"

definition slug_ok :: "string \<Rightarrow> bool" where
  "slug_ok s = (case s of [] \<Rightarrow> False | c # cs \<Rightarrow> slug_start c \<and> list_all (\<lambda>c. slug_start c \<or> c \<in> set ''_.-'') cs)"

definition identity_check :: "db \<Rightarrow> user_identity \<Rightarrow> err option" where
  "identity_check d x = checks
     [(\<not> slug_ok (id_provider x), check_violation),
      (id_id x \<in> id_id ` set (identities d), unique_violation),
      (list_ex (\<lambda>y. id_provider y = id_provider x \<and> id_subject y = id_subject x) (identities d), unique_violation),
      (\<not> fk_user d (Some (id_user x)), fk_violation)]"

definition identity_link :: "env \<Rightarrow> user_identity \<Rightarrow> user_identity io" where
  "identity_link E x = insert_row E identities_update identity_check (\<lambda>i. x\<lparr>id_id := i, id_linked_at := e_dbnow E\<rparr>)"

definition id_key :: "user_identity \<Rightarrow> string \<times> string" where
  "id_key x = (id_provider x, id_subject x)"

definition identity_get :: "env \<Rightarrow> string \<Rightarrow> string \<Rightarrow> user_identity io" where
  "identity_get E pr sub = get_row E identities id_key (IdentityErr ErrIdentityNotFound) (pr, sub)"

definition identity_list_by_user :: "env \<Rightarrow> uuid \<Rightarrow> user_identity list io" where
  "identity_list_by_user E u = select_rows E identities (\<lambda>x. id_user x = u) (\<lambda>xs. xs)"

section \<open>Providers\<close>

text \<open>
  An ID token after the library verified its signature, issuer and audience.
\<close>

record id_token =
  it_nonce :: string
  it_subject :: string
  it_email :: string
  it_email_verified :: bool
  it_name :: string
  it_preferred :: string
  it_claims :: payload

record userinfo =
  un_subject :: string
  un_email :: string
  un_verified :: bool
  un_name :: string
  un_claims :: payload

text \<open>
  \<open>pv_url\<close> is the authorization URL for a state, PKCE verifier and nonce; \<open>pv_token\<close> is the
  verified answer of the token endpoint to a code and verifier at a position of the call sequence.
\<close>

record provider =
  pv_display :: string
  pv_url :: "string \<Rightarrow> string \<Rightarrow> string \<Rightarrow> bool \<Rightarrow> string"
  pv_token :: "nat \<Rightarrow> string \<Rightarrow> string \<Rightarrow> id_token option"

record login_config =
  lc_providers :: "(string \<times> provider) list"
  lc_state_ttl :: time
  lc_session_ttl :: time
  lc_frac_text :: "int \<Rightarrow> int \<Rightarrow> string"

definition provider_exchange :: "provider \<Rightarrow> nat \<Rightarrow> string \<Rightarrow> string \<Rightarrow> string \<Rightarrow> err + userinfo" where
  "provider_exchange p k code verifier nonce = (case pv_token p k code verifier of
       None \<Rightarrow> Inl (IdentityErr ErrExchange)
     | Some t \<Rightarrow> if it_nonce t \<noteq> nonce then Inl (IdentityErr ErrExchange)
         else Inr \<lparr>un_subject = it_subject t, un_email = to_lower (it_email t), un_verified = it_email_verified t,
           un_name = (if it_name t \<noteq> [] then it_name t else if it_preferred t \<noteq> [] then it_preferred t else it_email t),
           un_claims = it_claims t\<rparr>)"

definition provider_infos :: "login_config \<Rightarrow> (string \<times> string) list" where
  "provider_infos cfg = sort_key fst (map (\<lambda>(slug, p). (slug, pv_display p)) (lc_providers cfg))"

section \<open>Claims\<close>

text \<open>\<open>fmt.Sprint\<close> of a decoded JSON value; fractions are rendered by \<open>frac\<close>.\<close>

fun sprint :: "(int \<Rightarrow> int \<Rightarrow> string) \<Rightarrow> json \<Rightarrow> string" where
  "sprint frac JNull = ''<nil>''"
| "sprint frac (JStr s) = s"
| "sprint frac (JInt n) = int_text n"
| "sprint frac (JFrac a b) = frac a b"
| "sprint frac (JBool b) = (if b then ''true'' else ''false'')"
| "sprint frac (JList xs) = ''['' @ join_text '' '' (map (sprint frac) xs) @ '']''"
| "sprint frac (JObj kvs) = ''map['' @ join_text '' ''
     (map (\<lambda>(k, t). k @ '':'' @ t) (sort_key fst (map (\<lambda>(k, v). (k, sprint frac v)) kvs))) @ '']''"

definition claim_string :: "(int \<Rightarrow> int \<Rightarrow> string) \<Rightarrow> payload \<Rightarrow> string \<Rightarrow> string" where
  "claim_string frac claims k = (case map_of claims k of None \<Rightarrow> [] | Some JNull \<Rightarrow> []
     | Some v \<Rightarrow> trim_space (sprint frac v))"

fun role_text :: "user_role \<Rightarrow> string" where
  "role_text Employee = ''employee''"
| "role_text VendorOperator = ''vendor_operator''"
| "role_text WelfareAdmin = ''welfare_admin''"

definition role_of_text :: "string \<Rightarrow> user_role option" where
  "role_of_text s = find (\<lambda>r. role_text r = s) [Employee, VendorOperator, WelfareAdmin]"

definition role_for_app :: "string \<Rightarrow> user_role option" where
  "role_for_app app = (if app = ''employee'' then Some Employee else if app = ''merchant'' then Some VendorOperator
     else if app = ''admin'' then Some WelfareAdmin else None)"

definition valid_app :: "string \<Rightarrow> bool" where
  "valid_app app \<longleftrightarrow> app = ''employee'' \<or> app = ''merchant'' \<or> app = ''admin''"

definition user_from_claims :: "login_config \<Rightarrow> string \<Rightarrow> userinfo \<Rightarrow> err + user" where
  "user_from_claims cfg app ui =
     (let claim = claim_string (lc_frac_text cfg) (un_claims ui) in
      case role_of_text (claim ''tbite_role'') of
        None \<Rightarrow> Inl (IdentityErr ErrInvalidClaims)
      | Some role \<Rightarrow>
        if role_for_app app \<noteq> Some role then Inl (IdentityErr ErrRoleMismatch)
        else let u = \<lparr>u_id = [], u_email = to_lower (un_email ui), u_name = un_name ui, u_role = role, u_status = UserActive,
               u_employee_id = None, u_vendor = None, u_plant = None, u_department = None,
               u_created_at = 0, u_updated_at = 0\<rparr> in
          (case role of
            Employee \<Rightarrow>
              (let eid = claim ''tbite_employee_id''; plant = claim ''tbite_plant''; dep = claim ''tbite_department'' in
               if eid = [] \<or> plant = [] then Inl (IdentityErr ErrInvalidClaims)
               else Inr (u\<lparr>u_employee_id := Some eid, u_plant := Some plant,
                 u_department := (if dep = [] then None else Some dep)\<rparr>))
          | VendorOperator \<Rightarrow>
              (let v = claim ''tbite_vendor_id'' in
               if v = [] then Inl (IdentityErr ErrInvalidClaims) else Inr (u\<lparr>u_vendor := Some v\<rparr>))
          | WelfareAdmin \<Rightarrow> Inr u))"

text \<open>The prefix test is on the bytes.\<close>

definition safe_return_to :: "string \<Rightarrow> string" where
  "safe_return_to s = (if take 1 s \<noteq> ''/'' \<or> take 2 s = ''//'' then ''/'' else s)"

section \<open>Logins\<close>

text \<open>
  Random texts of one step that sends no statement in between (the state, the PKCE verifier and
  the nonce) are numbered.
\<close>

definition start_login :: "env \<Rightarrow> login_config \<Rightarrow> string \<Rightarrow> string \<Rightarrow> string \<Rightarrow> (string \<times> string) io" where
  "start_login E cfg app slug return_to = (\<lambda>w.
     (if \<not> valid_app app then fail (IdentityErr ErrInvalidApp)
      else case map_of (lc_providers cfg) slug of
        None \<Rightarrow> fail (IdentityErr ErrInvalidProvider)
      | Some p \<Rightarrow>
          let st = e_row_uuid E (w_tick w) 0; verifier = e_row_uuid E (w_tick w) 1; nonce = e_row_uuid E (w_tick w) 2 in
          bind (state_put E (lc_state_ttl cfg) st
            \<lparr>sp_app = app, sp_provider = slug, sp_return_to = safe_return_to return_to, sp_verifier = verifier,
             sp_nonce = nonce\<rparr>) (\<lambda>_.
          ret (pv_url p st verifier nonce True, st))) w)"

definition exchange_and_validate :: "login_config \<Rightarrow> nat \<Rightarrow> string \<Rightarrow> state_payload \<Rightarrow> err + (userinfo \<times> user)" where
  "exchange_and_validate cfg k code sp = (case map_of (lc_providers cfg) (sp_provider sp) of
       None \<Rightarrow> Inl (IdentityErr ErrInvalidProvider)
     | Some p \<Rightarrow> (case provider_exchange p k code (sp_verifier sp) (sp_nonce sp) of
         Inl e \<Rightarrow> Inl e
       | Inr ui \<Rightarrow>
           if \<not> un_verified ui then Inl (IdentityErr ErrInvalidClaims)
           else if un_email ui = [] \<or> un_subject ui = [] then Inl (IdentityErr ErrInvalidClaims)
           else (case user_from_claims cfg (sp_app sp) ui of Inl e \<Rightarrow> Inl e | Inr u \<Rightarrow> Inr (ui, u))))"

definition user_for_identity :: "env \<Rightarrow> string \<Rightarrow> string \<Rightarrow> string \<Rightarrow> user option io" where
  "user_for_identity E slug subject email = bind (attempt (identity_get E slug subject)) (\<lambda>r. case r of
       Inr x \<Rightarrow> bind (user_get_by_id E (id_user x)) (\<lambda>u. ret (Some u))
     | Inl e \<Rightarrow> if e \<noteq> IdentityErr ErrIdentityNotFound then fail e
         else bind (attempt (user_get_by_email E email)) (\<lambda>r. case r of
             Inr u \<Rightarrow> ret (Some u)
           | Inl e \<Rightarrow> if e = IdentityErr ErrIdUserNotFound then ret None else fail e))"

definition upsert_user_for_login :: "env \<Rightarrow> string \<Rightarrow> userinfo \<Rightarrow> user \<Rightarrow> user io" where
  "upsert_user_for_login E slug ui claims = bind (user_for_identity E slug (un_subject ui) (u_email claims)) (\<lambda>found.
     case found of
       None \<Rightarrow> user_create E claims
     | Some u \<Rightarrow> if u_status u \<noteq> UserActive then fail (IdentityErr ErrAccountSuspended)
         else user_update_profile E (claims\<lparr>u_id := u_id u\<rparr>))"

definition link_identity_if_missing :: "env \<Rightarrow> string \<Rightarrow> userinfo \<Rightarrow> uuid \<Rightarrow> unit io" where
  "link_identity_if_missing E slug ui user = bind (attempt (identity_get E slug (un_subject ui))) (\<lambda>r. case r of
       Inr _ \<Rightarrow> ret ()
     | Inl e \<Rightarrow> if e \<noteq> IdentityErr ErrIdentityNotFound then fail e
         else bind (identity_link E \<lparr>id_id = [], id_user = user, id_provider = slug, id_subject = un_subject ui,
             id_claims = un_claims ui, id_linked_at = 0\<rparr>) (\<lambda>_. ret ()))"

record login_output =
  lo_user :: user
  lo_session :: session
  lo_app :: string
  lo_return_to :: string

definition login_body :: "env \<Rightarrow> login_config \<Rightarrow> string \<Rightarrow> string \<Rightarrow> string \<Rightarrow> state_payload \<Rightarrow> login_output io" where
  "login_body E cfg slug st code sp =
     (if sp_provider sp \<noteq> slug then fail (IdentityErr ErrProviderMismatch)
      else bind (attempt (state_consume E (lc_state_ttl cfg) st)) (\<lambda>_.
        bind (\<lambda>w. (exchange_and_validate cfg (w_tick w) code sp, w)) (\<lambda>(ui, claims).
        bind (upsert_user_for_login E (sp_provider sp) ui claims) (\<lambda>u.
        bind (link_identity_if_missing E (sp_provider sp) ui (u_id u)) (\<lambda>_.
        bind (session_create E (lc_session_ttl cfg) (u_id u) (u_role u)) (\<lambda>s.
        ret \<lparr>lo_user = u, lo_session = s, lo_app = sp_app sp, lo_return_to = sp_return_to sp\<rparr>))))))"

text \<open>
  A failure after the state was resolved carries the app it was for (\<open>CallbackError\<close>).
\<close>

type_synonym login_failure = "string option \<times> err"

definition complete_login ::
    "env \<Rightarrow> login_config \<Rightarrow> string \<Rightarrow> string \<Rightarrow> string \<Rightarrow> (login_failure + login_output) io" where
  "complete_login E cfg slug st code = bind (attempt (state_get E st)) (\<lambda>r. case r of
       Inl e \<Rightarrow> ret (Inl (None, e))
     | Inr (Inl p) \<Rightarrow> ret (Inl (Some (sp_app p), IdentityErr ErrStateConsumed))
     | Inr (Inr sp) \<Rightarrow> bind (attempt (login_body E cfg slug st code sp)) (\<lambda>r. case r of
         Inl e \<Rightarrow> ret (Inl (Some (sp_app sp), e))
       | Inr out \<Rightarrow> ret (Inr out)))"

section \<open>The HTTP layer of the logins\<close>

record http_config =
  hc_app_urls :: "(string \<times> string) list"
  hc_handoff :: bool

datatype redirect = SeeOther string | Found string | HttpError nat

definition callback_error_code :: "err \<Rightarrow> string" where
  "callback_error_code e = (if e = IdentityErr ErrRoleMismatch then ''role_mismatch''
     else if e = IdentityErr ErrAccountSuspended then ''account_suspended''
     else if e = IdentityErr ErrStateConsumed \<or> e = IdentityErr ErrStateNotFound then ''auth_expired''
     else ''auth_failed'')"

definition identity_status :: "err \<Rightarrow> nat" where
  "identity_status e = (if e = IdentityErr ErrRoleMismatch then 403
     else if e = IdentityErr ErrAccountSuspended then 423
     else if e \<in> IdentityErr ` {ErrInvalidProvider, ErrInvalidRole, ErrInvalidClaims, ErrStateNotFound, ErrStateConsumed} then 400
     else if e \<in> IdentityErr ` {ErrIdUserNotFound, ErrSessionNotFound} then 404
     else 500)"

definition complete_login_http ::
    "env \<Rightarrow> login_config \<Rightarrow> http_config \<Rightarrow> string \<Rightarrow> string \<Rightarrow> string \<Rightarrow> redirect io" where
  "complete_login_http E cfg hc slug st code = bind (complete_login E cfg slug st code) (\<lambda>r. case r of
       Inl (app, e) \<Rightarrow> (case (case app of None \<Rightarrow> None | Some a \<Rightarrow> map_of (hc_app_urls hc) a) of
         None \<Rightarrow> ret (HttpError (identity_status e))
       | Some base \<Rightarrow> ret (SeeOther (base @ ''/login?error='' @ query_escape (callback_error_code e))))
     | Inr out \<Rightarrow> (case map_of (hc_app_urls hc) (lo_app out) of
         None \<Rightarrow> ret (HttpError 500)
       | Some base \<Rightarrow>
           if hc_handoff hc then bind (attempt (issue_code E (ss_token (lo_session out)))) (\<lambda>r. case r of
               Inl _ \<Rightarrow> ret (HttpError 500)
             | Inr c \<Rightarrow> ret (Found (base @ ''/auth/landing?code='' @ query_escape c @ ''&return_to='' @ query_escape (lo_return_to out))))
           else ret (Found (base @ ''/auth/landing?token='' @ query_escape (ss_token (lo_session out))
             @ ''&return_to='' @ query_escape (lo_return_to out)))))"

definition exchange_session :: "env \<Rightarrow> http_config \<Rightarrow> string \<Rightarrow> (nat + string) io" where
  "exchange_session E hc code =
     (if \<not> hc_handoff hc then ret (Inl 503)
      else if code = [] then ret (Inl 400)
      else bind (attempt (redeem_code E code)) (\<lambda>r. case r of Inl _ \<Rightarrow> ret (Inl 401) | Inr t \<Rightarrow> ret (Inr t)))"

definition logout :: "env \<Rightarrow> string option \<Rightarrow> (nat + unit) io" where
  "logout E tok = (case tok of
       None \<Rightarrow> ret (Inl 401)
     | Some t \<Rightarrow> if t = [] then ret (Inl 401)
         else bind (attempt (session_revoke E t)) (\<lambda>r. case r of Inl _ \<Rightarrow> ret (Inl 500) | Inr _ \<Rightarrow> ret (Inr ())))"

section \<open>Bearer authentication\<close>

text \<open>
  An access token after the library verified signature, issuer and expiry: the subject of the
  token and of its claims, and the audience when the claim has one.
\<close>

record access_token =
  at_subject :: string
  at_claims_subject :: string
  at_audience :: "string list"

record auth_config =
  ac_session_ttl :: time
  ac_jwt :: "(string \<Rightarrow> access_token option) option"
  ac_audience :: string

definition audience_allowed :: "string list \<Rightarrow> string \<Rightarrow> bool" where
  "audience_allowed aud expected \<longleftrightarrow> expected = [] \<or> aud = [] \<or> expected \<in> set aud"

definition pick_text :: "string \<Rightarrow> string \<Rightarrow> string" where
  "pick_text a b = (if a \<noteq> [] then a else b)"

definition strip_bearer :: "string \<Rightarrow> string" where
  "strip_bearer raw = trim_space (case cut_prefix ''Bearer '' raw of None \<Rightarrow> raw | Some t \<Rightarrow> t)"

definition verify_access_token :: "auth_config \<Rightarrow> (string \<Rightarrow> access_token option) \<Rightarrow> string \<Rightarrow> string option" where
  "verify_access_token ac lib raw = (case lib (strip_bearer raw) of
       None \<Rightarrow> None
     | Some t \<Rightarrow> let sub = pick_text (at_claims_subject t) (at_subject t) in
         if sub = [] then None
         else if \<not> audience_allowed (at_audience t) (ac_audience ac) then None
         else Some sub)"

text \<open>
  What the middleware does with a request: it is served without or with a user (and the token),
  or answered with a status.
\<close>

datatype auth = Anonymous | AuthUser user string | AuthHalt nat

definition try_session_auth :: "env \<Rightarrow> auth_config \<Rightarrow> string \<Rightarrow> auth option io" where
  "try_session_auth E ac tok = bind (attempt (session_get E tok)) (\<lambda>r. case r of
       Inl e \<Rightarrow> if e = IdentityErr ErrSessionNotFound then ret None else ret (Some (AuthHalt 500))
     | Inr s \<Rightarrow> bind (attempt (user_get_by_id E (ss_user s))) (\<lambda>r. case r of
         Inl _ \<Rightarrow> ret (Some (AuthHalt 500))
       | Inr u \<Rightarrow> if u_status u \<noteq> UserActive then ret (Some (AuthHalt 423))
           else bind (attempt (session_touch E (ac_session_ttl ac) tok)) (\<lambda>_. ret (Some (AuthUser u tok)))))"

definition try_jwt_auth :: "env \<Rightarrow> auth_config \<Rightarrow> string \<Rightarrow> auth io" where
  "try_jwt_auth E ac tok = (case ac_jwt ac of
       None \<Rightarrow> ret Anonymous
     | Some lib \<Rightarrow> (case verify_access_token ac lib tok of
         None \<Rightarrow> ret Anonymous
       | Some sub \<Rightarrow> bind (attempt (user_get_by_id E sub)) (\<lambda>r. case r of
           Inl _ \<Rightarrow> ret Anonymous
         | Inr u \<Rightarrow> if u_status u \<noteq> UserActive then ret (AuthHalt 423) else ret (AuthUser u tok))))"

definition authenticate :: "env \<Rightarrow> auth_config \<Rightarrow> string \<Rightarrow> auth io" where
  "authenticate E ac header = (case cut_prefix ''Bearer '' header of
       None \<Rightarrow> ret Anonymous
     | Some tok \<Rightarrow> if tok = [] then ret Anonymous
         else bind (try_session_auth E ac tok) (\<lambda>r. case r of Some a \<Rightarrow> ret a | None \<Rightarrow> try_jwt_auth E ac tok))"

section \<open>Role gates\<close>

definition user_of :: "auth \<Rightarrow> user option" where
  "user_of a = (case a of AuthUser u _ \<Rightarrow> Some u | _ \<Rightarrow> None)"

definition require_role :: "auth \<Rightarrow> user_role \<Rightarrow> nat + user" where
  "require_role a role = (case user_of a of
       None \<Rightarrow> Inl 401
     | Some u \<Rightarrow> if u_role u \<noteq> role then Inl 403 else Inr u)"

definition require_employee :: "auth \<Rightarrow> nat + user" where "require_employee a = require_role a Employee"
definition require_admin :: "auth \<Rightarrow> nat + user" where "require_admin a = require_role a WelfareAdmin"

definition require_vendor :: "auth \<Rightarrow> nat + (user \<times> uuid)" where
  "require_vendor a = (case user_of a of
       None \<Rightarrow> Inl 401
     | Some u \<Rightarrow> if u_role u \<noteq> VendorOperator then Inl 403
         else (case u_vendor u of None \<Rightarrow> Inl 403 | Some v \<Rightarrow> if v = [] then Inl 403 else Inr (u, v)))"

lemmas identity_runs [run_simps] = fun_cong [OF user_create_def] fun_cong [OF user_get_by_id_def]
  fun_cong [OF user_get_by_email_def] fun_cong [OF user_update_status_def] fun_cong [OF user_update_profile_def]
  fun_cong [OF identity_link_def] fun_cong [OF identity_get_def] fun_cong [OF start_login_def]
  fun_cong [OF user_for_identity_def] fun_cong [OF upsert_user_for_login_def]
  fun_cong [OF link_identity_if_missing_def] fun_cong [OF login_body_def] fun_cong [OF complete_login_def]
  fun_cong [OF complete_login_http_def] fun_cong [OF exchange_session_def] fun_cong [OF logout_def]
  fun_cong [OF try_session_auth_def] fun_cong [OF try_jwt_auth_def] fun_cong [OF authenticate_def]

lemma ro_identity_reads [ro_intros]:
  "ro (user_get_by_id E i)" "ro (user_get_by_email E em)" "ro (identity_get E pr sub)" "ro (identity_list_by_user E u)"
  unfolding user_get_by_id_def user_get_by_email_def identity_get_def identity_list_by_user_def by (intro ro_intros)+

lemma ro_authentication [ro_intros]:
  "ro (user_for_identity E slug sub em)" "ro (authenticate E ac h)" "ro (logout E t)" "ro (exchange_session E hc c)"
  "ro (start_login E cfg app slug rt)"
proof -
  show "ro (user_for_identity E slug sub em)" unfolding user_for_identity_def by (intro ro_intros)
  show "ro (authenticate E ac h)"
    unfolding authenticate_def try_session_auth_def try_jwt_auth_def by (intro ro_intros)
  show "ro (logout E t)" "ro (exchange_session E hc c)" unfolding logout_def exchange_session_def by (intro ro_intros)+
  show "ro (start_login E cfg app slug rt)" unfolding start_login_def Let_def by (rule ro_app) (intro ro_intros)
qed

lemma user_get_result:
  assumes "user_get_by_id E i w = (r, w')"
  shows "w_db w' = w_db w" "r = Inr u \<Longrightarrow> by_key u_id i (users (w_db w)) = Some u"
  using assms by (auto simp: user_get_by_id_def get_row_def io_simps query_def exec_def split: option.splits sum.splits)

end
