(* ===== verification/Menu.thy ===== *)
theory Menu
  imports Catalog Identity
begin

text \<open>
  The menu, \<open>menu/\<close>: the repositories of categories, items and images, the menu service with its
  ownership checks, and the listing employees see. Text is compared bytewise, \<open>ILIKE\<close> ignores the
  case of ASCII letters, and \<open>CURRENT_DATE\<close> is the UTC day of the transaction time.
\<close>

section \<open>Categories\<close>

definition category_check :: "db \<Rightarrow> category \<Rightarrow> err option" where
  "category_check d c = checks
     [(\<not> int4_ok (cat_sort c), out_of_range),
      (cat_id c \<in> cat_id ` set (categories d), unique_violation),
      (\<not> fk_vendor d (Some (cat_vendor c)), fk_violation)]"

definition category_create :: "env \<Rightarrow> uuid \<Rightarrow> string \<Rightarrow> int \<Rightarrow> category io" where
  "category_create E v name srt = insert_row E categories_update category_check
     (\<lambda>i. \<lparr>cat_id = i, cat_vendor = v, cat_name = name, cat_sort = srt, cat_created_at = e_dbnow E\<rparr>)"

definition category_sort_check :: "db \<Rightarrow> category \<Rightarrow> err option" where
  "category_sort_check d c = checks [(\<not> int4_ok (cat_sort c), out_of_range)]"

definition category_update :: "env \<Rightarrow> uuid \<Rightarrow> string \<Rightarrow> int \<Rightarrow> unit io" where
  "category_update E i name srt = update_rows E categories categories_update category_sort_check None (\<lambda>c. cat_id c = i)
     (\<lambda>c. c\<lparr>cat_name := name, cat_sort := srt\<rparr>)"

text \<open>The items of a deleted category stay, without one (\<open>ON DELETE SET NULL\<close>).\<close>

definition category_delete :: "env \<Rightarrow> uuid \<Rightarrow> unit io" where
  "category_delete E i = exec E (\<lambda>w. Inr ((), w\<lparr>w_db := menu_items_update
     (sql_update (\<lambda>m. m_category m = Some i) (\<lambda>m. m\<lparr>m_category := None\<rparr>))
     (categories_update (filter (\<lambda>c. cat_id c \<noteq> i)) (w_db w))\<rparr>))"

definition category_get :: "env \<Rightarrow> uuid \<Rightarrow> category io" where
  "category_get E i = get_row E categories cat_id (MenuErr ErrCategoryNotFound) i"

definition category_list_by_vendor :: "env \<Rightarrow> uuid \<Rightarrow> category list io" where
  "category_list_by_vendor E v = select_rows E categories (\<lambda>c. cat_vendor c = v)
     (\<lambda>cs. sort_key cat_sort (sort_key cat_name cs))"

section \<open>Items\<close>

definition fk_category :: "db \<Rightarrow> uuid option \<Rightarrow> bool" where
  "fk_category d c = (case c of None \<Rightarrow> True | Some i \<Rightarrow> list_ex (\<lambda>x. cat_id x = i) (categories d))"

definition item_check :: "db \<Rightarrow> menu_item \<Rightarrow> err option" where
  "item_check d m = checks
     [(m_price m < 0, check_violation), (\<not> fk_vendor d (Some (m_vendor m)) \<or> \<not> fk_category d (m_category m), fk_violation)]"

definition item_insert_check :: "db \<Rightarrow> menu_item \<Rightarrow> err option" where
  "item_insert_check d m = (if m_id m \<in> m_id ` set (menu_items d) then Some unique_violation else item_check d m)"

record item_input =
  it_vendor :: uuid
  it_category :: "uuid option"
  it_name :: string
  it_desc :: string
  it_price :: int
  it_tags :: "string list"
  it_images :: "string list"

text \<open>\<open>Create\<close>; a struct without a status is stored as a draft.\<close>

definition item_create :: "env \<Rightarrow> item_input \<Rightarrow> menu_item_status option \<Rightarrow> menu_item io" where
  "item_create E x st = insert_row E menu_items_update item_insert_check
     (\<lambda>i. \<lparr>m_id = i, m_vendor = it_vendor x, m_category = it_category x, m_name = it_name x, m_desc = it_desc x,
        m_price = it_price x, m_tags = it_tags x, m_status = (case st of None \<Rightarrow> ItemDraft | Some s \<Rightarrow> s),
        m_archived_at = None, m_created_at = e_dbnow E, m_updated_at = e_dbnow E\<rparr>)"

definition item_update :: "env \<Rightarrow> menu_item \<Rightarrow> unit io" where
  "item_update E x = update_rows E menu_items menu_items_update item_check None (\<lambda>m. m_id m = m_id x)
     (\<lambda>m. m\<lparr>m_category := m_category x, m_name := m_name x, m_desc := m_desc x, m_price := m_price x, m_tags := m_tags x,
        m_updated_at := e_dbnow E\<rparr>)"

definition item_set_status :: "env \<Rightarrow> uuid \<Rightarrow> menu_item_status \<Rightarrow> unit io" where
  "item_set_status E i st = update_rows E menu_items menu_items_update no_check None (\<lambda>m. m_id m = i)
     (\<lambda>m. m\<lparr>m_status := st, m_archived_at := (if st = ItemArchived then Some (e_dbnow E) else None),
        m_updated_at := e_dbnow E\<rparr>)"

text \<open>An item with the last day it was scheduled and the units sold of it.\<close>

record merchant_row =
  mr_item :: menu_item
  mr_last_used :: "date option"
  mr_sold :: int

definition last_used :: "db \<Rightarrow> uuid \<Rightarrow> date option" where
  "last_used d i = (case map s_date (filter (\<lambda>s. s_item s = i) (supplies d)) of
     [] \<Rightarrow> None | x # xs \<Rightarrow> Some (foldr max xs x))"

definition total_sold :: "db \<Rightarrow> uuid \<Rightarrow> int" where
  "total_sold d i = sql_sum (\<lambda>it. i_menu_item it = i \<and>
     list_ex (\<lambda>x. o_id x = i_order it \<and> o_status x = PickedUp) (orders d)) i_qty (order_items d)"

definition item_list_by_vendor :: "env \<Rightarrow> uuid \<Rightarrow> bool \<Rightarrow> merchant_row list io" where
  "item_list_by_vendor E v includeArchived = query E (\<lambda>d. Inr (map
     (\<lambda>m. \<lparr>mr_item = m, mr_last_used = last_used d (m_id m), mr_sold = total_sold d (m_id m)\<rparr>)
     (sort_key m_created_at (filter (\<lambda>m. m_vendor m = v \<and> (includeArchived \<or> m_status m \<noteq> ItemArchived)) (menu_items d)))))"

section \<open>What employees are shown\<close>

text \<open>
  \<open>LIKE\<close> on UTF-8 text: \<open>%\<close> stands for any text, \<open>_\<close> for one character, a backslash takes the
  next byte as it is.
\<close>

definition continuation :: "char \<Rightarrow> bool" where
  "continuation c \<longleftrightarrow> 0x80 \<le> (of_char c :: nat) \<and> (of_char c :: nat) < 0xC0"

definition skip_char :: "string \<Rightarrow> string" where
  "skip_char s = dropWhile continuation (tl s)"

function like :: "string \<Rightarrow> string \<Rightarrow> bool" where
  "like [] s \<longleftrightarrow> s = []"
| "like (p # ps) s \<longleftrightarrow>
     (if p = CHR ''%'' then (if s = [] then like ps s else like ps s \<or> like (p # ps) (tl s))
      else if s = [] then False
      else if p = CHR ''_'' then like ps (skip_char s)
      else if p = CHR 0x5C \<and> ps \<noteq> [] then hd s = hd ps \<and> like (tl ps) (tl s)
      else hd s = p \<and> like ps (tl s))"
  by pat_completeness auto
termination
proof (relation "measure (\<lambda>(p, s). length p + length s)")
  have "length (skip_char s) \<le> length s" for s
    using order_trans [OF length_dropWhile_le, of "tl s" "length s" continuation] by (simp add: skip_char_def)
  then show "((ps, skip_char s), p # ps, s) \<in> measure (\<lambda>(p, s). length p + length s)" for p ps s
    by (simp add: le_imp_less_Suc)
qed auto

declare like.simps [simp del]

definition ilike_contains :: "string \<Rightarrow> string \<Rightarrow> bool" where
  "ilike_contains q s \<longleftrightarrow> like (''%'' @ to_lower q @ ''%'') (to_lower s)"

record menu_filter =
  ef_plant :: string
  ef_day :: date
  ef_q :: string
  ef_tags :: "string list"
  ef_min :: "int option"
  ef_max :: "int option"
  ef_in_stock :: "bool option"
  ef_sort :: string

record active_row =
  av_item :: menu_item
  av_vendor_name :: string
  av_supply :: meal_supply

text \<open>The optional conditions; one that is not supplied holds.\<close>

definition passes_filter :: "menu_filter \<Rightarrow> active_row \<Rightarrow> bool" where
  "passes_filter f r \<longleftrightarrow>
     (trim_space (ef_q f) = '''' \<or> ilike_contains (trim_space (ef_q f)) (m_name (av_item r))
        \<or> ilike_contains (trim_space (ef_q f)) (m_desc (av_item r)))
   \<and> (ef_tags f = [] \<or> list_ex (\<lambda>t. t \<in> set (m_tags (av_item r))) (ef_tags f))
   \<and> (case ef_min f of None \<Rightarrow> True | Some p \<Rightarrow> p \<le> m_price (av_item r))
   \<and> (case ef_max f of None \<Rightarrow> True | Some p \<Rightarrow> m_price (av_item r) \<le> p)
   \<and> (ef_in_stock f = Some True \<longrightarrow> 0 < s_remain (av_supply r) \<and> \<not> s_sold_out (av_supply r))"

definition menu_order :: "string \<Rightarrow> active_row list \<Rightarrow> active_row list" where
  "menu_order srt rs =
     (let name = (\<lambda>r. m_name (av_item r)); vendor = av_vendor_name; price = (\<lambda>r. m_price (av_item r)) in
      if srt = ''name'' then sort_key name (sort_key vendor rs)
      else if srt = ''price_asc'' then sort_key price (sort_key vendor (sort_key name rs))
      else if srt = ''price_desc'' then sort_key (\<lambda>r. - price r) (sort_key vendor (sort_key name rs))
      else if srt = ''remain'' then sort_key (\<lambda>r. - s_remain (av_supply r)) (sort_key vendor (sort_key name rs))
      else sort_key vendor (sort_key name rs))"

text \<open>The rows of the join of items, approved vendors, served plants and supplies of the day.\<close>

definition menu_join :: "db \<Rightarrow> time \<Rightarrow> string \<Rightarrow> date \<Rightarrow> active_row list" where
  "menu_join d now plant day = [\<lparr>av_item = m, av_vendor_name = v_name v, av_supply = s\<rparr>.
     m \<leftarrow> menu_items d, v \<leftarrow> vendors d, v_id v = m_vendor m \<and> v_status v = VApproved,
     p \<leftarrow> plant_mappings d, pm_vendor p = v_id v \<and> pm_plant p = plant \<and> pm_active p,
     s \<leftarrow> supplies d, s_item s = m_id m \<and> s_date s = day,
     m_status m = ItemActive \<and> day \<le> utc_day now + v_preorder_days v]"

definition list_active_by_plant :: "env \<Rightarrow> menu_filter \<Rightarrow> active_row list io" where
  "list_active_by_plant E f = query E (\<lambda>d. Inr (menu_order (ef_sort f)
     (filter (passes_filter f) (menu_join d (e_dbnow E) (ef_plant f) (ef_day f)))))"

section \<open>Images\<close>

definition image_check :: "db \<Rightarrow> image \<Rightarrow> err option" where
  "image_check d x = checks
     [(\<not> int4_ok (im_sort x), out_of_range), (im_id x \<in> im_id ` set (images d), unique_violation),
      (\<not> list_ex (\<lambda>m. m_id m = im_item x) (menu_items d), fk_violation)]"

definition image_add :: "env \<Rightarrow> uuid \<Rightarrow> string \<Rightarrow> string \<Rightarrow> int \<Rightarrow> image io" where
  "image_add E item uri alt srt = insert_row E images_update image_check
     (\<lambda>i. \<lparr>im_id = i, im_item = item, im_uri = uri, im_alt = alt, im_sort = srt, im_created_at = e_dbnow E\<rparr>)"

definition image_remove :: "env \<Rightarrow> uuid \<Rightarrow> unit io" where
  "image_remove E i = exec E (\<lambda>w. Inr ((), w\<lparr>w_db := images_update (filter (\<lambda>x. im_id x \<noteq> i)) (w_db w)\<rparr>))"

definition images_delete_for_item :: "env \<Rightarrow> uuid \<Rightarrow> unit io" where
  "images_delete_for_item E item = exec E (\<lambda>w.
     Inr ((), w\<lparr>w_db := images_update (filter (\<lambda>x. im_item x \<noteq> item)) (w_db w)\<rparr>))"

definition image_insert :: "env \<Rightarrow> uuid \<Rightarrow> int \<times> string \<Rightarrow> unit io" where
  "image_insert E item = (\<lambda>(n, uri). bind (image_add E item uri '''' n) (\<lambda>_. ret ()))"

definition images_replace_for_item :: "env \<Rightarrow> uuid \<Rightarrow> string list \<Rightarrow> unit io" where
  "images_replace_for_item E item uris = begin_func E (\<lambda>_. bind (images_delete_for_item E item) (\<lambda>_.
     for_each (image_insert E item) (zip (map int [0..<length uris]) uris)))"

definition image_order :: "image list \<Rightarrow> image list" where
  "image_order xs = sort_key im_sort (sort_key im_created_at xs)"

definition images_list_by_item :: "env \<Rightarrow> uuid \<Rightarrow> image list io" where
  "images_list_by_item E item = select_rows E images (\<lambda>x. im_item x = item) image_order"

definition images_list_by_items :: "env \<Rightarrow> uuid list \<Rightarrow> image list io" where
  "images_list_by_items E items = (if items = [] then ret []
     else select_rows E images (\<lambda>x. im_item x \<in> set items) (\<lambda>xs. sort_key im_item (image_order xs)))"

section \<open>The service\<close>

definition create_category :: "env \<Rightarrow> uuid \<Rightarrow> string \<Rightarrow> int \<Rightarrow> category io" where
  "create_category E v name srt = category_create E v name srt"

definition list_categories :: "env \<Rightarrow> uuid \<Rightarrow> category list io" where
  "list_categories E v = category_list_by_vendor E v"

definition create_item :: "env \<Rightarrow> item_input \<Rightarrow> menu_item io" where
  "create_item E x = bind (item_create E x (Some ItemActive)) (\<lambda>m.
     if it_images x = [] then ret m else bind (images_replace_for_item E (m_id m) (it_images x)) (\<lambda>_. ret m))"

definition edited :: "item_input \<Rightarrow> menu_item \<Rightarrow> menu_item" where
  "edited x m = m\<lparr>m_name := it_name x, m_desc := it_desc x, m_price := it_price x, m_tags := it_tags x,
     m_category := it_category x\<rparr>"

text \<open>The guard of every operation on an existing item.\<close>

definition owned_item :: "env \<Rightarrow> uuid \<Rightarrow> uuid \<Rightarrow> menu_item io" where
  "owned_item E i v = bind (item_get_by_id E i) (\<lambda>m. if m_vendor m \<noteq> v then fail (MenuErr ErrMenuForbidden) else ret m)"

definition update_item :: "env \<Rightarrow> uuid \<Rightarrow> uuid \<Rightarrow> item_input \<Rightarrow> menu_item io" where
  "update_item E i v x = bind (owned_item E i v) (\<lambda>m. bind (item_update E (edited x m)) (\<lambda>_.
     bind (images_replace_for_item E (m_id m) (it_images x)) (\<lambda>_. ret (edited x m))))"

definition copy_suffix :: string where
  "copy_suffix = bytes [0xEF, 0xBC, 0x88, 0xE8, 0xA4, 0x87, 0xE8, 0xA3, 0xBD, 0xEF, 0xBC, 0x89]"

definition copy_item :: "env \<Rightarrow> uuid \<Rightarrow> uuid \<Rightarrow> menu_item io" where
  "copy_item E i v = bind (owned_item E i v) (\<lambda>m. bind (images_list_by_item E i) (\<lambda>imgs.
     create_item E \<lparr>it_vendor = v, it_category = m_category m, it_name = m_name m @ copy_suffix, it_desc = m_desc m,
       it_price = m_price m, it_tags = m_tags m, it_images = map im_uri imgs\<rparr>))"

definition publish_item :: "env \<Rightarrow> uuid \<Rightarrow> uuid \<Rightarrow> unit io" where
  "publish_item E i v = bind (owned_item E i v) (\<lambda>_. item_set_status E i ItemActive)"

definition archive_item :: "env \<Rightarrow> uuid \<Rightarrow> uuid \<Rightarrow> unit io" where
  "archive_item E i v = bind (owned_item E i v) (\<lambda>_. item_set_status E i ItemArchived)"

definition list_items_by_vendor :: "env \<Rightarrow> uuid \<Rightarrow> bool \<Rightarrow> merchant_row list io" where
  "list_items_by_vendor E v includeArchived = item_list_by_vendor E v includeArchived"

definition list_images_by_item :: "env \<Rightarrow> uuid \<Rightarrow> image list io" where
  "list_images_by_item E i = images_list_by_item E i"

record employee_item =
  em_id :: uuid
  em_vendor :: uuid
  em_vendor_name :: string
  em_name :: string
  em_desc :: string
  em_price :: int
  em_tags :: "string list"
  em_images :: "string list"
  em_capacity :: int
  em_remain :: int
  em_sold_out :: bool
  em_window :: string
  em_eta :: string

definition employee_item_of :: "image list \<Rightarrow> active_row \<Rightarrow> employee_item" where
  "employee_item_of imgs r = (let m = av_item r; s = av_supply r in
     \<lparr>em_id = m_id m, em_vendor = m_vendor m, em_vendor_name = av_vendor_name r, em_name = m_name m, em_desc = m_desc m,
      em_price = m_price m, em_tags = m_tags m, em_images = map im_uri (filter (\<lambda>x. im_item x = m_id m) imgs),
      em_capacity = s_capacity s, em_remain = s_remain s, em_sold_out = (s_remain s \<le> 0 \<or> s_sold_out s),
      em_window = s_pickup_window s, em_eta = s_eta_label s\<rparr>)"

definition list_for_employee :: "env \<Rightarrow> menu_filter \<Rightarrow> employee_item list io" where
  "list_for_employee E f = bind (list_active_by_plant E f) (\<lambda>rows.
     bind (images_list_by_items E (map (\<lambda>r. m_id (av_item r)) rows)) (\<lambda>imgs. ret (map (employee_item_of imgs) rows)))"

lemmas menu_runs [run_simps] = fun_cong [OF category_create_def] fun_cong [OF category_update_def]
  fun_cong [OF category_delete_def] fun_cong [OF item_create_def] fun_cong [OF item_update_def] fun_cong [OF item_set_status_def]
  fun_cong [OF item_list_by_vendor_def] fun_cong [OF list_active_by_plant_def] fun_cong [OF image_add_def]
  fun_cong [OF images_delete_for_item_def] fun_cong [OF images_replace_for_item_def] fun_cong [OF images_list_by_item_def]
  fun_cong [OF images_list_by_items_def] fun_cong [OF create_item_def] fun_cong [OF owned_item_def] fun_cong [OF update_item_def]
  fun_cong [OF copy_item_def] fun_cong [OF publish_item_def] fun_cong [OF archive_item_def] fun_cong [OF list_for_employee_def]

lemma ro_menu_reads [ro_intros]:
  "ro (category_get E i)" "ro (category_list_by_vendor E v)" "ro (list_categories E v)" "ro (item_list_by_vendor E v b)"
  "ro (list_items_by_vendor E v b)" "ro (list_active_by_plant E f)" "ro (images_list_by_item E i)"
  "ro (images_list_by_items E is)" "ro (list_images_by_item E i)" "ro (owned_item E i v)" "ro (list_for_employee E f)"
  unfolding category_get_def category_list_by_vendor_def list_categories_def item_list_by_vendor_def list_items_by_vendor_def
    list_active_by_plant_def images_list_by_item_def images_list_by_items_def list_images_by_item_def owned_item_def
    list_for_employee_def
  by (intro ro_intros ro_catalog)+

end
