(* ===== verification/Home.thy ===== *)
theory Home
  imports Menu Complex_Main
begin

text \<open>
  The employee's home page: favourites (\<open>menu/postgres/favorite_repo.go\<close>,
  \<open>menu/favorites_service.go\<close>), the queries behind the carousels
  (\<open>order/postgres/recent_orders_repo.go\<close>, \<open>menu/postgres/popularity_repo.go\<close>,
  \<open>menu/postgres/affinity_repo.go\<close>), the recommender (\<open>menu/recommend.go\<close>) and the home service
  (\<open>menu/home_service.go\<close>). A \<open>float64\<close> is the rational number it stands for; the rounding of the
  arithmetic is not modelled. A Go map that is only looked up is an association list.
\<close>

section \<open>Favourites\<close>

record favorite_chip =
  fc_item :: uuid
  fc_name :: string
  fc_price :: int
  fc_vendor :: uuid
  fc_available :: bool
  fc_created_at :: time

definition favorite_add :: "env \<Rightarrow> uuid \<Rightarrow> uuid \<Rightarrow> unit io" where
  "favorite_add E user item = exec E (\<lambda>w. let d = w_db w in
     if list_ex (\<lambda>f. f_user f = user \<and> f_item f = item) (favorites d) then Inr ((), w)
     else if \<not> fk_user d (Some user) \<or> \<not> list_ex (\<lambda>m. m_id m = item) (menu_items d) then Inl fk_violation
     else Inr ((), w\<lparr>w_db := favorites_update (\<lambda>fs. fs @ [\<lparr>f_user = user, f_item = item, f_created_at = e_dbnow E\<rparr>]) d\<rparr>))"

definition favorite_remove :: "env \<Rightarrow> uuid \<Rightarrow> uuid \<Rightarrow> unit io" where
  "favorite_remove E user item = exec E (\<lambda>w. Inr ((), w\<lparr>w_db :=
     favorites_update (filter (\<lambda>f. \<not> (f_user f = user \<and> f_item f = item))) (w_db w)\<rparr>))"

text \<open>Whether an approved vendor that serves the plant has the item on the day, sold out or not.\<close>

definition supplied_at :: "db \<Rightarrow> menu_item \<Rightarrow> string \<Rightarrow> date \<Rightarrow> bool" where
  "supplied_at d m plant day \<longleftrightarrow>
     list_ex (\<lambda>s. s_item s = m_id m \<and> s_date s = day) (supplies d)
   \<and> list_ex (\<lambda>v. v_id v = m_vendor m \<and> v_status v = VApproved) (vendors d)
   \<and> list_ex (\<lambda>p. pm_vendor p = m_vendor m \<and> pm_plant p = plant \<and> pm_active p) (plant_mappings d)"

definition favorite_chips :: "db \<Rightarrow> uuid \<Rightarrow> date \<Rightarrow> string \<Rightarrow> time option \<Rightarrow> favorite_chip list" where
  "favorite_chips d user day plant cursor = sort_key (\<lambda>c. - fc_created_at c) (sort_key fc_item
     [\<lparr>fc_item = m_id m, fc_name = m_name m, fc_price = m_price m, fc_vendor = m_vendor m,
       fc_available = supplied_at d m plant day, fc_created_at = f_created_at f\<rparr>.
      f \<leftarrow> favorites d, f_user f = user \<and> (case cursor of None \<Rightarrow> True | Some t \<Rightarrow> f_created_at f < t),
      m \<leftarrow> menu_items d, m_id m = f_item f \<and> m_archived_at m = None])"

definition clamp_limit :: "int \<Rightarrow> int" where
  "clamp_limit n = (if n < 1 then 1 else if 50 < n then 50 else n)"

text \<open>The page and the cursor of the next one, when this one is full.\<close>

definition favorite_page :: "int \<Rightarrow> favorite_chip list \<Rightarrow> favorite_chip list \<times> time option" where
  "favorite_page limit cs = (let page = take (nat (clamp_limit limit)) cs in
     (page, if int (length page) = clamp_limit limit then Some (fc_created_at (last page)) else None))"

definition favorite_list_by_user ::
    "env \<Rightarrow> uuid \<Rightarrow> date \<Rightarrow> string \<Rightarrow> int \<Rightarrow> time option \<Rightarrow> (favorite_chip list \<times> time option) io" where
  "favorite_list_by_user E user day plant limit cursor =
     query E (\<lambda>d. Inr (favorite_page limit (favorite_chips d user day plant cursor)))"

definition favorites_service_add :: "env \<Rightarrow> uuid \<Rightarrow> uuid \<Rightarrow> unit io" where
  "favorites_service_add E user item = favorite_add E user item"

definition favorites_service_remove :: "env \<Rightarrow> uuid \<Rightarrow> uuid \<Rightarrow> unit io" where
  "favorites_service_remove E user item = favorite_remove E user item"

definition favorites_service_list ::
    "env \<Rightarrow> uuid \<Rightarrow> date \<Rightarrow> string \<Rightarrow> int \<Rightarrow> time option \<Rightarrow> (favorite_chip list \<times> time option) io" where
  "favorites_service_list E user day plant limit cursor = favorite_list_by_user E user day plant limit cursor"

section \<open>Popularity and affinity\<close>

definition materialised :: "order_status \<Rightarrow> bool" where
  "materialised s \<longleftrightarrow> s \<in> {Cutoff, Ready, PickedUp}"

definition popular_items :: "db \<Rightarrow> string \<Rightarrow> date \<Rightarrow> item list" where
  "popular_items d plant day = filter (\<lambda>it. list_ex (\<lambda>x. o_id x = i_order it \<and> o_date x = day \<and> o_plant x = plant
     \<and> materialised (o_status x)) (orders d)) (order_items d)"

definition plant_popularity :: "env \<Rightarrow> string \<Rightarrow> date \<Rightarrow> (uuid \<times> rat) list io" where
  "plant_popularity E plant day = query E (\<lambda>d. let its = popular_items d plant day in
     Inr (map (\<lambda>i. (i, of_int (sql_sum (\<lambda>it. i_menu_item it = i) i_qty its))) (remdups (map i_menu_item its))))"

record item_meta =
  mi_id :: uuid
  mi_name :: string
  mi_price :: int
  mi_vendor :: uuid

definition meta_by_ids :: "env \<Rightarrow> uuid list \<Rightarrow> item_meta list io" where
  "meta_by_ids E ids = (if ids = [] then ret [] else query E (\<lambda>d. Inr (map
     (\<lambda>m. \<lparr>mi_id = m_id m, mi_name = m_name m, mi_price = m_price m, mi_vendor = m_vendor m\<rparr>)
     (filter (\<lambda>m. m_id m \<in> set ids \<and> m_archived_at m = None) (menu_items d)))))"

text \<open>The supplies of a plant's active menu on a day.\<close>

definition plant_supplies :: "db \<Rightarrow> string \<Rightarrow> date \<Rightarrow> meal_supply list" where
  "plant_supplies d plant day = [s. s \<leftarrow> supplies d, s_date s = day,
     m \<leftarrow> menu_items d, m_id m = s_item s \<and> m_status m = ItemActive,
     v \<leftarrow> vendors d, v_id v = m_vendor m \<and> v_status v = VApproved,
     p \<leftarrow> plant_mappings d, pm_vendor p = v_id v \<and> pm_plant p = plant \<and> pm_active p]"

definition all_cutoffs_passed :: "env \<Rightarrow> string \<Rightarrow> date \<Rightarrow> time \<Rightarrow> bool io" where
  "all_cutoffs_passed E plant day now = query E (\<lambda>d. let ss = plant_supplies d plant day in
     Inr (ss \<noteq> [] \<and> length (filter (\<lambda>s. s_cutoff_at s \<le> now) ss) = length ss))"

definition user_vendor_affinity :: "env \<Rightarrow> uuid \<Rightarrow> (uuid \<times> rat) list io" where
  "user_vendor_affinity E user = query E (\<lambda>d.
     let vs = [m_vendor m. x \<leftarrow> orders d, o_user x = user \<and> utc_day (e_dbnow E) - 30 \<le> o_date x \<and> materialised (o_status x),
                it \<leftarrow> order_items d, i_order it = o_id x, m \<leftarrow> menu_items d, m_id m = i_menu_item it] in
     Inr (map (\<lambda>v. (v, of_nat (length (filter (\<lambda>u. u = v) vs)))) (remdups vs)))"

section \<open>Recent orders\<close>

record recent_order =
  ro_order :: uuid
  ro_vendor :: uuid
  ro_date :: date
  ro_total :: int
  ro_freq :: int

definition recent_candidates :: "env \<Rightarrow> db \<Rightarrow> uuid \<Rightarrow> order_row list" where
  "recent_candidates E d user = sort_key (\<lambda>x. - o_date x) (sort_key o_id
     (filter (\<lambda>x. o_user x = user \<and> materialised (o_status x) \<and> utc_day (e_dbnow E) - 30 \<le> o_date x) (orders d)))"

definition recent_orders_by_user :: "env \<Rightarrow> uuid \<Rightarrow> int \<Rightarrow> int \<Rightarrow> recent_order list io" where
  "recent_orders_by_user E user limit offset = query E (\<lambda>d. let xs = recent_candidates E d user in
     Inr (take (nat (clamp_limit limit)) (drop (nat offset)
       (sort_key (\<lambda>r. - ro_freq r) (sort_key (\<lambda>r. - ro_date r) (sort_key ro_order
         (List.map_filter (\<lambda>v. map_option (\<lambda>x. \<lparr>ro_order = o_id x, ro_vendor = v, ro_date = o_date x, ro_total = o_total x,
            ro_freq = int (sql_affected (\<lambda>y. o_vendor y = v) xs)\<rparr>) (find (\<lambda>x. o_vendor x = v) xs))
           (remdups (map o_vendor xs)))))))))"

definition order_by_user_date :: "env \<Rightarrow> uuid \<Rightarrow> date \<Rightarrow> string \<Rightarrow> order_row option io" where
  "order_by_user_date E user day plant = query E (\<lambda>d.
     Inr (case sort_key (\<lambda>x. - o_created_at x) (filter (\<lambda>x. o_user x = user \<and> o_date x = day \<and> o_plant x = plant) (orders d)) of
       [] \<Rightarrow> None | x # _ \<Rightarrow> Some x))"

text \<open>Up to \<open>cap\<close> item names of each order, in the order of the names.\<close>

definition item_names_by_order_ids :: "env \<Rightarrow> uuid list \<Rightarrow> int \<Rightarrow> (uuid \<times> string list) list io" where
  "item_names_by_order_ids E ids cap = (if ids = [] then ret [] else query E (\<lambda>d. Inr (map
     (\<lambda>i. (i, take (nat (max 1 cap)) (sort_key id [m_name m. it \<leftarrow> order_items d, i_order it = i,
        m \<leftarrow> menu_items d, m_id m = i_menu_item it]))) (remdups ids))))"

definition order_availability :: "env \<Rightarrow> uuid list \<Rightarrow> date \<Rightarrow> (uuid \<times> bool) list io" where
  "order_availability E ids day = (if ids = [] then ret [] else query E (\<lambda>d. Inr (map
     (\<lambda>i. (i, list_ex (\<lambda>it. i_order it = i \<and> list_ex (\<lambda>s. s_item s = i_menu_item it \<and> s_date s = day) (supplies d))
        (order_items d))) ids)))"

definition vendor_names_lookup :: "env \<Rightarrow> uuid list \<Rightarrow> (uuid \<times> string) list io" where
  "vendor_names_lookup E ids = (if ids = [] then ret [] else query E (\<lambda>d.
     Inr (map (\<lambda>v. (v_id v, v_name v)) (filter (\<lambda>v. v_id v \<in> set ids) (vendors d)))))"

section \<open>The recommender\<close>

record recommend_inputs =
  ri_popularity :: "(uuid \<times> rat) list"
  ri_affinity :: "(uuid \<times> rat) list"
  ri_items :: "item_meta list"
  ri_favorites :: "uuid list"
  ri_alpha :: rat
  ri_limit :: int

record recommend_chip =
  rc_item :: uuid
  rc_name :: string
  rc_price :: int
  rc_vendor :: uuid
  rc_score :: rat
  rc_reason :: string

definition reason_popular :: string where
  "reason_popular = bytes [0xE5, 0x90, 0x8C, 0xE4, 0xBA, 0x8B, 0xE7, 0x86, 0xB1, 0xE9, 0x96, 0x80]"

definition reason_habit :: string where
  "reason_habit = bytes [0xE5, 0x9B, 0xA0, 0xE7, 0x82, 0xBA, 0xE4, 0xBD, 0xA0, 0xE5, 0xB8, 0xB8, 0xE9, 0xBB, 0x9E, 0xE6, 0xAD, 0xA4, 0xE5, 0xAE, 0xB6]"

definition affinity_of :: "(uuid \<times> rat) list \<Rightarrow> uuid \<Rightarrow> rat" where
  "affinity_of m v = (case map_of m v of None \<Rightarrow> 0 | Some a \<Rightarrow> a)"

definition score_item :: "recommend_inputs \<Rightarrow> item_meta \<Rightarrow> recommend_chip option" where
  "score_item inp it =
     (if mi_id it \<in> set (ri_favorites inp) then None
      else case map_of (ri_popularity inp) (mi_id it) of
        None \<Rightarrow> None
      | Some pop \<Rightarrow> let aff = affinity_of (ri_affinity inp) (mi_vendor it) in
          Some \<lparr>rc_item = mi_id it, rc_name = mi_name it, rc_price = mi_price it, rc_vendor = mi_vendor it,
            rc_score = pop * (1 + ri_alpha inp * aff), rc_reason = (if 0 < aff then reason_habit else reason_popular)\<rparr>)"

definition score :: "recommend_inputs \<Rightarrow> recommend_chip list" where
  "score inp = (let out = sort_key (\<lambda>c. - rc_score c) (sort_key rc_item (List.map_filter (score_item inp) (ri_items inp))) in
     if 0 < ri_limit inp \<and> ri_limit inp < int (length out) then take (nat (ri_limit inp)) out else out)"

definition normalise_affinity :: "(uuid \<times> rat) list \<Rightarrow> (uuid \<times> rat) list" where
  "normalise_affinity raw = (let total = sum_list (map snd raw) in
     if raw = [] then [] else if total = 0 then [] else map (\<lambda>(k, v). (k, v / total)) raw)"

section \<open>The home service\<close>

record home_config =
  hc_alpha :: rat
  hc_reorder :: int
  hc_favorite :: int
  hc_recommend :: int
  hc_names :: bool

record order_summary =
  os_order :: uuid
  os_vendor :: uuid
  os_status :: order_status
  os_total :: int
  os_cutoff :: time

record home_state =
  hs_day :: string
  hs_ordered :: bool
  hs_summary :: "order_summary option"

definition summary_from_row :: "order_row \<Rightarrow> order_summary" where
  "summary_from_row x = \<lparr>os_order = o_id x, os_vendor = o_vendor x, os_status = o_status x, os_total = o_total x,
     os_cutoff = o_cutoff_at x\<rparr>"

definition closed_status :: "order_status \<Rightarrow> bool" where
  "closed_status s \<longleftrightarrow> s = PickedUp \<or> s = NoShow"

definition order_summary_for :: "env \<Rightarrow> uuid \<Rightarrow> string \<Rightarrow> date \<Rightarrow> order_summary option io" where
  "order_summary_for E user plant day = bind (order_by_user_date E user day plant) (\<lambda>r. ret (map_option summary_from_row r))"

definition build_home_state :: "env \<Rightarrow> uuid \<Rightarrow> string \<Rightarrow> date \<Rightarrow> home_state io" where
  "build_home_state E user plant day = bind (order_summary_for E user plant day) (\<lambda>s.
     ret \<lparr>hs_day = date_text day, hs_ordered = (s \<noteq> None), hs_summary = s\<rparr>)"

text \<open>At most \<open>n\<close> days are looked at; the day after them is the answer when all of them are over.\<close>

fun next_orderable_day :: "env \<Rightarrow> string \<Rightarrow> nat \<Rightarrow> date \<Rightarrow> date io" where
  "next_orderable_day E plant 0 day = ret day"
| "next_orderable_day E plant (Suc n) day = bind (all_cutoffs_passed E plant day (e_now E)) (\<lambda>passed.
     if \<not> passed then ret day else next_orderable_day E plant n (day + 1))"

definition start_of_day :: "env \<Rightarrow> date" where
  "start_of_day E = utc_day (e_now E + e_tz E * sec_ns)"

text \<open>\<open>override\<close> is the parsed day of the request, if it has one; a day that does not parse is refused.\<close>

definition home_compute :: "env \<Rightarrow> uuid \<Rightarrow> string \<Rightarrow> (err + date) option \<Rightarrow> home_state io" where
  "home_compute E user plant override = (case override of
     Some p \<Rightarrow> bind (from_res p) (build_home_state E user plant)
   | None \<Rightarrow> bind (order_by_user_date E user (start_of_day E) plant) (\<lambda>r. case r of
       Some x \<Rightarrow>
         if \<not> closed_status (o_status x)
         then ret \<lparr>hs_day = date_text (start_of_day E), hs_ordered = True, hs_summary = Some (summary_from_row x)\<rparr>
         else bind (next_orderable_day E plant 14 (start_of_day E + 1)) (build_home_state E user plant)
     | None \<Rightarrow> bind (next_orderable_day E plant 14 (start_of_day E)) (build_home_state E user plant)))"

definition limit_or :: "int \<Rightarrow> int \<Rightarrow> int" where
  "limit_or limit configured = (if limit \<le> 0 then (if 0 < configured then configured else 5) else limit)"

record reorder_chip =
  rh_order :: uuid
  rh_vendor :: uuid
  rh_vendor_name :: string
  rh_preview :: "string list"
  rh_total :: int
  rh_freq :: int
  rh_available :: bool

definition lookup_or :: "'v \<Rightarrow> ('k \<times> 'v) list \<Rightarrow> 'k \<Rightarrow> 'v" where
  "lookup_or z m k = (case map_of m k of None \<Rightarrow> z | Some v \<Rightarrow> v)"

definition reorder_chips :: "env \<Rightarrow> home_config \<Rightarrow> uuid \<Rightarrow> date \<Rightarrow> int \<Rightarrow> int \<Rightarrow> (reorder_chip list \<times> int) io" where
  "reorder_chips E cfg user day offset limit0 = (let limit = limit_or limit0 (hc_reorder cfg) in
     bind (recent_orders_by_user E user limit offset) (\<lambda>rows.
     if rows = [] then ret ([], - 1)
     else bind (item_names_by_order_ids E (map ro_order rows) 2) (\<lambda>previews.
       bind (order_availability E (map ro_order rows) day) (\<lambda>avail.
       bind (if hc_names cfg then vendor_names_lookup E (map ro_vendor rows) else ret []) (\<lambda>names.
       ret (map (\<lambda>r. \<lparr>rh_order = ro_order r, rh_vendor = ro_vendor r, rh_vendor_name = lookup_or '''' names (ro_vendor r),
              rh_preview = lookup_or [] previews (ro_order r), rh_total = ro_total r, rh_freq = ro_freq r,
              rh_available = lookup_or False avail (ro_order r)\<rparr>) rows,
            if int (length rows) = limit then offset + limit else - 1))))))"

definition favorite_chips_list ::
    "env \<Rightarrow> home_config \<Rightarrow> uuid \<Rightarrow> date \<Rightarrow> string \<Rightarrow> int \<Rightarrow> time option \<Rightarrow> (favorite_chip list \<times> time option) io" where
  "favorite_chips_list E cfg user day plant limit cursor =
     favorite_list_by_user E user day plant (limit_or limit (hc_favorite cfg)) cursor"

text \<open>Go slices of the ranking: from the offset on, as many as the limit.\<close>

definition recommend_page :: "int \<Rightarrow> int \<Rightarrow> recommend_chip list \<Rightarrow> recommend_chip list \<times> int" where
  "recommend_page offset limit all = (let n = int (length all); start = max 0 offset in
     if n \<le> start then ([], - 1)
     else let stop = min (start + limit) n in
       (take (nat (stop - start)) (drop (nat start) all), if stop < n then stop else - 1))"

definition favorite_id_set :: "env \<Rightarrow> uuid \<Rightarrow> date \<Rightarrow> string \<Rightarrow> uuid list io" where
  "favorite_id_set E user day plant = bind (favorite_list_by_user E user day plant 50 None) (\<lambda>(chips, _). ret (map fc_item chips))"

definition recommend_ranking :: "env \<Rightarrow> home_config \<Rightarrow> uuid \<Rightarrow> string \<Rightarrow> date \<Rightarrow> recommend_chip list io" where
  "recommend_ranking E cfg user plant day = bind (plant_popularity E plant day) (\<lambda>popularity.
     if popularity = [] then ret []
     else bind (user_vendor_affinity E user) (\<lambda>raw.
       bind (meta_by_ids E (map_order (e_pick E) (map fst popularity))) (\<lambda>items.
       bind (favorite_id_set E user day plant) (\<lambda>favs.
       ret (score \<lparr>ri_popularity = popularity, ri_affinity = normalise_affinity raw, ri_items = items, ri_favorites = favs,
         ri_alpha = hc_alpha cfg, ri_limit = 0\<rparr>)))))"

definition recommend_chips ::
    "env \<Rightarrow> home_config \<Rightarrow> uuid \<Rightarrow> string \<Rightarrow> date \<Rightarrow> int \<Rightarrow> int \<Rightarrow> (recommend_chip list \<times> int) io" where
  "recommend_chips E cfg user plant day offset limit0 =
     bind (recommend_ranking E cfg user plant day) (\<lambda>all. ret (recommend_page offset (limit_or limit0 (hc_recommend cfg)) all))"

lemma ro_home_reads [ro_intros]:
  "ro (favorite_list_by_user E u dy p n c)" "ro (plant_popularity E p dy)" "ro (meta_by_ids E is)"
  "ro (all_cutoffs_passed E p dy t)" "ro (user_vendor_affinity E u)" "ro (recent_orders_by_user E u n k)"
  "ro (order_by_user_date E u dy p)" "ro (item_names_by_order_ids E is n)" "ro (order_availability E is dy)"
  "ro (vendor_names_lookup E is)" "ro (order_summary_for E u p dy)" "ro (build_home_state E u p dy)"
  unfolding favorite_list_by_user_def plant_popularity_def meta_by_ids_def all_cutoffs_passed_def user_vendor_affinity_def
    recent_orders_by_user_def order_by_user_date_def item_names_by_order_ids_def order_availability_def vendor_names_lookup_def
    order_summary_for_def build_home_state_def Let_def
  by (intro ro_intros)+

lemma ro_next_orderable_day [ro_intros]: "ro (next_orderable_day E p n dy)"
  by (induction n arbitrary: dy) (auto intro!: ro_intros)

lemma ro_home [ro_intros]:
  "ro (home_compute E u p ov)" "ro (reorder_chips E cfg u dy k n)" "ro (favorite_chips_list E cfg u dy p n c)"
  "ro (favorite_id_set E u dy p)" "ro (recommend_ranking E cfg u p dy)" "ro (recommend_chips E cfg u p dy k n)"
proof -
  show "ro (favorite_chips_list E cfg u dy p n c)" unfolding favorite_chips_list_def by (intro ro_intros)
  show f: "ro (favorite_id_set E u dy p)" unfolding favorite_id_set_def by (intro ro_intros)
  show r: "ro (recommend_ranking E cfg u p dy)" unfolding recommend_ranking_def by (intro ro_intros f)
  show "ro (recommend_chips E cfg u p dy k n)" unfolding recommend_chips_def by (intro ro_intros r)
  show "ro (home_compute E u p ov)" unfolding home_compute_def by (intro ro_intros)
  show "ro (reorder_chips E cfg u dy k n)" unfolding reorder_chips_def Let_def by (intro ro_intros)
qed

end
