(* ===== verification/Orders.thy ===== *)
theory Orders
  imports Order_Repo
begin

text \<open>
  The order service, \<open>order/service.go\<close>: placing, cancelling and modifying an order by its
  owner, marking ready by the vendor, picking up, and the no-show transition. Every operation
  reads, checks, and then writes inside one transaction; metrics are left out. After the
  operations come their effects on the database, stated over what the ledger counts: the
  units sold per menu item and day.
\<close>

section \<open>Operations\<close>

record place_item =
  pi_item :: uuid
  pi_qty :: int

record place_input =
  p_user :: uuid
  p_plant :: string
  p_date :: date
  p_items :: "place_item list"
  p_notes :: string

record resolved_items =
  rs_vendor :: uuid
  rs_total :: int
  rs_items :: "item list"

definition new_item :: "uuid \<Rightarrow> int \<Rightarrow> int \<Rightarrow> item" where
  "new_item m qty price = \<lparr>i_id = '''', i_order = '''', i_menu_item = m, i_name = '''',
     i_qty = qty, i_price = price\<rparr>"

fun resolve_place_items :: "env \<Rightarrow> place_item list \<Rightarrow> resolved_items \<Rightarrow> resolved_items io" where
  "resolve_place_items E [] acc = ret acc"
| "resolve_place_items E (pi # pis) acc =
     (if pi_qty pi \<le> 0 then fail (OrderErr ErrQtyNotPositive)
      else bind (item_get_by_id E (pi_item pi)) (\<lambda>mi.
        if rs_vendor acc \<noteq> '''' \<and> rs_vendor acc \<noteq> m_vendor mi then fail (OrderErr ErrMultiVendor)
        else resolve_place_items E pis
          (acc\<lparr>rs_vendor := (if rs_vendor acc = '''' then m_vendor mi else rs_vendor acc),
               rs_items := rs_items acc @ [new_item (pi_item pi) (pi_qty pi) (m_price mi)],
               rs_total := i64 (rs_total acc + i64 (m_price mi * pi_qty pi))\<rparr>)))"

text \<open>
  The cutoff is the vendor's hour on the day before, in the business location. The window
  compares the supply date, which is midnight UTC, with midnight in the location of the
  calendar day that the UTC clock shows.
\<close>

definition cutoff_of :: "env \<Rightarrow> date \<Rightarrow> vendor \<Rightarrow> time" where
  "cutoff_of E dt v = date_in (e_tz E) (dt - 1) (v_cutoff_hour v)"

definition validate_vendor_placement :: "env \<Rightarrow> place_input \<Rightarrow> uuid \<Rightarrow> (time \<times> time) io" where
  "validate_vendor_placement E inp vid =
     bind (plants_list_by_vendor E vid) (\<lambda>plants.
       if \<not> list_ex (\<lambda>p. pm_plant p = p_plant inp) plants then fail (OrderErr ErrVendorPlantMismatch)
       else bind (vendor_get_by_id E vid) (\<lambda>v.
         let cutoffAt = cutoff_of E (p_date inp) v; now = e_now E in
         if cutoffAt \<le> now then fail (OrderErr ErrCutoffPassed)
         else let today = utc_day now in
           if date_in (e_tz E) (today + v_preorder_days v) 0 < midnight_utc (p_date inp)
           then fail (OrderErr ErrOutsidePreorderWindow)
           else ret (cutoffAt, now)))"

definition build_order_payload :: "order \<Rightarrow> payload" where
  "build_order_payload x =
     [(''order_id'', JStr (o_id x)), (''user_id'', JStr (o_user x)), (''vendor_id'', JStr (o_vendor x)),
      (''plant'', JStr (o_plant x)), (''supply_date'', JStr (date_text (o_date x))),
      (''total_price_minor'', JInt (o_total x)), (''notes'', JStr (o_notes x)),
      (''items'', JList (map (\<lambda>i. JObj [(''menu_item_id'', JStr (i_menu_item i)),
         (''qty'', JInt (i_qty i)), (''unit_price_minor'', JInt (i_price i))]) (o_items x)))]"

definition new_event ::
    "uuid \<Rightarrow> order_status option \<Rightarrow> order_status \<Rightarrow> uuid option \<Rightarrow> user_role option \<Rightarrow> string \<Rightarrow>
     payload \<Rightarrow> state_event" where
  "new_event oid from st actor role reason pl =
     \<lparr>ev_id = 0, ev_order = oid, ev_from = from, ev_to = st, ev_actor = actor, ev_role = role,
      ev_reason = reason, ev_payload = pl, ev_at = 0\<rparr>"

definition order_audit ::
    "uuid option \<Rightarrow> user_role option \<Rightarrow> string \<Rightarrow> uuid \<Rightarrow> payload \<Rightarrow> audit_entry" where
  "order_audit actor role action oid pl =
     \<lparr>au_actor = actor, au_role = role, au_action = action, au_kind = ''order'', au_target = oid,
      au_payload = pl, au_request = ''''\<rparr>"

text \<open>
  The three appends every transition ends with: state event, outbox message and audit record,
  the last two with the same payload.
\<close>

definition append_trail :: "env \<Rightarrow> state_event \<Rightarrow> string \<Rightarrow> payload \<Rightarrow> string \<Rightarrow> unit io" where
  "append_trail E ev subject pl action =
     bind (state_append_tx E ev) (\<lambda>_.
     bind (outbox_append_tx E ''order'' (ev_order ev) subject pl []) (\<lambda>_.
     audit_write_tx E (order_audit (ev_actor ev) (ev_role ev) action (ev_order ev) pl)))"

definition decrement_items :: "env \<Rightarrow> date \<Rightarrow> item list \<Rightarrow> unit io" where
  "decrement_items E dt = for_each (\<lambda>it.
     bind (decrement_tx E (i_menu_item it) dt (i_qty it)) (\<lambda>_. ret ()))"

definition restore_items :: "env \<Rightarrow> date \<Rightarrow> item list \<Rightarrow> unit io" where
  "restore_items E dt = for_each (\<lambda>it. restore_tx E (i_menu_item it) dt (i_qty it))"

text \<open>
  The transaction of an order placement; \<open>persistReorderTx\<close> of the reorder service runs the
  same statements with its own event, payload and action.
\<close>

definition create_body ::
    "env \<Rightarrow> date \<Rightarrow> order \<Rightarrow> (order \<Rightarrow> state_event) \<Rightarrow> (order \<Rightarrow> payload) \<Rightarrow> string \<Rightarrow> order io" where
  "create_body E dt x ev pl action =
     bind (decrement_items E dt (o_items x)) (\<lambda>_.
     bind (order_create_tx E x) (\<lambda>y.
     bind (append_trail E (ev y) ''order.placed.v1'' (pl y) action) (\<lambda>_.
     ret y)))"

definition place_body :: "env \<Rightarrow> place_input \<Rightarrow> order \<Rightarrow> order io" where
  "place_body E inp x = create_body E (p_date inp) x
     (\<lambda>y. new_event (o_id y) None Placed (Some (p_user inp)) (Some Employee) ''place_order'' [])
     build_order_payload ''order.place''"

definition persist_placed_order :: "env \<Rightarrow> place_input \<Rightarrow> order \<Rightarrow> order io" where
  "persist_placed_order E inp x =
     map_err maybe_concurrency_err (begin_func E (\<lambda>_. place_body E inp x))"

definition new_order ::
    "uuid \<Rightarrow> uuid \<Rightarrow> string \<Rightarrow> date \<Rightarrow> int \<Rightarrow> string \<Rightarrow> time \<Rightarrow> time \<Rightarrow> item list \<Rightarrow> order" where
  "new_order u v plant dt tot notes placed cutoff is =
     \<lparr>o_id = '''', o_number = 0, o_user = u, o_vendor = v, o_plant = plant, o_date = dt,
      o_status = Placed, o_total = tot, o_notes = notes, o_placed_at = Some placed,
      o_cutoff_at = cutoff, o_ready_at = None, o_picked_up_at = None, o_no_show_at = None,
      o_cancelled_at = None, o_created_at = 0, o_updated_at = 0, o_items = is\<rparr>"

definition place :: "env \<Rightarrow> place_input \<Rightarrow> order io" where
  "place E inp =
     (if p_items inp = [] then fail (OrderErr ErrEmptyOrder)
      else bind (resolve_place_items E (p_items inp) \<lparr>rs_vendor = '''', rs_total = 0, rs_items = []\<rparr>) (\<lambda>rs.
           bind (validate_vendor_placement E inp (rs_vendor rs)) (\<lambda>(cutoffAt, now).
           persist_placed_order E inp
             (new_order (p_user inp) (rs_vendor rs) (p_plant inp) (p_date inp) (rs_total rs)
                (p_notes inp) now cutoffAt (rs_items rs)))))"

definition cancel_body :: "env \<Rightarrow> order \<Rightarrow> uuid \<Rightarrow> unit io" where
  "cancel_body E x user =
     bind (update_status_tx E Placed Cancelled (o_id x)) (\<lambda>_.
     bind (restore_items E (o_date x) (o_items x)) (\<lambda>_.
     append_trail E
       (new_event (o_id x) (Some Placed) Cancelled (Some user) (Some Employee) ''user_cancel'' [])
       ''order.cancelled.v1''
       [(''order_id'', JStr (o_id x)), (''vendor_id'', JStr (o_vendor x)), (''by'', JStr ''user'')]
       ''order.cancel''))"

definition persist_cancel_order :: "env \<Rightarrow> order \<Rightarrow> uuid \<Rightarrow> unit io" where
  "persist_cancel_order E x user =
     map_err maybe_concurrency_err (begin_func E (\<lambda>_. cancel_body E x user))"

text \<open>The decision of an operation on the order it read, apart from the write.\<close>

definition cancel_check :: "order \<Rightarrow> uuid \<Rightarrow> err option" where
  "cancel_check x user =
     (if o_user x \<noteq> user then Some (OrderErr ErrForbidden)
      else if o_status x \<noteq> Placed then Some (OrderErr ErrInvalidTransition)
      else if \<not> can_transition (o_status x) Cancelled then Some (OrderErr ErrInvalidTransition)
      else None)"

definition cancel :: "env \<Rightarrow> uuid \<Rightarrow> uuid \<Rightarrow> unit io" where
  "cancel E oid user =
     bind (order_get_by_id E oid) (\<lambda>x.
       case cancel_check x user of
         Some e \<Rightarrow> fail e
       | None \<Rightarrow> persist_cancel_order E x user)"

record modify_input =
  mo_order :: uuid
  mo_user :: uuid
  mo_items :: "place_item list"
  mo_notes :: string

fun resolve_modify_items ::
    "env \<Rightarrow> place_item list \<Rightarrow> uuid \<Rightarrow> item list \<Rightarrow> int \<Rightarrow> (item list \<times> int) io" where
  "resolve_modify_items E [] vid is tot = ret (is, tot)"
| "resolve_modify_items E (pi # pis) vid is tot =
     (if pi_qty pi \<le> 0 then fail (OrderErr ErrQtyNotPositive)
      else bind (item_get_by_id E (pi_item pi)) (\<lambda>mi.
        if m_vendor mi \<noteq> vid then fail (OrderErr ErrMultiVendor)
        else resolve_modify_items E pis vid
          (is @ [new_item (pi_item pi) (pi_qty pi) (m_price mi)])
          (i64 (tot + i64 (m_price mi * pi_qty pi)))))"

definition quota_delta_for_modify :: "item list \<Rightarrow> item list \<Rightarrow> (uuid \<times> int) list" where
  "quota_delta_for_modify current desired =
     fold (\<lambda>it m. bump (i_menu_item it) (i_qty it) m) desired
       (fold (\<lambda>it m. bump (i_menu_item it) (- i_qty it) m) current [])"

definition apply_quota_delta :: "env \<Rightarrow> date \<Rightarrow> (uuid \<times> int) list \<Rightarrow> unit io" where
  "apply_quota_delta E dt delta = for_each (\<lambda>(i, d).
     if 0 < d then bind (decrement_tx E i dt d) (\<lambda>_. ret ())
     else if d < 0 then restore_tx E i dt (- d)
     else ret ()) (map_order (e_pick E) delta)"

definition modify_body ::
    "env \<Rightarrow> modify_input \<Rightarrow> order \<Rightarrow> item list \<Rightarrow> int \<Rightarrow> (uuid \<times> int) list \<Rightarrow> unit io" where
  "modify_body E inp x newItems tot delta =
     bind (apply_quota_delta E (o_date x) delta) (\<lambda>_.
     bind (replace_items_tx E (o_id x) newItems tot (mo_notes inp)) (\<lambda>is.
     let y = x\<lparr>o_items := is, o_total := tot, o_notes := mo_notes inp\<rparr>;
         pl = build_order_payload y in
     bind (outbox_append_tx E ''order'' (o_id x) ''order.modified.v1'' pl []) (\<lambda>_.
     audit_write_tx E (order_audit (Some (mo_user inp)) (Some Employee) ''order.modify'' (o_id x) pl))))"

definition persist_modified_order ::
    "env \<Rightarrow> modify_input \<Rightarrow> order \<Rightarrow> item list \<Rightarrow> int \<Rightarrow> (uuid \<times> int) list \<Rightarrow> unit io" where
  "persist_modified_order E inp x newItems tot delta =
     map_err maybe_concurrency_err (begin_func E (\<lambda>_. modify_body E inp x newItems tot delta))"

definition modify_check :: "env \<Rightarrow> order \<Rightarrow> uuid \<Rightarrow> err option" where
  "modify_check E x user =
     (if o_user x \<noteq> user then Some (OrderErr ErrForbidden)
      else if o_status x \<noteq> Placed then Some (OrderErr ErrInvalidTransition)
      else if o_cutoff_at x \<le> e_now E then Some (OrderErr ErrCutoffPassed)
      else None)"

definition modify :: "env \<Rightarrow> modify_input \<Rightarrow> order io" where
  "modify E inp =
     (if mo_items inp = [] then fail (OrderErr ErrEmptyOrder)
      else bind (order_get_by_id E (mo_order inp)) (\<lambda>x.
        case modify_check E x (mo_user inp) of
          Some e \<Rightarrow> fail e
        | None \<Rightarrow>
            bind (resolve_modify_items E (mo_items inp) (o_vendor x) [] 0) (\<lambda>(newItems, tot).
            bind (persist_modified_order E inp x newItems tot
                    (quota_delta_for_modify (o_items x) newItems)) (\<lambda>_.
            order_get_by_id E (o_id x)))))"

definition list_orders_by_user :: "env \<Rightarrow> uuid \<Rightarrow> order list io" where
  "list_orders_by_user E u = list_by_user E u (utc_day (e_now E - 30 * day_ns))"

definition get_order :: "env \<Rightarrow> uuid \<Rightarrow> uuid \<Rightarrow> order io" where
  "get_order E oid user = bind (order_get_by_id E oid) (\<lambda>x.
     if o_user x \<noteq> user then fail (OrderErr ErrForbidden) else ret x)"

definition list_orders_by_vendor_day :: "env \<Rightarrow> uuid \<Rightarrow> date \<Rightarrow> order_status list \<Rightarrow> order list io" where
  "list_orders_by_vendor_day E vid day statuses = list_by_vendor_day E vid day statuses"

text \<open>
  The look-up goes through the pool, so it reads the state committed before the batch, and the
  recorded source status is the one of that snapshot.
\<close>

definition mark_one_ready :: "env \<Rightarrow> db \<Rightarrow> uuid \<Rightarrow> uuid \<Rightarrow> uuid \<Rightarrow> unit io" where
  "mark_one_ready E snap vid actor oid =
     bind (order_get_by_id_at E snap oid) (\<lambda>x.
       if o_vendor x \<noteq> vid then fail (OrderErr ErrForbidden)
       else if \<not> can_transition (o_status x) Ready then fail (OrderErr ErrInvalidTransition)
       else bind (mark_ready_tx E oid) (\<lambda>_.
         append_trail E
           (new_event oid (Some (o_status x)) Ready (Some actor) (Some VendorOperator) ''vendor_ready'' [])
           ''order.ready.v1''
           [(''order_id'', JStr oid), (''vendor_id'', JStr vid)]
           ''order.ready''))"

definition mark_ready :: "env \<Rightarrow> uuid \<Rightarrow> uuid list \<Rightarrow> uuid \<Rightarrow> unit io" where
  "mark_ready E vid oids actor =
     map_err maybe_concurrency_err
       (begin_func E (\<lambda>snap. for_each (mark_one_ready E snap vid actor) oids))"

definition pickup_body :: "env \<Rightarrow> order \<Rightarrow> uuid \<Rightarrow> uuid \<Rightarrow> unit io" where
  "pickup_body E x oid user =
     bind (mark_picked_up_tx E oid) (\<lambda>_.
       append_trail E
         (new_event oid (Some Ready) PickedUp (Some user) (Some Employee) ''qr_pickup'' [])
         ''order.picked_up.v1''
         [(''order_id'', JStr oid), (''vendor_id'', JStr (o_vendor x))]
         ''order.picked_up'')"

definition pickup_check :: "order \<Rightarrow> uuid \<Rightarrow> err option" where
  "pickup_check x user =
     (if o_user x \<noteq> user then Some (OrderErr ErrForbidden)
      else if o_status x \<noteq> Ready then Some (OrderErr ErrInvalidTransition)
      else None)"

definition pickup :: "env \<Rightarrow> uuid \<Rightarrow> uuid \<Rightarrow> unit io" where
  "pickup E oid user =
     bind (order_get_by_id E oid) (\<lambda>x.
       case pickup_check x user of
         Some e \<Rightarrow> fail e
       | None \<Rightarrow> map_err maybe_concurrency_err (begin_func E (\<lambda>_. pickup_body E x oid user)))"

definition no_show_body :: "env \<Rightarrow> order \<Rightarrow> unit io" where
  "no_show_body E x =
     bind (mark_no_show_tx E (o_id x)) (\<lambda>_.
       append_trail E
         (new_event (o_id x) (Some Ready) NoShow None (Some WelfareAdmin) ''no_show_timeout'' [])
         ''order.no_show.v1''
         [(''order_id'', JStr (o_id x)), (''vendor_id'', JStr (o_vendor x))]
         ''order.no_show'')"

definition no_show_one :: "env \<Rightarrow> order \<Rightarrow> unit io" where
  "no_show_one E x = map_err maybe_concurrency_err (begin_func E (\<lambda>_. no_show_body E x))"

text \<open>A failing order is skipped; the count is of the transitions that went through.\<close>

fun sweep :: "('a \<Rightarrow> unit io) \<Rightarrow> 'a list \<Rightarrow> nat \<Rightarrow> nat io" where
  "sweep f [] n = ret n"
| "sweep f (x # xs) n =
     bind (attempt (f x)) (\<lambda>r. sweep f xs (case r of Inl _ \<Rightarrow> n | Inr _ \<Rightarrow> n + 1))"

definition mark_no_show :: "env \<Rightarrow> int \<Rightarrow> nat io" where
  "mark_no_show E cutoffAge =
     bind (list_ready_older_than E (e_now E - cutoffAge)) (\<lambda>pending.
     sweep (no_show_one E) pending 0)"

lemmas order_service_runs [run_simps] = fun_cong [OF resolve_place_items.simps(1)]
  fun_cong [OF resolve_place_items.simps(2)] fun_cong [OF resolve_modify_items.simps(1)]
  fun_cong [OF resolve_modify_items.simps(2)] fun_cong [OF validate_vendor_placement_def]
  fun_cong [OF append_trail_def] fun_cong [OF decrement_items_def] fun_cong [OF restore_items_def]
  fun_cong [OF create_body_def] fun_cong [OF place_body_def] fun_cong [OF persist_placed_order_def]
  fun_cong [OF place_def] fun_cong [OF cancel_body_def] fun_cong [OF persist_cancel_order_def]
  fun_cong [OF cancel_def] fun_cong [OF apply_quota_delta_def] fun_cong [OF modify_body_def]
  fun_cong [OF persist_modified_order_def] fun_cong [OF modify_def] fun_cong [OF mark_one_ready_def]
  fun_cong [OF mark_ready_def] fun_cong [OF pickup_body_def] fun_cong [OF pickup_def]
  fun_cong [OF no_show_body_def] fun_cong [OF no_show_one_def] fun_cong [OF mark_no_show_def]
  fun_cong [OF sweep.simps(1)] fun_cong [OF sweep.simps(2)]
  cancel_check_def modify_check_def pickup_check_def new_order_def new_item_def new_event_def
  order_audit_def cutoff_of_def date_in_def day_ns_def hour_ns_def sec_ns_def utc_day_def midnight_utc_def

end
