(* ===== verification/Sales.thy ===== *)
theory Sales
  imports Orders
begin

text \<open>
  What the ledger counts, and how the statements of the order service move it: \<open>sold_at\<close>
  adds up the quantities of the items of all orders that are not cancelled, \<open>taken\<close> is what a
  supply row says was taken out of its capacity, and the state events of an order form a walk
  through the state machine that ends in the order's status.
\<close>

section \<open>Units sold and units taken\<close>

definition live :: "db \<Rightarrow> date \<Rightarrow> uuid \<Rightarrow> bool" where
  "live d dt oid = (case by_key o_id oid (orders d) of
      None \<Rightarrow> False | Some r \<Rightarrow> o_date r = dt \<and> o_status r \<noteq> Cancelled)"

definition demand :: "item list \<Rightarrow> uuid \<Rightarrow> int" where
  "demand is m = sql_sum (\<lambda>i. i_menu_item i = m) i_qty is"

definition demand_at :: "date \<Rightarrow> item list \<Rightarrow> supply_key \<Rightarrow> int" where
  "demand_at dt is k = (if snd k = dt then demand is (fst k) else 0)"

definition sold_at :: "db \<Rightarrow> supply_key \<Rightarrow> int" where
  "sold_at d k = sql_sum (\<lambda>i. i_menu_item i = fst k \<and> live d (snd k) (i_order i)) i_qty (order_items d)"

definition taken :: "db \<Rightarrow> supply_key \<Rightarrow> int" where
  "taken d k = (case by_key skey k (supplies d) of None \<Rightarrow> 0 | Some s \<Rightarrow> s_capacity s - s_remain s)"

text \<open>\<open>balanced\<close>: every unit sold is taken from its supply, and nothing else is.\<close>

definition balanced :: "db \<Rightarrow> bool" where
  "balanced d \<longleftrightarrow> (\<forall>k. taken d k = sold_at d k)"

text \<open>\<open>covered\<close>: no more is taken than was sold.\<close>

definition covered :: "db \<Rightarrow> bool" where
  "covered d \<longleftrightarrow> (\<forall>k. taken d k \<le> sold_at d k)"

lemma taken_fields [simp]:
  "taken (d\<lparr>orders := a\<rparr>) = taken d" "taken (d\<lparr>order_items := b\<rparr>) = taken d"
  "taken (d\<lparr>state_events := c\<rparr>) = taken d" "taken (d\<lparr>outbox := e\<rparr>) = taken d"
  "taken (d\<lparr>audits := f\<rparr>) = taken d"
  by (simp_all add: taken_def fun_eq_iff)

lemma live_fields [simp]:
  "live (d\<lparr>supplies := a\<rparr>) = live d" "live (d\<lparr>order_items := b\<rparr>) = live d"
  "live (d\<lparr>state_events := c\<rparr>) = live d" "live (d\<lparr>outbox := e\<rparr>) = live d"
  "live (d\<lparr>audits := f\<rparr>) = live d"
  by (simp_all add: live_def fun_eq_iff)

lemma sold_at_fields [simp]:
  "sold_at (d\<lparr>supplies := a\<rparr>) = sold_at d"
  "sold_at (d\<lparr>state_events := c\<rparr>) = sold_at d" "sold_at (d\<lparr>outbox := e\<rparr>) = sold_at d"
  "sold_at (d\<lparr>audits := f\<rparr>) = sold_at d"
  by (simp_all add: sold_at_def fun_eq_iff)

lemma remain_capacity_fields [simp]:
  "remain_at (d\<lparr>orders := a\<rparr>) = remain_at d" "capacity_at (d\<lparr>orders := a\<rparr>) = capacity_at d"
  "remain_at (d\<lparr>order_items := b\<rparr>) = remain_at d" "capacity_at (d\<lparr>order_items := b\<rparr>) = capacity_at d"
  "remain_at (d\<lparr>state_events := c\<rparr>) = remain_at d" "capacity_at (d\<lparr>state_events := c\<rparr>) = capacity_at d"
  "remain_at (d\<lparr>outbox := e\<rparr>) = remain_at d" "capacity_at (d\<lparr>outbox := e\<rparr>) = capacity_at d"
  "remain_at (d\<lparr>audits := f\<rparr>) = remain_at d" "capacity_at (d\<lparr>audits := f\<rparr>) = capacity_at d"
  by (simp_all add: remain_at_def capacity_at_def fun_eq_iff)

lemma taken_alt: "taken d k = (case capacity_at d k of None \<Rightarrow> 0 | Some c \<Rightarrow> c - the (remain_at d k))"
  by (simp add: taken_def capacity_at_def remain_at_def split: option.split)

lemma capacity_remain_None: "capacity_at d k = None \<longleftrightarrow> remain_at d k = None"
  by (simp add: capacity_at_def remain_at_def)

lemma sold_at_but_supplies: "but_supplies d = but_supplies d' \<Longrightarrow> sold_at d = sold_at d'"
  by (metis but_supplies_fields(10) sold_at_fields(1))

lemma demand_line:
  assumes "map line is = map line js"
  shows "demand is m = demand js m"
proof -
  have "demand xs m = sum_list (map (\<lambda>(i, q, p). if i = m then q else 0) (map line xs))" for xs
    by (induction xs) (auto simp: demand_def line_def)
  with assms show ?thesis by metis
qed

lemma demand_stored [simp]: "demand (map stored is) m = demand is m"
  by (rule demand_line) (simp add: comp_def)

lemma demand_items_of:
  "demand (items_of d oid) m = sql_sum (\<lambda>i. i_menu_item i = m \<and> i_order i = oid) i_qty (order_items d)"
  by (auto simp: demand_def items_of_def sql_sum_def comp_def filter_map
      intro!: arg_cong [where f = sum_list] arg_cong [where f = "map i_qty"] filter_cong)

lemma demand_append: "demand (is @ js) m = demand is m + demand js m"
  by (simp add: demand_def)

lemma demand_nonneg: "(\<And>i. i \<in> set is \<Longrightarrow> 0 \<le> i_qty i) \<Longrightarrow> 0 \<le> demand is m"
  unfolding demand_def by (rule sql_sum_nonneg)

subsection \<open>Sales of one order and of the others\<close>

definition sales_of :: "db \<Rightarrow> uuid \<Rightarrow> supply_key \<Rightarrow> int" where
  "sales_of d oid k = (if live d (snd k) oid then demand (items_of d oid) (fst k) else 0)"

definition sales_but :: "db \<Rightarrow> uuid \<Rightarrow> supply_key \<Rightarrow> int" where
  "sales_but d oid k = sql_sum (\<lambda>i. i_menu_item i = fst k \<and> live d (snd k) (i_order i)) i_qty
     (filter (\<lambda>i. i_order i \<noteq> oid) (order_items d))"

lemma sold_at_split: "sold_at d k = sales_of d oid k + sales_but d oid k"
proof -
  have "sold_at d k = sql_sum (\<lambda>i. (i_menu_item i = fst k \<and> live d (snd k) (i_order i)) \<and> i_order i = oid)
      i_qty (order_items d) + sales_but d oid k"
    unfolding sold_at_def sales_but_def sql_sum_filter by (rule sql_sum_split)
  also have "sql_sum (\<lambda>i. (i_menu_item i = fst k \<and> live d (snd k) (i_order i)) \<and> i_order i = oid)
      i_qty (order_items d) = sales_of d oid k"
    unfolding sales_of_def demand_items_of
    by (auto intro!: sql_sum_cong sql_sum_none)
  finally show ?thesis .
qed

lemma sales_but_cong:
  assumes "filter (\<lambda>i. i_order i \<noteq> oid) (order_items d') = filter (\<lambda>i. i_order i \<noteq> oid) (order_items d)"
    and "\<And>j dt. j \<noteq> oid \<Longrightarrow> live d' dt j = live d dt j"
  shows "sales_but d' oid k = sales_but d oid k"
  unfolding sales_but_def assms(1) by (rule sql_sum_cong) (auto simp: assms(2))

lemma sold_at_one_order:
  assumes "filter (\<lambda>i. i_order i \<noteq> oid) (order_items d') = filter (\<lambda>i. i_order i \<noteq> oid) (order_items d)"
    and "\<And>j dt. j \<noteq> oid \<Longrightarrow> live d' dt j = live d dt j"
  shows "sold_at d' k = sold_at d k - sales_of d oid k + sales_of d' oid k"
  using sold_at_split [of d' k oid] sold_at_split [of d k oid] sales_but_cong [OF assms] by simp

lemma live_sql_update:
  assumes "\<And>r. o_id (f r) = o_id r" "\<And>r. o_date (f r) = o_date r"
  shows "live (d\<lparr>orders := sql_update P f (orders d)\<rparr>) dt j = (case by_key o_id j (orders d) of
      None \<Rightarrow> False
    | Some r \<Rightarrow> o_date r = dt \<and> (if P r then o_status (f r) else o_status r) \<noteq> Cancelled)"
  by (auto simp: live_def by_key_sql_update assms split: option.splits)

lemma sales_of_row:
  "by_key o_id oid (orders d) = Some r \<Longrightarrow>
     sales_of d oid k = (if o_status r \<noteq> Cancelled then demand_at (o_date r) (items_of d oid) k else 0)"
  by (auto simp: sales_of_def live_def demand_at_def)

lemma sold_at_nonneg: "wf_orders d \<Longrightarrow> 0 \<le> sold_at d k"
  unfolding sold_at_def by (rule sql_sum_nonneg) (auto simp: wf_orders_def)

text \<open>A status change that neither enters nor leaves \<open>Cancelled\<close> sells nothing.\<close>

lemma sold_at_status_update:
  assumes "\<And>r. o_id (f r) = o_id r" "\<And>r. o_date (f r) = o_date r"
    and "\<And>r. P r \<Longrightarrow> o_status (f r) \<noteq> Cancelled \<and> o_status r \<noteq> Cancelled"
  shows "sold_at (d\<lparr>orders := sql_update P f (orders d)\<rparr>) = sold_at d"
proof
  fix k
  have "live (d\<lparr>orders := sql_update P f (orders d)\<rparr>) dt j = live d dt j" for dt j
    by (subst live_sql_update) (auto simp: assms live_def split: option.splits)
  then show "sold_at (d\<lparr>orders := sql_update P f (orders d)\<rparr>) k = sold_at d k"
    by (simp add: sold_at_def)
qed

section \<open>Quota loops on the ledger\<close>

definition requests :: "date \<Rightarrow> item list \<Rightarrow> (supply_key \<times> int) list" where
  "requests dt is = map (\<lambda>i. ((i_menu_item i, dt), i_qty i)) is"

lemma for_each_map: "for_each f (map g xs) = for_each (\<lambda>x. f (g x)) xs"
  by (induction xs) auto

lemma decrement_items_ledger:
  "decrement_items E dt is = for_each (\<lambda>(k, n). bind (decrement_tx E (fst k) (snd k) n) (\<lambda>_. ret ()))
     (requests dt is)"
  by (simp add: decrement_items_def requests_def for_each_map)

lemma restore_items_ledger:
  "restore_items E dt is = for_each (\<lambda>(k, n). restore_tx E (fst k) (snd k) n) (requests dt is)"
  by (simp add: restore_items_def requests_def for_each_map)

lemma need_requests: "ledger.need (requests dt is) k = demand_at dt is k"
  by (induction "is") (auto simp: requests_def demand_at_def demand_def prod_eq_iff)

lemma decrement_items_ok:
  assumes "wf_supplies (w_db w)" "decrement_items E dt is w = (Inr (), w')"
  shows "wf_supplies (w_db w')" and "but_supplies (w_db w') = but_supplies (w_db w)"
    and "capacity_at (w_db w') = capacity_at (w_db w)"
    and "remain_at (w_db w') k = map_option (\<lambda>v. v - demand_at dt is k) (remain_at (w_db w) k)"
    and "i \<in> set is \<Longrightarrow> \<exists>v. remain_at (w_db w) (i_menu_item i, dt) = Some v \<and> demand is (i_menu_item i) \<le> v"
    and "taken (w_db w') k = taken (w_db w) k + demand_at dt is k"
proof -
  note L = ledger.dec_all [OF assms(1) assms(2) [unfolded decrement_items_ledger]]
  then show "wf_supplies (w_db w')" "but_supplies (w_db w') = but_supplies (w_db w)"
    and cap: "capacity_at (w_db w') = capacity_at (w_db w)"
    and rem: "\<And>k. remain_at (w_db w') k = map_option (\<lambda>v. v - demand_at dt is k) (remain_at (w_db w) k)"
    by (auto simp: need_requests)
  have enough: "\<exists>v. remain_at (w_db w) (i_menu_item i, dt) = Some v \<and> demand is (i_menu_item i) \<le> v"
    if "i \<in> set is" for i
  proof -
    from that have "(i_menu_item i, dt) \<in> fst ` set (requests dt is)"
      by (auto simp: requests_def image_iff)
    with L show ?thesis by (fastforce simp: need_requests demand_at_def)
  qed
  then show "i \<in> set is \<Longrightarrow> \<exists>v. remain_at (w_db w) (i_menu_item i, dt) = Some v \<and> demand is (i_menu_item i) \<le> v" .
  show "taken (w_db w') k = taken (w_db w) k + demand_at dt is k"
  proof (cases "remain_at (w_db w) k")
    case None
    have "demand_at dt is k = 0"
    proof (rule ccontr)
      assume nz: "demand_at dt is k \<noteq> 0"
      then have "snd k = dt" "demand is (fst k) \<noteq> 0"
        by (simp_all add: demand_at_def split: if_splits)
      moreover from this(2) have "\<exists>i\<in>set is. i_menu_item i = fst k"
        unfolding demand_def by (blast intro: sql_sum_none)
      ultimately have "snd k = dt" "\<exists>i\<in>set is. i_menu_item i = fst k" by blast+
      with enough None show False by (metis option.distinct(1) prod.collapse)
    qed
    moreover from None have "capacity_at (w_db w) k = None" by (simp add: capacity_remain_None)
    ultimately show ?thesis using cap by (simp add: taken_alt)
  next
    case (Some v)
    then obtain c where "capacity_at (w_db w) k = Some c"
      by (cases "capacity_at (w_db w) k") (auto simp: capacity_remain_None)
    with Some cap rem show ?thesis by (simp add: taken_alt)
  qed
qed

lemma restore_items_ok:
  assumes "wf_supplies (w_db w)" "restore_items E dt is w = (Inr (), w')"
  shows "wf_supplies (w_db w')" and "but_supplies (w_db w') = but_supplies (w_db w)"
    and "capacity_at (w_db w') = capacity_at (w_db w)"
    and "remain_at (w_db w') k = map_option
      (\<lambda>v. min (v + demand_at dt is k) (the (capacity_at (w_db w) k))) (remain_at (w_db w) k)"
    and "taken (w_db w') k = max (taken (w_db w) k - demand_at dt is k) 0"
proof -
  note run = assms(2) [unfolded restore_items_ledger]
  note L = ledger.res_all [OF assms(1) run]
  then show "wf_supplies (w_db w')" "but_supplies (w_db w') = but_supplies (w_db w)"
    and cap: "capacity_at (w_db w') = capacity_at (w_db w)"
    and rem: "remain_at (w_db w') k = map_option
      (\<lambda>v. min (v + demand_at dt is k) (the (capacity_at (w_db w) k))) (remain_at (w_db w) k)"
    unfolding need_requests by blast+
  have nn: "0 \<le> demand_at dt is k"
    using ledger.need_nonneg [of E "requests dt is" w w' k] run by (simp add: need_requests)
  show "taken (w_db w') k = max (taken (w_db w) k - demand_at dt is k) 0"
  proof (cases "remain_at (w_db w) k")
    case None
    then have "capacity_at (w_db w) k = None" by (simp add: capacity_remain_None)
    with cap nn show ?thesis by (simp add: taken_alt)
  next
    case (Some v)
    then obtain c where "capacity_at (w_db w) k = Some c"
      by (cases "capacity_at (w_db w) k") (auto simp: capacity_remain_None)
    with Some cap rem show ?thesis by (simp add: taken_alt min_def max_def)
  qed
qed

section \<open>The quota delta of a modification\<close>

lemma total_at_fold_bump:
  "total_at (fold (\<lambda>it m. bump (i_menu_item it) (f it) m) is m0) k =
     total_at m0 k + sql_sum (\<lambda>i. i_menu_item i = k) f is"
  by (induction "is" arbitrary: m0) (auto simp: total_at_bump)

lemma distinct_fold_bump:
  "distinct (map fst m0) \<Longrightarrow> distinct (map fst (fold (\<lambda>it m. bump (g it) (f it) m) is m0))"
  by (induction "is" arbitrary: m0) (auto intro: distinct_bump)

lemma quota_delta_total:
  "total_at (quota_delta_for_modify current desired) m = demand desired m - demand current m"
proof -
  have "sql_sum P (\<lambda>i. - i_qty i) is = - sql_sum P i_qty is" for P "is"
    by (induction "is") auto
  then show ?thesis by (simp add: quota_delta_for_modify_def total_at_fold_bump demand_def)
qed

lemma distinct_quota_delta: "distinct (map fst (quota_delta_for_modify current desired))"
  by (simp add: quota_delta_for_modify_def distinct_fold_bump)

text \<open>
  Applying a delta, in whatever order the map is visited: a row changes by the delta of its
  own key, and gives back at most what was taken.
\<close>

definition delta_taken :: "date \<Rightarrow> (uuid \<times> int) list \<Rightarrow> (supply_key \<Rightarrow> int) \<Rightarrow> supply_key \<Rightarrow> int" where
  "delta_taken dt m t k = (let n = (if snd k = dt then total_at m (fst k) else 0)
     in if 0 \<le> n then t k + n else max (t k + n) 0)"

lemma decrement_taken:
  assumes "wf_supplies (w_db w)" "decrement_tx E i dt n w = (Inr r, w')"
  shows "taken (w_db w') = (taken (w_db w))((i, dt) := taken (w_db w) (i, dt) + n)"
proof
  fix k
  from decrement_ok(2) [OF assms] decrement_ok(3) [OF assms]
  show "taken (w_db w') k = ((taken (w_db w))((i, dt) := taken (w_db w) (i, dt) + n)) k"
    using capacity_remain_None [of "w_db w" "(i, dt)"] by (auto simp: taken_alt split: option.splits)
qed

lemma restore_taken:
  assumes "wf_supplies (w_db w)" "restore_tx E i dt n w = (Inr (), w')"
  shows "taken (w_db w') = (taken (w_db w))((i, dt) := max (taken (w_db w) (i, dt) - n) 0)"
proof
  fix k
  note R = restore_ok(1,2,3) [OF assms]
  show "taken (w_db w') k = ((taken (w_db w))((i, dt) := max (taken (w_db w) (i, dt) - n) 0)) k"
  proof (cases "capacity_at (w_db w) k")
    case None
    with R show ?thesis by (auto simp: taken_alt)
  next
    case (Some c)
    then obtain v where "remain_at (w_db w) k = Some v"
      by (cases "remain_at (w_db w) k") (auto simp: capacity_remain_None [symmetric])
    with Some R show ?thesis by (auto simp: taken_alt min_def max_def)
  qed
qed

lemma apply_delta_loop:
  assumes "wf_supplies (w_db w)" "distinct (map fst m)"
    and "for_each (\<lambda>(i, d). if 0 < d then bind (decrement_tx E i dt d) (\<lambda>_. ret ())
           else if d < 0 then restore_tx E i dt (- d) else ret ()) m w = (Inr (), w')"
    and nonneg: "\<And>k. 0 \<le> taken (w_db w) k"
  shows "wf_supplies (w_db w') \<and> but_supplies (w_db w') = but_supplies (w_db w)
    \<and> capacity_at (w_db w') = capacity_at (w_db w)
    \<and> taken (w_db w') = delta_taken dt m (taken (w_db w))"
  using assms
proof (induction m arbitrary: w)
  case Nil
  then show ?case by (auto simp: io_simps delta_taken_def fun_eq_iff)
next
  case (Cons p m)
  obtain i d where p: "p = (i, d)" by (cases p)
  let ?step = "if 0 < d then bind (decrement_tx E i dt d) (\<lambda>_. ret ())
           else if d < 0 then restore_tx E i dt (- d) else ret ()"
  from Cons.prems(3) p obtain w1 where 1: "?step w = (Inr (), w1)"
    and 2: "for_each (\<lambda>(i, d). if 0 < d then bind (decrement_tx E i dt d) (\<lambda>_. ret ())
           else if d < 0 then restore_tx E i dt (- d) else ret ()) m w1 = (Inr (), w')"
    by (auto simp: io_simps)
  have step: "wf_supplies (w_db w1) \<and> but_supplies (w_db w1) = but_supplies (w_db w)
    \<and> capacity_at (w_db w1) = capacity_at (w_db w)
    \<and> taken (w_db w1) = (taken (w_db w))((i, dt) := (if 0 \<le> d then taken (w_db w) (i, dt) + d
         else max (taken (w_db w) (i, dt) + d) 0))"
  proof -
    consider "0 < d" | "d < 0" | "d = 0" by linarith
    then show ?thesis
    proof cases
      case 1
      with \<open>?step w = (Inr (), w1)\<close> obtain r where run: "decrement_tx E i dt d w = (Inr r, w1)"
        by (auto simp: io_simps)
      show ?thesis
        using decrement_ok(3-5) [OF Cons.prems(1) run] decrement_taken [OF Cons.prems(1) run] 1 by simp
    next
      case 2
      with \<open>?step w = (Inr (), w1)\<close> have run: "restore_tx E i dt (- d) w = (Inr (), w1)" by simp
      show ?thesis
        using restore_ok(3-5) [OF Cons.prems(1) run] restore_taken [OF Cons.prems(1) run] 2 by simp
    next
      case 3
      with \<open>?step w = (Inr (), w1)\<close> Cons.prems(1) show ?thesis by (auto simp: io_simps)
    qed
  qed
  then have nn: "\<And>k. 0 \<le> taken (w_db w1) k" using Cons.prems(4) by auto
  have IH: "wf_supplies (w_db w') \<and> but_supplies (w_db w') = but_supplies (w_db w1)
    \<and> capacity_at (w_db w') = capacity_at (w_db w1)
    \<and> taken (w_db w') = delta_taken dt m (taken (w_db w1))"
    by (rule Cons.IH [OF _ _ 2 nn]) (use step Cons.prems(2) in auto)
  have "i \<notin> fst ` set m" using Cons.prems(2) p by simp
  then have "total_at m i = 0" by (simp add: total_at_def map_of_eq_None_iff [symmetric])
  then have "delta_taken dt m (taken (w_db w1)) = delta_taken dt (p # m) (taken (w_db w))"
    using step p Cons.prems(4) by (auto simp: delta_taken_def fun_eq_iff Let_def total_at_def)
  with IH step show ?case by simp
qed

lemma total_at_perm:
  assumes "distinct (map fst m)" "mset m' = mset m"
  shows "total_at m' = total_at m"
proof -
  have "distinct (map fst m')" using assms by (metis mset_eq_imp_distinct_iff mset_map)
  moreover have "set m' = set m" using assms(2) by (rule mset_eq_setD)
  ultimately have "map_of m' = map_of m" using assms(1) by (simp add: map_of_inject_set)
  then show ?thesis by (simp add: total_at_def fun_eq_iff)
qed

lemma taken_nonneg: "wf_supplies d \<Longrightarrow> 0 \<le> taken d k"
  by (auto simp: taken_def wf_supplies_row split: option.split dest: wf_supplies_row)

lemma apply_quota_delta_ok:
  assumes "wf_supplies (w_db w)" "distinct (map fst m)" "apply_quota_delta E dt m w = (Inr (), w')"
  shows "wf_supplies (w_db w')" and "but_supplies (w_db w') = but_supplies (w_db w)"
    and "capacity_at (w_db w') = capacity_at (w_db w)"
    and "taken (w_db w') = delta_taken dt m (taken (w_db w))"
proof -
  have "distinct (map fst (map_order (e_pick E) m))"
    using assms(2) by (simp add: map_order_props)
  from apply_delta_loop [OF assms(1) this assms(3) [unfolded apply_quota_delta_def] taken_nonneg [OF assms(1)]]
  show "wf_supplies (w_db w')" "but_supplies (w_db w') = but_supplies (w_db w)"
    "capacity_at (w_db w') = capacity_at (w_db w)"
    "taken (w_db w') = delta_taken dt m (taken (w_db w))"
    using total_at_perm [OF assms(2) mset_map_order [of "e_pick E" m]]
    by (simp_all add: delta_taken_def fun_eq_iff)
qed

section \<open>The recorded history of an order\<close>

definition history :: "db \<Rightarrow> uuid \<Rightarrow> state_event list" where
  "history d oid = filter (\<lambda>e. ev_order e = oid) (state_events d)"

text \<open>Each event starts where the last one ended and is a move of the state machine.\<close>

fun walk :: "order_status option \<Rightarrow> state_event list \<Rightarrow> order_status option option" where
  "walk s [] = Some s"
| "walk s (e # es) =
     (if ev_from e = s \<and> (case s of None \<Rightarrow> ev_to e = Placed | Some a \<Rightarrow> can_transition a (ev_to e))
      then walk (Some (ev_to e)) es else None)"

text \<open>
  The walk ends in the status of the order; only \<open>Refunded\<close>, which payroll sets, is not
  recorded.
\<close>

definition trace_ok :: "order_status option \<Rightarrow> state_event list \<Rightarrow> bool" where
  "trace_ok st es = (case st of
      None \<Rightarrow> es = []
    | Some a \<Rightarrow> (case walk None es of
        Some (Some s) \<Rightarrow> a = s \<or> a = Refunded \<and> can_transition s Refunded
      | _ \<Rightarrow> False))"

definition history_ok :: "db \<Rightarrow> bool" where
  "history_ok d \<longleftrightarrow> (\<forall>oid. trace_ok (status_at d oid) (history d oid))"

lemma walk_append: "walk s (es @ fs) = (case walk s es of None \<Rightarrow> None | Some t \<Rightarrow> walk t fs)"
  by (induction es arbitrary: s) auto

lemma history_fields [simp]:
  "history (d\<lparr>orders := a\<rparr>) = history d" "history (d\<lparr>order_items := b\<rparr>) = history d"
  "history (d\<lparr>supplies := c\<rparr>) = history d" "history (d\<lparr>outbox := e\<rparr>) = history d"
  "history (d\<lparr>audits := f\<rparr>) = history d"
  by (simp_all add: history_def fun_eq_iff)

lemma status_at_fields [simp]:
  "status_at (d\<lparr>supplies := a\<rparr>) = status_at d" "status_at (d\<lparr>order_items := b\<rparr>) = status_at d"
  "status_at (d\<lparr>state_events := c\<rparr>) = status_at d" "status_at (d\<lparr>outbox := e\<rparr>) = status_at d"
  "status_at (d\<lparr>audits := f\<rparr>) = status_at d"
  by (simp_all add: status_at_def fun_eq_iff)

lemma history_same: "state_events d' = state_events d \<Longrightarrow> history d' = history d"
  by (simp add: history_def fun_eq_iff)

lemma history_append: "state_events d' = state_events d @ [e] \<Longrightarrow>
    history d' = (\<lambda>j. history d j @ (if ev_order e = j then [e] else []))"
  by (simp add: history_def fun_eq_iff)

lemma history_ok_cong:
  "status_at d' = status_at d \<Longrightarrow> state_events d' = state_events d \<Longrightarrow> history_ok d' = history_ok d"
  using history_same [of d' d] by (simp add: history_ok_def)

lemma history_ok_walk:
  assumes "history_ok d" "status_at d oid = Some a" "a \<noteq> Refunded"
  shows "walk None (history d oid) = Some (Some a)"
proof -
  from assms(1) have "trace_ok (status_at d oid) (history d oid)"
    unfolding history_ok_def by blast
  then have T: "trace_ok (Some a) (history d oid)" using assms(2) by simp
  show ?thesis
  proof (cases "walk None (history d oid)")
    case None
    with T show ?thesis by (simp add: trace_ok_def)
  next
    case (Some s)
    with T assms(3) show ?thesis by (cases s) (auto simp: trace_ok_def)
  qed
qed

lemma history_ok_other:
  assumes "history_ok d" "status_at d' j = status_at d j" "history d' j = history d j"
  shows "trace_ok (status_at d' j) (history d' j)"
  using assms by (simp add: history_ok_def)

lemma history_ok_transition:
  assumes "history_ok d" "status_at d oid = Some a" "can_transition a b"
    and "status_at d' = (status_at d)(oid \<mapsto> b)"
    and "state_events d' = state_events d @ [e]" "ev_order e = oid" "ev_from e = Some a" "ev_to e = b"
  shows "history_ok d'"
  unfolding history_ok_def
proof
  fix j
  note H = history_append [OF assms(5)]
  have "a \<noteq> Refunded" using assms(3) by (auto simp: can_transition_def)
  note W = history_ok_walk [OF assms(1,2) this]
  show "trace_ok (status_at d' j) (history d' j)"
  proof (cases "j = oid")
    case True
    with W show ?thesis using assms(3-8) by (simp add: H walk_append trace_ok_def)
  qed (use assms H in \<open>auto intro!: history_ok_other [OF assms(1)]\<close>)
qed

lemma history_ok_create:
  assumes "history_ok d" "status_at d oid = None"
    and "status_at d' = (status_at d)(oid \<mapsto> Placed)"
    and "state_events d' = state_events d @ [e]" "ev_order e = oid" "ev_from e = None" "ev_to e = Placed"
  shows "history_ok d'"
  unfolding history_ok_def
proof
  fix j
  note H = history_append [OF assms(4)]
  have "trace_ok None (history d oid)" using assms(1,2) by (simp add: history_ok_def) metis
  then have W: "history d oid = []" by (simp add: trace_ok_def)
  show "trace_ok (status_at d' j) (history d' j)"
  proof (cases "j = oid")
    case True
    with W show ?thesis using assms(3-7) by (simp add: H trace_ok_def)
  qed (use assms H in \<open>auto intro!: history_ok_other [OF assms(1)]\<close>)
qed

text \<open>Payroll's refund moves the status without an event.\<close>

lemma history_ok_refund:
  assumes "history_ok d" "status_at d oid = Some a" "can_transition a Refunded"
    and "status_at d' = (status_at d)(oid \<mapsto> Refunded)" "state_events d' = state_events d"
  shows "history_ok d'"
  unfolding history_ok_def
proof
  fix j
  note H = history_same [OF assms(5)]
  have "a \<noteq> Refunded" using assms(3) by auto
  note W = history_ok_walk [OF assms(1,2) this]
  show "trace_ok (status_at d' j) (history d' j)"
  proof (cases "j = oid")
    case True
    with W show ?thesis using assms(3-5) by (simp add: H trace_ok_def)
  qed (use assms H in \<open>auto intro!: history_ok_other [OF assms(1)]\<close>)
qed

end
