(* ===== verification/Order_Effects.thy ===== *)
theory Order_Effects
  imports Sales
begin

text \<open>
  What each operation of \<open>order/service.go\<close> does to the database when it succeeds, and that
  it changes nothing when it fails. The invariant \<open>order_inv\<close> (table constraints, and every
  order's history a walk of the state machine) is preserved by all of them, and the ledger
  facts \<open>balanced\<close> and \<open>covered\<close> of theory \<open>Sales\<close> are carried through.
\<close>

section \<open>The trail of a transition\<close>

definition trailed ::
    "db \<Rightarrow> state_event \<Rightarrow> string \<Rightarrow> payload \<Rightarrow> string \<Rightarrow> db \<Rightarrow> bool" where
  "trailed d ev subject pl action d' \<longleftrightarrow> (\<exists>e m a.
     d' = d\<lparr>state_events := state_events d @ [e], outbox := outbox d @ [m], audits := audits d @ [a]\<rparr>
     \<and> records_event e ev \<and> records_message m (''order'', ev_order ev, subject, pl)
     \<and> records_audit a (order_audit (ev_actor ev) (ev_role ev) action (ev_order ev) pl))"

lemma append_trail_ok:
  assumes "append_trail E ev subject pl action w = (Inr (), w')"
  shows "trailed (w_db w) ev subject pl action (w_db w')"
proof -
  from assms obtain w1 w2 where 1: "state_append_tx E ev w = (Inr (), w1)"
    and 2: "outbox_append_tx E ''order'' (ev_order ev) subject pl [] w1 = (Inr (), w2)"
    and 3: "audit_write_tx E (order_audit (ev_actor ev) (ev_role ev) action (ev_order ev) pl) w2 = (Inr (), w')"
    by (auto simp: append_trail_def io_simps)
  note S = state_append_tx_ok(1) [OF 1] and O = outbox_append_tx_ok [OF 2] and A = audit_write_tx_ok [OF 3]
  show ?thesis unfolding trailed_def
  proof (intro exI conjI)
    show "w_db w' = (w_db w)\<lparr>state_events := state_events (w_db w) @
          [ev\<lparr>ev_id := w_event_seq w, ev_at := e_dbnow E\<rparr>],
        outbox := outbox (w_db w) @ [last (outbox (w_db w2))],
        audits := audits (w_db w) @ [last (audits (w_db w'))]\<rparr>"
      using S O A by simp
    show "records_event (ev\<lparr>ev_id := w_event_seq w, ev_at := e_dbnow E\<rparr>) ev"
      by (simp add: records_event_def)
    show "records_message (last (outbox (w_db w2))) (''order'', ev_order ev, subject, pl)"
      using O by (simp add: records_message_def)
    show "records_audit (last (audits (w_db w')))
       (order_audit (ev_actor ev) (ev_role ev) action (ev_order ev) pl)"
      using A by (simp add: records_audit_def audit_entry.defs audit_row.defs)
  qed
qed

lemma records_event_simps:
  "records_event e ev \<Longrightarrow> ev_order e = ev_order ev \<and> ev_from e = ev_from ev \<and> ev_to e = ev_to ev
     \<and> ev_actor e = ev_actor ev \<and> ev_role e = ev_role ev \<and> ev_reason e = ev_reason ev"
  by (cases e; cases ev) (simp add: records_event_def)

lemma trailed_frame:
  assumes "trailed d ev subject pl action d'"
  shows "taken d' = taken d" "sold_at d' = sold_at d" "status_at d' = status_at d"
    "wf_supplies d' = wf_supplies d" "wf_orders d' = wf_orders d"
    "capacity_at d' = capacity_at d" "remain_at d' = remain_at d"
    "orders d' = orders d" "order_items d' = order_items d" "supplies d' = supplies d"
    "items_of d' = items_of d"
  using assms
  by (auto simp: trailed_def status_at_def capacity_at_def remain_at_def items_of_def item_name_in_def fun_eq_iff)

lemma trailed_event:
  assumes "trailed d ev subject pl action d'"
  shows "\<exists>e. state_events d' = state_events d @ [e] \<and> ev_order e = ev_order ev
    \<and> ev_from e = ev_from ev \<and> ev_to e = ev_to ev"
  using assms by (auto simp: trailed_def dest!: records_event_simps)

text \<open>Every transition writes exactly one event, one message and one audit record.\<close>

lemma trailed_counts:
  assumes "trailed d ev subject pl action d'"
  shows "length (state_events d') = Suc (length (state_events d))"
    "length (outbox d') = Suc (length (outbox d))" "length (audits d') = Suc (length (audits d))"
  using assms by (auto simp: trailed_def)

lemma new_event_simps [simp]:
  "ev_order (new_event oid a b u r s p) = oid" "ev_from (new_event oid a b u r s p) = a"
  "ev_to (new_event oid a b u r s p) = b" "ev_actor (new_event oid a b u r s p) = u"
  "ev_role (new_event oid a b u r s p) = r" "ev_reason (new_event oid a b u r s p) = s"
  by (simp_all add: new_event_def)

section \<open>The invariant\<close>

definition order_inv :: "db \<Rightarrow> bool" where
  "order_inv d \<longleftrightarrow> wf_supplies d \<and> wf_orders d \<and> history_ok d"

lemma order_invD:
  "order_inv d \<Longrightarrow> wf_supplies d" "order_inv d \<Longrightarrow> wf_orders d" "order_inv d \<Longrightarrow> history_ok d"
  "order_inv d \<Longrightarrow> wf_order_ids d"
  by (simp_all add: order_inv_def wf_orders_def)

text \<open>What a status change does: one order moves, its history grows by that move.\<close>

definition moved :: "db \<Rightarrow> uuid \<Rightarrow> order_status \<Rightarrow> order_status \<Rightarrow> db \<Rightarrow> bool" where
  "moved d oid a b d' \<longleftrightarrow> status_at d oid = Some a \<and> can_transition a b
     \<and> status_at d' = (status_at d)(oid \<mapsto> b)
     \<and> (\<exists>e. state_events d' = state_events d @ [e] \<and> ev_order e = oid \<and> ev_from e = Some a \<and> ev_to e = b)"

lemma moved_history: "moved d oid a b d' \<Longrightarrow> history_ok d \<Longrightarrow> history_ok d'"
  unfolding moved_def by (blast intro: history_ok_transition)

section \<open>Placing an order\<close>

text \<open>The new order and its items on top of a database.\<close>

definition with_order :: "db \<Rightarrow> order \<Rightarrow> db" where
  "with_order d y = d\<lparr>orders := orders d @ [fresh_row y],
     order_items := order_items d @ map stored (o_items y)\<rparr>"

lemma status_at_with_order:
  assumes "o_id y \<notin> o_id ` set (orders d)"
  shows "status_at (with_order d y) = (status_at d)(o_id y \<mapsto> o_status y)"
    and "status_at d (o_id y) = None"
  using assms
  by (auto simp: status_at_def with_order_def by_key_append fun_eq_iff by_key_None [symmetric]
      split: option.splits)

lemma sold_at_with_order:
  assumes "wf_orders d" "o_id y \<notin> o_id ` set (orders d)" "\<forall>i\<in>set (o_items y). i_order i = o_id y"
    and "o_status y \<noteq> Cancelled"
  shows "sold_at (with_order d y) k = sold_at d k + demand_at (o_date y) (o_items y) k"
proof -
  let ?d' = "with_order d y"
  have new: "by_key o_id (o_id y) (orders ?d') = Some (fresh_row y)"
    and none: "by_key o_id (o_id y) (orders d) = None"
    using assms(2) by (auto simp: with_order_def by_key_append by_key_None [symmetric] split: option.split)
  have others: "live ?d' dt j = live d dt j" if "j \<noteq> o_id y" for dt j
    using that by (auto simp: live_def with_order_def by_key_append split: option.splits)
  have rest: "filter (\<lambda>i. i_order i \<noteq> o_id y) (order_items ?d')
      = filter (\<lambda>i. i_order i \<noteq> o_id y) (order_items d)"
    using assms(3) by (auto simp: with_order_def filter_empty_conv)
  have "filter (\<lambda>i. i_order i = o_id y) (order_items d) = []"
    using assms(1,2) unfolding wf_orders_def filter_empty_conv by (metis)
  then have "items_of ?d' (o_id y) = map (item_name_in ?d') (map stored (o_items y))"
    using assms(3) by (simp add: items_of_def with_order_def filter_map comp_def)
  then have "map line (items_of ?d' (o_id y)) = map line (o_items y)" by (simp add: comp_def)
  then have "demand (items_of ?d' (o_id y)) m = demand (o_items y) m" for m by (rule demand_line)
  then have "sales_of ?d' (o_id y) k = demand_at (o_date y) (o_items y) k"
    using assms(4) by (simp add: sales_of_row [OF new] demand_at_def)
  moreover have "sales_of d (o_id y) k = 0" by (simp add: sales_of_def live_def none)
  ultimately show ?thesis using sold_at_one_order [OF rest others, of k] by simp
qed

lemma create_body_ok:
  assumes "wf_supplies (w_db w)" "create_body E dt x ev pl action w = (Inr y, w')"
  obtains d1 where "wf_supplies d1" "but_supplies d1 = but_supplies (w_db w)"
    "capacity_at d1 = capacity_at (w_db w)"
    "\<And>k. remain_at d1 k = map_option (\<lambda>v. v - demand_at dt (o_items x) k) (remain_at (w_db w) k)"
    "\<And>k. taken d1 k = taken (w_db w) k + demand_at dt (o_items x) k"
    "\<And>i. i \<in> set (o_items x) \<Longrightarrow> \<exists>v. remain_at (w_db w) (i_menu_item i, dt) = Some v
        \<and> demand (o_items x) (i_menu_item i) \<le> v"
    "trailed (with_order d1 y) (ev y) ''order.placed.v1'' (pl y) action (w_db w')"
    "o_id y \<notin> o_id ` set (orders (w_db w))"
    "o_user y = o_user x" "o_vendor y = o_vendor x" "o_plant y = o_plant x" "o_date y = o_date x"
    "o_status y = o_status x" "o_total y = o_total x" "o_notes y = o_notes x"
    "o_cutoff_at y = o_cutoff_at x" "o_placed_at y = o_placed_at x"
    "map line (o_items y) = map line (o_items x)" "\<forall>i\<in>set (o_items y). i_order i = o_id y"
proof -
  from assms(2) obtain w1 w2 where 1: "decrement_items E dt (o_items x) w = (Inr (), w1)"
    and 2: "order_create_tx E x w1 = (Inr y, w2)"
    and 3: "append_trail E (ev y) ''order.placed.v1'' (pl y) action w2 = (Inr (), w')"
    by (auto simp: create_body_def io_simps)
  note D = decrement_items_ok [OF assms(1) 1] and C = order_create_tx_ok [OF 2]
  have "w_db w2 = with_order (w_db w1) y" using C(1) by (simp add: with_order_def)
  with append_trail_ok [OF 3]
  have T: "trailed (with_order (w_db w1) y) (ev y) ''order.placed.v1'' (pl y) action (w_db w')" by simp
  have fresh: "o_id y \<notin> o_id ` set (orders (w_db w))"
    using C(2) but_supplies_fields(1) [OF D(2)] by simp
  show thesis
    by (rule that [OF D(1,2,3,4) D(6) D(5) T fresh]) (use C in auto)
qed

text \<open>A placed order takes from the supplies exactly what it sells.\<close>

lemma create_body_effect:
  assumes "order_inv (w_db w)" "create_body E (o_date x) x ev pl action w = (Inr y, w')"
    and "o_status x = Placed"
    and "\<And>y. ev_order (ev y) = o_id y \<and> ev_from (ev y) = None \<and> ev_to (ev y) = Placed"
  shows "taken (w_db w') k = taken (w_db w) k + demand_at (o_date x) (o_items x) k"
    and "sold_at (w_db w') k = sold_at (w_db w) k + demand_at (o_date x) (o_items x) k"
    and "capacity_at (w_db w') = capacity_at (w_db w)"
    and "status_at (w_db w') = (status_at (w_db w))(o_id y \<mapsto> Placed)"
    and "status_at (w_db w) (o_id y) = None"
    and "history_ok (w_db w')"
proof -
  note I = order_invD [OF assms(1)]
  from create_body_ok [OF I(1) assms(2)] obtain d1 where
    d1: "but_supplies d1 = but_supplies (w_db w)" "capacity_at d1 = capacity_at (w_db w)"
      "\<And>k. taken d1 k = taken (w_db w) k + demand_at (o_date x) (o_items x) k"
    and T: "trailed (with_order d1 y) (ev y) ''order.placed.v1'' (pl y) action (w_db w')"
    and y: "o_id y \<notin> o_id ` set (orders (w_db w))" "o_date y = o_date x" "o_status y = o_status x"
      "map line (o_items y) = map line (o_items x)" "\<forall>i\<in>set (o_items y). i_order i = o_id y"
    by metis
  note F = trailed_frame [OF T] and B = but_supplies_fields [OF d1(1)]
  have y1: "o_id y \<notin> o_id ` set (orders d1)" using y(1) B(1) by simp
  have wf1: "wf_orders d1" using I(2) by (metis B(10) wf_orders_fields(1))
  have st1: "status_at d1 = status_at (w_db w)" by (metis B(10) status_at_fields(1))
  show "taken (w_db w') k = taken (w_db w) k + demand_at (o_date x) (o_items x) k"
    using d1(3) by (simp add: F with_order_def)
  show "sold_at (w_db w') k = sold_at (w_db w) k + demand_at (o_date x) (o_items x) k"
    using sold_at_with_order [OF wf1 y1 y(5), of k] sold_at_but_supplies [OF d1(1)]
      demand_line [OF y(4)] y(2,3) assms(3)
    by (simp add: F demand_at_def)
  show "capacity_at (w_db w') = capacity_at (w_db w)"
    using d1(2) by (simp add: F with_order_def)
  show st: "status_at (w_db w') = (status_at (w_db w))(o_id y \<mapsto> Placed)"
    using status_at_with_order(1) [OF y1] st1 y(3) assms(3) by (simp add: F)
  show none: "status_at (w_db w) (o_id y) = None"
    using status_at_with_order(2) [OF y(1)] .
  from trailed_event [OF T] assms(4) obtain e where
    e: "state_events (w_db w') = state_events (w_db w) @ [e]" "ev_order e = o_id y"
      "ev_from e = None" "ev_to e = Placed"
    by (auto simp: with_order_def B(7))
  show "history_ok (w_db w')" by (rule history_ok_create [OF I(3) none st e])
qed

section \<open>Status changes\<close>

lemma movedI:
  assumes "status_at d k = Some a" "can_transition a b" "status_at d2 = (status_at d)(k \<mapsto> b)"
    "state_events d2 = state_events d" "trailed d2 ev subject pl action d'"
    "ev_order ev = k" "ev_from ev = Some a" "ev_to ev = b"
  shows "moved d k a b d'"
  using assms trailed_event [OF assms(5)] trailed_frame(3) [OF assms(5)] by (auto simp: moved_def)

text \<open>What a conditional update leaves alone, whatever it sets.\<close>

lemma order_update_frame:
  assumes "order_update_where E Q f k w = (Inr (), w')"
  shows "taken (w_db w') = taken (w_db w)" "capacity_at (w_db w') = capacity_at (w_db w)"
    "wf_supplies (w_db w') = wf_supplies (w_db w)" "order_items (w_db w') = order_items (w_db w)"
    "state_events (w_db w') = state_events (w_db w)" "supplies (w_db w') = supplies (w_db w)"
  by (simp_all add: order_update_where_ok(1) [OF assms])

lemmas order_update_defs =
  update_status_tx_def mark_ready_tx_def mark_picked_up_tx_def mark_no_show_tx_def

lemma live_order_update:
  assumes "order_update_where E Q f k w = (Inr (), w')"
    and "\<And>r. o_id (f r) = o_id r" "\<And>r. o_date (f r) = o_date r" "j \<noteq> k"
  shows "live (w_db w') dt j = live (w_db w) dt j"
  unfolding order_update_where_ok(1) [OF assms(1)]
  by (subst live_sql_update) (use assms(2-4) in \<open>auto simp: live_def split: option.splits dest: by_key_SomeD\<close>)

text \<open>A status update between states that both count as sold.\<close>

lemma sold_at_order_update:
  assumes "order_update_where E Q f k w = (Inr (), w')"
    and "\<And>r. o_id (f r) = o_id r" "\<And>r. o_date (f r) = o_date r"
    and "\<And>r. o_status (f r) \<noteq> Cancelled" "\<not> Q Cancelled"
  shows "sold_at (w_db w') = sold_at (w_db w)"
  unfolding order_update_where_ok(1) [OF assms(1)]
  by (rule sold_at_status_update) (use assms(2-5) in auto)

subsection \<open>Cancelling\<close>

lemma sales_of_Cancelled: "status_at d oid = Some Cancelled \<Longrightarrow> sales_of d oid k = 0"
  by (auto simp: sales_of_def live_def status_at_def split: option.splits)

lemma cancel_body_effect:
  assumes "order_inv (w_db w)" "cancel_body E x user w = (Inr (), w')"
  shows "moved (w_db w) (o_id x) Placed Cancelled (w_db w')"
    and "taken (w_db w') k = max (taken (w_db w) k - demand_at (o_date x) (o_items x) k) 0"
    and "sold_at (w_db w') k = sold_at (w_db w) k - sales_of (w_db w) (o_id x) k"
    and "capacity_at (w_db w') = capacity_at (w_db w)"
proof -
  note I = order_invD [OF assms(1)]
  from assms(2) obtain w1 w2 where 1: "update_status_tx E Placed Cancelled (o_id x) w = (Inr (), w1)"
    and 2: "restore_items E (o_date x) (o_items x) w1 = (Inr (), w2)"
    and 3: "append_trail E
       (new_event (o_id x) (Some Placed) Cancelled (Some user) (Some Employee) ''user_cancel'' [])
       ''order.cancelled.v1''
       [(''order_id'', JStr (o_id x)), (''vendor_id'', JStr (o_vendor x)), (''by'', JStr ''user'')]
       ''order.cancel'' w2 = (Inr (), w')"
    by (auto simp: cancel_body_def io_simps)
  note upd = 1 [unfolded update_status_tx_def]
  note U = order_update_frame [OF upd]
  note st1 = cancel_upd.upd_status [OF I(4) 1]
  from cancel_upd.upd_from [OF I(4) 1] have from_P: "status_at (w_db w) (o_id x) = Some Placed" by simp
  have wf1: "wf_supplies (w_db w1)" using U(3) I(1) by simp
  note R = restore_items_ok [OF wf1 2]
  note T = append_trail_ok [OF 3] and B = but_supplies_fields [OF R(2)]
  note F = trailed_frame [OF T]
  have st2: "status_at (w_db w2) = status_at (w_db w1)" by (simp add: status_at_def B(1) fun_eq_iff)
  show "moved (w_db w) (o_id x) Placed Cancelled (w_db w')"
    by (rule movedI [OF from_P _ _ _ T]) (use st1 st2 B(7) U(5) in \<open>auto simp: can_transition_def\<close>)
  show "taken (w_db w') k = max (taken (w_db w) k - demand_at (o_date x) (o_items x) k) 0"
    using R(5) U(1) by (simp add: F)
  show "capacity_at (w_db w') = capacity_at (w_db w)" using R(3) U(2) by (simp add: F)
  have "sold_at (w_db w1) k = sold_at (w_db w) k - sales_of (w_db w) (o_id x) k + sales_of (w_db w1) (o_id x) k"
    by (rule sold_at_one_order, simp add: U(4), rule live_order_update [OF upd]) simp_all
  moreover have "sales_of (w_db w1) (o_id x) k = 0" by (rule sales_of_Cancelled) (simp add: st1)
  ultimately show "sold_at (w_db w') k = sold_at (w_db w) k - sales_of (w_db w) (o_id x) k"
    using sold_at_but_supplies [OF R(2)] by (simp add: F)
qed

subsection \<open>Modifying\<close>

lemma modify_body_effect:
  assumes "order_inv (w_db w)" "distinct (map fst delta)"
    and "modify_body E inp x new tot delta w = (Inr (), w')"
  shows "status_at (w_db w') = status_at (w_db w)" "state_events (w_db w') = state_events (w_db w)"
    and "taken (w_db w') = delta_taken (o_date x) delta (taken (w_db w))"
    and "sold_at (w_db w') k = sold_at (w_db w) k - sales_of (w_db w) (o_id x) k
      + (if live (w_db w) (snd k) (o_id x) then demand new (fst k) else 0)"
    and "capacity_at (w_db w') = capacity_at (w_db w)"
    and "by_key o_id (o_id x) (orders (w_db w)) \<noteq> None"
    and "map line (items_of (w_db w') (o_id x)) = map line new"
    and "length (outbox (w_db w')) = Suc (length (outbox (w_db w)))
      \<and> length (audits (w_db w')) = Suc (length (audits (w_db w)))"
proof -
  note I = order_invD [OF assms(1)]
  from assms(3) obtain w1 w2 w3 js where 1: "apply_quota_delta E (o_date x) delta w = (Inr (), w1)"
    and 2: "replace_items_tx E (o_id x) new tot (mo_notes inp) w1 = (Inr js, w2)"
    and 3: "outbox_append_tx E ''order'' (o_id x) ''order.modified.v1''
        (build_order_payload (x\<lparr>o_items := js, o_total := tot, o_notes := mo_notes inp\<rparr>)) [] w2 = (Inr (), w3)"
    and 4: "audit_write_tx E (order_audit (Some (mo_user inp)) (Some Employee) ''order.modify'' (o_id x)
        (build_order_payload (x\<lparr>o_items := js, o_total := tot, o_notes := mo_notes inp\<rparr>))) w3 = (Inr (), w')"
    by (auto simp: modify_body_def io_simps Let_def)
  note A = apply_quota_delta_ok [OF I(1) assms(2) 1] and R = replace_items_tx_ok [OF 2]
  note B = but_supplies_fields [OF A(2)]
  obtain m a where w': "w_db w' = (w_db w2)\<lparr>outbox := outbox (w_db w2) @ [m], audits := audits (w_db w2) @ [a]\<rparr>"
    using outbox_append_tx_ok [OF 3] audit_write_tx_ok [OF 4] by auto
  let ?f = "\<lambda>r. r\<lparr>o_total := tot, o_notes := mo_notes inp, o_updated_at := e_dbnow E\<rparr>"
  let ?P = "\<lambda>r. o_id r = o_id x"
  have ids: "by_key o_id j (sql_update ?P ?f rows) = map_option (\<lambda>r. if ?P r then ?f r else r) (by_key o_id j rows)" for j rows
    by (rule by_key_sql_update) simp
  show "status_at (w_db w') = status_at (w_db w)"
    by (auto simp: w' R(1) status_at_def ids B(1) fun_eq_iff option.map_comp comp_def intro!: option.map_cong)
  show "state_events (w_db w') = state_events (w_db w)" by (simp add: w' R(1) B(7))
  show "taken (w_db w') = delta_taken (o_date x) delta (taken (w_db w))"
    by (simp add: w' R(1) A(4))
  show "capacity_at (w_db w') = capacity_at (w_db w)" by (simp add: w' R(1) A(3))
  show "by_key o_id (o_id x) (orders (w_db w)) \<noteq> None" using R(5) B(1) by simp
  show "length (outbox (w_db w')) = Suc (length (outbox (w_db w)))
      \<and> length (audits (w_db w')) = Suc (length (audits (w_db w)))"
    by (simp add: w' R(1) B(8,9))
  have js: "map line js = map line new" "\<forall>j\<in>set js. i_order j = o_id x" using R(2) by auto
  have "filter (\<lambda>i. i_order i = o_id x) (order_items (w_db w')) = map stored js"
    using js(2) by (simp add: w' R(1) filter_map comp_def filter_empty_conv)
  then have its: "items_of (w_db w') (o_id x) = map (item_name_in (w_db w')) (map stored js)"
    by (simp add: items_of_def)
  then show lines: "map line (items_of (w_db w') (o_id x)) = map line new"
    using js(1) by (simp add: comp_def)
  have live': "live (w_db w') dt j = live (w_db w) dt j" for dt j
    by (auto simp: w' R(1) live_def ids B(1) split: option.splits)
  have "filter (\<lambda>i. i_order i \<noteq> o_id x) (order_items (w_db w'))
      = filter (\<lambda>i. i_order i \<noteq> o_id x) (order_items (w_db w))"
    using js(2) by (simp add: w' R(1) B(2) filter_empty_conv)
  then have "sold_at (w_db w') k = sold_at (w_db w) k - sales_of (w_db w) (o_id x) k + sales_of (w_db w') (o_id x) k"
    by (rule sold_at_one_order) (rule live')
  then show "sold_at (w_db w') k = sold_at (w_db w) k - sales_of (w_db w) (o_id x) k
      + (if live (w_db w) (snd k) (o_id x) then demand new (fst k) else 0)"
    by (simp add: sales_of_def live' demand_line [OF lines])
qed

subsection \<open>Ready, picked up, no show\<close>

text \<open>A guarded update followed by its trail, when neither status is \<open>Cancelled\<close>.\<close>

definition quiet_move :: "db \<Rightarrow> uuid \<Rightarrow> order_status \<Rightarrow> order_status \<Rightarrow> db \<Rightarrow> bool" where
  "quiet_move d oid a b d' \<longleftrightarrow> moved d oid a b d' \<and> taken d' = taken d \<and> sold_at d' = sold_at d
     \<and> capacity_at d' = capacity_at d \<and> wf_supplies d' = wf_supplies d
     \<and> items_of d' = items_of d"

lemma items_of_orders [simp]: "items_of (d\<lparr>orders := x\<rparr>) = items_of d"
  by (simp add: items_of_def item_name_in_def fun_eq_iff)

lemma quiet_moveI:
  assumes "order_update_where E Q f k w = (Inr (), w1)"
    and "\<And>r. o_id (f r) = o_id r" "\<And>r. o_date (f r) = o_date r"
    and "\<And>r. o_status (f r) \<noteq> Cancelled" "\<not> Q Cancelled"
    and "append_trail E ev subject pl action w1 = (Inr (), w')"
    and "status_at (w_db w1) = (status_at (w_db w))(k \<mapsto> b)"
    and "status_at (w_db w) k = Some a" "can_transition a b"
    and "ev_order ev = k" "ev_from ev = Some a" "ev_to ev = b"
  shows "quiet_move (w_db w) k a b (w_db w')"
proof -
  note T = append_trail_ok [OF assms(6)] and U = order_update_frame [OF assms(1)]
  note S = sold_at_order_update [OF assms(1) assms(2-5)]
  have "moved (w_db w) k a b (w_db w')"
    by (rule movedI [OF assms(8,9,7) U(5) T assms(10-12)])
  moreover have "items_of (w_db w1) = items_of (w_db w)" by (simp add: order_update_where_ok(1) [OF assms(1)])
  ultimately show ?thesis using U S by (simp add: quiet_move_def trailed_frame [OF T])
qed

lemma pickup_body_effect:
  assumes "wf_order_ids (w_db w)" "pickup_body E x oid user w = (Inr (), w')"
  shows "quiet_move (w_db w) oid Ready PickedUp (w_db w')"
proof -
  from assms(2) obtain w1 where 1: "mark_picked_up_tx E oid w = (Inr (), w1)"
    and 2: "append_trail E
         (new_event oid (Some Ready) PickedUp (Some user) (Some Employee) ''qr_pickup'' [])
         ''order.picked_up.v1'' [(''order_id'', JStr oid), (''vendor_id'', JStr (o_vendor x))]
         ''order.picked_up'' w1 = (Inr (), w')"
    by (auto simp: pickup_body_def io_simps)
  show ?thesis
    using pickup_upd.upd_status [OF assms(1) 1] pickup_upd.upd_from [OF assms(1) 1]
    by (intro quiet_moveI [OF 1 [unfolded mark_picked_up_tx_def] _ _ _ _ 2])
      (auto simp: can_transition_def)
qed

lemma no_show_body_effect:
  assumes "wf_order_ids (w_db w)" "no_show_body E x w = (Inr (), w')"
  shows "quiet_move (w_db w) (o_id x) Ready NoShow (w_db w')"
proof -
  from assms(2) obtain w1 where 1: "mark_no_show_tx E (o_id x) w = (Inr (), w1)"
    and 2: "append_trail E
         (new_event (o_id x) (Some Ready) NoShow None (Some WelfareAdmin) ''no_show_timeout'' [])
         ''order.no_show.v1'' [(''order_id'', JStr (o_id x)), (''vendor_id'', JStr (o_vendor x))]
         ''order.no_show'' w1 = (Inr (), w')"
    by (auto simp: no_show_body_def io_simps)
  show ?thesis
    using no_show_upd.upd_status [OF assms(1) 1] no_show_upd.upd_from [OF assms(1) 1]
    by (intro quiet_moveI [OF 1 [unfolded mark_no_show_tx_def] _ _ _ _ 2])
      (auto simp: can_transition_def)
qed

text \<open>
  One order of a ready batch. The recorded source status is the snapshot's; it is the current
  one when the order has not moved since the snapshot.
\<close>

lemma mark_one_ready_effect:
  assumes "wf_order_ids (w_db w)" "mark_one_ready E snap vid actor oid w = (Inr (), w')"
    and "status_at (w_db w) oid = status_at snap oid \<or> status_at (w_db w) oid = Some Ready"
  shows "\<exists>a. (a = Placed \<or> a = Cutoff) \<and> quiet_move (w_db w) oid a Ready (w_db w')"
    and "\<exists>r. by_key o_id oid (orders snap) = Some r \<and> o_vendor r = vid"
proof -
  from assms(2) obtain x wr w1 where 0: "order_get_by_id_at E snap oid w = (Inr x, wr)"
    and chk: "o_vendor x = vid" "can_transition (o_status x) Ready"
    and 1: "mark_ready_tx E oid wr = (Inr (), w1)"
    and 2: "append_trail E
           (new_event oid (Some (o_status x)) Ready (Some actor) (Some VendorOperator) ''vendor_ready'' [])
           ''order.ready.v1'' [(''order_id'', JStr oid), (''vendor_id'', JStr vid)]
           ''order.ready'' w1 = (Inr (), w')"
    by (auto simp: mark_one_ready_def io_simps split: if_splits)
  from order_get_at_ok [OF 0] obtain r where r: "by_key o_id oid (orders snap) = Some r"
    "o_status x = o_status r" "o_vendor x = o_vendor r" "w_db wr = w_db w" by auto
  then have wf: "wf_order_ids (w_db wr)" using assms(1) by simp
  note st1 = ready_upd.upd_status [OF wf 1]
  from ready_upd.upd_from [OF wf 1] r(4)
  have cur: "status_at (w_db w) oid = Some Cutoff \<or> status_at (w_db w) oid = Some Placed" by auto
  then have same: "status_at (w_db w) oid = Some (o_status x)"
    using assms(3) r by (auto simp: status_at_def)
  have "quiet_move (w_db wr) oid (o_status x) Ready (w_db w')"
    using st1 same chk(2) r(4)
    by (intro quiet_moveI [OF 1 [unfolded mark_ready_tx_def] _ _ _ _ 2]) auto
  then show "\<exists>a. (a = Placed \<or> a = Cutoff) \<and> quiet_move (w_db w) oid a Ready (w_db w')"
    using cur same r(4) by auto
  show "\<exists>r. by_key o_id oid (orders snap) = Some r \<and> o_vendor r = vid"
    using r chk by auto
qed

text \<open>
  The whole batch: every order once, each of the vendor and not yet ready; a repeated id makes
  the batch fail, because the second update finds the order ready.
\<close>

lemma status_at_ids: "status_at d k = None \<longleftrightarrow> k \<notin> o_id ` set (orders d)"
  by (simp add: status_at_def by_key_None)

lemma keeps_wf_order_ids_trail:
  "trailed d ev subject pl action d' \<Longrightarrow> wf_order_ids d' = wf_order_ids d"
  using trailed_frame(8) by (simp add: wf_order_ids_def)

lemma mark_one_ready_ids:
  assumes "wf_order_ids (w_db w)" "mark_one_ready E snap vid actor oid w = (Inr (), w')"
  shows "wf_order_ids (w_db w')"
proof -
  from assms(2) obtain x wr w1 ev pl where 0: "order_get_by_id_at E snap oid w = (Inr x, wr)"
    and 1: "mark_ready_tx E oid wr = (Inr (), w1)"
    and 2: "append_trail E ev ''order.ready.v1'' pl ''order.ready'' w1 = (Inr (), w')"
    by (auto simp: mark_one_ready_def io_simps split: if_splits)
  have "w_db wr = w_db w" using order_get_at_ok [OF 0] by blast
  then have "wf_order_ids (w_db w1)" using ready_upd.upd_inv [OF _ 1] assms(1) by simp
  then show ?thesis using keeps_wf_order_ids_trail [OF append_trail_ok [OF 2]] by simp
qed

lemma mark_ready_loop:
  assumes "for_each (mark_one_ready E snap vid actor) oids w = (Inr (), w')"
    and "wf_order_ids (w_db w)" "history_ok (w_db w)"
    and "\<And>j. status_at (w_db w) j = status_at snap j \<or> status_at (w_db w) j = Some Ready"
  shows "distinct oids
    \<and> (\<forall>j\<in>set oids. \<exists>r. by_key o_id j (orders snap) = Some r \<and> o_vendor r = vid
         \<and> (o_status r = Placed \<or> o_status r = Cutoff) \<and> status_at (w_db w) j = Some (o_status r))
    \<and> (\<forall>j. status_at (w_db w') j = (if j \<in> set oids then Some Ready else status_at (w_db w) j))
    \<and> history_ok (w_db w') \<and> wf_order_ids (w_db w')
    \<and> taken (w_db w') = taken (w_db w) \<and> sold_at (w_db w') = sold_at (w_db w)
    \<and> capacity_at (w_db w') = capacity_at (w_db w) \<and> wf_supplies (w_db w') = wf_supplies (w_db w)
    \<and> length (state_events (w_db w')) = length (state_events (w_db w)) + length oids"
  using assms
proof (induction oids arbitrary: w)
  case Nil
  then show ?case by (auto simp: io_simps)
next
  case (Cons k oids)
  from Cons.prems(1) obtain w1 where 1: "mark_one_ready E snap vid actor k w = (Inr (), w1)"
    and 2: "for_each (mark_one_ready E snap vid actor) oids w1 = (Inr (), w')"
    by (auto simp: io_simps)
  from mark_one_ready_effect [OF Cons.prems(2) 1] Cons.prems(4) obtain a r where
    a: "a = Placed \<or> a = Cutoff" and q: "quiet_move (w_db w) k a Ready (w_db w1)"
    and r: "by_key o_id k (orders snap) = Some r" "o_vendor r = vid"
    by metis
  then have m: "moved (w_db w) k a Ready (w_db w1)" by (simp add: quiet_move_def)
  then have st: "status_at (w_db w1) = (status_at (w_db w))(k \<mapsto> Ready)"
    and cur: "status_at (w_db w) k = Some a"
    and ev: "length (state_events (w_db w1)) = Suc (length (state_events (w_db w)))"
    by (auto simp: moved_def)
  have ra: "o_status r = a" using cur a r(1) Cons.prems(4) [of k] by (auto simp: status_at_def)
  note IH = Cons.IH [OF 2 mark_one_ready_ids [OF Cons.prems(2) 1] moved_history [OF m Cons.prems(3)]]
  have IH': "\<And>j. status_at (w_db w1) j = status_at snap j \<or> status_at (w_db w1) j = Some Ready"
    using st Cons.prems(4) by auto
  note IH = IH [OF IH']
  have new: "k \<notin> set oids"
  proof
    assume "k \<in> set oids"
    with IH st show False by fastforce
  qed
  have "\<forall>j\<in>set oids. status_at (w_db w1) j = status_at (w_db w) j" using new st by auto
  then show ?case using IH q a r ra cur st new ev by (simp add: quiet_move_def)
qed

end
