(* ===== verification/Order_Service.thy ===== *)
theory Order_Service
  imports Order_Effects
begin

text \<open>
  The operations of the order service as their callers see them: what a successful call of
  \<open>Place\<close>, \<open>Cancel\<close>, \<open>Modify\<close>, \<open>MarkReady\<close>, \<open>Pickup\<close> and \<open>MarkNoShow\<close> has checked and
  done, that a failing call leaves the database alone, and that every call preserves the
  invariant and the ledger.
\<close>

section \<open>Runs of the operations\<close>

lemma begin_func_run:
  assumes "begin_func E body w = (Inr a, w')"
  obtains v v' where "w_db v = w_db w" "body (w_db w) v = (Inr a, v')" "w_db w' = w_db v'"
proof -
  from assms obtain w2 where
    b: "body (w_db w) (w\<lparr>w_tick := Suc (w_tick w)\<rparr>) = (Inr a, w2)" and "w' = w2\<lparr>w_tick := Suc (w_tick w2)\<rparr>"
    by (auto simp: begin_func_ok)
  then show thesis by (intro that [OF _ b]) simp_all
qed

text \<open>The price an item has on the menu now.\<close>

definition menu_price :: "db \<Rightarrow> uuid \<Rightarrow> int" where
  "menu_price d i = (case by_key m_id i (menu_items d) of None \<Rightarrow> 0 | Some m \<Rightarrow> m_price m)"

definition price_lines :: "db \<Rightarrow> place_item list \<Rightarrow> (uuid \<times> int \<times> int) list" where
  "price_lines d pis = map (\<lambda>p. (pi_item p, pi_qty p, menu_price d (pi_item p))) pis"

definition lines_total :: "(uuid \<times> int \<times> int) list \<Rightarrow> int" where
  "lines_total ls = sum_list (map (\<lambda>(i, q, p). p * q) ls)"

lemma i64_absorb: "i64 (i64 a + i64 b) = i64 (a + b)" "i64 (a + i64 b) = i64 (a + b)"
  by (simp_all add: i64_def)

lemma line_new_item [simp]: "line (new_item m q p) = (m, q, p)"
  by (simp add: line_def new_item_def)

lemma resolve_place_items_ok:
  assumes "resolve_place_items E pis acc w = (Inr rs, w')" "in_i64 (rs_total acc)"
    and "'''' \<notin> m_vendor ` set (menu_items (w_db w))"
  shows "w_db w' = w_db w"
    and "map line (rs_items rs) = map line (rs_items acc) @ price_lines (w_db w) pis"
    and "rs_total rs = i64 (rs_total acc + lines_total (price_lines (w_db w) pis))"
    and "\<forall>p\<in>set pis. 0 < pi_qty p \<and> (\<exists>m. by_key m_id (pi_item p) (menu_items (w_db w)) = Some m
           \<and> m_vendor m = rs_vendor rs)"
    and "rs_vendor acc \<noteq> '''' \<Longrightarrow> rs_vendor rs = rs_vendor acc"
proof -
  have "w_db w' = w_db w
    \<and> map line (rs_items rs) = map line (rs_items acc) @ price_lines (w_db w) pis
    \<and> rs_total rs = i64 (rs_total acc + lines_total (price_lines (w_db w) pis))
    \<and> (\<forall>p\<in>set pis. 0 < pi_qty p \<and> (\<exists>m. by_key m_id (pi_item p) (menu_items (w_db w)) = Some m
           \<and> m_vendor m = rs_vendor rs))
    \<and> (rs_vendor acc \<noteq> '''' \<longrightarrow> rs_vendor rs = rs_vendor acc)"
    using assms
  proof (induction pis arbitrary: acc w)
    case Nil
    then show ?case by (auto simp: io_simps price_lines_def lines_total_def i64_id)
  next
    case (Cons p pis)
    let ?acc = "\<lambda>mi. acc\<lparr>rs_vendor := (if rs_vendor acc = '''' then m_vendor mi else rs_vendor acc),
               rs_items := rs_items acc @ [new_item (pi_item p) (pi_qty p) (m_price mi)],
               rs_total := i64 (rs_total acc + i64 (m_price mi * pi_qty p))\<rparr>"
    from Cons.prems(1) have q: "0 < pi_qty p" by (auto simp: io_simps split: if_splits)
    then have nq: "\<not> pi_qty p \<le> 0" by simp
    from Cons.prems(1) obtain mi w1 where 1: "item_get_by_id E (pi_item p) w = (Inr mi, w1)"
      and rest: "(if rs_vendor acc \<noteq> '''' \<and> rs_vendor acc \<noteq> m_vendor mi then fail (OrderErr ErrMultiVendor)
        else resolve_place_items E pis (?acc mi)) w1 = (Inr rs, w')"
      unfolding resolve_place_items.simps if_not_P [OF nq] bind_ok by blast
    from rest have v: "rs_vendor acc = '''' \<or> rs_vendor acc = m_vendor mi"
      and 2: "resolve_place_items E pis (?acc mi) w1 = (Inr rs, w')"
      unfolding guard_ok by blast+
    note G = item_get_ok [OF 1]
    have vid: "m_vendor mi \<noteq> ''''"
      using G Cons.prems(3) by (auto dest!: by_key_SomeD simp: image_iff)
    have IH: "w_db w' = w_db w1
      \<and> map line (rs_items rs) = map line (rs_items (?acc mi)) @ price_lines (w_db w1) pis
      \<and> rs_total rs = i64 (rs_total (?acc mi) + lines_total (price_lines (w_db w1) pis))
      \<and> (\<forall>p\<in>set pis. 0 < pi_qty p \<and> (\<exists>m. by_key m_id (pi_item p) (menu_items (w_db w1)) = Some m
           \<and> m_vendor m = rs_vendor rs))
      \<and> (rs_vendor (?acc mi) \<noteq> '''' \<longrightarrow> rs_vendor rs = rs_vendor (?acc mi))"
      by (rule Cons.IH [OF 2]) (use G Cons.prems(3) in \<open>simp_all add: i64_range\<close>)
    have price: "menu_price (w_db w) (pi_item p) = m_price mi" using G by (simp add: menu_price_def)
    have rv: "rs_vendor rs = m_vendor mi" using IH v vid by (auto split: if_splits)
    have "lines_total (price_lines (w_db w) (p # pis))
        = m_price mi * pi_qty p + lines_total (price_lines (w_db w) pis)"
      by (simp add: lines_total_def price_lines_def price)
    then have "rs_total rs = i64 (rs_total acc + lines_total (price_lines (w_db w) (p # pis)))"
      using IH G by (simp add: i64_absorb add.assoc)
    then show ?case
      using IH G q rv v by (auto simp: price_lines_def price)
  qed
  then show "w_db w' = w_db w"
    "map line (rs_items rs) = map line (rs_items acc) @ price_lines (w_db w) pis"
    "rs_total rs = i64 (rs_total acc + lines_total (price_lines (w_db w) pis))"
    "\<forall>p\<in>set pis. 0 < pi_qty p \<and> (\<exists>m. by_key m_id (pi_item p) (menu_items (w_db w)) = Some m
           \<and> m_vendor m = rs_vendor rs)"
    "rs_vendor acc \<noteq> '''' \<Longrightarrow> rs_vendor rs = rs_vendor acc"
    by blast+
qed

lemma ro_resolve [ro_intros]:
  "ro (resolve_place_items E pis acc)" "ro (resolve_modify_items E pis vid is tot)"
  "ro (validate_vendor_placement E inp vid)"
proof -
  show "ro (resolve_place_items E pis acc)"
    by (induction pis arbitrary: acc) (auto intro!: ro_intros)
  show "ro (resolve_modify_items E pis vid is tot)"
    by (induction pis arbitrary: "is" tot) (auto intro!: ro_intros)
  show "ro (validate_vendor_placement E inp vid)"
    by (auto simp: validate_vendor_placement_def Let_def intro!: ro_intros)
qed

text \<open>What the placement rules let through.\<close>

definition serves :: "db \<Rightarrow> uuid \<Rightarrow> string \<Rightarrow> bool" where
  "serves d vid plant \<longleftrightarrow>
     (\<exists>p\<in>set (plant_mappings d). pm_vendor p = vid \<and> pm_active p \<and> pm_plant p = plant)"

definition in_window :: "env \<Rightarrow> date \<Rightarrow> vendor \<Rightarrow> bool" where
  "in_window E dt v \<longleftrightarrow> e_now E < cutoff_of E dt v
     \<and> midnight_utc dt \<le> date_in (e_tz E) (utc_day (e_now E) + v_preorder_days v) 0"

lemma validate_ok:
  assumes "validate_vendor_placement E inp vid w = (Inr (cutoffAt, now), w')"
  shows "w_db w' = w_db w" "serves (w_db w) vid (p_plant inp)" "now = e_now E"
    and "\<exists>v. by_key v_id vid (vendors (w_db w)) = Some v \<and> cutoffAt = cutoff_of E (p_date inp) v
      \<and> in_window E (p_date inp) v"
proof -
  from assms obtain ps w1 v where 1: "plants_list_by_vendor E vid w = (Inr ps, w1)"
    and s: "list_ex (\<lambda>p. pm_plant p = p_plant inp) ps"
    and 2: "vendor_get_by_id E vid w1 = (Inr v, w')"
    and c: "cutoffAt = cutoff_of E (p_date inp) v" "now = e_now E" "in_window E (p_date inp) v"
    unfolding validate_vendor_placement_def bind_ok guard_ok Let_def in_window_def
    by (auto simp: ret_def not_le not_less)
  note P = plants_list_ok [OF 1] and V = vendor_get_ok [OF 2]
  show "w_db w' = w_db w" "now = e_now E" using P V c by simp_all
  show "serves (w_db w) vid (p_plant inp)" using P s by (auto simp: serves_def list_ex_iff)
  show "\<exists>v. by_key v_id vid (vendors (w_db w)) = Some v \<and> cutoffAt = cutoff_of E (p_date inp) v
      \<and> in_window E (p_date inp) v"
    using P V c by auto
qed

lemma place_run:
  assumes "place E inp w = (Inr y, w')" "'''' \<notin> m_vendor ` set (menu_items (w_db w))"
  obtains x vd v v' where "p_items inp \<noteq> []"
    "x = new_order (p_user inp) (o_vendor x) (p_plant inp) (p_date inp) (o_total x) (p_notes inp)
           (e_now E) (cutoff_of E (p_date inp) vd) (o_items x)"
    "map line (o_items x) = price_lines (w_db w) (p_items inp)"
    "o_total x = i64 (lines_total (price_lines (w_db w) (p_items inp)))"
    "\<forall>p\<in>set (p_items inp). 0 < pi_qty p \<and> (\<exists>m. by_key m_id (pi_item p) (menu_items (w_db w)) = Some m
           \<and> m_vendor m = o_vendor x)"
    "serves (w_db w) (o_vendor x) (p_plant inp)"
    "by_key v_id (o_vendor x) (vendors (w_db w)) = Some vd" "in_window E (p_date inp) vd"
    "w_db v = w_db w" "place_body E inp x v = (Inr y, v')" "w_db w' = w_db v'"
proof -
  let ?x = "\<lambda>rs now cutoffAt. new_order (p_user inp) (rs_vendor rs) (p_plant inp) (p_date inp) (rs_total rs)
                (p_notes inp) now cutoffAt (rs_items rs)"
  from assms(1) obtain rs w1 cutoffAt now w2 where ne: "p_items inp \<noteq> []"
    and 1: "resolve_place_items E (p_items inp) \<lparr>rs_vendor = '''', rs_total = 0, rs_items = []\<rparr> w = (Inr rs, w1)"
    and 2: "validate_vendor_placement E inp (rs_vendor rs) w1 = (Inr (cutoffAt, now), w2)"
    and 3: "begin_func E (\<lambda>_. place_body E inp (?x rs now cutoffAt)) w2 = (Inr y, w')"
    unfolding place_def guard_ok bind_ok persist_placed_order_def by (auto simp: io_simps)
  have z: "in_i64 (rs_total \<lparr>rs_vendor = '''', rs_total = 0, rs_items = []\<rparr>)" by (simp add: in_i64_def)
  note R = resolve_place_items_ok [OF 1 z assms(2)] and V = validate_ok [OF 2]
  from V(4) obtain vd where vd: "by_key v_id (rs_vendor rs) (vendors (w_db w)) = Some vd"
    "cutoffAt = cutoff_of E (p_date inp) vd" "in_window E (p_date inp) vd" using R(1) by auto
  from begin_func_run [OF 3] obtain v v' where
    v: "w_db v = w_db w2" "place_body E inp (?x rs now cutoffAt) v = (Inr y, v')" "w_db w' = w_db v'"
    by blast
  show thesis
    by (rule that [of "?x rs now cutoffAt" vd v v'])
      (use ne R V vd v in \<open>auto simp: new_order_def\<close>)
qed

lemma cancel_run:
  assumes "cancel E oid user w = (Inr (), w')"
  obtains r v v' where "by_key o_id oid (orders (w_db w)) = Some r" "o_id r = oid" "o_user r = user"
    "o_status r = Placed" "w_db v = w_db w"
    "cancel_body E (with_items r (items_of (w_db w) oid)) user v = (Inr (), v')" "w_db w' = w_db v'"
proof -
  from assms obtain x w1 where 1: "order_get_by_id E oid w = (Inr x, w1)"
    and c: "cancel_check x user = None"
    and 2: "begin_func E (\<lambda>_. cancel_body E x user) w1 = (Inr (), w')"
    by (auto simp: cancel_def persist_cancel_order_def io_simps split: option.splits)
  from order_get_ok [OF 1] obtain r where r: "by_key o_id oid (orders (w_db w)) = Some r"
    "x = with_items r (items_of (w_db w) oid)" "o_id r = oid" "w_db w1 = w_db w" by blast
  from begin_func_run [OF 2] obtain v v' where
    v: "w_db v = w_db w1" "cancel_body E x user v = (Inr (), v')" "w_db w' = w_db v'" by blast
  show thesis
    by (rule that [of r v v']) (use r v c in \<open>auto simp: cancel_check_def split: if_splits\<close>)
qed

lemma pickup_run:
  assumes "pickup E oid user w = (Inr (), w')"
  obtains r v v' where "by_key o_id oid (orders (w_db w)) = Some r" "o_id r = oid" "o_user r = user"
    "o_status r = Ready" "w_db v = w_db w"
    "pickup_body E (with_items r (items_of (w_db w) oid)) oid user v = (Inr (), v')" "w_db w' = w_db v'"
proof -
  from assms obtain x w1 where 1: "order_get_by_id E oid w = (Inr x, w1)"
    and c: "pickup_check x user = None"
    and 2: "begin_func E (\<lambda>_. pickup_body E x oid user) w1 = (Inr (), w')"
    by (auto simp: pickup_def io_simps split: option.splits)
  from order_get_ok [OF 1] obtain r where r: "by_key o_id oid (orders (w_db w)) = Some r"
    "x = with_items r (items_of (w_db w) oid)" "o_id r = oid" "w_db w1 = w_db w" by blast
  from begin_func_run [OF 2] obtain v v' where
    v: "w_db v = w_db w1" "pickup_body E x oid user v = (Inr (), v')" "w_db w' = w_db v'" by blast
  show thesis
    by (rule that [of r v v']) (use r v c in \<open>auto simp: pickup_check_def split: if_splits\<close>)
qed

lemma mark_ready_run:
  assumes "mark_ready E vid oids actor w = (Inr (), w')"
  obtains v v' where "w_db v = w_db w"
    "for_each (mark_one_ready E (w_db w) vid actor) oids v = (Inr (), v')" "w_db w' = w_db v'"
  using assms begin_func_run [of E "\<lambda>snap. for_each (mark_one_ready E snap vid actor) oids" w "()" w']
  by (auto simp: mark_ready_def io_simps)

lemma resolve_modify_items_ok:
  assumes "resolve_modify_items E pis vid is tot w = (Inr (js, t), w')" "in_i64 tot"
  shows "w_db w' = w_db w \<and> map line js = map line is @ price_lines (w_db w) pis
    \<and> t = i64 (tot + lines_total (price_lines (w_db w) pis))
    \<and> (\<forall>p\<in>set pis. 0 < pi_qty p \<and> (\<exists>m. by_key m_id (pi_item p) (menu_items (w_db w)) = Some m
         \<and> m_vendor m = vid))"
  using assms
proof (induction pis arbitrary: "is" tot w)
  case Nil
  then show ?case by (auto simp: io_simps price_lines_def lines_total_def i64_id)
next
  case (Cons p pis)
  from Cons.prems(1) obtain mi w1 where q: "0 < pi_qty p"
    and 1: "item_get_by_id E (pi_item p) w = (Inr mi, w1)" and v: "m_vendor mi = vid"
    and 2: "resolve_modify_items E pis vid (is @ [new_item (pi_item p) (pi_qty p) (m_price mi)])
          (i64 (tot + i64 (m_price mi * pi_qty p))) w1 = (Inr (js, t), w')"
    unfolding resolve_modify_items.simps guard_ok bind_ok by force
  note G = item_get_ok [OF 1]
  have price: "menu_price (w_db w) (pi_item p) = m_price mi" using G by (simp add: menu_price_def)
  have "lines_total (price_lines (w_db w) (p # pis))
      = m_price mi * pi_qty p + lines_total (price_lines (w_db w) pis)"
    by (simp add: lines_total_def price_lines_def price)
  then show ?case
    using Cons.IH [OF 2 i64_range] G q v by (auto simp: price_lines_def price i64_absorb add.assoc)
qed

lemma modify_run:
  assumes "modify E inp w = (Inr y, w')"
  obtains r new tot v v' where "mo_items inp \<noteq> []"
    "by_key o_id (mo_order inp) (orders (w_db w)) = Some r" "o_id r = mo_order inp"
    "o_user r = mo_user inp" "o_status r = Placed" "e_now E < o_cutoff_at r"
    "map line new = price_lines (w_db w) (mo_items inp)"
    "tot = i64 (lines_total (price_lines (w_db w) (mo_items inp)))"
    "\<forall>p\<in>set (mo_items inp). 0 < pi_qty p \<and> (\<exists>m. by_key m_id (pi_item p) (menu_items (w_db w)) = Some m
         \<and> m_vendor m = o_vendor r)"
    "w_db v = w_db w"
    "modify_body E inp (with_items r (items_of (w_db w) (mo_order inp))) new tot
       (quota_delta_for_modify (items_of (w_db w) (mo_order inp)) new) v = (Inr (), v')"
    "w_db w' = w_db v'"
    "\<exists>r'. by_key o_id (mo_order inp) (orders (w_db w')) = Some r'
      \<and> y = with_items r' (items_of (w_db w') (mo_order inp))"
proof -
  from assms obtain x w1 new tot w2 w3 where ne: "mo_items inp \<noteq> []"
    and 1: "order_get_by_id E (mo_order inp) w = (Inr x, w1)"
    and c: "modify_check E x (mo_user inp) = None"
    and 2: "resolve_modify_items E (mo_items inp) (o_vendor x) [] 0 w1 = (Inr (new, tot), w2)"
    and 3: "begin_func E (\<lambda>_. modify_body E inp x new tot (quota_delta_for_modify (o_items x) new)) w2
              = (Inr (), w3)"
    and 4: "order_get_by_id E (o_id x) w3 = (Inr y, w')"
    unfolding modify_def guard_ok bind_ok persist_modified_order_def
    by (auto simp: io_simps split: option.splits)
  from order_get_ok [OF 1] obtain r where r: "by_key o_id (mo_order inp) (orders (w_db w)) = Some r"
    "x = with_items r (items_of (w_db w) (mo_order inp))" "o_id r = mo_order inp" "w_db w1 = w_db w"
    by blast
  have z: "in_i64 0" by (simp add: in_i64_def)
  note R = resolve_modify_items_ok [OF 2 z]
  from begin_func_run [OF 3] obtain v v' where
    v: "w_db v = w_db w2" "w_db w3 = w_db v'"
      "modify_body E inp x new tot (quota_delta_for_modify (o_items x) new) v = (Inr (), v')" by blast
  from order_get_ok [OF 4] r have y: "\<exists>r'. by_key o_id (mo_order inp) (orders (w_db w')) = Some r'
      \<and> y = with_items r' (items_of (w_db w') (mo_order inp))" "w_db w' = w_db w3" by auto
  show thesis
    by (rule that [of r new tot v v']) (use ne r v c R y in \<open>auto simp: modify_check_def split: if_splits\<close>)
qed

section \<open>The constraints are kept\<close>

lemma keeps_wf_bodies [keeps_intros]:
  "keeps wf_supplies (append_trail E ev subj pl action)" "keeps wf_orders (append_trail E ev subj pl action)"
  "keeps wf_supplies (decrement_items E dt is)" "keeps wf_orders (decrement_items E dt is)"
  "keeps wf_supplies (restore_items E dt is)" "keeps wf_orders (restore_items E dt is)"
  "keeps wf_supplies (apply_quota_delta E dt m)" "keeps wf_orders (apply_quota_delta E dt m)"
  unfolding append_trail_def decrement_items_def restore_items_def apply_quota_delta_def
  by (auto intro!: keeps_intros split: prod.splits)

lemma ro_order_get_keeps [keeps_intros]:
  "keeps I (order_get_by_id E i)" "keeps I (order_get_by_id_at E s i)"
  by (auto intro!: keeps_ro ro_intros)

lemma keeps_wf_transactions [keeps_intros]:
  "keeps wf_supplies (create_body E dt x ev1 pl action)" "keeps wf_orders (create_body E dt x ev1 pl action)"
  "keeps wf_supplies (cancel_body E x user)" "keeps wf_orders (cancel_body E x user)"
  "keeps wf_supplies (modify_body E inp x new tot delta)" "keeps wf_orders (modify_body E inp x new tot delta)"
  "keeps wf_supplies (mark_one_ready E snap vid actor oid)" "keeps wf_orders (mark_one_ready E snap vid actor oid)"
  "keeps wf_supplies (pickup_body E x oid user)" "keeps wf_orders (pickup_body E x oid user)"
  "keeps wf_supplies (no_show_body E x)" "keeps wf_orders (no_show_body E x)"
  unfolding create_body_def cancel_body_def modify_body_def mark_one_ready_def pickup_body_def
    no_show_body_def Let_def
  by (auto intro!: keeps_intros)

section \<open>Failures and the invariant\<close>

text \<open>Everything but \<open>Modify\<close> ends with its transaction, so a failing call changes nothing.\<close>

lemma atomic_order_ops [atomic_intros]:
  "atomic (place E pin)" "atomic (cancel E oid user)" "atomic (mark_ready E vid oids actor)"
  "atomic (pickup E oid user)" "atomic (no_show_one E x)"
  unfolding place_def cancel_def mark_ready_def pickup_def no_show_one_def persist_placed_order_def
    persist_cancel_order_def
  by (intro atomic_op ro_intros)+

text \<open>Every transaction body that succeeds on a database satisfying the invariant keeps it.\<close>

lemma order_invI_quiet:
  assumes "order_inv d" "quiet_move d k a b d'" "wf_orders d'"
  shows "order_inv d'"
  using assms by (auto simp: order_inv_def quiet_move_def dest: moved_history)

lemma create_body_inv:
  assumes "order_inv (w_db w)" "create_body E (o_date x) x ev pl action w = (Inr y, w')" "o_status x = Placed"
    and "\<And>y. ev_order (ev y) = o_id y \<and> ev_from (ev y) = None \<and> ev_to (ev y) = Placed"
  shows "order_inv (w_db w')"
  using create_body_effect(6) [OF assms]
    keepsD [OF keeps_wf_transactions(1) order_invD(1) [OF assms(1)] assms(2)]
    keepsD [OF keeps_wf_transactions(2) order_invD(2) [OF assms(1)] assms(2)]
  by (simp add: order_inv_def)

lemma cancel_body_inv:
  assumes "order_inv (w_db w)" "cancel_body E x user w = (Inr (), w')"
  shows "order_inv (w_db w')"
  using moved_history [OF cancel_body_effect(1) [OF assms] order_invD(3) [OF assms(1)]]
    keepsD [OF keeps_wf_transactions(3) order_invD(1) [OF assms(1)] assms(2)]
    keepsD [OF keeps_wf_transactions(4) order_invD(2) [OF assms(1)] assms(2)]
  by (simp add: order_inv_def)

lemma modify_body_inv:
  assumes "order_inv (w_db w)" "distinct (map fst delta)"
    and "modify_body E inp x new tot delta w = (Inr (), w')"
  shows "order_inv (w_db w')"
  using history_ok_cong [OF modify_body_effect(1,2) [OF assms]] order_invD(3) [OF assms(1)]
    keepsD [OF keeps_wf_transactions(5) order_invD(1) [OF assms(1)] assms(3)]
    keepsD [OF keeps_wf_transactions(6) order_invD(2) [OF assms(1)] assms(3)]
  by (simp add: order_inv_def)

lemma pickup_body_inv:
  assumes "order_inv (w_db w)" "pickup_body E x oid user w = (Inr (), w')"
  shows "order_inv (w_db w')"
  by (rule order_invI_quiet [OF assms(1) pickup_body_effect [OF order_invD(4) [OF assms(1)] assms(2)]])
    (rule keepsD [OF keeps_wf_transactions(10) order_invD(2) [OF assms(1)] assms(2)])

lemma no_show_body_inv:
  assumes "order_inv (w_db w)" "no_show_body E x w = (Inr (), w')"
  shows "order_inv (w_db w')"
  by (rule order_invI_quiet [OF assms(1) no_show_body_effect [OF order_invD(4) [OF assms(1)] assms(2)]])
    (rule keepsD [OF keeps_wf_transactions(12) order_invD(2) [OF assms(1)] assms(2)])

lemma keeps_mark_ready_loop [keeps_intros]:
  "keeps wf_orders (for_each (mark_one_ready E snap vid actor) oids)"
  "keeps wf_supplies (for_each (mark_one_ready E snap vid actor) oids)"
  by (auto intro!: keeps_intros)

lemma mark_ready_loop_inv:
  assumes "order_inv (w_db v)" "for_each (mark_one_ready E (w_db v) vid actor) oids v = (Inr (), v')"
  shows "order_inv (w_db v')"
  using mark_ready_loop [OF assms(2) order_invD(4,3) [OF assms(1)]]
    keepsD [OF keeps_mark_ready_loop(1) order_invD(2) [OF assms(1)] assms(2)]
    keepsD [OF keeps_mark_ready_loop(2) order_invD(1) [OF assms(1)] assms(2)]
  by (simp add: order_inv_def)

text \<open>The invariant through a transaction, from the invariant of its body.\<close>

lemma keeps_inv_tx:
  assumes "\<And>v a v'. order_inv (w_db v) \<Longrightarrow> body (w_db v) v = (Inr a, v') \<Longrightarrow> order_inv (w_db v')"
  shows "keeps order_inv (begin_func E body)"
  by (rule keeps_of_ok [OF atomic_begin_func]) (metis assms begin_func_run)

lemma place_body_event:
  "ev_order (new_event (o_id y) None Placed a b c p) = o_id y
    \<and> ev_from (new_event (o_id y) None Placed a b c p) = None
    \<and> ev_to (new_event (o_id y) None Placed a b c p) = Placed"
  by simp

lemma keeps_inv_order_ops [keeps_intros]:
  "keeps order_inv (cancel E oid user)" "keeps order_inv (pickup E oid user)"
  "keeps order_inv (mark_ready E vid oids actor)" "keeps order_inv (no_show_one E x)"
proof -
  show "keeps order_inv (cancel E oid user)"
    unfolding cancel_def persist_cancel_order_def
    by (intro keeps_op ro_order_get_keeps keeps_inv_tx) (auto intro: cancel_body_inv)
  show "keeps order_inv (pickup E oid user)"
    unfolding pickup_def
    by (intro keeps_op ro_order_get_keeps keeps_inv_tx) (auto intro: pickup_body_inv)
  show "keeps order_inv (mark_ready E vid oids actor)"
    unfolding mark_ready_def
    by (intro keeps_op ro_order_get_keeps keeps_inv_tx) (simp add: mark_ready_loop_inv)
  show "keeps order_inv (no_show_one E x)"
    unfolding no_show_one_def
    by (intro keeps_op ro_order_get_keeps keeps_inv_tx) (auto intro: no_show_body_inv)
qed

lemma keeps_inv_place [keeps_intros]: "keeps order_inv (place E inp)"
proof -
  have tx: "keeps order_inv (persist_placed_order E inp x)"
    if "o_date x = p_date inp" "o_status x = Placed" for x
    unfolding persist_placed_order_def place_body_def that(1) [symmetric]
    by (intro keeps_op ro_order_get_keeps keeps_inv_tx) (erule (1) create_body_inv [OF _ _ that(2) place_body_event])
  show ?thesis
    unfolding place_def
    by (intro keeps_op tx ro_resolve [THEN keeps_ro]) (simp_all add: new_order_def)
qed

lemma keeps_inv_modify [keeps_intros]: "keeps order_inv (modify E inp)"
  unfolding modify_def persist_modified_order_def
  by (intro keeps_op ro_order_get_keeps keeps_inv_tx ro_resolve [THEN keeps_ro])
    (auto intro: modify_body_inv [OF _ distinct_quota_delta])

lemma keeps_sweep [keeps_intros]: "(\<And>x. keeps I (f x)) \<Longrightarrow> keeps I (sweep f xs n)"
  by (induction xs arbitrary: n) (auto intro!: keeps_intros)

lemma keeps_inv_mark_no_show [keeps_intros]: "keeps order_inv (mark_no_show E age)"
  unfolding mark_no_show_def by (intro keeps_intros ro_order_reads [THEN keeps_ro])

section \<open>Placing and cancelling\<close>

text \<open>Units of an item a request asks for.\<close>

definition wanted :: "place_item list \<Rightarrow> uuid \<Rightarrow> int" where
  "wanted pis m = sum_list (map pi_qty (filter (\<lambda>p. pi_item p = m) pis))"

definition wanted_at :: "date \<Rightarrow> place_item list \<Rightarrow> supply_key \<Rightarrow> int" where
  "wanted_at dt pis k = (if snd k = dt then wanted pis (fst k) else 0)"

lemma demand_lines:
  assumes "map line is = price_lines d pis"
  shows "demand is m = wanted pis m" "demand_at dt is k = wanted_at dt pis k"
proof -
  have "demand xs m = sum_list (map (\<lambda>(i, q, p). if i = m then q else 0) (map line xs))" for xs m
    by (induction xs) (auto simp: demand_def line_def)
  moreover have "sum_list (map (\<lambda>(i, q, p). if i = m then q else 0) (price_lines d pis)) = wanted pis m" for m
    by (induction pis) (auto simp: price_lines_def wanted_def)
  ultimately have D: "demand is m = wanted pis m" for m using assms by metis
  then show "demand is m = wanted pis m" .
  show "demand_at dt is k = wanted_at dt pis k" by (simp add: demand_at_def wanted_at_def D)
qed

lemma place_body_run:
  assumes "order_inv (w_db v)" "place_body E inp x v = (Inr y, v')" "o_date x = p_date inp" "o_status x = Placed"
  shows "taken (w_db v') k = taken (w_db v) k + demand_at (p_date inp) (o_items x) k"
    and "sold_at (w_db v') k = sold_at (w_db v) k + demand_at (p_date inp) (o_items x) k"
    and "capacity_at (w_db v') = capacity_at (w_db v)"
    and "status_at (w_db v') = (status_at (w_db v))(o_id y \<mapsto> Placed)"
    and "status_at (w_db v) (o_id y) = None"
    and "order_inv (w_db v')"
  using create_body_effect [OF assms(1) assms(2) [unfolded place_body_def assms(3) [symmetric]] assms(4) place_body_event]
    create_body_inv [OF assms(1) assms(2) [unfolded place_body_def assms(3) [symmetric]] assms(4) place_body_event]
  by (simp_all add: assms(3))

lemma new_order_fields [simp]:
  "o_user (new_order u v p dt t n pl c is) = u" "o_vendor (new_order u v p dt t n pl c is) = v"
  "o_plant (new_order u v p dt t n pl c is) = p" "o_date (new_order u v p dt t n pl c is) = dt"
  "o_status (new_order u v p dt t n pl c is) = Placed" "o_total (new_order u v p dt t n pl c is) = t"
  "o_notes (new_order u v p dt t n pl c is) = n" "o_placed_at (new_order u v p dt t n pl c is) = Some pl"
  "o_cutoff_at (new_order u v p dt t n pl c is) = c" "o_items (new_order u v p dt t n pl c is) = is"
  by (simp_all add: new_order_def)

text \<open>Menu rows carry the vendor's id, which is never empty.\<close>

definition menu_ok :: "db \<Rightarrow> bool" where
  "menu_ok d \<longleftrightarrow> '''' \<notin> m_vendor ` set (menu_items d)"

lemma place_ledger:
  assumes "order_inv (w_db w)" "menu_ok (w_db w)" "place E inp w = (Inr y, w')"
  shows "taken (w_db w') k = taken (w_db w) k + wanted_at (p_date inp) (p_items inp) k"
    and "sold_at (w_db w') k = sold_at (w_db w) k + wanted_at (p_date inp) (p_items inp) k"
    and "capacity_at (w_db w') = capacity_at (w_db w)"
    and "status_at (w_db w') = (status_at (w_db w))(o_id y \<mapsto> Placed)"
    and "status_at (w_db w) (o_id y) = None"
proof -
  from place_run [OF assms(3) assms(2) [unfolded menu_ok_def]] obtain x vd v v' where
    x: "x = new_order (p_user inp) (o_vendor x) (p_plant inp) (p_date inp) (o_total x) (p_notes inp)
           (e_now E) (cutoff_of E (p_date inp) vd) (o_items x)"
    and l: "map line (o_items x) = price_lines (w_db w) (p_items inp)"
    and v: "w_db v = w_db w" "place_body E inp x v = (Inr y, v')" "w_db w' = w_db v'"
    by metis
  have "o_date x = p_date inp" "o_status x = Placed" by (subst x, simp)+
  note B = place_body_run [OF _ v(2) this, unfolded v(1), OF assms(1)]
  show "taken (w_db w') k = taken (w_db w) k + wanted_at (p_date inp) (p_items inp) k"
    "sold_at (w_db w') k = sold_at (w_db w) k + wanted_at (p_date inp) (p_items inp) k"
    using B(1,2) demand_lines(2) [OF l] by (simp_all add: v(3))
  show "capacity_at (w_db w') = capacity_at (w_db w)"
    "status_at (w_db w') = (status_at (w_db w))(o_id y \<mapsto> Placed)"
    "status_at (w_db w) (o_id y) = None"
    using B(3,4,5) by (simp_all add: v(3))
qed

lemma remain_of_taken:
  "remain_at d k = map_option (\<lambda>c. c - taken d k) (capacity_at d k)"
  by (auto simp: taken_def remain_at_def capacity_at_def split: option.split)

lemma cancel_ledger:
  assumes "order_inv (w_db w)" "cancel E oid user w = (Inr (), w')"
  obtains r where "by_key o_id oid (orders (w_db w)) = Some r" "o_user r = user" "o_status r = Placed"
    "moved (w_db w) oid Placed Cancelled (w_db w')"
    "\<And>k. taken (w_db w') k = max (taken (w_db w) k - sales_of (w_db w) oid k) 0"
    "\<And>k. sold_at (w_db w') k = sold_at (w_db w) k - sales_of (w_db w) oid k"
    "capacity_at (w_db w') = capacity_at (w_db w)"
proof -
  from cancel_run [OF assms(2)] obtain r v v' where r: "by_key o_id oid (orders (w_db w)) = Some r"
    "o_id r = oid" "o_user r = user" "o_status r = Placed" and v: "w_db v = w_db w"
    "cancel_body E (with_items r (items_of (w_db w) oid)) user v = (Inr (), v')" "w_db w' = w_db v'"
    by metis
  have "order_inv (w_db v)" using assms(1) v(1) by simp
  note C = cancel_body_effect [OF this v(2)]
  show thesis
    using C r(2) by (intro that [OF r(1,3,4)]) (simp_all add: v(1,3) sales_of_row [OF r(1)] r(4))
qed

lemma balanced_take:
  assumes "balanced d" "\<And>k. taken d' k = taken d k + f k" "\<And>k. sold_at d' k = sold_at d k + f k"
  shows "balanced d'"
  using assms by (simp add: balanced_def)

lemma wf_orders_qty: "wf_orders d \<Longrightarrow> i \<in> set (order_items d) \<Longrightarrow> 0 < i_qty i \<and> i_qty i \<le> int4_max"
  by (simp add: wf_orders_def)

lemma sales_of_nonneg: "wf_orders d \<Longrightarrow> 0 \<le> sales_of d oid k"
  unfolding sales_of_def items_of_def
  by (auto intro!: demand_nonneg simp: order.strict_implies_order wf_orders_qty)

lemma sales_but_nonneg: "wf_orders d \<Longrightarrow> 0 \<le> sales_but d oid k"
  unfolding sales_but_def by (rule sql_sum_nonneg) (auto simp: wf_orders_def)

lemma sales_of_le_sold: "wf_orders d \<Longrightarrow> sales_of d oid k \<le> sold_at d k"
  using sold_at_split [of d k oid] sales_but_nonneg [of d oid k] by simp

lemma balanced_release:
  assumes "balanced d" "wf_orders d" "\<And>k. taken d' k = max (taken d k - sales_of d oid k) 0"
    "\<And>k. sold_at d' k = sold_at d k - sales_of d oid k"
  shows "balanced d'"
  unfolding balanced_def
proof
  fix k
  show "taken d' k = sold_at d' k"
    using spec [OF assms(1) [unfolded balanced_def], of k] assms(3,4) [of k]
      sales_of_le_sold [OF assms(2), of oid k] by simp
qed

text \<open>A modification moves the ledger from the old items to the new ones.\<close>

lemma modify_ledger:
  assumes "order_inv (w_db w)" "modify E inp w = (Inr y, w')"
  obtains r where "by_key o_id (mo_order inp) (orders (w_db w)) = Some r" "o_user r = mo_user inp"
    "o_status r = Placed" "e_now E < o_cutoff_at r"
    "status_at (w_db w') = status_at (w_db w)" "state_events (w_db w') = state_events (w_db w)"
    "capacity_at (w_db w') = capacity_at (w_db w)"
    "map line (items_of (w_db w') (mo_order inp)) = price_lines (w_db w) (mo_items inp)"
    "\<And>k. sold_at (w_db w') k = sold_at (w_db w) k - sales_of (w_db w) (mo_order inp) k
       + wanted_at (o_date r) (mo_items inp) k"
    "\<And>k. let n = wanted_at (o_date r) (mo_items inp) k - sales_of (w_db w) (mo_order inp) k in
       taken (w_db w') k = (if 0 \<le> n then taken (w_db w) k + n else max (taken (w_db w) k + n) 0)"
proof -
  from modify_run [OF assms(2)] obtain r new tot v v' where
    r: "by_key o_id (mo_order inp) (orders (w_db w)) = Some r" "o_id r = mo_order inp"
      "o_user r = mo_user inp" "o_status r = Placed" "e_now E < o_cutoff_at r"
    and new: "map line new = price_lines (w_db w) (mo_items inp)"
    and v: "w_db v = w_db w" "modify_body E inp (with_items r (items_of (w_db w) (mo_order inp))) new tot
       (quota_delta_for_modify (items_of (w_db w) (mo_order inp)) new) v = (Inr (), v')" "w_db w' = w_db v'"
    by metis
  have "order_inv (w_db v)" using assms(1) v(1) by simp
  note M = modify_body_effect [OF this distinct_quota_delta v(2), unfolded v(1) with_items_simps r(2)]
  have sales: "sales_of (w_db w) (mo_order inp) k
      = (if snd k = o_date r then demand (items_of (w_db w) (mo_order inp)) (fst k) else 0)" for k
    by (simp add: sales_of_row [OF r(1)] r(4) demand_at_def)
  show thesis
  proof (rule that [OF r(1,3,4,5)])
    show "status_at (w_db w') = status_at (w_db w)" "state_events (w_db w') = state_events (w_db w)"
      "capacity_at (w_db w') = capacity_at (w_db w)"
      "map line (items_of (w_db w') (mo_order inp)) = price_lines (w_db w) (mo_items inp)"
      using M(1,2,5,7) new by (simp_all add: v(3))
    show "sold_at (w_db w') k = sold_at (w_db w) k - sales_of (w_db w) (mo_order inp) k
       + wanted_at (o_date r) (mo_items inp) k" for k
      using M(4) [of k] r(1,4) demand_lines(1) [OF new]
      by (auto simp: v(3) wanted_at_def live_def)
    show "let n = wanted_at (o_date r) (mo_items inp) k - sales_of (w_db w) (mo_order inp) k in
       taken (w_db w') k = (if 0 \<le> n then taken (w_db w) k + n else max (taken (w_db w) k + n) 0)" for k
      using demand_lines(1) [OF new]
      by (auto simp: v(3) M(3) delta_taken_def Let_def quota_delta_total wanted_at_def sales)
  qed
qed

section \<open>Sweeps\<close>

lemma sweep_total: "\<exists>n w'. sweep f xs n0 w = (Inr n, w')"
proof (induction xs arbitrary: n0 w)
  case Nil
  then show ?case by (simp add: ret_def)
next
  case (Cons x xs)
  then show ?case by (cases "f x w") (simp add: bind_run attempt_def)
qed

text \<open>
  A sweep of conditional moves: exactly the orders it counts have moved, each once; what failed
  or had moved already is left alone.
\<close>

lemma sweep_moves:
  assumes run: "sweep f xs n0 w = (Inr n, w')" and inv: "order_inv (w_db w)"
    and keeps: "\<And>x. keeps order_inv (f x)" and fails: "\<And>x. atomic (f x)"
    and step: "\<And>x v v'. order_inv (w_db v) \<Longrightarrow> f x v = (Inr (), v') \<Longrightarrow> moved (w_db v) (o_id x) a b (w_db v')"
  shows "\<exists>S. S \<subseteq> o_id ` set xs \<and> finite S \<and> n = n0 + card S
    \<and> (\<forall>k\<in>S. status_at (w_db w) k = Some a)
    \<and> (\<forall>k. status_at (w_db w') k = (if k \<in> S then Some b else status_at (w_db w) k))
    \<and> length (state_events (w_db w')) = length (state_events (w_db w)) + card S"
  using run inv
proof (induction xs arbitrary: n0 w)
  case Nil
  then show ?case by (auto simp: io_simps intro: exI [of _ "{}"])
next
  case (Cons x xs)
  obtain r w1 where 1: "f x w = (r, w1)" by (cases "f x w")
  with Cons.prems(1) have 2: "sweep f xs (case r of Inl _ \<Rightarrow> n0 | Inr _ \<Rightarrow> n0 + 1) w1 = (Inr n, w')"
    by (simp add: bind_run attempt_def)
  note inv1 = keepsD [OF keeps Cons.prems(2) 1]
  from Cons.IH [OF 2 inv1] obtain S where S: "S \<subseteq> o_id ` set xs" "finite S"
    "n = (case r of Inl _ \<Rightarrow> n0 | Inr _ \<Rightarrow> n0 + 1) + card S"
    "\<forall>k\<in>S. status_at (w_db w1) k = Some a"
    "\<forall>k. status_at (w_db w') k = (if k \<in> S then Some b else status_at (w_db w1) k)"
    "length (state_events (w_db w')) = length (state_events (w_db w1)) + card S" by blast
  show ?case
  proof (cases r)
    case (Inl e)
    with 1 have "w_db w1 = w_db w" using atomicD [OF fails] by blast
    with S Inl show ?thesis by (intro exI [of _ S]) auto
  next
    case (Inr u)
    with 1 have m: "moved (w_db w) (o_id x) a b (w_db w1)" using step Cons.prems(2) by simp
    then have st: "status_at (w_db w1) = (status_at (w_db w))(o_id x \<mapsto> b)"
      and cur: "status_at (w_db w) (o_id x) = Some a" and ab: "a \<noteq> b"
      and ev: "length (state_events (w_db w1)) = Suc (length (state_events (w_db w)))"
      by (auto simp: moved_def)
    have new: "o_id x \<notin> S" using S(4) st ab by force
    have "\<forall>k\<in>S. status_at (w_db w) k = Some a" using S(4) st new by (metis fun_upd_other)
    with S Inr st cur ev new show ?thesis
      by (intro exI [of _ "insert (o_id x) S"]) auto
  qed
qed

section \<open>Cancelling succeeds\<close>

text \<open>Whether \<open>n\<close> units can be added to what is left of a supply without leaving its column.\<close>

definition has_room :: "db \<Rightarrow> supply_key \<Rightarrow> int \<Rightarrow> bool" where
  "has_room d k n \<longleftrightarrow> (\<forall>v. remain_at d k = Some v \<longrightarrow> v + n \<le> int4_max)"

lemma restore_tx_succeeds:
  assumes "wf_supplies (w_db w)" "e_fault E = (\<lambda>_. None)" "0 < n" "n \<le> int4_max"
    and "has_room (w_db w) (i, dt) n"
  shows "\<exists>w'. restore_tx E i dt n w = (Inr (), w')"
proof -
  have "s_remain s + n \<le> int4_max" if "s \<in> set (supplies (w_db w))" "skey s = (i, dt)" for s
  proof -
    from assms(1) that have "by_key skey (i, dt) (supplies (w_db w)) = Some s"
      by (auto simp: wf_supplies_def by_key_iff)
    with assms(5) show ?thesis by (simp add: has_room_def remain_at_def)
  qed
  then have "\<not> list_ex (\<lambda>s. skey s = (i, dt) \<and> int4_max < s_remain s + n) (supplies (w_db w))"
    unfolding list_ex_iff by (meson not_le)
  then show ?thesis
    using assms(2-4) by (simp add: restore_tx_def exec_def Let_def int4_ok_def int4_max_def)
qed

lemma restore_items_succeeds:
  assumes "wf_supplies (w_db w)" "e_fault E = (\<lambda>_. None)"
    and "\<And>i. i \<in> set is \<Longrightarrow> 0 < i_qty i \<and> i_qty i \<le> int4_max"
    and "\<And>k. has_room (w_db w) k (demand_at dt is k)"
  shows "\<exists>w'. restore_items E dt is w = (Inr (), w')"
  using assms
proof (induction "is" arbitrary: w)
  case Nil
  then show ?case by (simp add: restore_items_def ret_def)
next
  case (Cons i "is")
  let ?k = "(i_menu_item i, dt)"
  have rest: "0 \<le> demand is m" for m
    by (rule demand_nonneg) (use Cons.prems(3) in \<open>simp add: order.strict_implies_order\<close>)
  then have rest_at: "0 \<le> demand_at dt is k" for k by (cases k) (simp add: demand_at_def)
  have dem: "demand_at dt (i # is) k = (if k = ?k then i_qty i else 0) + demand_at dt is k" for k
    by (cases k) (auto simp: demand_at_def demand_def)
  have "has_room (w_db w) ?k (i_qty i)"
    using Cons.prems(4) [of ?k] rest_at [of ?k] unfolding dem has_room_def by force
  then obtain w1 where 1: "restore_tx E (i_menu_item i) dt (i_qty i) w = (Inr (), w1)"
    using restore_tx_succeeds Cons.prems(1-3) by (metis list.set_intros(1))
  have "has_room (w_db w1) k (demand_at dt is k)" for k
    using Cons.prems(4) [of k] restore_ok(1) [OF Cons.prems(1) 1] unfolding dem has_room_def restore_ok(2) [OF Cons.prems(1) 1]
    by (cases "remain_at (w_db w) k") (auto split: if_splits)
  with Cons.IH [of w1] restore_ok(4) [OF Cons.prems(1) 1] Cons.prems(2,3)
  obtain w' where "restore_items E dt is w1 = (Inr (), w')" by auto
  with 1 show ?case by (simp add: restore_items_def bind_run)
qed

lemma update_status_tx_succeeds:
  assumes "e_fault E = (\<lambda>_. None)" "status_at (w_db w) k = Some a"
  shows "\<exists>w'. update_status_tx E a b k w = (Inr (), w') \<and> users (w_db w') = users (w_db w)"
proof -
  from assms(2) have "list_ex (\<lambda>r. o_id r = k \<and> o_status r = a) (orders (w_db w))"
    by (auto simp: status_at_def list_ex_iff dest: by_key_SomeD)
  with assms(1) show ?thesis
    by (simp add: update_status_tx_def order_update_where_def exec_def Let_def sql_affected_0_iff)
qed

lemma append_trail_succeeds:
  assumes "e_fault E = (\<lambda>_. None)" "status_at (w_db w) (ev_order ev) \<noteq> None" "fk_user (w_db w) (ev_actor ev)"
  shows "\<exists>w'. append_trail E ev subj pl action w = (Inr (), w')"
  using assms
  by (auto simp: append_trail_def bind_run state_append_tx_def outbox_append_tx_def audit_write_tx_def
      exec_def Let_def status_at_def fk_user_def order_audit_def split: option.splits)

lemma begin_func_succeeds:
  assumes "e_fault E = (\<lambda>_. None)"
    and "\<And>v. w_db v = w_db w \<Longrightarrow> \<exists>v'. body (w_db w) v = (Inr a, v')"
  shows "\<exists>w'. begin_func E body w = (Inr a, w')"
  using assms(2) [of "w\<lparr>w_tick := Suc (w_tick w)\<rparr>"] assms(1)
  by (auto simp: begin_func_def exec_def)

lemma cancel_body_succeeds:
  assumes "order_inv (w_db w)" "\<forall>k. has_room (w_db w) k (sales_of (w_db w) oid k)" "e_fault E = (\<lambda>_. None)"
    and "by_key o_id oid (orders (w_db w)) = Some r" "o_status r = Placed"
    and "by_key u_id user (users (w_db w)) \<noteq> None"
  shows "\<exists>w'. cancel_body E (with_items r (items_of (w_db w) oid)) user w = (Inr (), w')"
proof -
  let ?x = "with_items r (items_of (w_db w) oid)"
  note I = order_invD [OF assms(1)]
  have rid: "o_id r = oid" using assms(4) by (auto dest: by_key_SomeD)
  have st: "status_at (w_db w) oid = Some Placed" using assms(4,5) by (simp add: status_at_def)
  from update_status_tx_succeeds [OF assms(3) st] obtain w1 where
    1: "update_status_tx E Placed Cancelled oid w = (Inr (), w1)" and us: "users (w_db w1) = users (w_db w)"
    by blast
  note U = order_update_frame [OF 1 [unfolded update_status_tx_def]]
  have "remain_at (w_db w1) = remain_at (w_db w)" by (rule ext) (simp only: remain_at_def U(6))
  then have dem: "has_room (w_db w1) k (demand_at (o_date r) (items_of (w_db w) oid) k)" for k
    using spec [OF assms(2), of k] by (simp add: has_room_def sales_of_row [OF assms(4)] assms(5))
  have qty: "0 < i_qty i \<and> i_qty i \<le> int4_max" if "i \<in> set (items_of (w_db w) oid)" for i
    using that wf_orders_qty [OF I(2)] by (auto simp: items_of_def)
  have wf1: "wf_supplies (w_db w1)" using U(3) I(1) by simp
  from restore_items_succeeds [OF wf1 assms(3) qty dem] obtain w2 where
    2: "restore_items E (o_date r) (items_of (w_db w) oid) w1 = (Inr (), w2)" by blast
  note R = restore_items_ok [OF wf1 2] and st1 = cancel_upd.upd_to [OF I(4) 1]
  note B = but_supplies_fields [OF R(2)]
  let ?ev = "new_event oid (Some Placed) Cancelled (Some user) (Some Employee) ''user_cancel'' []"
  have "status_at (w_db w2) (ev_order ?ev) \<noteq> None" using st1 B(1) by (auto simp: status_at_def)
  moreover have "fk_user (w_db w2) (ev_actor ?ev)"
    using assms(6) by (auto simp: fk_user_def list_ex_iff B(3) us dest: by_key_SomeD)
  ultimately obtain w' where
    "append_trail E ?ev ''order.cancelled.v1''
       [(''order_id'', JStr oid), (''vendor_id'', JStr (o_vendor r)), (''by'', JStr ''user'')]
       ''order.cancel'' w2 = (Inr (), w')"
    using append_trail_succeeds [OF assms(3)] by blast
  with 1 2 show ?thesis by (simp add: cancel_body_def bind_run rid)
qed

lemma order_get_succeeds:
  assumes "e_fault E = (\<lambda>_. None)" "by_key o_id oid (orders (w_db w)) = Some r"
  shows "\<exists>w'. order_get_by_id E oid w = (Inr (with_items r (items_of (w_db w) oid)), w') \<and> w_db w' = w_db w"
  using assms by (simp add: order_get_by_id_def order_get_row_def bind_run query_def exec_def ret_def)

section \<open>What is stored of a created order\<close>

lemma create_body_stored:
  assumes "order_inv (w_db v)" "create_body E dt x ev pl action v = (Inr y, v')"
  shows "\<exists>r. by_key o_id (o_id y) (orders (w_db v')) = Some r
    \<and> o_user r = o_user x \<and> o_vendor r = o_vendor x \<and> o_plant r = o_plant x \<and> o_date r = o_date x
    \<and> o_notes r = o_notes x \<and> o_status r = o_status x \<and> o_total r = o_total x
    \<and> o_placed_at r = o_placed_at x \<and> o_cutoff_at r = o_cutoff_at x
    \<and> map line (items_of (w_db v') (o_id y)) = map line (o_items x)"
proof -
  from create_body_ok [OF order_invD(1) [OF assms(1)] assms(2)] obtain d1 where
    d1: "but_supplies d1 = but_supplies (w_db v)"
    and T: "trailed (with_order d1 y) (ev y) ''order.placed.v1'' (pl y) action (w_db v')"
    and y: "o_id y \<notin> o_id ` set (orders (w_db v))"
      "o_user y = o_user x" "o_vendor y = o_vendor x" "o_plant y = o_plant x" "o_date y = o_date x"
      "o_status y = o_status x" "o_total y = o_total x" "o_notes y = o_notes x" "o_placed_at y = o_placed_at x"
      "map line (o_items y) = map line (o_items x)" "\<forall>i\<in>set (o_items y). i_order i = o_id y"
      "o_cutoff_at y = o_cutoff_at x" by metis
  note B = but_supplies_fields [OF d1]
  have y1: "o_id y \<notin> o_id ` set (orders d1)" using y(1) B(1) by simp
  have "by_key o_id (o_id y) (orders (w_db v')) = Some (fresh_row y)"
    using y1 by (auto simp: trailed_frame(8) [OF T] with_order_def by_key_append by_key_None [symmetric]
        split: option.split)
  moreover have "map line (items_of (w_db v') (o_id y)) = map line (o_items y)"
  proof -
    have "filter (\<lambda>i. i_order i = o_id y) (order_items d1) = []"
      using order_invD(2) [OF assms(1)] y(1) unfolding B(2) wf_orders_def filter_empty_conv by metis
    then show ?thesis
      using y(11) by (simp add: trailed_frame(11) [OF T] items_of_def with_order_def filter_map comp_def)
  qed
  ultimately show ?thesis using y by simp
qed

end
