(* ===== verification/Scenario.thy ===== *)
theory Scenario
  imports Order_Service
begin

text \<open>
  A small concrete system the witnesses run on: one vendor serving one plant with two menu
  items, their supplies for 2026-01-08, an employee, a vendor operator and an administrator,
  and the clock at noon UTC on 2026-01-05 (day number 20458).
\<close>

definition d0 :: date where "d0 = 20461"

definition env0 :: env where
  "env0 = \<lparr>e_now = 20458 * day_ns + 12 * hour_ns, e_dbnow = 20458 * day_ns + 12 * hour_ns,
     e_tz = 28800, e_fault = (\<lambda>_. None), e_uuid = (\<lambda>n. replicate n (CHR ''u'')),
     e_row_uuid = (\<lambda>n k. replicate n (CHR ''u'') @ replicate k (CHR ''v'')), e_pick = (\<lambda>_. 0)\<rparr>"

definition user0 :: "string \<Rightarrow> user_role \<Rightarrow> user" where
  "user0 i role = \<lparr>u_id = i, u_email = i, u_name = i, u_role = role, u_status = UserActive,
     u_employee_id = Some i, u_vendor = (if role = VendorOperator then Some ''v1'' else None),
     u_plant = Some ''P1'', u_department = None, u_created_at = 0, u_updated_at = 0\<rparr>"

definition menu0 :: "string \<Rightarrow> int \<Rightarrow> menu_item" where
  "menu0 i p = \<lparr>m_id = i, m_vendor = ''v1'', m_category = None, m_name = i, m_desc = '''', m_price = p,
     m_tags = [], m_status = ItemActive, m_archived_at = None, m_created_at = 0, m_updated_at = 0\<rparr>"

definition supply0 :: "string \<Rightarrow> string \<Rightarrow> int \<Rightarrow> meal_supply" where
  "supply0 i m c = \<lparr>s_id = i, s_item = m, s_date = d0, s_capacity = c, s_remain = c, s_pickup_window = '''',
     s_eta_label = '''', s_cutoff_at = d0 * day_ns, s_sold_out = False, s_created_at = 0, s_updated_at = 0\<rparr>"

definition db0 :: db where
  "db0 = empty_db\<lparr>users := [user0 ''emp'' Employee, user0 ''op'' VendorOperator, user0 ''adm'' WelfareAdmin],
     vendors := [\<lparr>v_id = ''v1'', v_name = ''V'', v_legal = ''V'', v_email = ''v'', v_status = VApproved, v_approved_at = None,
       v_approved_by = None, v_cutoff_hour = 18, v_preorder_days = 7, v_created_at = 0, v_updated_at = 0\<rparr>],
     plant_mappings := [\<lparr>pm_id = ''pm'', pm_vendor = ''v1'', pm_plant = ''P1'', pm_active = True, pm_window = '''', pm_created_at = 0\<rparr>],
     menu_items := [menu0 ''m1'' 100, menu0 ''m2'' 80],
     supplies := [supply0 ''s1'' ''m1'' 10, supply0 ''s2'' ''m2'' 2]\<rparr>"

definition world0 :: world where
  "world0 = \<lparr>w_db = db0, w_tick = 0, w_order_seq = 1001, w_event_seq = 1, w_audit_seq = 1, w_outbox_seq = 1,
     w_cache = [], w_idp = []\<rparr>"

definition place0 :: place_input where
  "place0 = \<lparr>p_user = ''emp'', p_plant = ''P1'', p_date = d0,
     p_items = [\<lparr>pi_item = ''m1'', pi_qty = 2\<rparr>, \<lparr>pi_item = ''m2'', pi_qty = 1\<rparr>], p_notes = ''x''\<rparr>"

text \<open>
  The states after placing that order, after the vendor marked it ready, and after its pickup,
  written out but for the two logs nothing reads.
\<close>

definition oid1 :: uuid where "oid1 = ''uuuuuuu''"

definition now0 :: time where "now0 = 1767614400000000000"

definition row1 :: "order_status \<Rightarrow> time option \<Rightarrow> time option \<Rightarrow> order_row" where
  "row1 st rd pu = \<lparr>o_id = ''uuuuuuu'', o_number = 1001, o_user = ''emp'', o_vendor = ''v1'', o_plant = ''P1'',
     o_date = 20461, o_status = st, o_total = 280, o_notes = ''x'', o_placed_at = Some 1767614400000000000,
     o_cutoff_at = 1767780000000000000, o_ready_at = rd, o_picked_up_at = pu,
     o_no_show_at = None, o_cancelled_at = None, o_created_at = 1767614400000000000,
     o_updated_at = 1767614400000000000\<rparr>"

definition event1 :: "int \<Rightarrow> order_status option \<Rightarrow> order_status \<Rightarrow> string \<Rightarrow> user_role \<Rightarrow> string \<Rightarrow> state_event" where
  "event1 n from st actor role reason = \<lparr>ev_id = n, ev_order = ''uuuuuuu'', ev_from = from, ev_to = st,
     ev_actor = Some actor, ev_role = Some role, ev_reason = reason, ev_payload = [],
     ev_at = 1767614400000000000\<rparr>"

definition supply1 :: "string \<Rightarrow> string \<Rightarrow> int \<Rightarrow> int \<Rightarrow> meal_supply" where
  "supply1 i m c r = (supply0 i m c)\<lparr>s_remain := r, s_updated_at := 1767614400000000000\<rparr>"

definition items1 :: "item list" where
  "items1 = [\<lparr>i_id = ''uuuuuuuu'', i_order = ''uuuuuuu'', i_menu_item = ''m1'', i_name = '''', i_qty = 2, i_price = 100\<rparr>,
     \<lparr>i_id = ''uuuuuuuuu'', i_order = ''uuuuuuu'', i_menu_item = ''m2'', i_name = '''', i_qty = 1, i_price = 80\<rparr>]"

definition db1 :: db where
  "db1 = db0\<lparr>supplies := [supply1 ''s1'' ''m1'' 10 8, supply1 ''s2'' ''m2'' 2 1],
     orders := [row1 Placed None None], order_items := items1,
     state_events := [event1 1 None Placed ''emp'' Employee ''place_order''],
     audits := audits (w_db (snd (place env0 place0 world0))),
     outbox := outbox (w_db (snd (place env0 place0 world0)))\<rparr>"

definition world1 :: world where
  "world1 = \<lparr>w_db = db1, w_tick = 14, w_order_seq = 1002, w_event_seq = 2, w_audit_seq = 2, w_outbox_seq = 2,
     w_cache = [], w_idp = []\<rparr>"

lemma replicate_run [run_simps]: "replicate (numeral k) x = x # replicate (pred_numeral k) x"
  by (simp add: numeral_eq_Suc)

lemmas scenario_defs = env0_def world0_def db0_def empty_db_def place0_def user0_def menu0_def supply0_def d0_def

section \<open>The scenario satisfies the hypotheses\<close>

lemma order_inv0: "order_inv db0"
proof -
  have "history_ok db0"
    by (simp add: scenario_defs history_ok_def trace_ok_def status_at_def history_def)
  moreover have "wf_supplies db0" "wf_orders db0"
    by (simp_all add: scenario_defs wf_supplies_def wf_orders_def wf_order_ids_def skey_def int4_max_def)
  ultimately show ?thesis by (simp add: order_inv_def)
qed

lemma menu_ok0: "menu_ok db0"
  by (simp add: scenario_defs menu_ok_def)

lemma balanced0: "balanced db0"
  by (simp add: scenario_defs balanced_def taken_def sold_at_def skey_def)

lemma world0_db [simp]: "w_db world0 = db0"
  by (simp add: world0_def)

lemmas scenario1_defs = world1_def row1_def event1_def supply1_def items1_def oid1_def

lemma place0_ok: "\<exists>y. place env0 place0 world0 = (Inr y, world1) \<and> o_id y = oid1"
  by (simp add: scenario1_defs db1_def run_simps scenario_defs)

text \<open>From here on the logs are opaque.\<close>

definition audits1 :: "audit_row list" where "audits1 = audits db1"
definition outbox1 :: "outbox_event list" where "outbox1 = outbox db1"

lemma db1_eq: "db1 = db0\<lparr>supplies := [supply1 ''s1'' ''m1'' 10 8, supply1 ''s2'' ''m2'' 2 1],
     orders := [row1 Placed None None], order_items := items1,
     state_events := [event1 1 None Placed ''emp'' Employee ''place_order''],
     audits := audits1, outbox := outbox1\<rparr>"
  by (simp add: audits1_def outbox1_def db1_def)

lemma order_inv1: "order_inv (w_db world1)"
  using place0_ok keepsD [OF keeps_inv_place, of world0 env0 place0] order_inv0 by auto

lemma balanced1: "balanced (w_db world1)"
proof -
  obtain y where y: "place env0 place0 world0 = (Inr y, world1)" using place0_ok by blast
  have "order_inv (w_db world0)" "menu_ok (w_db world0)" "balanced (w_db world0)"
    using order_inv0 menu_ok0 balanced0 by simp_all
  from balanced_take [OF this(3) place_ledger(1,2) [OF this(1,2) y]] show ?thesis by simp
qed

lemma cancel1_ok: "fst (cancel env0 oid1 ''emp'' world1) = Inr ()"
  by (simp add: scenario1_defs db1_eq run_simps scenario_defs)

definition world2 :: world where "world2 = world1\<lparr>w_tick := 22, w_event_seq := 3, w_audit_seq := 3,
  w_outbox_seq := 3, w_db := db1\<lparr>orders := [row1 Ready (Some now0) None],
     state_events := [event1 1 None Placed ''emp'' Employee ''place_order'',
       event1 2 (Some Placed) Ready ''op'' VendorOperator ''vendor_ready''],
     audits := audits (w_db (snd (mark_ready env0 ''v1'' [oid1] ''op'' world1))),
     outbox := outbox (w_db (snd (mark_ready env0 ''v1'' [oid1] ''op'' world1)))\<rparr>\<rparr>"

lemma ready1_ok: "mark_ready env0 ''v1'' [oid1] ''op'' world1 = (Inr (), world2)"
  by (simp add: world2_def scenario1_defs db1_eq run_simps scenario_defs now0_def)

definition audits2 :: "audit_row list" where "audits2 = audits (w_db world2)"
definition outbox2 :: "outbox_event list" where "outbox2 = outbox (w_db world2)"

lemma world2_eq: "world2 = world1\<lparr>w_tick := 22, w_event_seq := 3, w_audit_seq := 3,
  w_outbox_seq := 3, w_db := db1\<lparr>orders := [row1 Ready (Some now0) None],
     state_events := [event1 1 None Placed ''emp'' Employee ''place_order'',
       event1 2 (Some Placed) Ready ''op'' VendorOperator ''vendor_ready''],
     audits := audits2, outbox := outbox2\<rparr>\<rparr>"
  by (simp add: audits2_def outbox2_def world2_def)

lemmas scenario2_defs = world2_eq scenario1_defs db1_eq scenario_defs now0_def

definition world3 :: world where "world3 = snd (pickup env0 oid1 ''emp'' world2)"

lemma pickup1_ok: "pickup env0 oid1 ''emp'' world2 = (Inr (), world3)"
  by (simp add: world3_def run_simps scenario2_defs)

lemma order_inv23: "order_inv (w_db world2)" "order_inv (w_db world3)"
proof -
  show 2: "order_inv (w_db world2)"
    by (rule keepsD [OF keeps_inv_order_ops(3) order_inv1 ready1_ok])
  show "order_inv (w_db world3)"
    by (rule keepsD [OF keeps_inv_order_ops(2) 2 pickup1_ok])
qed

end
