(* ===== verification/Home_Props.thy ===== *)
theory Home_Props
  imports Home Scenario
begin

text \<open>
  What the home page shows: the day it is about, the recommendations and their pages, and the pages
  of favourites, which follow a cursor instead of an offset.
\<close>

section \<open>The day of the page\<close>

text \<open>A day is over when the plant's menu has supplies on it and all their cutoffs have passed.\<close>

definition day_over :: "db \<Rightarrow> string \<Rightarrow> time \<Rightarrow> date \<Rightarrow> bool" where
  "day_over d plant now day \<longleftrightarrow> plant_supplies d plant day \<noteq> [] \<and> (\<forall>s\<in>set (plant_supplies d plant day). s_cutoff_at s \<le> now)"

lemma length_filter_all: "length (filter P xs) = length xs \<longleftrightarrow> (\<forall>x\<in>set xs. P x)"
  using length_filter_less [of _ xs P] by (metis filter_True less_irrefl)

lemma all_cutoffs_passed_ok:
  assumes "all_cutoffs_passed E plant day now w = (Inr b, w')"
  shows "b = day_over (w_db w) plant now day" "w_db w' = w_db w"
  using assms unfolding all_cutoffs_passed_def query_ok Let_def day_over_def length_filter_all by auto

text \<open>The first day from \<open>day\<close> on that is not over, among the next \<open>n\<close>, or the day after them.\<close>

definition first_open :: "db \<Rightarrow> string \<Rightarrow> time \<Rightarrow> date \<Rightarrow> nat \<Rightarrow> date \<Rightarrow> bool" where
  "first_open d plant now day n r \<longleftrightarrow> day \<le> r \<and> r \<le> day + int n \<and> (\<forall>t. day \<le> t \<longrightarrow> t < r \<longrightarrow> day_over d plant now t)
     \<and> (r < day + int n \<longrightarrow> \<not> day_over d plant now r)"

lemma first_open_Suc:
  assumes "day_over d plant now day" "first_open d plant now (day + 1) n r"
  shows "first_open d plant now day (Suc n) r"
  unfolding first_open_def
proof (intro conjI allI impI)
  show "day_over d plant now t" if "day \<le> t" "t < r" for t
    using assms that by (cases "t = day") (auto simp: first_open_def)
qed (use assms in \<open>auto simp: first_open_def\<close>)

lemma next_orderable_day_ok:
  assumes "next_orderable_day E plant n day w = (Inr r, w')"
  shows "w_db w' = w_db w \<and> first_open (w_db w) plant (e_now E) day n r"
  using assms
proof (induction n arbitrary: day w)
  case 0
  then show ?case by (simp add: io_simps first_open_def)
next
  case (Suc n)
  then obtain b w1 where b: "all_cutoffs_passed E plant day (e_now E) w = (Inr b, w1)"
    "(if \<not> b then ret day else next_orderable_day E plant n (day + 1)) w1 = (Inr r, w')" by (auto simp: io_simps)
  note o = all_cutoffs_passed_ok [OF b(1)]
  show ?case
  proof (cases b)
    case True
    with b(2) Suc.IH [of "day + 1" w1] o show ?thesis by (simp add: first_open_Suc)
  next
    case False
    with b(2) o show ?thesis by (simp add: io_simps first_open_def)
  qed
qed

text \<open>The user's latest order of a day and plant.\<close>

definition latest_order :: "db \<Rightarrow> uuid \<Rightarrow> date \<Rightarrow> string \<Rightarrow> order_row option" where
  "latest_order d u day plant =
     (case sort_key (\<lambda>x. - o_created_at x) (filter (\<lambda>x. o_user x = u \<and> o_date x = day \<and> o_plant x = plant) (orders d)) of
       [] \<Rightarrow> None | x # _ \<Rightarrow> Some x)"

lemma newest:
  assumes "sort_key (\<lambda>x. - f x) ys = x # zs"
  shows "x \<in> set ys \<and> (\<forall>y\<in>set ys. f y \<le> (f x :: int))"
proof -
  have "set ys = set (x # zs)" by (metis assms set_sort)
  moreover have "sorted (map (\<lambda>x. - f x) (x # zs))" by (metis assms sorted_sort_key)
  ultimately show ?thesis by auto
qed

lemma latest_order_Some:
  assumes "latest_order d u day plant = Some x"
  shows "x \<in> set (orders d) \<and> o_user x = u \<and> o_date x = day \<and> o_plant x = plant
    \<and> (\<forall>y\<in>set (orders d). o_user y = u \<longrightarrow> o_date y = day \<longrightarrow> o_plant y = plant \<longrightarrow> o_created_at y \<le> o_created_at x)"
proof -
  from assms obtain zs where
    "sort_key (\<lambda>x. - o_created_at x) (filter (\<lambda>x. o_user x = u \<and> o_date x = day \<and> o_plant x = plant) (orders d)) = x # zs"
    by (auto simp: latest_order_def split: list.splits)
  from newest [OF this] show ?thesis by simp
qed

lemma order_by_user_date_ok:
  assumes "order_by_user_date E u day plant w = (Inr r, w')"
  shows "r = latest_order (w_db w) u day plant" "w_db w' = w_db w"
  using assms by (auto simp: order_by_user_date_def latest_order_def io_simps)

lemma build_home_state_ok:
  assumes "build_home_state E u plant day w = (Inr h, w')"
  shows "h = \<lparr>hs_day = date_text day, hs_ordered = (latest_order (w_db w) u day plant \<noteq> None),
    hs_summary = map_option summary_from_row (latest_order (w_db w) u day plant)\<rparr>" "w_db w' = w_db w"
proof -
  from assms obtain r where "order_by_user_date E u day plant w = (Inr r, w')"
    and "h = \<lparr>hs_day = date_text day, hs_ordered = (map_option summary_from_row r \<noteq> None), hs_summary = map_option summary_from_row r\<rparr>"
    by (auto simp: build_home_state_def order_summary_for_def io_simps)
  with order_by_user_date_ok [OF this(1)]
  show "h = \<lparr>hs_day = date_text day, hs_ordered = (latest_order (w_db w) u day plant \<noteq> None),
    hs_summary = map_option summary_from_row (latest_order (w_db w) u day plant)\<rparr>" "w_db w' = w_db w"
    by (simp_all only: map_option_is_None not_False_eq_True)
qed

text \<open>Without a day in the request the home page is about today as long as the user's latest order for today is
  neither picked up nor missed; otherwise about the first day of the next fourteen, from today or from tomorrow when
  today's order is closed, on which some cutoff of the plant's menu is still open or nothing is supplied, or about the
  day after them; and it shows the user's latest order for that day.\<close>

theorem home_target_day:
  assumes "home_compute E u plant None w = (Inr h, w')"
  shows "w_db w' = w_db w \<and> (\<exists>day. hs_day h = date_text day
    \<and> hs_summary h = map_option summary_from_row (latest_order (w_db w) u day plant)
    \<and> (hs_ordered h \<longleftrightarrow> latest_order (w_db w) u day plant \<noteq> None)
    \<and> (case latest_order (w_db w) u (start_of_day E) plant of
         None \<Rightarrow> first_open (w_db w) plant (e_now E) (start_of_day E) 14 day
       | Some x \<Rightarrow> if o_status x \<in> {PickedUp, NoShow} then first_open (w_db w) plant (e_now E) (start_of_day E + 1) 14 day
           else day = start_of_day E))"
proof -
  let ?t = "start_of_day E"
  from assms obtain r w1 where 1: "order_by_user_date E u ?t plant w = (Inr r, w1)"
    and 2: "(case r of Some x \<Rightarrow>
         if \<not> closed_status (o_status x)
         then ret \<lparr>hs_day = date_text ?t, hs_ordered = True, hs_summary = Some (summary_from_row x)\<rparr>
         else bind (next_orderable_day E plant 14 (?t + 1)) (build_home_state E u plant)
     | None \<Rightarrow> bind (next_orderable_day E plant 14 ?t) (build_home_state E u plant)) w1 = (Inr h, w')"
    by (auto simp: home_compute_def bind_ok simp del: next_orderable_day.simps)
  note r = order_by_user_date_ok [OF 1]
  have later: ?thesis
    if b: "bind (next_orderable_day E plant 14 from) (build_home_state E u plant) w1 = (Inr h, w')"
      and c: "\<And>day. (case latest_order (w_db w) u ?t plant of
         None \<Rightarrow> first_open (w_db w) plant (e_now E) ?t 14 day
       | Some x \<Rightarrow> if o_status x \<in> {PickedUp, NoShow} then first_open (w_db w) plant (e_now E) (?t + 1) 14 day
           else day = ?t) = first_open (w_db w) plant (e_now E) from 14 day" for "from"
  proof -
    from b obtain day w2 where n: "next_orderable_day E plant 14 from w1 = (Inr day, w2)"
      and s: "build_home_state E u plant day w2 = (Inr h, w')" by (auto simp only: bind_ok)
    note n' = next_orderable_day_ok [OF n] and s' = build_home_state_ok [OF s]
    show ?thesis using n' s' r(2) by (intro conjI exI [of _ day]) (simp_all add: c)
  qed
  show ?thesis
  proof (cases r)
    case None
    with 2 r(1) show ?thesis by (intro later [of ?t]) simp_all
  next
    case (Some x)
    show ?thesis
    proof (cases "closed_status (o_status x)")
      case True
      then have "o_status x \<in> {PickedUp, NoShow}" by (simp add: closed_status_def)
      moreover have "latest_order (w_db w) u ?t plant = Some x" using r(1) Some by simp
      moreover have "bind (next_orderable_day E plant 14 (?t + 1)) (build_home_state E u plant) w1 = (Inr h, w')"
        using 2 Some True by simp
      ultimately show ?thesis by (intro later [of "?t + 1"]) (simp_all only: option.case if_True)
    next
      case False
      moreover have "latest_order (w_db w) u ?t plant = Some x" using r(1) Some by simp
      moreover have "h = \<lparr>hs_day = date_text ?t, hs_ordered = True, hs_summary = Some (summary_from_row x)\<rparr>" "w' = w1"
        using 2 Some False by (simp_all add: ret_ok)
      ultimately show ?thesis using r(2) by (intro conjI exI [of _ ?t]) (simp_all add: closed_status_def)
    qed
  qed
qed

theorem home_target_day_witness:
  "\<exists>h w'. home_compute env0 ''emp'' ''P1'' None world0 = (Inr h, w') \<and> hs_day h = ''2026-01-05'' \<and> \<not> hs_ordered h"
proof -
  have t: "start_of_day env0 = 20458" by (simp add: start_of_day_def env0_def utc_day_def day_ns_def hour_ns_def sec_ns_def)
  have first_look: "next_orderable_day E p 14 dy = bind (all_cutoffs_passed E p dy (e_now E)) (\<lambda>passed.
      if \<not> passed then ret dy else next_orderable_day E p 13 (dy + 1))" for E p dy
    using next_orderable_day.simps(2) [of E p 13 dy] by (simp del: next_orderable_day.simps)
  obtain r w' where run: "home_compute env0 ''emp'' ''P1'' None world0 = (r, w')" by fastforce
  moreover have "\<exists>h. fst (home_compute env0 ''emp'' ''P1'' None world0) = Inr h"
    by (simp add: home_compute_def t order_by_user_date_def first_look all_cutoffs_passed_def plant_supplies_def build_home_state_def
      order_summary_for_def run_simps scenario_defs del: next_orderable_day.simps)
  ultimately obtain h where r: "r = Inr h" by auto
  have none: "latest_order (w_db world0) ''emp'' dy ''P1'' = None" for dy
    by (simp add: latest_order_def scenario_defs)
  have "\<not> day_over (w_db world0) ''P1'' (e_now env0) 20458"
    by (simp add: day_over_def plant_supplies_def scenario_defs)
  then have "first_open (w_db world0) ''P1'' (e_now env0) 20458 14 day \<Longrightarrow> day = 20458" for day
    unfolding first_open_def by (cases "day = 20458") auto
  moreover have "date_text 20458 = ''2026-01-05''" by code_simp
  moreover obtain day where "hs_day h = date_text day" "hs_ordered h \<longleftrightarrow> latest_order (w_db world0) ''emp'' day ''P1'' \<noteq> None"
      "first_open (w_db world0) ''P1'' (e_now env0) 20458 14 day"
    using home_target_day [OF run [unfolded r]] unfolding t none [of 20458] option.case by blast
  ultimately show ?thesis using run r none by metis
qed

text \<open>A cancelled order still makes the page about today, as ordered, whatever cutoffs have passed.\<close>

theorem cancelled_order_shown:
  assumes "home_compute E u plant None w = (Inr h, w')"
    and "latest_order (w_db w) u (start_of_day E) plant = Some x" "o_status x = Cancelled"
  shows "hs_day h = date_text (start_of_day E) \<and> hs_ordered h"
  using assms
  by (auto simp: home_compute_def bind_ok ret_ok closed_status_def simp del: next_orderable_day.simps dest!: order_by_user_date_ok(1))

section \<open>Recommendations\<close>

text \<open>
  What a recommendation is: an item that colleagues of the plant got that day and that is not among
  the user's latest favourites, with the units they got, weighted by the share of the vendor in the
  user's own lines of the last thirty days.
\<close>

definition got_units :: "db \<Rightarrow> string \<Rightarrow> date \<Rightarrow> uuid \<Rightarrow> int" where
  "got_units d plant day i = sql_sum (\<lambda>it. i_menu_item it = i) i_qty (popular_items d plant day)"

definition own_vendors :: "db \<Rightarrow> date \<Rightarrow> uuid \<Rightarrow> uuid list" where
  "own_vendors d today u = [m_vendor m. x \<leftarrow> orders d, o_user x = u \<and> today - 30 \<le> o_date x \<and> materialised (o_status x),
     it \<leftarrow> order_items d, i_order it = o_id x, m \<leftarrow> menu_items d, m_id m = i_menu_item it]"

definition vendor_share :: "db \<Rightarrow> date \<Rightarrow> uuid \<Rightarrow> uuid \<Rightarrow> rat" where
  "vendor_share d today u v = of_nat (count_list (own_vendors d today u) v) / of_nat (length (own_vendors d today u))"

definition fresh_favorites :: "db \<Rightarrow> uuid \<Rightarrow> date \<Rightarrow> string \<Rightarrow> uuid list" where
  "fresh_favorites d u day plant = map fc_item (take 50 (favorite_chips d u day plant None))"

definition recommended :: "db \<Rightarrow> date \<Rightarrow> rat \<Rightarrow> uuid \<Rightarrow> string \<Rightarrow> date \<Rightarrow> recommend_chip \<Rightarrow> bool" where
  "recommended d today alpha u plant day c \<longleftrightarrow> (\<exists>m\<in>set (menu_items d). m_archived_at m = None
     \<and> m_id m \<in> i_menu_item ` set (popular_items d plant day) \<and> m_id m \<notin> set (fresh_favorites d u day plant)
     \<and> c = \<lparr>rc_item = m_id m, rc_name = m_name m, rc_price = m_price m, rc_vendor = m_vendor m,
         rc_score = of_int (got_units d plant day (m_id m)) * (1 + alpha * vendor_share d today u (m_vendor m)),
         rc_reason = (if 0 < vendor_share d today u (m_vendor m) then reason_habit else reason_popular)\<rparr>)"

definition ranked :: "recommend_chip list \<Rightarrow> bool" where
  "ranked cs \<longleftrightarrow> sorted_wrt (\<lambda>a b. rc_score b < rc_score a \<or> rc_score b = rc_score a \<and> rc_item a \<le> rc_item b) cs"

lemma of_nat_sum_map: "of_nat (sum_list (map f xs)) = sum_list (map (\<lambda>x. of_nat (f x)) xs)"
  by (induction xs) auto

lemma affinity_share:
  "affinity_of (normalise_affinity (map (\<lambda>v. (v, of_nat (length (filter (\<lambda>u. u = v) vs)))) (remdups vs))) v
     = of_nat (count_list vs v) / of_nat (length vs)"
proof (cases "vs = []")
  case False
  have c: "length (filter (\<lambda>u. u = v) vs) = count_list vs v" for v
    by (simp add: count_list_eq_length_filter) (metis (mono_tags, lifting) filter_cong)
  have "sum_list (map (count_list vs) (remdups vs)) = sum (count_list vs) (set vs)"
    by (simp add: sum_list_distinct_conv_sum_set)
  also have "\<dots> = length vs" by (simp add: sum_count_set)
  finally have "of_nat (sum_list (map (count_list vs) (remdups vs))) = (of_nat (length vs) :: rat)" by simp
  then have t: "sum_list (map (\<lambda>x. of_nat (count_list vs x)) (remdups vs)) = (of_nat (length vs) :: rat)"
    by (simp only: of_nat_sum_map)
  have "map_of (map (\<lambda>v. (v, of_nat (count_list vs v) / of_nat (length vs))) (remdups vs)) v
      = (if v \<in> set vs then Some (of_nat (count_list vs v) / of_nat (length vs) :: rat) else None)"
    by (simp add: map_of_map_restrict restrict_map_def)
  with False t show ?thesis
    by (simp add: affinity_of_def normalise_affinity_def c comp_def Let_def count_notin)
qed (simp add: affinity_of_def normalise_affinity_def)

text \<open>The two sorts by item and then by falling score give the order of the comparison.\<close>

lemma ranked_sort: "ranked (sort_key (\<lambda>c. - rc_score c) (sort_key rc_item cs))"
proof -
  let ?xs = "sort_key rc_item cs" and ?f = "\<lambda>c. - rc_score c"
  have s: "sorted (map ?f (sort_key ?f ?xs))" by (rule sorted_sort_key)
  have st: "sorted_wrt (\<lambda>a b. rc_item a \<le> rc_item b) (filter (\<lambda>c. ?f c = k) (sort_key ?f ?xs))" for k
  proof -
    have "sorted_wrt (\<lambda>a b. rc_item a \<le> rc_item b) ?xs" using sorted_sort_key [of rc_item cs] by (simp add: sorted_map)
    then show ?thesis by (simp add: sort_key_stable sorted_wrt_filter)
  qed
  have "sorted (map ?f ys) \<Longrightarrow> (\<And>k. sorted_wrt (\<lambda>a b. rc_item a \<le> rc_item b) (filter (\<lambda>c. ?f c = k) ys)) \<Longrightarrow> ranked ys" for ys
  proof (induction ys)
    case (Cons y ys)
    have "ranked ys"
    proof (rule Cons.IH)
      show "sorted (map ?f ys)" using Cons.prems(1) by simp
      show "sorted_wrt (\<lambda>a b. rc_item a \<le> rc_item b) (filter (\<lambda>c. ?f c = k) ys)" for k
        using Cons.prems(2) [of k] by (auto split: if_splits)
    qed
    moreover have "rc_score z < rc_score y \<or> rc_score z = rc_score y \<and> rc_item y \<le> rc_item z" if "z \<in> set ys" for z
      using Cons.prems(1) Cons.prems(2) [of "?f y"] that by force
    ultimately show ?case by (simp add: ranked_def)
  qed (simp add: ranked_def)
  with s st show ?thesis by blast
qed

definition home_ranking :: "db \<Rightarrow> date \<Rightarrow> rat \<Rightarrow> uuid \<Rightarrow> string \<Rightarrow> date \<Rightarrow> recommend_chip list" where
  "home_ranking d today alpha u plant day = (let ids = remdups (map i_menu_item (popular_items d plant day)); vs = own_vendors d today u in
     score \<lparr>ri_popularity = map (\<lambda>i. (i, of_int (got_units d plant day i))) ids,
       ri_affinity = normalise_affinity (map (\<lambda>v. (v, of_nat (length (filter (\<lambda>u. u = v) vs)))) (remdups vs)),
       ri_items = map (\<lambda>m. \<lparr>mi_id = m_id m, mi_name = m_name m, mi_price = m_price m, mi_vendor = m_vendor m\<rparr>)
         (filter (\<lambda>m. m_id m \<in> set ids \<and> m_archived_at m = None) (menu_items d)),
       ri_favorites = fresh_favorites d u day plant, ri_alpha = alpha, ri_limit = 0\<rparr>)"

lemma recommend_ranking_ok:
  assumes "recommend_ranking E cfg u plant day w = (Inr cs, w')"
  shows "w_db w' = w_db w" "cs = home_ranking (w_db w) (utc_day (e_dbnow E)) (hc_alpha cfg) u plant day"
proof -
  let ?d = "w_db w"
  let ?ids = "remdups (map i_menu_item (popular_items ?d plant day))"
  show "w_db w' = w_db w" by (rule roD [OF ro_home(5) assms])
  from assms obtain pop w1 where p: "plant_popularity E plant day w = (Inr pop, w1)"
    and r: "(if pop = [] then ret [] else bind (user_vendor_affinity E u) (\<lambda>raw.
       bind (meta_by_ids E (map_order (e_pick E) (map fst pop))) (\<lambda>items.
       bind (favorite_id_set E u day plant) (\<lambda>favs.
       ret (score \<lparr>ri_popularity = pop, ri_affinity = normalise_affinity raw,
         ri_items = items, ri_favorites = favs, ri_alpha = hc_alpha cfg, ri_limit = 0\<rparr>))))) w1 = (Inr cs, w')"
    by (auto simp only: recommend_ranking_def bind_ok)
  from p have 1: "w_db w1 = ?d" and pop: "pop = map (\<lambda>i. (i, of_int (got_units ?d plant day i))) ?ids"
    by (auto simp: plant_popularity_def query_ok Let_def got_units_def)
  have ids: "map fst pop = ?ids" by (simp add: pop comp_def)
  show "cs = home_ranking ?d (utc_day (e_dbnow E)) (hc_alpha cfg) u plant day"
  proof (cases "pop = []")
    case True
    with r pop show ?thesis by (simp add: home_ranking_def Let_def ret_ok score_def)
  next
    case False
    then obtain raw w2 items w3 favs where a: "user_vendor_affinity E u w1 = (Inr raw, w2)"
      and m: "meta_by_ids E (map_order (e_pick E) ?ids) w2 = (Inr items, w3)"
      and f: "favorite_id_set E u day plant w3 = (Inr favs, w')"
      and cs: "cs = score \<lparr>ri_popularity = pop, ri_affinity = normalise_affinity raw, ri_items = items, ri_favorites = favs,
         ri_alpha = hc_alpha cfg, ri_limit = 0\<rparr>"
      using r by (auto simp only: if_False bind_ok ret_ok ids)
    have w: "w_db w2 = ?d" "w_db w3 = ?d" using roD [OF ro_home_reads(5) a] roD [OF ro_home_reads(3) m] 1 by simp_all
    have o: "set (map_order (e_pick E) ?ids) = set ?ids" by (metis mset_map_order mset_eq_setD)
    then have "map_order (e_pick E) ?ids \<noteq> []" using False ids by (metis map_is_Nil_conv set_empty)
    then have "items = map (\<lambda>m. \<lparr>mi_id = m_id m, mi_name = m_name m, mi_price = m_price m, mi_vendor = m_vendor m\<rparr>)
         (filter (\<lambda>m. m_id m \<in> set ?ids \<and> m_archived_at m = None) (menu_items ?d))"
      using m w unfolding meta_by_ids_def by (simp add: query_ok o)
    moreover have "raw = map (\<lambda>v. (v, of_nat (length (filter (\<lambda>x. x = v) (own_vendors ?d (utc_day (e_dbnow E)) u)))))
         (remdups (own_vendors ?d (utc_day (e_dbnow E)) u))"
      using a unfolding user_vendor_affinity_def query_ok 1 Let_def own_vendors_def by (elim conjE) (simp only: sum.inject)
    moreover have "favs = fresh_favorites ?d u day plant"
      using f w by (auto simp: favorite_id_set_def favorite_list_by_user_def favorite_page_def bind_ok ret_ok query_ok
          clamp_limit_def Let_def fresh_favorites_def)
    ultimately show ?thesis by (simp only: cs pop home_ranking_def Let_def)
  qed
qed

lemma case_if: "(case (if b then Some x else None) of None \<Rightarrow> None | Some y \<Rightarrow> g y) = (if b then g x else None)"
  by simp

lemma Bex_image_filter: "(\<exists>x\<in>h ` {m \<in> A. P m}. Q x) \<longleftrightarrow> (\<exists>m\<in>A. P m \<and> Q (h m))"
  by auto

lemma some_if: "(if a then None else if b then Some r else None) = Some c \<longleftrightarrow> b \<and> \<not> a \<and> c = r"
  by auto

lemma map_filter_alt: "List.map_filter f xs = map (the \<circ> f) (filter (\<lambda>x. f x \<noteq> None) xs)"
  by (simp add: List.map_filter_def)

lemma home_ranking_facts:
  assumes "distinct (map m_id (menu_items d))"
  shows "distinct (map rc_item (home_ranking d today alpha u plant day))" "ranked (home_ranking d today alpha u plant day)"
    "c \<in> set (home_ranking d today alpha u plant day) \<longleftrightarrow> recommended d today alpha u plant day c"
proof -
  let ?ids = "remdups (map i_menu_item (popular_items d plant day))" and ?vs = "own_vendors d today u"
  define inp where "inp = \<lparr>ri_popularity = map (\<lambda>i. (i, of_int (got_units d plant day i))) ?ids,
       ri_affinity = normalise_affinity (map (\<lambda>v. (v, of_nat (length (filter (\<lambda>u. u = v) ?vs)))) (remdups ?vs)),
       ri_items = map (\<lambda>m. \<lparr>mi_id = m_id m, mi_name = m_name m, mi_price = m_price m, mi_vendor = m_vendor m\<rparr>)
         (filter (\<lambda>m. m_id m \<in> set ?ids \<and> m_archived_at m = None) (menu_items d)),
       ri_favorites = fresh_favorites d u day plant, ri_alpha = alpha, ri_limit = 0\<rparr>"
  let ?cs = "List.map_filter (score_item inp) (ri_items inp)"
  have r: "home_ranking d today alpha u plant day = sort_key (\<lambda>c. - rc_score c) (sort_key rc_item ?cs)"
    by (simp add: home_ranking_def score_def inp_def Let_def)
  show "ranked (home_ranking d today alpha u plant day)" unfolding r by (rule ranked_sort)
  have id: "score_item inp x = Some c \<Longrightarrow> rc_item c = mi_id x" for x c
    by (auto simp: score_item_def Let_def split: if_splits option.splits)
  have "map rc_item ?cs = map mi_id (filter (\<lambda>x. score_item inp x \<noteq> None) (ri_items inp))"
    unfolding map_filter_alt map_map
  proof (rule map_cong [OF refl])
    fix x assume "x \<in> set (filter (\<lambda>x. score_item inp x \<noteq> None) (ri_items inp))"
    then obtain c where c: "score_item inp x = Some c" by auto
    show "(rc_item \<circ> (the \<circ> score_item inp)) x = mi_id x" using id [OF c] by (simp add: c)
  qed
  moreover have "distinct (map mi_id (filter P (ri_items inp)))" for P
    using assms unfolding inp_def by (simp add: comp_def filter_map distinct_map_filter)
  ultimately have "distinct (map rc_item ?cs)" by simp
  moreover have "mset (home_ranking d today alpha u plant day) = mset ?cs" by (simp add: r)
  ultimately show "distinct (map rc_item (home_ranking d today alpha u plant day))"
    by (metis mset_eq_imp_distinct_iff mset_map)
  have pop: "map_of (ri_popularity inp) i = (if i \<in> i_menu_item ` set (popular_items d plant day)
      then Some (of_int (got_units d plant day i)) else None)" for i
    by (simp add: inp_def map_of_map_restrict restrict_map_def)
  have aff: "affinity_of (ri_affinity inp) v = vendor_share d today u v" for v
    by (simp add: inp_def affinity_share vendor_share_def)
  have one: "score_item inp \<lparr>mi_id = m_id m, mi_name = m_name m, mi_price = m_price m, mi_vendor = m_vendor m\<rparr> = Some c \<longleftrightarrow>
      m_id m \<in> i_menu_item ` set (popular_items d plant day) \<and> m_id m \<notin> set (fresh_favorites d u day plant)
     \<and> c = \<lparr>rc_item = m_id m, rc_name = m_name m, rc_price = m_price m, rc_vendor = m_vendor m,
         rc_score = of_int (got_units d plant day (m_id m)) * (1 + alpha * vendor_share d today u (m_vendor m)),
         rc_reason = (if 0 < vendor_share d today u (m_vendor m) then reason_habit else reason_popular)\<rparr>" for m
  proof -
    have f: "ri_favorites inp = fresh_favorites d u day plant" "ri_alpha inp = alpha" by (simp_all add: inp_def)
    have "score_item inp \<lparr>mi_id = m_id m, mi_name = m_name m, mi_price = m_price m, mi_vendor = m_vendor m\<rparr> =
      (if m_id m \<in> set (fresh_favorites d u day plant) then None
       else if m_id m \<in> i_menu_item ` set (popular_items d plant day)
       then Some \<lparr>rc_item = m_id m, rc_name = m_name m, rc_price = m_price m, rc_vendor = m_vendor m,
         rc_score = of_int (got_units d plant day (m_id m)) * (1 + alpha * vendor_share d today u (m_vendor m)),
         rc_reason = (if 0 < vendor_share d today u (m_vendor m) then reason_habit else reason_popular)\<rparr> else None)"
      unfolding score_item_def item_meta.select_convs f pop aff Let_def
      by (rule if_cong [OF refl refl], rule case_if) 

    then show ?thesis by (simp only: some_if)
  qed
  have "c \<in> set ?cs \<longleftrightarrow> (\<exists>x\<in>set (ri_items inp). score_item inp x = Some c)" by (force simp: List.map_filter_def)
  also have "\<dots> \<longleftrightarrow> (\<exists>m\<in>set (menu_items d). (m_id m \<in> i_menu_item ` set (popular_items d plant day) \<and> m_archived_at m = None)
      \<and> score_item inp \<lparr>mi_id = m_id m, mi_name = m_name m, mi_price = m_price m, mi_vendor = m_vendor m\<rparr> = Some c)"
  proof -
    have "set (ri_items inp) = (\<lambda>m. \<lparr>mi_id = m_id m, mi_name = m_name m, mi_price = m_price m, mi_vendor = m_vendor m\<rparr>)
        ` {m \<in> set (menu_items d). m_id m \<in> i_menu_item ` set (popular_items d plant day) \<and> m_archived_at m = None}"
      by (simp add: inp_def)
    then show ?thesis by (simp only: Bex_image_filter)
  qed
  also have "\<dots> \<longleftrightarrow> recommended d today alpha u plant day c" unfolding one recommended_def by blast
  finally show "c \<in> set (home_ranking d today alpha u plant day) \<longleftrightarrow> recommended d today alpha u plant day c"
    by (simp add: r)
qed

text \<open>Following the offsets of the pages from the first one to the last.\<close>

fun follow_pages ::
    "env list \<Rightarrow> home_config \<Rightarrow> uuid \<Rightarrow> string \<Rightarrow> date \<Rightarrow> int \<Rightarrow> int \<Rightarrow> world \<Rightarrow> (recommend_chip list \<times> world) option" where
  "follow_pages [] cfg u plant day offset limit w = None"
| "follow_pages (E # Es) cfg u plant day offset limit w =
     (case recommend_chips E cfg u plant day offset limit w of
        (Inl e, w1) \<Rightarrow> None
      | (Inr (page, nxt), w1) \<Rightarrow>
          if nxt = - 1 then Some (page, w1)
          else map_option (\<lambda>(rest, w2). (page @ rest, w2)) (follow_pages Es cfg u plant day nxt limit w1))"

lemma recommend_page_split:
  assumes "recommend_page offset limit cs = (page, nxt)" "0 \<le> offset" "0 < limit"
  shows "nxt = - 1 \<Longrightarrow> page = drop (nat offset) cs"
    and "nxt \<noteq> - 1 \<Longrightarrow> 0 \<le> nxt \<and> page @ drop (nat nxt) cs = drop (nat offset) cs"
proof -
  let ?n = "int (length cs)" and ?stop = "min (offset + limit) (int (length cs))"
  have p: "page = take (nat (?stop - offset)) (drop (nat offset) cs) \<and> nxt = (if ?stop < ?n then ?stop else - 1)" if "offset < ?n"
    using assms(1,2) that by (auto simp: recommend_page_def Let_def)
  show "nxt = - 1 \<Longrightarrow> page = drop (nat offset) cs"
  proof (cases "offset < ?n")
    case True
    moreover assume "nxt = - 1"
    ultimately have "\<not> ?stop < ?n" using p assms(2,3) by (auto split: if_splits)
    then have "?stop = ?n" by simp
    with p True assms(2) show ?thesis by (simp add: nat_diff_distrib)
  next
    case False
    with assms show ?thesis by (auto simp: recommend_page_def Let_def)
  qed
  assume n: "nxt \<noteq> - 1"
  have lt: "offset < ?n"
  proof (rule ccontr)
    assume "\<not> offset < ?n"
    with assms n show False by (simp add: recommend_page_def Let_def)
  qed
  with p n have s: "?stop < ?n" "nxt = ?stop" by (auto split: if_splits)
  then have nxt: "nxt = offset + limit" by simp
  then have "nat nxt = nat offset + nat limit" using assms(2,3) by (simp add: nat_add_distrib)
  moreover have "page = take (nat limit) (drop (nat offset) cs)" using p lt s nxt by simp
  ultimately show "0 \<le> nxt \<and> page @ drop (nat nxt) cs = drop (nat offset) cs"
    using nxt assms(2,3) by (simp add: add.commute flip: drop_drop)
qed

lemma follow_pages_ok:
  assumes "follow_pages Es cfg u plant day offset limit w = Some (cs, w')" "0 \<le> offset"
    and "\<forall>E\<in>set Es. utc_day (e_dbnow E) = today"
  shows "w_db w' = w_db w \<and> cs = drop (nat offset) (home_ranking (w_db w) today (hc_alpha cfg) u plant day)"
  using assms
proof (induction Es arbitrary: offset w cs)
  case (Cons E Es)
  let ?all = "home_ranking (w_db w) today (hc_alpha cfg) u plant day"
  let ?lim = "limit_or limit (hc_recommend cfg)"
  obtain x w1 where r: "recommend_chips E cfg u plant day offset limit w = (x, w1)" by fastforce
  then obtain page nxt where x: "x = Inr (page, nxt)" using Cons.prems(1) by (cases x) auto
  with r obtain k w2 where k: "recommend_ranking E cfg u plant day w = (Inr k, w1)" "recommend_page offset ?lim k = (page, nxt)"
    by (auto simp: recommend_chips_def bind_ok ret_ok)
  note K = recommend_ranking_ok [OF k(1)]
  have l: "0 < ?lim" by (simp add: limit_or_def)
  have all: "k = ?all" using K(2) Cons.prems(3) by simp
  note S = recommend_page_split [OF k(2) [unfolded all] Cons.prems(2) l]
  show ?case
  proof (cases "nxt = - 1")
    case True
    with Cons.prems(1) r x K(1) S(1) show ?thesis by simp
  next
    case False
    with Cons.prems(1) r x obtain rest where f: "follow_pages Es cfg u plant day nxt limit w1 = Some (rest, w')" "cs = page @ rest"
      by (auto split: option.splits)
    from Cons.IH [OF f(1)] S(2) [OF False] Cons.prems(3) K(1) have "w_db w' = w_db w" "rest = drop (nat nxt) ?all" by simp_all
    with S(2) [OF False] f(2) show ?thesis by simp
  qed
qed simp

text \<open>Following the pages of recommendations to the last one shows each recommendation exactly once: the items that
  colleagues of the plant got that day, without the user's favourites, at the score the tables give them, by falling
  score and then by id; and reading them changes nothing.\<close>

theorem recommendations_exact:
  assumes "follow_pages Es cfg u plant day 0 limit w = Some (cs, w')" "\<forall>E\<in>set Es. utc_day (e_dbnow E) = today"
    and "distinct (map m_id (menu_items (w_db w)))"
  shows "(\<forall>c. c \<in> set cs \<longleftrightarrow> recommended (w_db w) today (hc_alpha cfg) u plant day c)
    \<and> distinct (map rc_item cs) \<and> ranked cs \<and> w_db w' = w_db w"
  using follow_pages_ok [OF assms(1) _ assms(2)] home_ranking_facts [OF assms(3)] by simp

definition home_db1 :: db where
  "home_db1 = db0\<lparr>orders := [row1 PickedUp None None], order_items := items1\<rparr>"

definition home_cfg0 :: home_config where
  "home_cfg0 = \<lparr>hc_alpha = 1, hc_reorder = 5, hc_favorite = 5, hc_recommend = 5, hc_names = True\<rparr>"

lemma home_ranking_length: "length (home_ranking d today alpha u plant day) \<le> length (menu_items d)"
  by (simp add: home_ranking_def score_def Let_def map_filter_alt)

lemma ranking_answers: "e_fault E = (\<lambda>_. None) \<Longrightarrow> \<exists>cs w'. recommend_ranking E cfg u plant day w = (Inr cs, w')"
  by (auto simp: recommend_ranking_def plant_popularity_def user_vendor_affinity_def meta_by_ids_def favorite_id_set_def
      favorite_list_by_user_def run_simps split: prod.splits)

lemma env0_answers: "e_fault env0 = (\<lambda>_. None)"
  by (simp add: env0_def)

theorem recommendations_exact_witness:
  "\<exists>cs w'. follow_pages [env0] home_cfg0 ''emp'' ''P1'' d0 0 5 (world0\<lparr>w_db := home_db1\<rparr>) = Some (cs, w')
     \<and> (\<exists>c\<in>set cs. rc_item c = ''m1'' \<and> rc_score c = 4) \<and> w_db w' = home_db1"
proof -
  let ?w = "world0\<lparr>w_db := home_db1\<rparr>"
  obtain cs w' where k: "recommend_ranking env0 home_cfg0 ''emp'' ''P1'' d0 ?w = (Inr cs, w')"
    using ranking_answers [of env0] by (metis env0_answers)
  have "length (menu_items home_db1) = 2" by (simp add: home_db1_def db0_def)
  with recommend_ranking_ok(2) [OF k] home_ranking_length [of home_db1 "utc_day (e_dbnow env0)" "hc_alpha home_cfg0" "''emp''" "''P1''" d0]
  have "length cs \<le> 2" by simp
  then have "recommend_page 0 5 cs = (cs, - 1)" by (auto simp: recommend_page_def Let_def)
  then have run: "follow_pages [env0] home_cfg0 ''emp'' ''P1'' d0 0 5 ?w = Some (cs, w')"
    using k by (simp add: recommend_chips_def limit_or_def run_simps)
  have t: "\<forall>E\<in>set [env0]. utc_day (e_dbnow E) = 20458"
    by (simp add: env0_def utc_day_def day_ns_def hour_ns_def sec_ns_def)
  have d: "distinct (map m_id (menu_items (w_db ?w)))" by (simp add: home_db1_def db0_def menu0_def)
  note R = recommendations_exact [OF run t d]
  have pop: "popular_items home_db1 ''P1'' d0 = items1"
    by (simp add: popular_items_def home_db1_def scenario_defs row1_def items1_def materialised_def)
  have "own_vendors home_db1 20458 ''emp'' = [''v1'', ''v1'']"
    by (simp add: own_vendors_def home_db1_def scenario_defs row1_def items1_def materialised_def)
  then have "vendor_share home_db1 20458 ''emp'' ''v1'' = 1" by (simp add: vendor_share_def)
  moreover have "got_units home_db1 ''P1'' d0 ''m1'' = 2" by (simp add: got_units_def pop items1_def)
  moreover have "fresh_favorites home_db1 ''emp'' d0 ''P1'' = []"
    by (simp add: fresh_favorites_def favorite_chips_def home_db1_def db0_def empty_db_def)
  moreover have "menu0 ''m1'' 100 \<in> set (menu_items home_db1)" by (simp add: home_db1_def db0_def)
  ultimately have "recommended home_db1 20458 1 ''emp'' ''P1'' d0 \<lparr>rc_item = ''m1'', rc_name = ''m1'', rc_price = 100,
      rc_vendor = ''v1'', rc_score = 4, rc_reason = reason_habit\<rparr>" (is "recommended _ _ _ _ _ _ ?c")
    unfolding recommended_def by (intro exI conjI bexI [of _ "menu0 ''m1'' 100"]) (simp_all add: menu0_def pop items1_def)
  then have "?c \<in> set cs" using R by (simp add: home_cfg0_def)
  then have "\<exists>c\<in>set cs. rc_item c = ''m1'' \<and> rc_score c = 4" by (rule bexI [rotated]) simp
  then show ?thesis using run R by simp
qed

end
