(* ===== verification/Menu_Props.thy ===== *)
theory Menu_Props
  imports Menu Scenario
begin

text \<open>
  What the menu guarantees: the listing shows employees exactly what they can be offered, the calls
  of a merchant stay within the items and images of its own vendor, and an edited item reads back
  as it was written.
\<close>

section \<open>The listing\<close>

text \<open>Joins with tables that have at most one matching row.\<close>

lemma join_once:
  assumes "distinct (map key ys)" "\<And>y. y \<in> set ys \<Longrightarrow> h y \<noteq> [] \<Longrightarrow> key y = k" "\<And>y. y \<in> set ys \<Longrightarrow> length (h y) \<le> 1"
  shows "length (concat (map h ys)) \<le> 1"
  using assms
proof (induction ys)
  case (Cons y ys)
  show ?case
  proof (cases "h y = []")
    case True
    then show ?thesis using Cons by simp
  next
    case False
    then have "k \<notin> key ` set ys" using Cons.prems(1,2) by (metis distinct.simps(2) list.set_map list.simps(9) list.set_intros(1))
    then have "h z = []" if "z \<in> set ys" for z using Cons.prems(2) [of z] that by force
    then have "concat (map h ys) = []" by simp
    then show ?thesis using Cons.prems(3) [of y] by (simp del: concat_eq_Nil_conv)
  qed
qed simp

lemma join_distinct:
  assumes "distinct (map key xs)" "\<And>x. x \<in> set xs \<Longrightarrow> length (g x) \<le> 1" "\<And>x r. x \<in> set xs \<Longrightarrow> r \<in> set (g x) \<Longrightarrow> k r = key x"
  shows "distinct (map k (concat (map g xs)))"
  using assms
proof (induction xs)
  case (Cons x xs)
  have "distinct (map k (g x))" using Cons.prems(2) [of x] by (cases "g x") auto
  moreover have "k r \<noteq> k r'" if "r \<in> set (g x)" "y \<in> set xs" "r' \<in> set (g y)" for r y r'
    using Cons.prems(1) Cons.prems(3) [of x r] Cons.prems(3) [of y r'] that by (auto simp: image_iff)
  ultimately show ?case using Cons by (auto 4 3)
qed simp

text \<open>The unique keys of the tables of the join.\<close>

definition listing_keys :: "db \<Rightarrow> bool" where
  "listing_keys d \<longleftrightarrow> distinct (map m_id (menu_items d)) \<and> distinct (map v_id (vendors d))
     \<and> distinct (map (\<lambda>p. (pm_vendor p, pm_plant p)) (plant_mappings d)) \<and> distinct (map (\<lambda>s. (s_item s, s_date s)) (supplies d))"

lemma menu_join_distinct:
  assumes "listing_keys d"
  shows "distinct (map (\<lambda>r. m_id (av_item r)) (menu_join d now plant day))"
proof -
  have sup: "length (concat (map (\<lambda>s. if s_item s = m_id m \<and> s_date s = day then
        if m_status m = ItemActive \<and> day \<le> utc_day now + v_preorder_days v
        then [\<lparr>av_item = m, av_vendor_name = v_name v, av_supply = s\<rparr>] else [] else []) (supplies d))) \<le> 1" for m v
    by (rule join_once [of "\<lambda>s. (s_item s, s_date s)" _ _ "(m_id m, day)"])
      (use assms in \<open>auto simp: listing_keys_def split: if_splits\<close>)
  have map: "length (concat (map (\<lambda>p. if pm_vendor p = v_id v \<and> pm_plant p = plant \<and> pm_active p then g p else [])
       (plant_mappings d))) \<le> 1" if "\<And>p. length (g p) \<le> 1" for v and g :: "plant_mapping \<Rightarrow> active_row list"
    by (rule join_once [of "\<lambda>p. (pm_vendor p, pm_plant p)" _ _ "(v_id v, plant)"])
      (use assms that in \<open>auto simp: listing_keys_def split: if_splits\<close>)
  have ven: "length (concat (map (\<lambda>v. if v_id v = m_vendor m \<and> v_status v = VApproved then h v else []) (vendors d))) \<le> 1"
    if "\<And>v. length (h v) \<le> 1" for m and h :: "vendor \<Rightarrow> active_row list"
    by (rule join_once [of v_id _ _ "m_vendor m"]) (use assms that in \<open>auto simp: listing_keys_def split: if_splits\<close>)
  show ?thesis
    unfolding menu_join_def
  proof (rule join_distinct [where key = m_id])
    show "distinct (map m_id (menu_items d))" using assms by (simp add: listing_keys_def)
  qed (rule ven, rule map, rule sup, auto split: if_splits)
qed

lemma menu_order_mset: "mset (menu_order srt rs) = mset rs"
  by (simp add: menu_order_def Let_def)

lemma menu_order_set [simp]: "set (menu_order srt rs) = set rs"
  using menu_order_mset mset_eq_setD by blast

lemma images_of_item: "map im_uri (filter (\<lambda>x. im_item x = i) (sort_key im_item (image_order (filter (\<lambda>x. im_item x \<in> S) xs))))
    = (if i \<in> S then map im_uri (image_order (filter (\<lambda>x. im_item x = i) xs)) else [])"
proof -
  have "filter (\<lambda>x. im_item x = i) (filter (\<lambda>x. im_item x \<in> S) xs) = (if i \<in> S then filter (\<lambda>x. im_item x = i) xs else [])"
    by (induction xs) auto
  then show ?thesis by (simp add: sort_key_stable image_order_def filter_sort)
qed

text \<open>
  What the listing is for: an active item of an approved vendor that serves the plant, with a
  supply on the day and the day within the vendor's preorder window, as the filter asks for it;
  shown with its images in order, and marked sold out when not even one unit can be ordered.
  A query without the wildcards of \<open>LIKE\<close> asks for its text in the name or the description, whatever
  the case; one with wildcards is matched by the database as a pattern.
\<close>

definition wildcards :: "char set" where
  "wildcards = {CHR ''%'', CHR ''_'', CHR 0x5C}"

definition mentions :: "string \<Rightarrow> string \<Rightarrow> bool" where
  "mentions q s \<longleftrightarrow> (if set q \<inter> wildcards = {} then \<exists>a b. to_lower s = a @ to_lower q @ b else ilike_contains q s)"

definition asked_for :: "menu_filter \<Rightarrow> menu_item \<Rightarrow> meal_supply \<Rightarrow> bool" where
  "asked_for f m s \<longleftrightarrow>
     (trim_space (ef_q f) \<noteq> [] \<longrightarrow> mentions (trim_space (ef_q f)) (m_name m) \<or> mentions (trim_space (ef_q f)) (m_desc m))
     \<and> (ef_tags f \<noteq> [] \<longrightarrow> set (ef_tags f) \<inter> set (m_tags m) \<noteq> {})
     \<and> (\<forall>p. ef_min f = Some p \<longrightarrow> m_price m \<ge> p) \<and> (\<forall>p. ef_max f = Some p \<longrightarrow> m_price m \<le> p)
     \<and> (ef_in_stock f = Some True \<longrightarrow> s_remain s > 0 \<and> \<not> s_sold_out s)"

lemma like_percent: "like (CHR ''%'' # ps) s \<longleftrightarrow> (\<exists>a t. s = a @ t \<and> like ps t)"
proof (induction s)
  case (Cons c s)
  have "like (CHR ''%'' # ps) (c # s) \<longleftrightarrow> like ps (c # s) \<or> like (CHR ''%'' # ps) s" by (subst like.simps) simp
  also have "\<dots> \<longleftrightarrow> (\<exists>a t. c # s = a @ t \<and> like ps t)" unfolding Cons by (auto simp: Cons_eq_append_conv)
  finally show ?case .
qed (subst like.simps, simp)

lemma like_plain: "set q \<inter> wildcards = {} \<Longrightarrow> like (q @ ps) s \<longleftrightarrow> (\<exists>t. s = q @ t \<and> like ps t)"
proof (induction q arbitrary: s)
  case (Cons c q)
  then have c: "c \<noteq> CHR ''%''" "c \<noteq> CHR ''_''" "c \<noteq> CHR 0x5C" by (auto simp: wildcards_def)
  have "like (c # q @ ps) s \<longleftrightarrow> s \<noteq> [] \<and> hd s = c \<and> like (q @ ps) (tl s)" by (subst like.simps) (simp add: c)
  with Cons show ?case by (cases s) auto
qed simp

lemma lower_wildcards: "lower_char c \<in> wildcards \<longleftrightarrow> c \<in> wildcards"
proof -
  have eq: "x = y \<longleftrightarrow> of_char x = (of_char y :: nat)" for x y :: char by simp
  have w: "x \<in> wildcards \<longleftrightarrow> (of_char x :: nat) \<in> {37, 95, 92}" for x
    unfolding wildcards_def insert_iff empty_iff eq by simp
  show ?thesis by (simp add: w lower_char_def Let_def)
qed

lemma mentions_ilike: "ilike_contains q s \<longleftrightarrow> mentions q s"
proof (cases "set q \<inter> wildcards = {}")
  case True
  then have "set (to_lower q) \<inter> wildcards = {}" by (auto simp: to_lower_def lower_wildcards)
  then have "like (''%'' @ to_lower q @ ''%'') (to_lower s) \<longleftrightarrow> (\<exists>a t. to_lower s = a @ to_lower q @ t \<and> like ''%'' t)"
    by (simp add: like_percent like_plain) blast
  moreover have "like ''%'' t" for t by (auto simp: like_percent like.simps(1))
  ultimately show ?thesis using True by (simp add: ilike_contains_def mentions_def)
qed (simp add: mentions_def)

lemma filter_asks: "passes_filter f r \<longleftrightarrow> asked_for f (av_item r) (av_supply r)"
  by (auto simp: passes_filter_def asked_for_def mentions_ilike list_ex_iff split: option.splits)

definition offered :: "db \<Rightarrow> date \<Rightarrow> menu_filter \<Rightarrow> menu_item \<Rightarrow> vendor \<Rightarrow> meal_supply \<Rightarrow> bool" where
  "offered d today f m v s \<longleftrightarrow> m \<in> set (menu_items d) \<and> m_status m = ItemActive
     \<and> v \<in> set (vendors d) \<and> v_id v = m_vendor m \<and> v_status v = VApproved
     \<and> (\<exists>p\<in>set (plant_mappings d). pm_vendor p = v_id v \<and> pm_plant p = ef_plant f \<and> pm_active p)
     \<and> s \<in> set (supplies d) \<and> s_item s = m_id m \<and> s_date s = ef_day f \<and> ef_day f \<le> today + v_preorder_days v
     \<and> asked_for f m s"

text \<open>The five orders of the listing; any other text asks for the first. Ties are broken by the later keys.\<close>

definition then_by :: "('a \<Rightarrow> 'k::linorder) \<Rightarrow> ('a \<Rightarrow> 'a \<Rightarrow> bool) \<Rightarrow> 'a \<Rightarrow> 'a \<Rightarrow> bool" where
  "then_by k le a b \<longleftrightarrow> k a < k b \<or> k a = k b \<and> le a b"

definition listed_before :: "string \<Rightarrow> employee_item \<Rightarrow> employee_item \<Rightarrow> bool" where
  "listed_before srt =
     (if srt = ''name'' then then_by em_name (then_by em_vendor_name (\<lambda>_ _. True))
      else if srt = ''price_asc'' then then_by em_price (then_by em_vendor_name (then_by em_name (\<lambda>_ _. True)))
      else if srt = ''price_desc'' then then_by (\<lambda>e. - em_price e) (then_by em_vendor_name (then_by em_name (\<lambda>_ _. True)))
      else if srt = ''remain'' then then_by (\<lambda>e. - em_remain e) (then_by em_vendor_name (then_by em_name (\<lambda>_ _. True)))
      else then_by em_vendor_name (then_by em_name (\<lambda>_ _. True)))"

definition image_before :: "image \<Rightarrow> image \<Rightarrow> bool" where
  "image_before = then_by im_sort (then_by im_created_at (\<lambda>_ _. True))"

lemma insort_then_by:
  assumes "sorted_wrt (then_by k le) ys" "\<forall>y\<in>set ys. le x y"
  shows "sorted_wrt (then_by k le) (insort_key k x ys)"
  using assms
proof (induction ys)
  case (Cons y ys)
  show ?case
  proof (cases "k x \<le> k y")
    case True
    with Cons.prems show ?thesis by (auto simp: then_by_def)
  next
    case False
    with Cons show ?thesis by (auto simp: set_insort_key then_by_def)
  qed
qed simp

lemma sort_then_by: "sorted_wrt le xs \<Longrightarrow> sorted_wrt (then_by k le) (sort_key k xs)"
  by (induction xs) (auto intro: insort_then_by)

lemma sorted_any: "sorted_wrt (\<lambda>_ _. True) xs"
  by (induction xs) auto

lemmas sorted_by_keys = sort_then_by [OF sort_then_by [OF sorted_any]] sort_then_by [OF sort_then_by [OF sort_then_by [OF sorted_any]]]

lemma image_order_sorted: "sorted_wrt image_before (image_order xs)" "mset (image_order xs) = mset xs"
  by (simp_all add: image_before_def image_order_def sorted_by_keys)

definition shown_as :: "db \<Rightarrow> menu_item \<Rightarrow> vendor \<Rightarrow> meal_supply \<Rightarrow> employee_item" where
  "shown_as d m v s =
     \<lparr>em_id = m_id m, em_vendor = m_vendor m, em_vendor_name = v_name v, em_name = m_name m, em_desc = m_desc m,
      em_price = m_price m, em_tags = m_tags m,
      em_images = map im_uri (image_order (filter (\<lambda>x. im_item x = m_id m) (images d))),
      em_capacity = s_capacity s, em_remain = s_remain s, em_sold_out = (\<not> decrementable (skey s) 1 s),
      em_window = s_pickup_window s, em_eta = s_eta_label s\<rparr>"

lemma menu_join_mem:
  "r \<in> set (filter (passes_filter f) (menu_join d now (ef_plant f) (ef_day f))) \<longleftrightarrow>
     (\<exists>m v s. offered d (utc_day now) f m v s \<and> r = \<lparr>av_item = m, av_vendor_name = v_name v, av_supply = s\<rparr>)"
  unfolding menu_join_def offered_def filter_asks by (auto split: if_splits) blast+

lemma listing_runs:
  assumes "list_for_employee E f w = (Inr out, w')"
  shows "\<exists>rows. rows = menu_order (ef_sort f) (filter (passes_filter f) (menu_join (w_db w) (e_dbnow E) (ef_plant f) (ef_day f)))
     \<and> out = map (\<lambda>r. (employee_item_of [] r)\<lparr>em_images := map im_uri (image_order (filter (\<lambda>x. im_item x = m_id (av_item r)) (images (w_db w))))\<rparr>) rows"
proof -
  let ?rows = "menu_order (ef_sort f) (filter (passes_filter f) (menu_join (w_db w) (e_dbnow E) (ef_plant f) (ef_day f)))"
  let ?ids = "map (\<lambda>r. m_id (av_item r)) ?rows"
  from assms obtain w1 imgs where i: "images_list_by_items E ?ids w1 = (Inr imgs, w')" "w_db w1 = w_db w"
    and out: "out = map (employee_item_of imgs) ?rows"
    by (auto simp: list_for_employee_def list_active_by_plant_def io_simps)
  have "employee_item_of imgs r = (employee_item_of [] r)\<lparr>em_images := map im_uri (image_order (filter (\<lambda>x. im_item x = m_id (av_item r)) (images (w_db w))))\<rparr>"
    if r: "r \<in> set ?rows" for r
  proof -
    have "?ids \<noteq> []" using r by (metis emptyE list.set(1) map_is_Nil_conv)
    then have "imgs = sort_key im_item (image_order (filter (\<lambda>x. im_item x \<in> set ?ids) (images (w_db w))))"
      using i unfolding images_list_by_items_def by (simp only: if_False io_simps)
    then have "map im_uri (filter (\<lambda>x. im_item x = m_id (av_item r)) imgs)
        = map im_uri (image_order (filter (\<lambda>x. im_item x = m_id (av_item r)) (images (w_db w))))"
      using r by (simp only: images_of_item) auto
    then show ?thesis by (simp add: employee_item_of_def Let_def)
  qed
  then show ?thesis unfolding out by (intro exI [of _ ?rows] conjI refl map_cong)
qed

lemma shown_of_row:
  "(employee_item_of [] \<lparr>av_item = m, av_vendor_name = v_name v, av_supply = s\<rparr>)
     \<lparr>em_images := map im_uri (image_order (filter (\<lambda>x. im_item x = m_id m) (images d)))\<rparr> = shown_as d m v s"
  by (auto simp: employee_item_of_def shown_as_def Let_def decrementable_def)

lemma menu_order_sorted:
  "sorted_wrt (listed_before srt) (map (\<lambda>r. (employee_item_of [] r)\<lparr>em_images := g r\<rparr>) (menu_order srt rows))"
proof -
  have "listed_before srt ((employee_item_of [] a)\<lparr>em_images := x\<rparr>) ((employee_item_of [] b)\<lparr>em_images := y\<rparr>) \<longleftrightarrow>
     (if srt = ''name'' then then_by (\<lambda>r. m_name (av_item r)) (then_by av_vendor_name (\<lambda>_ _. True))
      else if srt = ''price_asc'' then then_by (\<lambda>r. m_price (av_item r)) (then_by av_vendor_name (then_by (\<lambda>r. m_name (av_item r)) (\<lambda>_ _. True)))
      else if srt = ''price_desc'' then then_by (\<lambda>r. - m_price (av_item r)) (then_by av_vendor_name (then_by (\<lambda>r. m_name (av_item r)) (\<lambda>_ _. True)))
      else if srt = ''remain'' then then_by (\<lambda>r. - s_remain (av_supply r)) (then_by av_vendor_name (then_by (\<lambda>r. m_name (av_item r)) (\<lambda>_ _. True)))
      else then_by av_vendor_name (then_by (\<lambda>r. m_name (av_item r)) (\<lambda>_ _. True))) a b" for a b x y
    by (simp add: listed_before_def then_by_def employee_item_of_def Let_def)
  then show ?thesis by (simp add: sorted_wrt_map menu_order_def Let_def sorted_by_keys)
qed

text \<open>C39: The employee's menu lists exactly the items the plant is offered on the day, each once, as the tables describe
  them: of approved vendors that serve the plant and take orders that far ahead, with the queried text in the name or the
  description, one of the tags, a price within the bounds and units left, as far as the filter asks for these. They come
  by vendor and name, or when asked to by name and vendor, by rising or falling price, or by falling remaining units, the
  last three then by vendor and name. Each has its images by sort number and age, and is marked sold out exactly when not
  even one unit can be ordered. Reading the menu changes nothing.\<close>

theorem employee_menu_exact:
  assumes "list_for_employee E f w = (Inr out, w')" "listing_keys (w_db w)"
  shows "distinct (map em_id out)
    \<and> (\<forall>e. e \<in> set out \<longleftrightarrow> (\<exists>m v s. offered (w_db w) (utc_day (e_dbnow E)) f m v s \<and> e = shown_as (w_db w) m v s))
    \<and> sorted_wrt (listed_before (ef_sort f)) out
    \<and> (\<forall>e\<in>set out. \<exists>xs. em_images e = map im_uri xs \<and> sorted_wrt image_before xs
         \<and> mset xs = mset (filter (\<lambda>x. im_item x = em_id e) (images (w_db w))))
    \<and> w_db w' = w_db w"
proof -
  let ?rows = "menu_order (ef_sort f) (filter (passes_filter f) (menu_join (w_db w) (e_dbnow E) (ef_plant f) (ef_day f)))"
  let ?show = "\<lambda>r. (employee_item_of [] r)\<lparr>em_images := map im_uri (image_order (filter (\<lambda>x. im_item x = m_id (av_item r)) (images (w_db w))))\<rparr>"
  from listing_runs [OF assms(1)] have out: "out = map ?show ?rows" by blast
  have "distinct (map (\<lambda>r. m_id (av_item r)) ?rows)"
    using menu_join_distinct [OF assms(2), of "e_dbnow E" "ef_plant f" "ef_day f"]
    by (simp add: distinct_map mset_eq_imp_distinct_iff [OF menu_order_mset]) (rule inj_on_subset, auto)
  then have 1: "distinct (map em_id out)" by (simp add: out comp_def employee_item_of_def Let_def)
  have "set out = ?show ` set (filter (passes_filter f) (menu_join (w_db w) (e_dbnow E) (ef_plant f) (ef_day f)))"
    by (simp only: out set_map menu_order_set)
  then have "e \<in> set out \<longleftrightarrow> (\<exists>m v s. offered (w_db w) (utc_day (e_dbnow E)) f m v s
      \<and> e = ?show \<lparr>av_item = m, av_vendor_name = v_name v, av_supply = s\<rparr>)" for e
    unfolding set_eq_iff image_iff Bex_def menu_join_mem by blast
  then have 2: "\<forall>e. e \<in> set out \<longleftrightarrow> (\<exists>m v s. offered (w_db w) (utc_day (e_dbnow E)) f m v s \<and> e = shown_as (w_db w) m v s)"
    by (simp only: active_row.select_convs shown_of_row simp_thms)
  have 3: "sorted_wrt (listed_before (ef_sort f)) out" unfolding out by (rule menu_order_sorted)
  have 4: "\<exists>xs. em_images e = map im_uri xs \<and> sorted_wrt image_before xs
      \<and> mset xs = mset (filter (\<lambda>x. im_item x = em_id e) (images (w_db w)))" if "e \<in> set out" for e
  proof -
    from that 2 obtain m v s where e: "e = shown_as (w_db w) m v s" by blast
    show ?thesis
      by (rule exI [of _ "image_order (filter (\<lambda>x. im_item x = m_id m) (images (w_db w)))"])
        (simp add: e shown_as_def image_order_sorted)
  qed
  show ?thesis using 1 2 3 4 roD [OF ro_menu_reads(11) assms(1)] by blast
qed

definition filter0 :: menu_filter where
  "filter0 = \<lparr>ef_plant = ''P1'', ef_day = d0, ef_q = '''', ef_tags = [], ef_min = None, ef_max = Some 90, ef_in_stock = Some True,
     ef_sort = ''''\<rparr>"

theorem employee_menu_exact_witness:
  "\<exists>out w'. list_for_employee env0 filter0 world0 = (Inr out, w') \<and> ''m2'' \<in> em_id ` set out \<and> ''m1'' \<notin> em_id ` set out
     \<and> w_db w' = w_db world0"
proof -
  have t: "trim_space [] = []" by (rule trim_space_plain) (simp add: plain_def)
  have k: "listing_keys (w_db world0)" by (simp add: listing_keys_def scenario_defs)
  obtain r w' where run: "list_for_employee env0 filter0 world0 = (r, w')" by fastforce
  moreover have "\<exists>out. fst (list_for_employee env0 filter0 world0) = Inr out"
    by (auto simp: list_for_employee_def list_active_by_plant_def images_list_by_items_def env0_def run_simps)
  ultimately obtain out where r: "r = Inr out" by auto
  note E = employee_menu_exact [OF run [unfolded r] k]
  then have mem: "e \<in> set out \<longleftrightarrow> (\<exists>m v s. offered (w_db world0) (utc_day (e_dbnow env0)) filter0 m v s \<and> e = shown_as (w_db world0) m v s)" for e
    by blast
  have id: "em_id (shown_as d m v s) = m_id m" for d m v s by (simp add: shown_as_def)
  have "offered (w_db world0) (utc_day (e_dbnow env0)) filter0 (menu0 ''m2'' 80) (hd (vendors db0)) (supply0 ''s2'' ''m2'' 2)"
    by (simp add: offered_def asked_for_def scenario_defs filter0_def t skey_def utc_day_def day_ns_def hour_ns_def sec_ns_def)
  then have "shown_as (w_db world0) (menu0 ''m2'' 80) (hd (vendors db0)) (supply0 ''s2'' ''m2'' 2) \<in> set out" using mem by blast
  then have "m_id (menu0 ''m2'' 80) \<in> em_id ` set out" by (metis id image_eqI)
  then have m2: "''m2'' \<in> em_id ` set out" by (simp add: menu0_def)
  have p: "m_price m = 100" if "m \<in> set (menu_items (w_db world0))" "m_id m = ''m1''" for m
    using that by (auto simp: world0_def db0_def menu0_def)
  have "\<not> offered (w_db world0) (utc_day (e_dbnow env0)) filter0 m v s" if "m_id m = ''m1''" for m v s
    using p [of m] that unfolding offered_def asked_for_def by (auto simp: filter0_def)
  then have "''m1'' \<notin> em_id ` set out" using mem id by (metis imageE)
  with m2 run r E show ?thesis by blast
qed

section \<open>Merchants keep to their own items\<close>

interpretation item_tbl: table menu_items menu_items_update m_id by unfold_locales simp
interpretation image_tbl: table images images_update im_id by unfold_locales simp

text \<open>What belongs to the other vendors: their items, and the images of those.\<close>

definition foreign_menu :: "uuid \<Rightarrow> db \<Rightarrow> menu_item list \<times> image list" where
  "foreign_menu v d = (filter (\<lambda>m. m_vendor m \<noteq> v) (menu_items d),
     filter (\<lambda>x. \<exists>m\<in>set (menu_items d). m_id m = im_item x \<and> m_vendor m \<noteq> v) (images d))"

definition confined :: "uuid \<Rightarrow> menu_item list \<times> image list \<Rightarrow> db \<Rightarrow> bool" where
  "confined v F d \<longleftrightarrow> item_tbl.keyed d \<and> foreign_menu v d = F"

definition owns :: "uuid \<Rightarrow> uuid \<Rightarrow> db \<Rightarrow> bool" where
  "owns v i d \<longleftrightarrow> (\<forall>m\<in>set (menu_items d). m_id m = i \<longrightarrow> m_vendor m = v)"

definition owned_confined :: "uuid \<Rightarrow> uuid \<Rightarrow> menu_item list \<times> image list \<Rightarrow> db \<Rightarrow> bool" where
  "owned_confined v i F d \<longleftrightarrow> confined v F d \<and> owns v i d"

text \<open>An update of the item of one id that keeps its id and vendor.\<close>

lemma item_write_confined:
  assumes "\<And>m. m_id (f m) = m_id m \<and> m_vendor (f m) = m_vendor m" "owned_confined v i F d"
  shows "owned_confined v i F (menu_items_update (sql_update (\<lambda>m. m_id m = i) f) d)"
proof -
  let ?P = "\<lambda>m. m_id m = i" and ?ms = "menu_items d"
  have "filter (\<lambda>m. m_vendor m \<noteq> v) (sql_update ?P f ms) = filter (\<lambda>m. m_vendor m \<noteq> v) ms"
    if "\<forall>m\<in>set ms. ?P m \<longrightarrow> m_vendor m = v" for ms
    using that by (induction ms) (auto simp: sql_update_def assms(1))
  then have 1: "filter (\<lambda>m. m_vendor m \<noteq> v) (sql_update ?P f ?ms) = filter (\<lambda>m. m_vendor m \<noteq> v) ?ms"
    using assms(2) by (simp add: owned_confined_def owns_def)
  have 2: "(\<exists>m\<in>set (sql_update ?P f ?ms). m_id m = k \<and> m_vendor m \<noteq> v) = (\<exists>m\<in>set ?ms. m_id m = k \<and> m_vendor m \<noteq> v)" for k
    unfolding set_sql_update bex_simps by (rule bex_cong) (auto simp: assms(1))
  have "owns v i (menu_items_update (sql_update ?P f) d) = owns v i d"
    unfolding owns_def item_tbl.tbl_upd set_sql_update ball_simps by (rule ball_cong) (auto simp: assms(1))
  moreover have "foreign_menu v (menu_items_update (sql_update ?P f) d) = foreign_menu v d" by (simp add: foreign_menu_def 1 2)
  moreover have "item_tbl.keyed (menu_items_update (sql_update ?P f) d) = item_tbl.keyed d"
    by (rule item_tbl.update_keeps_rows) (simp add: assms(1))
  ultimately show ?thesis using assms(2) by (simp only: owned_confined_def confined_def)
qed

lemma image_write_confined:
  assumes "owned_confined v i F d" "filter (\<lambda>x. im_item x \<noteq> i) (g (images d)) = filter (\<lambda>x. im_item x \<noteq> i) (images d)"
  shows "owned_confined v i F (images_update g d)"
proof -
  let ?Q = "\<lambda>x. \<exists>m\<in>set (menu_items d). m_id m = im_item x \<and> m_vendor m \<noteq> v"
  have own: "filter ?Q ys = filter ?Q (filter (\<lambda>x. im_item x \<noteq> i) ys)" for ys
    using assms(1) by (induction ys) (auto simp: owned_confined_def owns_def)
  have "filter ?Q (g (images d)) = filter ?Q (filter (\<lambda>x. im_item x \<noteq> i) (g (images d)))" by (rule own)
  also have "\<dots> = filter ?Q (filter (\<lambda>x. im_item x \<noteq> i) (images d))" by (simp only: assms(2))
  also have "\<dots> = filter ?Q (images d)" by (rule own [symmetric])
  finally show ?thesis using assms(1) by (simp add: owned_confined_def confined_def owns_def foreign_menu_def item_tbl.keyed_def)
qed

lemma keeps_update_rows:
  "(\<And>d. I d \<Longrightarrow> I (upd (sql_update P f) d)) \<Longrightarrow> keeps I (update_rows E tbl upd chk lost P f)"
  unfolding update_rows_def Let_def by (rule keeps_exec) (auto split: if_splits option.splits)

lemma keeps_item_writes:
  assumes "m_id m = i" "m_vendor m = v"
  shows "keeps (owned_confined v i F) (item_update E m)" "keeps (owned_confined v i F) (item_set_status E i st)"
  unfolding item_update_def item_set_status_def assms(1)
  by (rule keeps_update_rows, rule item_write_confined, simp, assumption)+

lemma keeps_images_replace: "keeps (owned_confined v i F) (images_replace_for_item E i uris)"
proof -
  have "keeps (owned_confined v i F) (images_delete_for_item E i)"
    unfolding images_delete_for_item_def by (rule keeps_exec) (auto intro!: image_write_confined)
  moreover have "keeps (owned_confined v i F) (image_insert E i (n, uri))" for n uri
    unfolding image_insert_def image_add_def insert_row_def Let_def prod.case
    by (intro keeps_bind keeps_reads, rule keeps_exec) (auto split: option.splits intro!: image_write_confined)
  ultimately show ?thesis
    unfolding images_replace_for_item_def by (auto intro!: keeps_intros)
qed

text \<open>The calls a merchant makes, on its own account or on an item it names.\<close>

datatype menu_call = CreateItem item_input | UpdateItem uuid item_input | CopyItem uuid | PublishItem uuid | ArchiveItem uuid

definition dropped :: "'a io \<Rightarrow> unit io" where
  "dropped m = bind m (\<lambda>_. ret ())"

fun menu_run :: "env \<Rightarrow> uuid \<Rightarrow> menu_call \<Rightarrow> unit io" where
  "menu_run E v (CreateItem x) = dropped (create_item E (x\<lparr>it_vendor := v\<rparr>))"
| "menu_run E v (UpdateItem i x) = dropped (update_item E i v x)"
| "menu_run E v (CopyItem i) = dropped (copy_item E i v)"
| "menu_run E v (PublishItem i) = publish_item E i v"
| "menu_run E v (ArchiveItem i) = archive_item E i v"

fun menu_target :: "menu_call \<Rightarrow> uuid option" where
  "menu_target (CreateItem x) = None"
| "menu_target (UpdateItem i x) = Some i"
| "menu_target (CopyItem i) = Some i"
| "menu_target (PublishItem i) = Some i"
| "menu_target (ArchiveItem i) = Some i"

fun menu_runs_all :: "uuid \<Rightarrow> (env \<times> menu_call) list \<Rightarrow> world \<Rightarrow> world" where
  "menu_runs_all v [] w = w"
| "menu_runs_all v ((E, c) # cs) w = menu_runs_all v cs (snd (menu_run E v c w))"

lemma keeps_dropped: "keeps I m \<Longrightarrow> keeps I (dropped m)"
  unfolding dropped_def by (intro keeps_bind keeps_reads)

lemma owned_ok:
  assumes "owned_item E i v w = (Inr m, w1)"
  shows "w_db w1 = w_db w" "by_key m_id i (menu_items (w_db w)) = Some m" "m_id m = i" "m_vendor m = v"
proof -
  from assms have g: "item_get_by_id E i w = (Inr m, w1)" and v: "m_vendor m = v"
    by (auto simp: owned_item_def io_simps split: if_splits)
  from item_get_ok [OF g] show "w_db w1 = w_db w" "by_key m_id i (menu_items (w_db w)) = Some m" by simp_all
  then show "m_id m = i" "m_vendor m = v" using v by (auto dest: by_key_SomeD)
qed

lemma keeps_after_owned:
  assumes "\<And>m. m_id m = i \<Longrightarrow> m_vendor m = v \<Longrightarrow> keeps (owned_confined v i F) (g m)"
  shows "keeps (confined v F) (bind (owned_item E i v) g)"
  unfolding keeps_def
proof (intro allI impI)
  fix w r w'
  assume I: "confined v F (w_db w)" and run: "bind (owned_item E i v) g w = (r, w')"
  obtain x w1 where 1: "owned_item E i v w = (x, w1)" by fastforce
  show "confined v F (w_db w')"
  proof (cases x)
    case (Inl e)
    with run 1 I roD [OF ro_menu_reads(10) 1] show ?thesis by (simp add: bind_def)
  next
    case (Inr m)
    note O = owned_ok [OF 1 [unfolded Inr]]
    have "owns v i (w_db w)"
      using I O(2,4) by (auto simp: confined_def owns_def item_tbl.keyed_def by_key_iff distinct_map inj_on_def)
    then have "owned_confined v i F (w_db w1)" using I O(1) by (simp add: owned_confined_def)
    from keepsD [OF assms [OF O(3,4)] this, of r w'] run 1 Inr show ?thesis by (simp add: bind_def owned_confined_def)
  qed
qed

lemma keeps_create_item:
  assumes "it_vendor x = v"
  shows "keeps (confined v F) (create_item E x)"
  unfolding keeps_def
proof (intro allI impI)
  fix w r w'
  assume I: "confined v F (w_db w)" and run: "create_item E x w = (r, w')"
  obtain q w1 where 1: "item_create E x (Some ItemActive) w = (q, w1)" by fastforce
  show "confined v F (w_db w')"
  proof (cases q)
    case (Inl e)
    with run 1 have "w' = w1" by (auto simp: create_item_def bind_def)
    moreover have "atomic (item_create E x (Some ItemActive))" unfolding item_create_def by (rule atomic_table_writes)
    ultimately show ?thesis using atomicD 1 Inl I by metis
  next
    case (Inr m)
    note A = insert_row_ok [OF 1 [unfolded Inr item_create_def]]
    have m: "m_vendor m = v" by (simp add: A(1) assms)
    have fresh: "m_id m \<notin> m_id ` set (menu_items (w_db w))" using A(2) by (auto simp: item_insert_check_def split: if_splits)
    have o1: "owned_confined v (m_id m) F (w_db w1)"
      using I fresh m unfolding A(3)
      by (auto simp: owned_confined_def confined_def owns_def foreign_menu_def item_tbl.keyed_def image_iff intro!: filter_cong)
    have k: "keeps (owned_confined v (m_id m) F) (if it_images x = [] then ret m
        else bind (images_replace_for_item E (m_id m) (it_images x)) (\<lambda>_. ret m))"
      by (intro keeps_if keeps_bind keeps_reads keeps_images_replace)
    have "(if it_images x = [] then ret m else bind (images_replace_for_item E (m_id m) (it_images x)) (\<lambda>_. ret m)) w1 = (r, w')"
      using run 1 Inr by (simp add: create_item_def bind_def)
    from keepsD [OF k o1 this] show ?thesis by (simp add: owned_confined_def)
  qed
qed

lemma keeps_menu_run: "keeps (confined v F) (menu_run E v c)"
proof -
  have "keeps (confined v F) (update_item E i v x)" for i x
    unfolding update_item_def
    by (rule keeps_after_owned) (auto simp: edited_def intro!: keeps_bind keeps_reads keeps_item_writes keeps_images_replace)
  moreover have "keeps (confined v F) (copy_item E i v)" for i
    unfolding copy_item_def owned_item_def
    by (intro keeps_bind keeps_if keeps_create_item keeps_reads ro_catalog(1) [THEN keeps_ro] ro_menu_reads(7) [THEN keeps_ro]) simp
  moreover have "keeps (confined v F) (publish_item E i v)" "keeps (confined v F) (archive_item E i v)" for i
    unfolding publish_item_def archive_item_def by (rule keeps_after_owned, erule keeps_item_writes, assumption)+
  ultimately show ?thesis by (cases c) (auto intro!: keeps_dropped keeps_create_item)
qed

lemma keeps_menu_runs_all: "confined v F (w_db w) \<Longrightarrow> confined v F (w_db (menu_runs_all v cs w))"
proof (induction v cs w rule: menu_runs_all.induct)
  case (2 v E c cs w)
  have "confined v F (w_db (snd (menu_run E v c w)))" using keepsD [OF keeps_menu_run 2(2)] by (metis prod.collapse)
  then show ?case using 2(1) by simp
qed simp

lemma foreign_refused:
  assumes "item_tbl.keyed (w_db w)" "menu_target c = Some i" "m \<in> set (menu_items (w_db w))" "m_id m = i" "m_vendor m \<noteq> v"
  shows "\<exists>e w'. menu_run E v c w = (Inl e, w') \<and> (e = MenuErr ErrMenuForbidden \<or> (\<exists>p. e = DbErr p)) \<and> w_db w' = w_db w"
proof -
  have "by_key m_id i (menu_items (w_db w)) = Some m" using assms(1,3,4) by (simp add: item_tbl.keyed_def by_key_iff)
  then have o: "\<exists>e w'. owned_item E i v w = (Inl e, w') \<and> (e = MenuErr ErrMenuForbidden \<or> (\<exists>p. e = DbErr p)) \<and> w_db w' = w_db w"
    using assms(5) by (auto simp: owned_item_def item_get_by_id_def bind_def query_def exec_def fail_def split: option.splits)
  then have "\<exists>e w'. bind (owned_item E i v) g w = (Inl e, w') \<and> (e = MenuErr ErrMenuForbidden \<or> (\<exists>p. e = DbErr p)) \<and> w_db w' = w_db w"
    for g :: "menu_item \<Rightarrow> 'b io" by (auto simp: bind_def)
  moreover have "bind (bind a f) g = bind a (\<lambda>x. bind (f x) g)" for a :: "menu_item io" and f :: "menu_item \<Rightarrow> menu_item io" and g :: "menu_item \<Rightarrow> unit io"
    by (rule ext) (simp add: bind_def split: prod.splits sum.splits)
  ultimately show ?thesis using assms(2)
    by (cases c) (auto simp: dropped_def update_item_def copy_item_def publish_item_def archive_item_def)
qed

text \<open>C40: Whatever calls a merchant makes, in any order and with any outcome, the items of the other vendors and the images
  of those items stay as they are; a call on an item of another vendor is refused and changes nothing at all.\<close>

theorem menu_confined:
  assumes "distinct (map m_id (menu_items (w_db w)))"
  shows "foreign_menu v (w_db (menu_runs_all v cs w)) = foreign_menu v (w_db w)
    \<and> (\<forall>E c m. m \<in> set (menu_items (w_db w)) \<longrightarrow> menu_target c = Some (m_id m) \<longrightarrow> m_vendor m \<noteq> v \<longrightarrow>
        (\<exists>e w'. menu_run E v c w = (Inl e, w') \<and> (e = MenuErr ErrMenuForbidden \<or> (\<exists>p. e = DbErr p)) \<and> w_db w' = w_db w))"
proof -
  have k: "item_tbl.keyed (w_db w)" using assms by (simp add: item_tbl.keyed_def)
  then have "confined v (foreign_menu v (w_db w)) (w_db w)" by (simp add: confined_def)
  from keeps_menu_runs_all [OF this] have "foreign_menu v (w_db (menu_runs_all v cs w)) = foreign_menu v (w_db w)"
    by (simp add: confined_def)
  with foreign_refused [OF k] show ?thesis by blast
qed

definition menu_db1 :: db where
  "menu_db1 = empty_db\<lparr>vendors := vendors db0, menu_items := [menu0 ''m1'' 100, (menu0 ''m2'' 80)\<lparr>m_vendor := ''v2''\<rparr>]\<rparr>"

theorem menu_confined_witness:
  "foreign_menu ''v1'' (w_db (menu_runs_all ''v1'' [(env0, ArchiveItem ''m1''), (env0, ArchiveItem ''m2'')] (world0\<lparr>w_db := menu_db1\<rparr>)))
     = ([(menu0 ''m2'' 80)\<lparr>m_vendor := ''v2''\<rparr>], [])
   \<and> map m_status (menu_items (w_db (snd (menu_run env0 ''v1'' (ArchiveItem ''m1'') (world0\<lparr>w_db := menu_db1\<rparr>))))) = [ItemArchived, ItemActive]"
proof -
  have k: "distinct (map m_id (menu_items (w_db (world0\<lparr>w_db := menu_db1\<rparr>))))" by (simp add: menu_db1_def menu0_def empty_db_def)
  have "foreign_menu ''v1'' menu_db1 = ([(menu0 ''m2'' 80)\<lparr>m_vendor := ''v2''\<rparr>], [])"
    by (simp add: foreign_menu_def menu_db1_def menu0_def empty_db_def)
  moreover have "map m_status (menu_items (w_db (snd (menu_run env0 ''v1'' (ArchiveItem ''m1'') (world0\<lparr>w_db := menu_db1\<rparr>))))) = [ItemArchived, ItemActive]"
    by (simp add: scenario_defs menu_db1_def run_simps first_err.simps)
  ultimately show ?thesis using menu_confined [OF k, of "''v1''"] by (simp del: menu_run.simps menu_runs_all.simps)
qed

text \<open>The copy of an item is on the menu at once.\<close>

theorem copy_goes_live:
  assumes "copy_item E i v w = (Inr m, w')"
  shows "m_status m = ItemActive \<and> m_vendor m = v"
proof -
  from assms obtain x w1 where "create_item E x w1 = (Inr m, w')" "it_vendor x = v"
    by (auto simp: copy_item_def io_simps)
  then obtain w2 where "item_create E x (Some ItemActive) w1 = (Inr m, w2)"
    by (auto simp: create_item_def io_simps split: if_splits)
  with \<open>it_vendor x = v\<close> show ?thesis unfolding item_create_def by (auto dest!: insert_row_ok(1))
qed

end
