(* ===== verification/Vendors.thy ===== *)
theory Vendors
  imports Identity Catalog
begin

text \<open>
  Vendors, the plants they serve and their operators: the repositories of \<open>vendors/postgres\<close> and
  the service of \<open>vendors/service.go\<close>. The identity provider's administration interface
  (\<open>identity.VendorOperatorProvisioner\<close>) is a parameter: its answer to a call, given the calls
  made before; the calls themselves are recorded in \<open>w_idp\<close>, which nothing rolls back.
\<close>

section \<open>Vendors\<close>

definition vendor_check :: "db \<Rightarrow> vendor \<Rightarrow> err option" where
  "vendor_check d v = checks
     [(v_email v \<noteq> to_lower (v_email v), check_violation),
      (v_cutoff_hour v < 0 \<or> 23 < v_cutoff_hour v \<or> v_preorder_days v < 1 \<or> 30 < v_preorder_days v, check_violation),
      (list_ex (\<lambda>x. v_id x \<noteq> v_id v \<and> v_email x = v_email v) (vendors d), unique_violation),
      (\<not> fk_user d (v_approved_by v), fk_violation)]"

definition vendor_insert_check :: "db \<Rightarrow> vendor \<Rightarrow> err option" where
  "vendor_insert_check d v = (if v_id v \<in> v_id ` set (vendors d) then Some unique_violation else vendor_check d v)"

text \<open>The columns the INSERT leaves out take their defaults in the row, not in the caller's struct.\<close>

definition vendor_create :: "env \<Rightarrow> vendor \<Rightarrow> vendor io" where
  "vendor_create E v = bind (insert_row E vendors_update vendor_insert_check
       (\<lambda>i. v\<lparr>v_id := i, v_approved_at := None, v_approved_by := None, v_cutoff_hour := 17, v_preorder_days := 7,
          v_created_at := e_dbnow E, v_updated_at := e_dbnow E\<rparr>))
     (\<lambda>r. ret (v\<lparr>v_id := v_id r, v_created_at := v_created_at r, v_updated_at := v_updated_at r\<rparr>))"

definition vendor_get_by_email :: "env \<Rightarrow> string \<Rightarrow> vendor io" where
  "vendor_get_by_email E em = get_row E vendors v_email (VendorErr ErrVendorNotFound) em"

definition vendor_update_status :: "env \<Rightarrow> vendor_status \<Rightarrow> uuid option \<Rightarrow> uuid \<Rightarrow> unit io" where
  "vendor_update_status E st by i = update_rows E vendors vendors_update vendor_check None (\<lambda>v. v_id v = i)
     (if st = VApproved
      then (\<lambda>v. v\<lparr>v_status := st, v_approved_at := Some (e_dbnow E), v_approved_by := by, v_updated_at := e_dbnow E\<rparr>)
      else (\<lambda>v. v\<lparr>v_status := st, v_updated_at := e_dbnow E\<rparr>))"

definition vendor_update_settings :: "env \<Rightarrow> int \<Rightarrow> int \<Rightarrow> uuid \<Rightarrow> unit io" where
  "vendor_update_settings E cutoff days i = update_rows E vendors vendors_update vendor_check
     (Some (VendorErr ErrVendorNotFound)) (\<lambda>v. v_id v = i)
     (\<lambda>v. v\<lparr>v_cutoff_hour := cutoff, v_preorder_days := days, v_updated_at := e_dbnow E\<rparr>)"

definition vendor_update_contact_email :: "env \<Rightarrow> string \<Rightarrow> uuid \<Rightarrow> unit io" where
  "vendor_update_contact_email E em i = update_rows E vendors vendors_update vendor_check
     (Some (VendorErr ErrVendorNotFound)) (\<lambda>v. v_id v = i) (\<lambda>v. v\<lparr>v_email := em, v_updated_at := e_dbnow E\<rparr>)"

definition vendor_list :: "env \<Rightarrow> vendor_status list \<Rightarrow> vendor list io" where
  "vendor_list E sts = select_rows E vendors (\<lambda>v. sts = [] \<or> v_status v \<in> set sts) (sort_key (\<lambda>v. - v_created_at v))"

section \<open>Plants served\<close>

definition list_vendors_for_plant :: "env \<Rightarrow> string \<Rightarrow> uuid list io" where
  "list_vendors_for_plant E p = query E (\<lambda>d.
     Inr (map pm_vendor (filter (\<lambda>m. pm_plant m = p \<and> pm_active m) (plant_mappings d))))"

definition plants_set_window :: "env \<Rightarrow> uuid \<Rightarrow> string \<Rightarrow> string \<Rightarrow> unit io" where
  "plants_set_window E v p win = update_rows E plant_mappings plant_mappings_update no_check
     (Some (VendorErr ErrVendorNotFound)) (\<lambda>m. pm_vendor m = v \<and> pm_plant m = p \<and> pm_active m)
     (\<lambda>m. m\<lparr>pm_window := win\<rparr>)"

text \<open>
  A nil slice is sent as NULL: \<open>plant = ANY(NULL)\<close> is NULL for every row, and the DELETE hits none.
\<close>

definition plants_delete_others :: "env \<Rightarrow> uuid \<Rightarrow> string list option \<Rightarrow> unit io" where
  "plants_delete_others E v ps = exec E (\<lambda>w. case ps of
       None \<Rightarrow> Inr ((), w)
     | Some l \<Rightarrow> Inr ((), w\<lparr>w_db := plant_mappings_update (filter (\<lambda>m. \<not> (pm_vendor m = v \<and> pm_plant m \<notin> set l))) (w_db w)\<rparr>))"

definition plants_insert :: "env \<Rightarrow> uuid \<Rightarrow> string \<Rightarrow> unit io" where
  "plants_insert E v p = exec E (\<lambda>w. let d = w_db w; hit = (\<lambda>m. pm_vendor m = v \<and> pm_plant m = p) in
     if list_ex hit (plant_mappings d)
     then Inr ((), w\<lparr>w_db := plant_mappings_update (sql_update hit (\<lambda>m. m\<lparr>pm_active := True\<rparr>)) d\<rparr>)
     else if \<not> fk_vendor d (Some v) \<or> p \<notin> p_code ` set (plants d) then Inl fk_violation
     else if e_uuid E (w_tick w) \<in> pm_id ` set (plant_mappings d) then Inl unique_violation
     else Inr ((), w\<lparr>w_db := plant_mappings_update (\<lambda>ms. ms @ [\<lparr>pm_id = e_uuid E (w_tick w), pm_vendor = v, pm_plant = p,
       pm_active = True, pm_window = '''', pm_created_at = e_dbnow E\<rparr>]) d\<rparr>))"

definition plants_set :: "env \<Rightarrow> uuid \<Rightarrow> string list option \<Rightarrow> unit io" where
  "plants_set E v ps = begin_func E (\<lambda>_. bind (plants_delete_others E v ps) (\<lambda>_.
     for_each (plants_insert E v) (case ps of None \<Rightarrow> [] | Some l \<Rightarrow> l)))"

section \<open>Operators\<close>

definition operator_get :: "env \<Rightarrow> uuid \<Rightarrow> uuid \<Rightarrow> operator_account io" where
  "operator_get E v i = get_row E operators (\<lambda>o'. (oa_id o', oa_vendor o')) (VendorErr ErrOperatorNotFound) (i, v)"

definition newest_first :: "operator_account list \<Rightarrow> operator_account list" where
  "newest_first = sort_key (\<lambda>x. - oa_created_at x)"

definition operator_list_by_vendor :: "env \<Rightarrow> uuid \<Rightarrow> operator_account list io" where
  "operator_list_by_vendor E v = select_rows E operators (\<lambda>x. oa_vendor x = v) newest_first"

definition operator_list_by_status :: "env \<Rightarrow> uuid \<Rightarrow> operator_status list \<Rightarrow> operator_account list io" where
  "operator_list_by_status E v sts =
     (if sts = [] then operator_list_by_vendor E v
      else select_rows E operators (\<lambda>x. oa_vendor x = v \<and> oa_status x \<in> set sts) newest_first)"

definition operator_check :: "db \<Rightarrow> operator_account \<Rightarrow> err option" where
  "operator_check d x = checks
     [(oa_email x \<noteq> to_lower (oa_email x) \<or> \<not> slug_ok (oa_provider x), check_violation),
      (oa_subject x \<noteq> None \<and> list_ex (\<lambda>y. oa_id y \<noteq> oa_id x \<and> oa_provider y = oa_provider x \<and> oa_subject y = oa_subject x)
         (operators d), unique_violation),
      (\<not> fk_vendor d (Some (oa_vendor x)), fk_violation)]"

definition operator_upsert :: "env \<Rightarrow> operator_account \<Rightarrow> operator_account io" where
  "operator_upsert E x = exec E (\<lambda>w. let d = w_db w; hit = (\<lambda>y. oa_vendor y = oa_vendor x \<and> oa_email y = oa_email x) in
     case find hit (operators d) of
       Some y \<Rightarrow>
         (let z = x\<lparr>oa_id := oa_id y, oa_created_at := oa_created_at y, oa_updated_at := e_dbnow E\<rparr> in
          case operator_check d z of Some e \<Rightarrow> Inl e
          | None \<Rightarrow> Inr (z, w\<lparr>w_db := operators_update (sql_update hit (\<lambda>_. z)) d\<rparr>))
     | None \<Rightarrow>
         (let z = x\<lparr>oa_id := e_uuid E (w_tick w), oa_created_at := e_dbnow E, oa_updated_at := e_dbnow E\<rparr> in
          if oa_id z \<in> oa_id ` set (operators d) then Inl unique_violation
          else case operator_check d z of Some e \<Rightarrow> Inl e
          | None \<Rightarrow> Inr (z, w\<lparr>w_db := operators_update (\<lambda>os. os @ [z]) d\<rparr>)))"

definition operator_moved :: "env \<Rightarrow> operator_status \<Rightarrow> operator_account \<Rightarrow> operator_account" where
  "operator_moved E st x = x\<lparr>oa_status := st, oa_synced_at := Some (e_dbnow E), oa_updated_at := e_dbnow E\<rparr>"

definition operator_set_status :: "env \<Rightarrow> uuid \<Rightarrow> uuid \<Rightarrow> operator_status \<Rightarrow> unit io" where
  "operator_set_status E v i st = update_rows E operators operators_update no_check
     (Some (VendorErr ErrOperatorNotFound)) (\<lambda>x. oa_vendor x = v \<and> oa_id x = i) (operator_moved E st)"

definition operator_set_statuses :: "env \<Rightarrow> uuid \<Rightarrow> operator_status list \<Rightarrow> operator_status \<Rightarrow> unit io" where
  "operator_set_statuses E v from to =
     (if from = [] then ret ()
      else update_rows E operators operators_update no_check None (\<lambda>x. oa_vendor x = v \<and> oa_status x \<in> set from)
        (operator_moved E to))"

section \<open>The identity provider\<close>

text \<open>The provider slug, the subject and the setup link of an account that was provisioned.\<close>

record provisioner =
  pr_upsert :: "idp_call list \<Rightarrow> idp_call \<Rightarrow> (string \<times> string \<times> string) option"
  pr_accepts :: "idp_call list \<Rightarrow> idp_call \<Rightarrow> bool"

record vendor_config =
  vc_provisioner :: "provisioner option"
  vc_sessions :: bool
  vc_audit :: bool
  vc_parse_address :: "string \<Rightarrow> bool"

definition provision :: "provisioner \<Rightarrow> idp_call \<Rightarrow> (string \<times> string \<times> string) io" where
  "provision p c = (\<lambda>w. (case pr_upsert p (w_idp w) c of
       None \<Rightarrow> Inl (VendorErr ErrProvisioningSetup)
     | Some x \<Rightarrow> Inr x, w\<lparr>w_idp := w_idp w @ [c]\<rparr>))"

definition remote :: "provisioner \<Rightarrow> idp_call \<Rightarrow> unit io" where
  "remote p c = (\<lambda>w. (if pr_accepts p (w_idp w) c then Inr () else Inl (VendorErr ErrProvisioningSetup),
     w\<lparr>w_idp := w_idp w @ [c]\<rparr>))"

definition remote_operator :: "vendor_config \<Rightarrow> (string \<Rightarrow> string \<Rightarrow> idp_call) \<Rightarrow> operator_account \<Rightarrow> unit io" where
  "remote_operator cfg call x = (case vc_provisioner cfg of
       None \<Rightarrow> fail (VendorErr ErrProvisioningSetup)
     | Some p \<Rightarrow> (case oa_subject x of
         None \<Rightarrow> fail (VendorErr ErrInvalidOperator)
       | Some s \<Rightarrow> if s = [] then fail (VendorErr ErrInvalidOperator) else remote p (call (oa_provider x) s)))"

definition suspend_remote_operator :: "vendor_config \<Rightarrow> operator_account \<Rightarrow> unit io" where
  "suspend_remote_operator cfg x = remote_operator cfg IdpSuspend x"

definition reinstate_remote_operator :: "vendor_config \<Rightarrow> operator_account \<Rightarrow> unit io" where
  "reinstate_remote_operator cfg x = remote_operator cfg (\<lambda>pr s. IdpReinstate pr s (oa_vendor x)) x"

definition revoke_by_email :: "env \<Rightarrow> vendor_config \<Rightarrow> string \<Rightarrow> unit io" where
  "revoke_by_email E cfg em =
     (if \<not> vc_sessions cfg then ret ()
      else bind (attempt (user_get_by_email E em)) (\<lambda>r. case r of
          Inl e \<Rightarrow> if e = IdentityErr ErrIdUserNotFound then ret () else fail e
        | Inr u \<Rightarrow> session_revoke_all E (u_id u)))"

section \<open>The service\<close>

definition vendor_audit :: "env \<Rightarrow> vendor_config \<Rightarrow> uuid \<Rightarrow> string \<Rightarrow> uuid \<Rightarrow> payload \<Rightarrow> unit io" where
  "vendor_audit E cfg actor action v pl =
     (if \<not> vc_audit cfg then ret ()
      else audit_write E (audit_of (Some actor) (Some WelfareAdmin) action ''vendor'' v pl))"

definition create_pending :: "env \<Rightarrow> string \<Rightarrow> string \<Rightarrow> string \<Rightarrow> vendor io" where
  "create_pending E name legal em = vendor_create E \<lparr>v_id = [], v_name = name, v_legal = legal, v_email = em,
     v_status = VPending, v_approved_at = None, v_approved_by = None, v_cutoff_hour = 0, v_preorder_days = 0,
     v_created_at = 0, v_updated_at = 0\<rparr>"

definition json_plants :: "string list option \<Rightarrow> json" where
  "json_plants ps = (case ps of None \<Rightarrow> JNull | Some l \<Rightarrow> JList (map JStr l))"

definition approve :: "env \<Rightarrow> vendor_config \<Rightarrow> uuid \<Rightarrow> uuid \<Rightarrow> string list option \<Rightarrow> unit io" where
  "approve E cfg i admin ps = bind (vendor_get_by_id E i) (\<lambda>v.
     if v_status v = VApproved then fail (VendorErr ErrAlreadyApproved)
     else if v_status v \<noteq> VPending \<and> v_status v \<noteq> VSuspended then fail (VendorErr ErrInvalidStatus)
     else bind (vendor_update_status E VApproved (Some admin) i) (\<lambda>_.
       bind (plants_set E i ps) (\<lambda>_.
       vendor_audit E cfg admin ''vendor.approve'' i [(''plants'', json_plants ps)])))"

definition suspend :: "env \<Rightarrow> vendor_config \<Rightarrow> uuid \<Rightarrow> uuid \<Rightarrow> unit io" where
  "suspend E cfg i admin = bind (vendor_get_by_id E i) (\<lambda>v.
     if v_status v \<noteq> VApproved then fail (VendorErr ErrInvalidStatus)
     else bind (operator_list_by_status E i [OpActive]) (\<lambda>ops.
       bind (for_each (suspend_remote_operator cfg) ops) (\<lambda>_.
       bind (vendor_update_status E VSuspended None i) (\<lambda>_.
       bind (operator_set_statuses E i [OpActive] OpVendorSuspended) (\<lambda>_.
       bind (for_each (\<lambda>x. revoke_by_email E cfg (oa_email x)) ops) (\<lambda>_.
       vendor_audit E cfg admin ''vendor.suspend'' i []))))))"

definition reinstate :: "env \<Rightarrow> vendor_config \<Rightarrow> uuid \<Rightarrow> uuid \<Rightarrow> unit io" where
  "reinstate E cfg i admin = bind (vendor_get_by_id E i) (\<lambda>v.
     if v_status v \<noteq> VSuspended then fail (VendorErr ErrInvalidStatus)
     else bind (operator_list_by_status E i [OpVendorSuspended]) (\<lambda>ops.
       bind (for_each (reinstate_remote_operator cfg) ops) (\<lambda>_.
       bind (vendor_update_status E VApproved (Some admin) i) (\<lambda>_.
       bind (operator_set_statuses E i [OpVendorSuspended] OpActive) (\<lambda>_.
       vendor_audit E cfg admin ''vendor.reinstate'' i [])))))"

definition update_settings :: "env \<Rightarrow> uuid \<Rightarrow> int \<Rightarrow> int \<Rightarrow> vendor io" where
  "update_settings E i cutoff days =
     (if cutoff < 0 \<or> 23 < cutoff then fail (VendorErr ErrInvalidSettings)
      else if days < 1 \<or> 30 < days then fail (VendorErr ErrInvalidSettings)
      else bind (vendor_update_settings E cutoff days i) (\<lambda>_. vendor_get_by_id E i))"

definition normalize_email :: "vendor_config \<Rightarrow> string \<Rightarrow> err + string" where
  "normalize_email cfg s = (let em = to_lower (trim_space s) in
     if em = [] then Inl (VendorErr ErrInvalidOperator)
     else if \<not> vc_parse_address cfg em then Inl (VendorErr ErrInvalidOperator)
     else Inr em)"

text \<open>Both changes are optional; each leaves its part of the audit payload.\<close>

definition update_profile_email :: "env \<Rightarrow> vendor_config \<Rightarrow> uuid \<Rightarrow> string option \<Rightarrow> payload io" where
  "update_profile_email E cfg i em = (case em of
       None \<Rightarrow> ret []
     | Some s \<Rightarrow> (case normalize_email cfg s of
         Inl _ \<Rightarrow> fail (VendorErr ErrInvalidSettings)
       | Inr n \<Rightarrow> bind (vendor_update_contact_email E n i) (\<lambda>_. ret [(''contact_email'', JStr n)])))"

definition update_profile_plants :: "env \<Rightarrow> uuid \<Rightarrow> string list option option \<Rightarrow> payload io" where
  "update_profile_plants E i ps = (case ps of
       None \<Rightarrow> ret []
     | Some l \<Rightarrow> bind (plants_set E i l) (\<lambda>_. ret [(''plants'', json_plants l)]))"

definition update_profile ::
    "env \<Rightarrow> vendor_config \<Rightarrow> uuid \<Rightarrow> uuid \<Rightarrow> string option \<Rightarrow> string list option option \<Rightarrow> vendor io" where
  "update_profile E cfg i admin em ps = bind (vendor_get_by_id E i) (\<lambda>_.
     bind (update_profile_email E cfg i em) (\<lambda>pe.
     bind (update_profile_plants E i ps) (\<lambda>pp.
     bind (if pe @ pp = [] then ret () else vendor_audit E cfg admin ''vendor.update_profile'' i (pe @ pp)) (\<lambda>_.
     vendor_get_by_id E i))))"

definition list_plants :: "env \<Rightarrow> uuid \<Rightarrow> string list io" where
  "list_plants E i = bind (plants_list_by_vendor E i) (\<lambda>ms. ret (map pm_plant (filter pm_active ms)))"

definition set_plant_window :: "env \<Rightarrow> uuid \<Rightarrow> string \<Rightarrow> string \<Rightarrow> unit io" where
  "set_plant_window E v p win = bind (vendor_get_by_id E v) (\<lambda>_. plants_set_window E v p win)"

definition list_operators :: "env \<Rightarrow> uuid \<Rightarrow> operator_account list io" where
  "list_operators E v = bind (vendor_get_by_id E v) (\<lambda>_. operator_list_by_vendor E v)"

definition string_ptr :: "string \<Rightarrow> string option" where
  "string_ptr s = (if s = [] then None else Some s)"

definition create_operator :: "env \<Rightarrow> vendor_config \<Rightarrow> uuid \<Rightarrow> string \<Rightarrow> string \<Rightarrow> operator_account io" where
  "create_operator E cfg v email name = bind (vendor_get_by_id E v) (\<lambda>x.
     if v_status x \<noteq> VApproved then fail (VendorErr ErrInvalidStatus)
     else bind (from_res (normalize_email cfg email)) (\<lambda>em.
       let dn = trim_space name in
       if dn = [] then fail (VendorErr ErrInvalidOperator)
       else case vc_provisioner cfg of
         None \<Rightarrow> fail (VendorErr ErrProvisioningSetup)
       | Some p \<Rightarrow> bind (provision p (IdpUpsert em dn v)) (\<lambda>(pr, sub, url).
           operator_upsert E \<lparr>oa_id = [], oa_vendor = v, oa_email = em, oa_name = dn, oa_provider = pr,
             oa_subject = string_ptr sub, oa_status = OpActive, oa_setup_url = string_ptr url,
             oa_synced_at = Some (e_now E), oa_created_at = 0, oa_updated_at = 0\<rparr>)))"

definition suspend_operator :: "env \<Rightarrow> vendor_config \<Rightarrow> uuid \<Rightarrow> uuid \<Rightarrow> unit io" where
  "suspend_operator E cfg v i = bind (operator_get E v i) (\<lambda>x.
     if oa_status x \<noteq> OpActive then fail (VendorErr ErrInvalidStatus)
     else bind (suspend_remote_operator cfg x) (\<lambda>_.
       bind (operator_set_status E v i OpSuspended) (\<lambda>_. revoke_by_email E cfg (oa_email x))))"

definition reinstate_operator :: "env \<Rightarrow> vendor_config \<Rightarrow> uuid \<Rightarrow> uuid \<Rightarrow> unit io" where
  "reinstate_operator E cfg v i = bind (vendor_get_by_id E v) (\<lambda>x.
     if v_status x \<noteq> VApproved then fail (VendorErr ErrInvalidStatus)
     else bind (operator_get E v i) (\<lambda>y.
       if oa_status y \<noteq> OpSuspended \<and> oa_status y \<noteq> OpVendorSuspended then fail (VendorErr ErrInvalidStatus)
       else bind (reinstate_remote_operator cfg y) (\<lambda>_. operator_set_status E v i OpActive)))"

lemmas vendors_runs [run_simps] = fun_cong [OF vendor_create_def] fun_cong [OF vendor_update_status_def]
  fun_cong [OF vendor_update_settings_def] fun_cong [OF vendor_update_contact_email_def]
  fun_cong [OF plants_set_window_def] fun_cong [OF plants_delete_others_def] fun_cong [OF plants_insert_def]
  fun_cong [OF plants_set_def] fun_cong [OF operator_get_def] fun_cong [OF operator_list_by_status_def]
  fun_cong [OF operator_upsert_def] fun_cong [OF operator_set_status_def] fun_cong [OF operator_set_statuses_def]
  fun_cong [OF provision_def] fun_cong [OF remote_def] fun_cong [OF remote_operator_def]
  fun_cong [OF suspend_remote_operator_def] fun_cong [OF reinstate_remote_operator_def]
  fun_cong [OF revoke_by_email_def] fun_cong [OF vendor_audit_def] fun_cong [OF create_pending_def]
  fun_cong [OF approve_def] fun_cong [OF suspend_def] fun_cong [OF reinstate_def] fun_cong [OF update_settings_def]
  fun_cong [OF update_profile_email_def] fun_cong [OF update_profile_plants_def] fun_cong [OF update_profile_def]
  fun_cong [OF list_plants_def] fun_cong [OF set_plant_window_def] fun_cong [OF create_operator_def]
  fun_cong [OF suspend_operator_def] fun_cong [OF reinstate_operator_def]

lemma ro_vendor_reads [ro_intros]:
  "ro (vendor_get_by_email E em)" "ro (vendor_list E sts)" "ro (list_vendors_for_plant E p)" "ro (operator_get E v i)"
  "ro (operator_list_by_vendor E v)" "ro (operator_list_by_status E v osts)" "ro (list_plants E i)"
  "ro (list_operators E v)" "ro (revoke_by_email E cfg em)"
  unfolding vendor_get_by_email_def vendor_list_def list_vendors_for_plant_def operator_get_def operator_list_by_vendor_def
    operator_list_by_status_def list_plants_def list_operators_def revoke_by_email_def
  by (intro ro_intros)+

lemma ro_remote [ro_intros]:
  "ro (provision p c)" "ro (remote p c)" "ro (remote_operator cfg call x)" "ro (suspend_remote_operator cfg x)"
  "ro (reinstate_remote_operator cfg x)"
proof -
  show "ro (provision p c)" by (auto simp: ro_def provision_def)
  show r: "ro (remote p c)" for p c by (auto simp: ro_def remote_def)
  show "ro (remote_operator cfg call x)" "ro (suspend_remote_operator cfg x)" "ro (reinstate_remote_operator cfg x)"
    unfolding suspend_remote_operator_def reinstate_remote_operator_def remote_operator_def by (intro ro_intros r)+
qed

end
