(* ===== verification/Anomalies.thy ===== *)
theory Anomalies
  imports Tables
begin

text \<open>
  The anomaly register, \<open>compliance/postgres/anomaly_repo.go\<close>: opening (an upsert on the open
  alert of the same kind and target), triaging and closing an alert. The invariant is the partial
  unique index of the table: at most one open alert per kind and target.
\<close>

section \<open>Statements\<close>

text \<open>The fields of a \<open>compliance.Anomaly\<close> its opener fills in.\<close>

record anomaly_input =
  ai_kind :: string
  ai_target_kind :: string
  ai_target :: string
  ai_severity :: "severity option"
  ai_payload :: payload
  ai_evidence :: "string list"

definition anomaly_key :: "anomaly \<Rightarrow> string \<times> string \<times> string" where
  "anomaly_key a = (an_kind a, an_target_kind a, an_target a)"

definition input_key :: "anomaly_input \<Rightarrow> string \<times> string \<times> string" where
  "input_key x = (ai_kind x, ai_target_kind x, ai_target x)"

definition input_severity :: "anomaly_input \<Rightarrow> severity" where
  "input_severity x = (case ai_severity x of None \<Rightarrow> Medium | Some s \<Rightarrow> s)"

definition opened_anomaly :: "anomaly_input \<Rightarrow> uuid \<Rightarrow> time \<Rightarrow> time \<Rightarrow> anomaly" where
  "opened_anomaly x i created updated = \<lparr>an_id = i, an_kind = ai_kind x, an_target_kind = ai_target_kind x,
     an_target = ai_target x, an_severity = input_severity x, an_status = AnomalyOpen,
     an_payload = ai_payload x, an_evidence = ai_evidence x, an_triaged_at = None, an_triaged_by = None,
     an_closed_at = None, an_closed_by = None, an_notes = '''', an_created_at = created, an_updated_at = updated\<rparr>"

definition refresh :: "anomaly_input \<Rightarrow> time \<Rightarrow> anomaly \<Rightarrow> anomaly" where
  "refresh x now a = a\<lparr>an_severity := input_severity x, an_payload := ai_payload x,
     an_evidence := ai_evidence x, an_updated_at := now\<rparr>"

definition open_for :: "anomaly_input \<Rightarrow> anomaly \<Rightarrow> bool" where
  "open_for x a \<longleftrightarrow> anomaly_key a = input_key x \<and> an_status a = AnomalyOpen"

text \<open>\<open>INSERT ... ON CONFLICT (kind, target_kind, target_id) WHERE status = 'open' DO UPDATE\<close>.\<close>

definition anomaly_open :: "env \<Rightarrow> anomaly_input \<Rightarrow> anomaly io" where
  "anomaly_open E x = exec E (\<lambda>w. let d = w_db w in
     case find (open_for x) (anomalies d) of
       Some a \<Rightarrow> Inr (opened_anomaly x (an_id a) (an_created_at a) (e_dbnow E),
         w\<lparr>w_db := d\<lparr>anomalies := sql_update (\<lambda>b. an_id b = an_id a) (refresh x (e_dbnow E)) (anomalies d)\<rparr>\<rparr>)
     | None \<Rightarrow> let a = opened_anomaly x (e_uuid E (w_tick w)) (e_dbnow E) (e_dbnow E) in
         if an_id a \<in> an_id ` set (anomalies d) then Inl unique_violation
         else Inr (a, w\<lparr>w_db := d\<lparr>anomalies := anomalies d @ [a]\<rparr>\<rparr>))"

definition anomaly_get_by_id :: "env \<Rightarrow> uuid \<Rightarrow> anomaly io" where
  "anomaly_get_by_id E i = get_row E anomalies an_id (ComplianceErr ErrAnomalyNotFound) i"

definition anomaly_list :: "env \<Rightarrow> anomaly_status list \<Rightarrow> severity list \<Rightarrow> anomaly list io" where
  "anomaly_list E statuses severities = select_rows E anomalies
     (\<lambda>a. (statuses = [] \<or> an_status a \<in> set statuses) \<and> (severities = [] \<or> an_severity a \<in> set severities))
     (sort_key (\<lambda>a. - an_created_at a))"

definition anomaly_user_check :: "(anomaly \<Rightarrow> uuid option) \<Rightarrow> db \<Rightarrow> anomaly \<Rightarrow> err option" where
  "anomaly_user_check who d a = checks [(\<not> fk_user d (who a), fk_violation)]"

definition triage_anomaly_tx :: "env \<Rightarrow> uuid \<Rightarrow> uuid \<Rightarrow> string \<Rightarrow> unit io" where
  "triage_anomaly_tx E i user notes =
     update_rows E anomalies anomalies_update (anomaly_user_check an_triaged_by)
       (Some (ComplianceErr ErrComplianceInvalidStatus))
       (\<lambda>a. an_id a = i \<and> an_status a = AnomalyOpen)
       (\<lambda>a. a\<lparr>an_status := AnomalyTriaged, an_triaged_at := Some (e_dbnow E), an_triaged_by := Some user,
              an_notes := notes, an_updated_at := e_dbnow E\<rparr>)"

definition close_anomaly_tx :: "env \<Rightarrow> uuid \<Rightarrow> uuid \<Rightarrow> string \<Rightarrow> unit io" where
  "close_anomaly_tx E i user notes =
     update_rows E anomalies anomalies_update (anomaly_user_check an_closed_by)
       (Some (ComplianceErr ErrComplianceInvalidStatus))
       (\<lambda>a. an_id a = i \<and> an_status a \<in> {AnomalyOpen, AnomalyTriaged})
       (\<lambda>a. a\<lparr>an_status := AnomalyClosed, an_closed_at := Some (e_dbnow E), an_closed_by := Some user,
              an_notes := (if notes = '''' then an_notes a else notes), an_updated_at := e_dbnow E\<rparr>)"

lemmas anomaly_runs [run_simps] = fun_cong [OF anomaly_open_def] fun_cong [OF anomaly_get_by_id_def]
  fun_cong [OF triage_anomaly_tx_def] fun_cong [OF close_anomaly_tx_def] anomaly_user_check_def
  opened_anomaly_def refresh_def open_for_def input_key_def anomaly_key_def input_severity_def

lemma ro_anomaly_reads [ro_intros]:
  "ro (anomaly_get_by_id E i)" "ro (anomaly_list E sts sevs)"
  unfolding anomaly_get_by_id_def anomaly_list_def by (intro ro_intros)+

lemma atomic_anomaly_statements [atomic_intros]:
  "atomic (anomaly_open E x)" "atomic (triage_anomaly_tx E i u n)" "atomic (close_anomaly_tx E i u n)"
  unfolding anomaly_open_def triage_anomaly_tx_def close_anomaly_tx_def by (intro atomic_intros)+

section \<open>The register\<close>

definition open_keys :: "db \<Rightarrow> (string \<times> string \<times> string) list" where
  "open_keys d = map anomaly_key (filter (\<lambda>a. an_status a = AnomalyOpen) (anomalies d))"

definition anomaly_inv :: "db \<Rightarrow> bool" where
  "anomaly_inv d \<longleftrightarrow> distinct (map an_id (anomalies d)) \<and> distinct (open_keys d)"

lemma refresh_simps [simp]:
  "an_id (refresh x t a) = an_id a" "anomaly_key (refresh x t a) = anomaly_key a"
  "an_status (refresh x t a) = an_status a" "an_severity (refresh x t a) = input_severity x"
  "an_payload (refresh x t a) = ai_payload x" "an_created_at (refresh x t a) = an_created_at a"
  by (simp_all add: refresh_def anomaly_key_def)

lemma opened_simps [simp]:
  "an_id (opened_anomaly x i c u) = i" "anomaly_key (opened_anomaly x i c u) = input_key x"
  "an_status (opened_anomaly x i c u) = AnomalyOpen" "an_severity (opened_anomaly x i c u) = input_severity x"
  "an_payload (opened_anomaly x i c u) = ai_payload x"
  by (simp_all add: opened_anomaly_def anomaly_key_def input_key_def)

text \<open>Rows that keep key and status keep the index; rows that leave the open status shrink it.\<close>

lemma open_keys_kept:
  assumes "\<And>a. P a \<Longrightarrow> anomaly_key (f a) = anomaly_key a \<and> an_status (f a) = an_status a"
  shows "map anomaly_key (filter (\<lambda>a. an_status a = AnomalyOpen) (sql_update P f rows))
    = map anomaly_key (filter (\<lambda>a. an_status a = AnomalyOpen) rows)"
  by (induction rows) (auto simp: assms)

lemma open_keys_shrunk:
  assumes "\<And>a. P a \<Longrightarrow> an_status (f a) \<noteq> AnomalyOpen"
  shows "map anomaly_key (filter (\<lambda>a. an_status a = AnomalyOpen) (sql_update P f rows))
    = map anomaly_key (filter (\<lambda>a. an_status a = AnomalyOpen \<and> \<not> P a) rows)"
  by (induction rows) (auto simp: assms)

lemma distinct_map_filter_less:
  "distinct (map f (filter P xs)) \<Longrightarrow> distinct (map f (filter (\<lambda>x. P x \<and> Q x) xs))"
  by (induction xs) (auto split: if_splits)

lemma find_open_None: "find (open_for x) (anomalies d) = None \<Longrightarrow> input_key x \<notin> set (open_keys d)"
  by (auto simp: find_None_iff open_for_def open_keys_def)

text \<open>What an opening does: the one open alert of its key now carries the given severity and payload.\<close>

definition alert_for :: "anomaly_input \<Rightarrow> anomaly \<Rightarrow> bool" where
  "alert_for x a \<longleftrightarrow> open_for x a \<and> an_severity a = input_severity x \<and> an_payload a = ai_payload x"

lemma anomaly_open_ok:
  assumes inv: "anomaly_inv (w_db w)" and run: "anomaly_open E x w = (Inr a, w')"
  shows "anomaly_inv (w_db w')"
    and "\<exists>b\<in>set (anomalies (w_db w')). alert_for x b \<and> an_id b = an_id a"
    and "\<And>b. b \<in> set (anomalies (w_db w')) \<Longrightarrow> \<not> open_for x b \<Longrightarrow> b \<in> set (anomalies (w_db w))"
    and "\<And>b. b \<in> set (anomalies (w_db w)) \<Longrightarrow> \<not> open_for x b \<Longrightarrow> b \<in> set (anomalies (w_db w'))"
    and "set (open_keys (w_db w')) = insert (input_key x) (set (open_keys (w_db w)))"
    and "\<exists>rs. w_db w' = (w_db w)\<lparr>anomalies := rs\<rparr>"
proof -
  let ?d = "w_db w"
  have "anomaly_inv (w_db w') \<and> (\<exists>b\<in>set (anomalies (w_db w')). alert_for x b \<and> an_id b = an_id a)
    \<and> (\<forall>b. \<not> open_for x b \<longrightarrow> (b \<in> set (anomalies (w_db w')) \<longleftrightarrow> b \<in> set (anomalies ?d)))
    \<and> set (open_keys (w_db w')) = insert (input_key x) (set (open_keys ?d))
    \<and> (\<exists>rs. w_db w' = ?d\<lparr>anomalies := rs\<rparr>)"
  proof (cases "find (open_for x) (anomalies ?d)")
    case None
    with run have a: "an_id a \<notin> an_id ` set (anomalies ?d)" "an_status a = AnomalyOpen"
        "anomaly_key a = input_key x" "alert_for x a"
      and d': "w_db w' = ?d\<lparr>anomalies := anomalies ?d @ [a]\<rparr>"
      by (auto simp: anomaly_open_def io_simps Let_def alert_for_def open_for_def split: if_splits)
    have "open_for x a" using a(4) by (simp add: alert_for_def)
    with a d' find_open_None [OF None] inv show ?thesis
      by (auto simp: anomaly_inv_def open_keys_def)
  next
    case (Some b)
    then have b: "b \<in> set (anomalies ?d)" "open_for x b" by (auto simp: find_Some_iff)
    from run Some have a: "an_id a = an_id b"
      and d': "w_db w' = ?d\<lparr>anomalies := sql_update (\<lambda>c. an_id c = an_id b) (refresh x (e_dbnow E)) (anomalies ?d)\<rparr>"
      by (auto simp: anomaly_open_def io_simps Let_def)
    have only: "c = b" if "c \<in> set (anomalies ?d)" "an_id c = an_id b" for c
      using inv that b(1) unfolding anomaly_inv_def by (metis distinct_map inj_on_def)
    have r: "alert_for x (refresh x (e_dbnow E) b)"
      using b(2) by (simp add: alert_for_def open_for_def)
    have keys: "open_keys (w_db w') = open_keys ?d"
      unfolding d' open_keys_def by (simp add: open_keys_kept)
    have others: "c \<in> set (anomalies (w_db w')) \<longleftrightarrow> c \<in> set (anomalies ?d)" if "\<not> open_for x c" for c
      using that b only r by (auto simp: d' set_sql_update alert_for_def image_iff)
    have "input_key x \<in> set (open_keys ?d)" using b by (auto simp: open_keys_def open_for_def image_iff intro!: bexI [of _ b])
    moreover have "\<exists>c\<in>set (anomalies (w_db w')). alert_for x c \<and> an_id c = an_id a"
    proof (intro bexI conjI)
      show "refresh x (e_dbnow E) b \<in> set (anomalies (w_db w'))"
        unfolding d' by (simp add: set_sql_update) (rule image_eqI [of _ _ b], simp_all add: b(1))
    qed (simp_all add: r a)
    ultimately show ?thesis
      using inv keys others d' by (auto simp: anomaly_inv_def map_sql_update)
  qed
  then show "anomaly_inv (w_db w')"
    "\<exists>b\<in>set (anomalies (w_db w')). alert_for x b \<and> an_id b = an_id a"
    "\<And>b. b \<in> set (anomalies (w_db w')) \<Longrightarrow> \<not> open_for x b \<Longrightarrow> b \<in> set (anomalies ?d)"
    "\<And>b. b \<in> set (anomalies ?d) \<Longrightarrow> \<not> open_for x b \<Longrightarrow> b \<in> set (anomalies (w_db w'))"
    "set (open_keys (w_db w')) = insert (input_key x) (set (open_keys ?d))"
    "\<exists>rs. w_db w' = ?d\<lparr>anomalies := rs\<rparr>"
    by blast+
qed

lemma keeps_anomaly_open [keeps_intros]: "keeps anomaly_inv (anomaly_open E x)"
  by (rule keeps_of_ok [OF atomic_anomaly_statements(1)]) (rule anomaly_open_ok(1))

lemma keeps_leave_open:
  assumes "\<And>a. P a \<Longrightarrow> an_status (f a) \<noteq> AnomalyOpen" "\<And>a. an_id (f a) = an_id a"
  shows "keeps anomaly_inv (update_rows E anomalies anomalies_update chk (Some e) P f)"
proof (rule keeps_of_ok [OF atomic_table_writes(2)])
  fix w a w'
  assume inv: "anomaly_inv (w_db w)"
    and run: "update_rows E anomalies anomalies_update chk (Some e) P f w = (Inr a, w')"
  have "w_db w' = (w_db w)\<lparr>anomalies := sql_update P f (anomalies (w_db w))\<rparr>"
    using update_rows_ok(1) [of E anomalies anomalies_update chk e P f w w'] run by simp
  with inv show "anomaly_inv (w_db w')"
    by (simp add: anomaly_inv_def open_keys_def open_keys_shrunk assms map_sql_update distinct_map_filter_less)
qed

lemma keeps_anomaly_moves [keeps_intros]:
  "keeps anomaly_inv (triage_anomaly_tx E i u n)" "keeps anomaly_inv (close_anomaly_tx E i u n)"
  unfolding triage_anomaly_tx_def close_anomaly_tx_def by (rule keeps_leave_open, auto)+

text \<open>An alert is triaged once and closed once.\<close>

interpretation anomaly_tbl: table anomalies anomalies_update an_id by unfold_locales simp

definition anomaly_status_at :: "db \<Rightarrow> uuid \<Rightarrow> anomaly_status option" where
  "anomaly_status_at d i = map_option an_status (by_key an_id i (anomalies d))"

lemma anomaly_check_db: "anomaly_user_check who d a = Some y \<Longrightarrow> \<exists>p. y = DbErr p"
  by (auto simp: anomaly_user_check_def checks_run split: if_splits)

interpretation triage: guarded_update "\<lambda>i. triage_anomaly_tx E i u n" anomaly_status_at
    "\<lambda>d. distinct (map an_id (anomalies d))" "\<lambda>s. s = AnomalyOpen" AnomalyTriaged
    "ComplianceErr ErrComplianceInvalidStatus" for E u n
  unfolding triage_anomaly_tx_def anomaly_status_at_def anomaly_tbl.keyed_def [symmetric]
  by (rule anomaly_tbl.guarded) (auto dest: anomaly_check_db)

interpretation closing: guarded_update "\<lambda>i. close_anomaly_tx E i u n" anomaly_status_at
    "\<lambda>d. distinct (map an_id (anomalies d))" "\<lambda>s. s \<in> {AnomalyOpen, AnomalyTriaged}" AnomalyClosed
    "ComplianceErr ErrComplianceInvalidStatus" for E u n
  unfolding close_anomaly_tx_def anomaly_status_at_def anomaly_tbl.keyed_def [symmetric]
  by (rule anomaly_tbl.guarded) (auto dest: anomaly_check_db)

end
