(* ===== verification/Objects.thy ===== *)
theory Objects
  imports Main
begin

text \<open>
  What the program knows of the object store, \<open>platform/storage/s3.go\<close>: the canonical URI it
  records for an object it has uploaded. The S3 client behind it is a third-party library; the
  operations that upload take its answers as a parameter.
\<close>

definition object_uri :: "string \<Rightarrow> string \<Rightarrow> string" where
  "object_uri bucket key = ''s3://'' @ bucket @ ''/'' @ key"

lemma object_uri_inj: "object_uri b k = object_uri b k' \<longleftrightarrow> k = k'"
  by (simp add: object_uri_def)

end
