(* ===== verification/Documents.thy ===== *)
theory Documents
  imports Vendors Anomalies Objects
begin

text \<open>
  Vendor documents and their governance, \<open>compliance\<close>: the document repository, the upload,
  review and listing of documents, the vendor's own compliance view with its warnings, and the
  triage of anomalies with the governance actions it may carry out. Kinds are the values of the
  SQL enumeration; an expiry date is a DATE, read back as midnight UTC.

  The object store is outside the repository: whether it accepts the bytes under a key is a
  parameter, and an accepted upload stays when the transaction after it fails.
\<close>

section \<open>The repository\<close>

text \<open>The fields of a \<open>compliance.Document\<close> its creator fills in; no status means pending.\<close>

record document_input =
  di_vendor :: uuid
  di_kind :: document_kind
  di_uri :: string
  di_filename :: string
  di_uploaded_by :: "uuid option"
  di_expires :: "date option"
  di_status :: "document_status option"
  di_notes :: string
  di_supersedes :: "uuid option"

definition document_row :: "document_input \<Rightarrow> time \<Rightarrow> uuid \<Rightarrow> document" where
  "document_row x now i = \<lparr>dc_id = i, dc_vendor = di_vendor x, dc_kind = di_kind x, dc_uri = di_uri x,
     dc_filename = di_filename x, dc_uploaded_by = di_uploaded_by x, dc_expires = di_expires x,
     dc_status = (case di_status x of None \<Rightarrow> DocPending | Some s \<Rightarrow> s), dc_reviewed_by = None,
     dc_reviewed_at = None, dc_notes = di_notes x, dc_supersedes = di_supersedes x,
     dc_created_at = now, dc_updated_at = now\<rparr>"

definition fk_document :: "db \<Rightarrow> uuid option \<Rightarrow> bool" where
  "fk_document d i = (case i of None \<Rightarrow> True | Some k \<Rightarrow> list_ex (\<lambda>x. dc_id x = k) (documents d))"

definition document_check :: "db \<Rightarrow> document \<Rightarrow> err option" where
  "document_check d x = checks
     [(dc_id x \<in> dc_id ` set (documents d), unique_violation),
      (\<not> fk_vendor d (Some (dc_vendor x)) \<or> \<not> fk_user d (dc_uploaded_by x) \<or> \<not> fk_document d (dc_supersedes x),
       fk_violation)]"

definition document_create :: "env \<Rightarrow> document_input \<Rightarrow> document io" where
  "document_create E x = insert_row E documents_update document_check (document_row x (e_dbnow E))"

definition document_get :: "env \<Rightarrow> uuid \<Rightarrow> document io" where
  "document_get E i = get_row E documents dc_id (ComplianceErr ErrDocumentNotFound) i"

definition document_list_by_vendor :: "env \<Rightarrow> uuid \<Rightarrow> bool \<Rightarrow> document list io" where
  "document_list_by_vendor E v includeAll = select_rows E documents
     (\<lambda>x. dc_vendor x = v \<and> (includeAll \<or> dc_status x \<noteq> DocExpired)) (sort_key (\<lambda>x. - dc_created_at x))"

definition reviewer_check :: "db \<Rightarrow> document \<Rightarrow> err option" where
  "reviewer_check d x = checks [(\<not> fk_user d (dc_reviewed_by x), fk_violation)]"

definition reviewed :: "env \<Rightarrow> document_status \<Rightarrow> uuid option \<Rightarrow> string \<Rightarrow> document \<Rightarrow> document" where
  "reviewed E st by notes x = x\<lparr>dc_status := st, dc_reviewed_by := by, dc_reviewed_at := Some (e_dbnow E),
     dc_notes := notes, dc_updated_at := e_dbnow E\<rparr>"

definition document_update_status :: "env \<Rightarrow> uuid \<Rightarrow> document_status \<Rightarrow> uuid option \<Rightarrow> string \<Rightarrow> unit io" where
  "document_update_status E i st by notes =
     update_rows E documents documents_update reviewer_check (Some (ComplianceErr ErrDocumentNotFound))
       (\<lambda>x. dc_id x = i) (reviewed E st by notes)"

text \<open>The parameter of these comparisons with a DATE column is sent as a date.\<close>

definition approved_until :: "(date \<Rightarrow> bool) \<Rightarrow> document \<Rightarrow> bool" where
  "approved_until P x \<longleftrightarrow> dc_status x = DocApproved \<and> (case dc_expires x of None \<Rightarrow> False | Some e \<Rightarrow> P e)"

definition by_expiry :: "document list \<Rightarrow> document list" where
  "by_expiry = sort_key (\<lambda>x. case dc_expires x of None \<Rightarrow> 0 | Some e \<Rightarrow> e)"

definition list_expiring_before :: "env \<Rightarrow> time \<Rightarrow> document list io" where
  "list_expiring_before E t = select_rows E documents (approved_until (\<lambda>e. e \<le> utc_day t)) by_expiry"

definition list_past_expiry :: "env \<Rightarrow> time \<Rightarrow> document list io" where
  "list_past_expiry E t = select_rows E documents (approved_until (\<lambda>e. e < utc_day t)) by_expiry"

section \<open>Uploading\<close>

definition validate_resupply_target :: "document \<Rightarrow> uuid \<Rightarrow> err + unit" where
  "validate_resupply_target target v =
     (if dc_vendor target \<noteq> v then Inl (ComplianceErr ErrInvalidResupply)
      else if dc_status target = DocPending then Inl (ComplianceErr ErrInvalidResupply)
      else Inr ())"

definition sanitize_doc_filename :: "string \<Rightarrow> err + string" where
  "sanitize_doc_filename name = (let trimmed = trim_space name in
     if trimmed = '''' then Inl (ComplianceErr ErrInvalidFilename)
     else let base = path_base trimmed in
       if base = ''.'' \<or> base = ''..'' \<or> base = ''/'' then Inl (ComplianceErr ErrInvalidFilename)
       else Inr base)"

definition max_document_bytes :: nat where
  "max_document_bytes = 10 * 2 ^ 20"

text \<open>The bytes a reader delivers, and whether it then reports an error instead of the end.\<close>

record upload_body =
  ub_data :: string
  ub_breaks :: bool

text \<open>\<open>io.ReadAll(io.LimitReader(body, n))\<close>: an error after the limit is not reached.\<close>

definition read_limited :: "nat \<Rightarrow> upload_body \<Rightarrow> string option" where
  "read_limited n b = (if n \<le> length (ub_data b) then Some (take n (ub_data b))
     else if ub_breaks b then None else Some (ub_data b))"

record upload =
  up_vendor :: uuid
  up_kind :: document_kind
  up_filename :: string
  up_body :: upload_body
  up_expires :: "date option"
  up_by :: uuid
  up_role :: "user_role option"
  up_supersedes :: "uuid option"

definition check_supersedes :: "env \<Rightarrow> upload \<Rightarrow> unit io" where
  "check_supersedes E u = (case up_supersedes u of
     None \<Rightarrow> ret ()
   | Some i \<Rightarrow> bind (document_get E i) (\<lambda>target. from_res (validate_resupply_target target (up_vendor u))))"

text \<open>What happens before the upload: the file name and the bytes to store.\<close>

definition upload_prepare :: "env \<Rightarrow> upload \<Rightarrow> (string \<times> string) io" where
  "upload_prepare E u = bind (check_supersedes E u) (\<lambda>_.
     bind (from_res (sanitize_doc_filename (up_filename u))) (\<lambda>filename.
     case read_limited (max_document_bytes + 1) (up_body u) of
       None \<Rightarrow> fail (ComplianceErr ErrReadUpload)
     | Some buf \<Rightarrow> if max_document_bytes < length buf then fail (ComplianceErr ErrFileTooLarge)
         else ret (filename, buf)))"

definition document_key :: "uuid \<Rightarrow> time \<Rightarrow> string \<Rightarrow> string" where
  "document_key v now filename = ''vendor-docs/'' @ v @ ''/'' @ int_text now @ ''-'' @ filename"

definition upload_payload :: "upload \<Rightarrow> string \<Rightarrow> string \<Rightarrow> nat \<Rightarrow> payload" where
  "upload_payload u filename uri n = [(''vendor_id'', JStr (up_vendor u)), (''kind'', JStr (document_kind_text (up_kind u))),
     (''filename'', JStr filename), (''uri'', JStr uri), (''size_bytes'', JInt (int n))]
     @ (case up_supersedes u of None \<Rightarrow> [] | Some i \<Rightarrow> [(''supersedes'', JStr i)])"

definition upload_body_tx :: "env \<Rightarrow> upload \<Rightarrow> string \<Rightarrow> string \<Rightarrow> nat \<Rightarrow> document io" where
  "upload_body_tx E u filename uri n =
     bind (document_create E \<lparr>di_vendor = up_vendor u, di_kind = up_kind u, di_uri = uri, di_filename = filename,
       di_uploaded_by = Some (up_by u), di_expires = up_expires u, di_status = Some DocPending, di_notes = '''',
       di_supersedes = up_supersedes u\<rparr>) (\<lambda>x.
     bind (audit_write_tx E (audit_of (Some (up_by u))
       (Some (case up_role u of None \<Rightarrow> WelfareAdmin | Some r \<Rightarrow> r)) ''vendor_document.upload'' ''vendor_document''
       (dc_id x) (upload_payload u filename uri n))) (\<lambda>_. ret x))"

record archive =
  ar_world :: world
  ar_objects :: "(string \<times> string) list"

definition upload_document ::
    "env \<Rightarrow> string \<Rightarrow> (string \<Rightarrow> string \<Rightarrow> bool) \<Rightarrow> upload \<Rightarrow> archive \<Rightarrow> (err + document) \<times> archive" where
  "upload_document E bucket put u s =
     (case upload_prepare E u (ar_world s) of
        (Inl e, w1) \<Rightarrow> (Inl e, s\<lparr>ar_world := w1\<rparr>)
      | (Inr (filename, buf), w1) \<Rightarrow>
          (let key = document_key (up_vendor u) (e_now E) filename in
           if \<not> put key buf then (Inl (ComplianceErr ErrDocumentUpload), s\<lparr>ar_world := w1\<rparr>)
           else (case begin_func E (\<lambda>_. upload_body_tx E u filename (object_uri bucket key) (length buf)) w1 of
              (r, w2) \<Rightarrow> (r, \<lparr>ar_world = w2, ar_objects = AList.update key buf (ar_objects s)\<rparr>))))"

section \<open>Reviewing\<close>

definition review_body :: "env \<Rightarrow> uuid \<Rightarrow> uuid \<Rightarrow> document_status \<Rightarrow> string \<Rightarrow> unit io" where
  "review_body E i reviewer st notes =
     (let pl = [(''document_id'', JStr i), (''status'', JStr (document_status_text st)), (''notes'', JStr notes)] in
      bind (document_update_status E i st (Some reviewer) notes) (\<lambda>_.
      bind (outbox_append_tx E ''vendor_document'' i ''vendor.document_reviewed.v1'' pl []) (\<lambda>_.
      audit_write_tx E (audit_of (Some reviewer) (Some WelfareAdmin) ''vendor_document.review'' ''vendor_document'' i pl))))"

definition review_document :: "env \<Rightarrow> uuid \<Rightarrow> uuid \<Rightarrow> document_status \<Rightarrow> string \<Rightarrow> unit io" where
  "review_document E i reviewer st notes =
     (if st \<noteq> DocApproved \<and> st \<noteq> DocRejected then fail (ComplianceErr ErrComplianceInvalidStatus)
      else begin_func E (\<lambda>_. review_body E i reviewer st notes))"

definition list_vendor_documents :: "env \<Rightarrow> uuid \<Rightarrow> bool \<Rightarrow> document list io" where
  "list_vendor_documents E v includeAll = document_list_by_vendor E v includeAll"

section \<open>The vendor's compliance view\<close>

datatype warning_kind = DocumentRejected | DocumentExpired | DocumentExpiring | DocumentMissing

fun warning_text :: "warning_kind \<Rightarrow> string" where
  "warning_text DocumentRejected = ''document_rejected''"
| "warning_text DocumentExpired = ''document_expired''"
| "warning_text DocumentExpiring = ''document_expiring''"
| "warning_text DocumentMissing = ''document_missing''"

record warning =
  wn_kind :: warning_kind
  wn_message :: string
  wn_severity :: severity

definition expiring_window_days :: int where
  "expiring_window_days = 30"

definition required_document_kinds :: "document_kind list" where
  "required_document_kinds = [BusinessLicense, FoodSafetyPermit, TaxRegistration, Insurance]"

text \<open>The messages, in UTF-8: the kind between the Chinese text before and after it.\<close>

definition msg_file :: string where
  "msg_file = bytes [0xE6, 0x96, 0x87, 0xE4, 0xBB, 0xB6, 0xE3, 0x80, 0x8C]"
definition msg_required :: string where
  "msg_required = bytes [0xE5, 0xBF, 0x85, 0xE7, 0xB9, 0xB3, 0xE6, 0x96, 0x87, 0xE4, 0xBB, 0xB6, 0xE3, 0x80,
     0x8C]"
definition msg_rejected :: string where
  "msg_rejected = bytes [0xE3, 0x80, 0x8D, 0xE5, 0xB7, 0xB2, 0xE8, 0xA2, 0xAB, 0xE9, 0xA7, 0x81, 0xE5, 0x9B,
     0x9E, 0xEF, 0xBC, 0x8C, 0xE8, 0xAB, 0x8B, 0xE6, 0x9B, 0xB4, 0xE6, 0xAD, 0xA3, 0xE5, 0xBE,
     0x8C, 0xE9, 0x87, 0x8D, 0xE6, 0x96, 0xB0, 0xE6, 0x8F, 0x90, 0xE4, 0xBA, 0xA4, 0xE3, 0x80,
     0x82]"
definition msg_expired :: string where
  "msg_expired = bytes [0xE3, 0x80, 0x8D, 0xE5, 0xB7, 0xB2, 0xE9, 0x81, 0x8E, 0xE6, 0x9C, 0x9F, 0xEF, 0xBC,
     0x8C, 0xE8, 0xAB, 0x8B, 0xE5, 0x84, 0x98, 0xE9, 0x80, 0x9F, 0xE6, 0x9B, 0xB4, 0xE6, 0x96,
     0xB0, 0xE3, 0x80, 0x82]"
definition msg_expiring :: string where
  "msg_expiring = bytes [0xE3, 0x80, 0x8D, 0xE5, 0xB0, 0x87, 0xE6, 0x96, 0xBC] @ '' 30 '' @ bytes [0xE5, 0xA4, 0xA9, 0xE5, 0x85, 0xA7, 0xE5, 0x88, 0xB0, 0xE6, 0x9C, 0x9F, 0xEF, 0xBC,
     0x8C, 0xE8, 0xAB, 0x8B, 0xE6, 0x8F, 0x90, 0xE5, 0x89, 0x8D, 0xE6, 0xBA, 0x96, 0xE5, 0x82,
     0x99, 0xE6, 0x9B, 0xB4, 0xE6, 0x96, 0xB0, 0xE3, 0x80, 0x82]"
definition msg_missing :: string where
  "msg_missing = bytes [0xE3, 0x80, 0x8D, 0xE5, 0xB0, 0x9A, 0xE6, 0x9C, 0xAA, 0xE4, 0xB8, 0x8A, 0xE5, 0x82,
     0xB3, 0xE3, 0x80, 0x82]"

definition doc_warnings :: "time \<Rightarrow> document \<Rightarrow> warning list" where
  "doc_warnings now x =
     (if dc_status x = DocRejected
      then [\<lparr>wn_kind = DocumentRejected, wn_message = msg_file @ document_kind_text (dc_kind x) @ msg_rejected,
             wn_severity = High\<rparr>] else []) @
     (if dc_status x \<noteq> DocApproved then []
      else case dc_expires x of
        None \<Rightarrow> []
      | Some e \<Rightarrow>
          if midnight_utc e < now
          then [\<lparr>wn_kind = DocumentExpired, wn_message = msg_file @ document_kind_text (dc_kind x) @ msg_expired,
                 wn_severity = High\<rparr>]
          else if \<not> now + expiring_window_days * day_ns < midnight_utc e
          then [\<lparr>wn_kind = DocumentExpiring, wn_message = msg_file @ document_kind_text (dc_kind x) @ msg_expiring,
                 wn_severity = Medium\<rparr>]
          else [])"

definition missing_warnings :: "document list \<Rightarrow> warning list" where
  "missing_warnings docs = map (\<lambda>k. \<lparr>wn_kind = DocumentMissing,
       wn_message = msg_required @ document_kind_text k @ msg_missing, wn_severity = High\<rparr>)
     (filter (\<lambda>k. k \<notin> dc_kind ` set docs) required_document_kinds)"

definition compute_warnings :: "document list \<Rightarrow> time \<Rightarrow> warning list" where
  "compute_warnings docs now = concat (map (doc_warnings now) docs) @ missing_warnings docs"

record compliance_summary =
  cs_vendor :: uuid
  cs_name :: string
  cs_status :: vendor_status
  cs_documents :: "document list"
  cs_warnings :: "warning list"

definition merchant_compliance :: "env \<Rightarrow> uuid \<Rightarrow> compliance_summary io" where
  "merchant_compliance E v = bind (vendor_get_by_id E v) (\<lambda>x.
     bind (list_vendor_documents E v False) (\<lambda>docs.
     ret \<lparr>cs_vendor = v_id x, cs_name = v_name x, cs_status = v_status x, cs_documents = docs,
       cs_warnings = compute_warnings docs (e_now E)\<rparr>))"

section \<open>Anomaly governance\<close>

text \<open>The governance actions a triage may carry out.\<close>

definition action_none :: string where "action_none = ''''"
definition action_warn :: string where "action_warn = ''warn''"
definition action_suspend :: string where "action_suspend = ''suspend''"

definition apply_triage_tx :: "env \<Rightarrow> anomaly \<Rightarrow> uuid \<Rightarrow> uuid \<Rightarrow> string \<Rightarrow> string \<Rightarrow> unit io" where
  "apply_triage_tx E a i by notes action = bind (triage_anomaly_tx E i by notes) (\<lambda>_.
     bind (audit_write_tx E (audit_of (Some by) (Some WelfareAdmin) ''anomaly.triage'' ''anomaly_alert'' i
       [(''anomaly_id'', JStr i), (''notes'', JStr notes), (''action'', JStr action)])) (\<lambda>_.
     if action = action_warn \<and> an_target_kind a = ''vendor''
     then audit_write_tx E (audit_of (Some by) (Some WelfareAdmin) ''vendor.warning'' ''vendor'' (an_target a)
       [(''anomaly_id'', JStr i), (''anomaly_kind'', JStr (an_kind a)), (''notes'', JStr notes)])
     else ret ()))"

text \<open>\<open>gov\<close> is the vendor service anomaly governance is wired to, if any.\<close>

definition carry_out :: "env \<Rightarrow> vendor_config option \<Rightarrow> anomaly \<Rightarrow> uuid \<Rightarrow> string \<Rightarrow> unit io" where
  "carry_out E gov a by action = (case gov of
     None \<Rightarrow> ret ()
   | Some cfg \<Rightarrow>
       if action = action_suspend \<and> an_target_kind a = ''vendor''
       then bind (attempt (suspend E cfg (an_target a) by)) (\<lambda>r. case r of
           Inl e \<Rightarrow> if e = VendorErr ErrInvalidStatus then ret () else fail e
         | Inr _ \<Rightarrow> ret ())
       else ret ())"

definition triage_anomaly :: "env \<Rightarrow> vendor_config option \<Rightarrow> uuid \<Rightarrow> uuid \<Rightarrow> string \<Rightarrow> string \<Rightarrow> unit io" where
  "triage_anomaly E gov i by notes action =
     (if action \<noteq> action_none \<and> action \<noteq> action_warn \<and> action \<noteq> action_suspend then fail (ComplianceErr ErrInvalidAction)
      else bind (anomaly_get_by_id E i) (\<lambda>a.
        bind (begin_func E (\<lambda>_. apply_triage_tx E a i by notes action)) (\<lambda>_.
        carry_out E gov a by action)))"

definition close_anomaly :: "env \<Rightarrow> uuid \<Rightarrow> uuid \<Rightarrow> string \<Rightarrow> unit io" where
  "close_anomaly E i by notes = begin_func E (\<lambda>_. bind (close_anomaly_tx E i by notes) (\<lambda>_.
     audit_write_tx E (audit_of (Some by) (Some WelfareAdmin) ''anomaly.close'' ''anomaly_alert'' i
       [(''anomaly_id'', JStr i), (''notes'', JStr notes)])))"

definition open_anomaly :: "env \<Rightarrow> anomaly_input \<Rightarrow> anomaly io" where
  "open_anomaly E x = anomaly_open E x"

definition list_anomalies :: "env \<Rightarrow> anomaly_status list \<Rightarrow> severity list \<Rightarrow> anomaly list io" where
  "list_anomalies E sts sevs = anomaly_list E sts sevs"

definition get_anomaly :: "env \<Rightarrow> uuid \<Rightarrow> anomaly io" where
  "get_anomaly E i = anomaly_get_by_id E i"

lemmas document_runs [run_simps] = fun_cong [OF document_create_def] fun_cong [OF document_get_def]
  fun_cong [OF document_update_status_def] fun_cong [OF list_expiring_before_def] fun_cong [OF list_past_expiry_def]
  fun_cong [OF check_supersedes_def] fun_cong [OF upload_prepare_def] fun_cong [OF upload_body_tx_def]
  fun_cong [OF review_body_def] fun_cong [OF review_document_def] fun_cong [OF apply_triage_tx_def]
  fun_cong [OF carry_out_def] fun_cong [OF triage_anomaly_def] fun_cong [OF close_anomaly_def]

lemma ro_document_reads [ro_intros]:
  "ro (document_get E i)" "ro (document_list_by_vendor E v b)" "ro (list_expiring_before E t)" "ro (list_past_expiry E t)"
  "ro (list_vendor_documents E v b)" "ro (merchant_compliance E v)" "ro (check_supersedes E u)" "ro (upload_prepare E u)"
  unfolding document_get_def document_list_by_vendor_def list_expiring_before_def list_past_expiry_def
    list_vendor_documents_def merchant_compliance_def check_supersedes_def upload_prepare_def
  by (intro ro_intros ro_catalog)+

lemma atomic_document_ops [atomic_intros]:
  "atomic (document_create E x)" "atomic (document_update_status E i st by notes)" "atomic (review_document E i r st notes)"
  "atomic (close_anomaly E i u notes)" "atomic (open_anomaly E y)"
  unfolding document_create_def document_update_status_def review_document_def close_anomaly_def open_anomaly_def
  by (intro atomic_intros)+

end
