(* ===== verification/Session_Props.thy ===== *)
theory Session_Props
  imports Identity Scenario
begin

text \<open>
  The life of a session. \<open>sessions_reach\<close> is the state machine of the Redis store: every sequence of
  operations of the session store and of the login states, one after another, each with faults at any
  of its commands, with the tokens handed out so far. Its invariant says that the index of a user's
  tokens is complete, which is what revocation rests on. Operations that overlap are not sequences of
  it: \<open>touch_undoes_revocation\<close> and \<open>create_escapes_revocation\<close> show what two overlaps do.
\<close>

section \<open>The store as a state machine\<close>

text \<open>A token is drawn at random: it differs from those handed out before.\<close>

inductive sessions_reach :: "string list \<Rightarrow> cache \<Rightarrow> bool" where
  Empty: "sessions_reach [] []"
| Created: "sessions_reach ts (w_cache w) \<Longrightarrow> session_create E ttl u r w = (Inr s, w') \<Longrightarrow>
    new_token E w \<notin> set ts \<Longrightarrow> sessions_reach (ss_token s # ts) (w_cache w')"
| Not_Created: "sessions_reach ts (w_cache w) \<Longrightarrow> session_create E ttl u r w = (Inl e, w') \<Longrightarrow>
    new_token E w \<notin> set ts \<Longrightarrow> sessions_reach ts (w_cache w')"
| Touched: "sessions_reach ts (w_cache w) \<Longrightarrow> session_touch E ttl t w = (x, w') \<Longrightarrow> sessions_reach ts (w_cache w')"
| Revoked: "sessions_reach ts (w_cache w) \<Longrightarrow> session_revoke E t w = (x, w') \<Longrightarrow> sessions_reach ts (w_cache w')"
| Revoked_All: "sessions_reach ts (w_cache w) \<Longrightarrow> session_revoke_all E u w = (x, w') \<Longrightarrow> sessions_reach ts (w_cache w')"
| Issued: "sessions_reach ts (w_cache w) \<Longrightarrow> issue_code E t w = (y, w') \<Longrightarrow> sessions_reach ts (w_cache w')"
| Redeemed: "sessions_reach ts (w_cache w) \<Longrightarrow> redeem_code E c w = (y, w') \<Longrightarrow> sessions_reach ts (w_cache w')"
| State_Put: "sessions_reach ts (w_cache w) \<Longrightarrow> state_put E ttl st p w = (x, w') \<Longrightarrow> sessions_reach ts (w_cache w')"
| State_Consumed: "sessions_reach ts (w_cache w) \<Longrightarrow> state_consume E ttl st w = (x, w') \<Longrightarrow> sessions_reach ts (w_cache w')"

text \<open>The tokens filed for a user, and whom a token stands for.\<close>

definition index_of :: "cache \<Rightarrow> uuid \<Rightarrow> string list" where
  "index_of c u = (case map_of c (user_key u) of Some (CTokens us, None) \<Rightarrow> us | _ \<Rightarrow> [])"

definition holder :: "cache \<Rightarrow> string \<Rightarrow> uuid option" where
  "holder c t = (case map_of c (session_key t) of Some (CSession d, _) \<Rightarrow> Some (sd_user d) | _ \<Rightarrow> None)"

definition session_inv :: "string list \<Rightarrow> cache \<Rightarrow> bool" where
  "session_inv ts c \<longleftrightarrow> (\<forall>u x. map_of c (user_key u) = Some x \<longrightarrow> x = (CTokens (index_of c u), None))
     \<and> (\<forall>u. set (index_of c u) \<subseteq> set ts)
     \<and> (\<forall>t\<in>set ts. \<forall>v. holder c t = Some v \<longrightarrow> (\<forall>u. t \<in> set (index_of c u) \<longleftrightarrow> u = v))"

lemma session_invD:
  assumes "session_inv ts c"
  shows "map_of c (user_key u) = Some x \<Longrightarrow> x = (CTokens (index_of c u), None)" "set (index_of c u) \<subseteq> set ts"
    "t \<in> set ts \<Longrightarrow> holder c t = Some v \<Longrightarrow> t \<in> set (index_of c u) \<longleftrightarrow> u = v"
  using assms unfolding session_inv_def by blast+

lemma session_inv_cong:
  assumes "session_inv ts c" "\<And>u. map_of c' (user_key u) = map_of c (user_key u)"
    "\<And>t. t \<in> set ts \<Longrightarrow> holder c' t = holder c t \<or> holder c' t = None"
  shows "session_inv ts c'"
proof -
  have "index_of c' = index_of c" by (simp add: fun_eq_iff index_of_def assms(2))
  with assms(1,2) show ?thesis unfolding session_inv_def by (metis assms(3) option.distinct(1))
qed

text \<open>The commands on other keys.\<close>

lemma other_keys:
  "handoff_key c \<noteq> session_key t" "handoff_key c \<noteq> user_key u" "state_key s \<noteq> session_key t" "state_key s \<noteq> user_key u"
  "consumed_key s \<noteq> session_key t" "consumed_key s \<noteq> user_key u"
  by (auto simp: handoff_key_def session_key_def user_key_def state_key_def consumed_key_def)

lemmas distinct_keys [simp] = other_keys other_keys [THEN not_sym]

lemma holder_simps [simp]:
  "holder (drop_keys ks c) t = (if session_key t \<in> set ks then None else holder c t)"
  "k \<noteq> session_key t \<Longrightarrow> holder (AList.update k v c) t = holder c t"
  "holder (AList.update (session_key t) (CSession d, e) c) t = Some (sd_user d)"
  by (auto simp: holder_def update_conv')

lemma session_at_drop: "session_at now (drop_keys ks c) t = (if session_key t \<in> set ks then None else session_at now c t)"
  by (simp add: session_at_def cache_at_drop)

lemma other_commands:
  "issue_code E t w = (y, w') \<Longrightarrow> session_inv ts (w_cache w) \<Longrightarrow> session_inv ts (w_cache w')"
  "redeem_code E c w = (y, w') \<Longrightarrow> session_inv ts (w_cache w) \<Longrightarrow> session_inv ts (w_cache w')"
  "state_put E ttl st p w = (x, w') \<Longrightarrow> session_inv ts (w_cache w) \<Longrightarrow> session_inv ts (w_cache w')"
  "state_consume E ttl st w = (x, w') \<Longrightarrow> session_inv ts (w_cache w) \<Longrightarrow> session_inv ts (w_cache w')"
  "session_revoke E t w = (x, w') \<Longrightarrow> session_inv ts (w_cache w) \<Longrightarrow> session_inv ts (w_cache w')"
  by (erule session_inv_cong;
      auto simp: issue_code_def redeem_code_def state_put_def state_consume_def session_revoke_def Let_def bind_def
        cache_set_def cache_getdel_def cache_get_def cache_del_def exec_def ret_def fail_def update_conv'
        split: option.splits prod.splits sum.splits cache_value.splits if_splits)+

lemma cache_at_SomeD: "cache_at now c k = Some v \<Longrightarrow> \<exists>e. map_of c k = Some (v, e)"
  by (auto simp: cache_at_def split: option.splits if_splits)

lemma touch_inv:
  assumes "session_touch E ttl t w = (x, w')" "session_inv ts (w_cache w)"
  shows "session_inv ts (w_cache w')"
proof (cases "w_cache w' = w_cache w")
  case False
  with assms(1) obtain d where d: "cache_at (e_now E) (w_cache w) (session_key t) = Some (CSession d)"
    and c: "w_cache w' = AList.update (session_key t) (CSession (d\<lparr>sd_seen_at := e_now E\<rparr>), expiry (e_now E) ttl) (w_cache w)"
    by (auto simp: session_touch_def session_read_def session_touch_write_def bind_def cache_get_def cache_set_def exec_def
        ret_def fail_def split: option.splits cache_value.splits)
  from cache_at_SomeD [OF d] have "holder (w_cache w) t = Some (sd_user d)" by (auto simp: holder_def)
  then show ?thesis by (intro session_inv_cong [OF assms(2)]) (auto simp: c holder_def update_conv')
qed (use assms(2) in simp)

lemma index_read:
  assumes "session_inv ts c"
  shows "token_set (cache_at now c (user_key u)) = index_of c u"
proof (cases "map_of c (user_key u)")
  case None
  then show ?thesis by (simp add: cache_at_def token_set_def index_of_def)
next
  case (Some x)
  moreover from this have "x = (CTokens (index_of c u), None)" by (rule session_invD(1) [OF assms])
  ultimately show ?thesis by (simp add: cache_at_def token_set_def)
qed

lemma create_inv:
  assumes "session_create E ttl u r w = (x, w')" "session_inv ts (w_cache w)" "new_token E w \<notin> set ts"
  shows "x = Inr s \<Longrightarrow> session_inv (ss_token s # ts) (w_cache w')" "x = Inl e \<Longrightarrow> session_inv ts (w_cache w')"
proof -
  let ?c = "w_cache w"
  let ?tok = "new_token E w"
  let ?doc = "\<lparr>sd_user = u, sd_role = r, sd_created_at = e_now E, sd_seen_at = e_now E\<rparr>"
  let ?c1 = "AList.update (session_key ?tok) (CSession ?doc, expiry (e_now E) ttl) ?c"
  have other: "session_inv ts ?c1"
    by (rule session_inv_cong [OF assms(2)]) (use assms(3) in \<open>auto simp: update_conv' holder_def\<close>)
  have ix: "token_set (cache_at (e_now E) ?c1 (user_key u)) = index_of ?c u"
    using index_read [OF assms(2)] by (simp add: cache_at_update)
  show "session_inv ts (w_cache w')" if "x = Inl e"
    using assms(1,2) other that
    by (auto simp: session_create_def Let_def bind_def cache_set_def cache_sadd_def exec_def ret_def split: option.splits)
  show "session_inv (ss_token s # ts) (w_cache w')" if "x = Inr s"
  proof -
    from assms(1) that have s: "ss_token s = ?tok"
      and c: "w_cache w' = AList.update (user_key u) (CTokens (List.insert ?tok (index_of ?c u)), None) ?c1"
      by (auto simp: session_create_def Let_def bind_def cache_set_def cache_sadd_def exec_def ret_def session_of_def ix
          split: option.splits)
    note I = session_invD [OF assms(2)]
    have ix': "index_of (w_cache w') v = (if v = u then List.insert ?tok (index_of ?c u) else index_of ?c v)" for v
      by (simp add: index_of_def c update_conv')
    have h: "holder (w_cache w') t = (if t = ?tok then Some u else holder ?c t)" for t
      by (simp add: holder_def c update_conv')
    have new: "?tok \<notin> set (index_of ?c v)" for v using I(2) assms(3) by auto
    show ?thesis unfolding session_inv_def s
    proof (intro conjI allI ballI impI)
      show "y = (CTokens (index_of (w_cache w') v), None)" if "map_of (w_cache w') (user_key v) = Some y" for v y
        using that I(1) [of v y] unfolding ix' by (auto simp: c update_conv' split: if_splits)
      show "set (index_of (w_cache w') v) \<subseteq> set (?tok # ts)" for v using I(2) [of v] I(2) [of u] by (auto simp: ix')
      show "t \<in> set (index_of (w_cache w') a) \<longleftrightarrow> a = v"
        if "t \<in> set (?tok # ts)" "holder (w_cache w') t = Some v" for t v a
        using that new I(3) [of t v a] by (auto simp: h ix' split: if_splits)
    qed
  qed
qed

lemma revoke_all_inv:
  assumes "session_revoke_all E u w = (x, w')" "session_inv ts (w_cache w)"
  shows "session_inv ts (w_cache w')"
    "x = Inr () \<Longrightarrow> t \<in> set ts \<Longrightarrow> session_at now (w_cache w') t = (case session_at now (w_cache w) t of
      None \<Rightarrow> None | Some d \<Rightarrow> if sd_user d = u then None else Some d)"
proof -
  let ?c = "w_cache w"
  let ?us = "index_of ?c u"
  let ?c1 = "drop_keys (map session_key ?us) ?c"
  let ?c2 = "drop_keys [user_key u] ?c1"
  have gone: "holder ?c1 t = (if t \<in> set ?us then None else holder ?c t)" for t by (auto simp: holder_def)
  have keep: "session_inv ts ?c1" by (rule session_inv_cong [OF assms(2)]) (auto simp: gone)
  have users: "map_of ?c2 (user_key v) = (if v = u then None else map_of ?c (user_key v))" for v by auto
  then have ix: "index_of ?c2 v = (if v = u then [] else index_of ?c v)" for v by (simp add: index_of_def)
  have h: "holder ?c2 t = holder ?c1 t" for t by (simp add: holder_def)
  have keep2: "session_inv ts ?c2"
    unfolding session_inv_def
  proof (intro conjI allI ballI impI)
    note I = session_invD [OF assms(2)]
    show "y = (CTokens (index_of ?c2 v), None)" if "map_of ?c2 (user_key v) = Some y" for v y
      using that I(1) [of v y] unfolding users ix by (auto split: if_splits)
    show "set (index_of ?c2 v) \<subseteq> set ts" for v using I(2) [of v] by (simp add: ix)
    show "t \<in> set (index_of ?c2 a) \<longleftrightarrow> a = v" if "t \<in> set ts" "holder ?c2 t = Some v" for t v a
      using that I(3) [of t v a] I(3) [of t v u] by (auto simp: h gone ix split: if_splits)
  qed
  have run: "w_cache w' \<in> {?c, ?c1, ?c2}" "x = Inr () \<Longrightarrow> w_cache w' = (if ?us = [] then ?c else ?c2)"
    using assms(1) index_read [OF assms(2)]
    by (auto simp: session_revoke_all_def bind_def cache_smembers_def cache_del_def exec_def ret_def split: option.splits if_splits)
  from run(1) show "session_inv ts (w_cache w')" using assms(2) keep keep2 by auto
  show "session_at now (w_cache w') t = (case session_at now ?c t of
      None \<Rightarrow> None | Some d \<Rightarrow> if sd_user d = u then None else Some d)" if "x = Inr ()" "t \<in> set ts"
  proof -
    have c: "session_at now (w_cache w') t = (if t \<in> set ?us then None else session_at now ?c t)"
      using run(2) [OF that(1)] by (auto simp: session_at_drop)
    have "holder ?c t = Some (sd_user d)" if "session_at now ?c t = Some d" for d
      using that by (auto simp: holder_def session_at_def split: option.splits cache_value.splits dest!: cache_at_SomeD)
    with session_invD(3) [OF assms(2) that(2)] show ?thesis by (auto simp: c split: option.splits)
  qed
qed

lemma reach_inv: "sessions_reach ts c \<Longrightarrow> session_inv ts c"
proof (induction rule: sessions_reach.induct)
  case Empty
  show ?case by (simp add: session_inv_def index_of_def)
qed (blast intro: create_inv touch_inv other_commands revoke_all_inv(1))+

text \<open>C28: Let logins, requests, logouts, login codes and revocations run one after another, in any order and
  with a failure at any command of each. Then after a successful revocation of a user's sessions no token that was
  handed out stands for that user any more, and the tokens of everyone else stand for what they stood for. (An
  operation whose commands overlap those of a revocation is outside this claim.)\<close>

theorem revocation_complete:
  assumes "sessions_reach ts (w_cache w)" "session_revoke_all E u w = (Inr (), w')" "t \<in> set ts"
  shows "session_at now (w_cache w') t = (case session_at now (w_cache w) t of
      None \<Rightarrow> None | Some d \<Rightarrow> if sd_user d = u then None else Some d)"
  using revoke_all_inv(2) [OF assms(2) reach_inv [OF assms(1)] refl assms(3)] .

text \<open>Two logins of one user and one of another, then the revocation.\<close>

lemma reach0:
  "\<exists>w w'. sessions_reach [''tb_uuuu'', ''tb_uu'', ''tb_''] (w_cache w) \<and> w_db w = db0
     \<and> session_at now0 (w_cache w) ''tb_'' = Some \<lparr>sd_user = ''emp'', sd_role = Employee, sd_created_at = now0, sd_seen_at = now0\<rparr>
     \<and> session_revoke_all env0 ''emp'' w = (Inr (), w')"
proof -
  let ?login = "\<lambda>u. session_create env0 hour_ns u Employee"
  obtain s1 w1 where 1: "?login ''emp'' world0 = (Inr s1, w1)" by (simp add: scenario_defs run_simps)
  then have w1: "ss_token s1 = ''tb_''" "w_db w1 = db0" "w_tick w1 = 2"
    "w_cache w1 = w_cache (snd (?login ''emp'' world0))" by (auto simp: scenario_defs run_simps)
  obtain s2 w2 where 2: "?login ''op'' w1 = (Inr s2, w2)" using w1(3) by (simp add: scenario_defs run_simps)
  then have w2: "ss_token s2 = ''tb_uu''" "w_db w2 = db0" "w_tick w2 = 4"
    using w1 by (auto simp: scenario_defs run_simps)
  obtain s3 w3 where 3: "?login ''emp'' w2 = (Inr s3, w3)" using w2(3) by (simp add: scenario_defs run_simps)
  then have w3: "ss_token s3 = ''tb_uuuu''" "w_db w3 = db0" using w2 by (auto simp: scenario_defs run_simps)
  have "sessions_reach [] (w_cache world0)" by (simp add: world0_def sessions_reach.Empty)
  from sessions_reach.Created [OF this 1] have "sessions_reach [''tb_''] (w_cache w1)" by (simp add: w1)
  from sessions_reach.Created [OF this 2] have "sessions_reach [''tb_uu'', ''tb_''] (w_cache w2)"
    using w1 w2 by (simp add: new_token_def env0_def replicate_run)
  from sessions_reach.Created [OF this 3] have r: "sessions_reach [''tb_uuuu'', ''tb_uu'', ''tb_''] (w_cache w3)"
    using w2 w3 by (simp add: new_token_def env0_def replicate_run)
  have now: "e_now env0 = now0" by (simp add: env0_def now0_def day_ns_def hour_ns_def sec_ns_def)
  have "0 < hour_ns" by (simp add: hour_ns_def sec_ns_def)
  note C = create_session_ok(1) [OF 3 this] create_session_ok(1) [OF 2 this] create_session_ok(1) [OF 1 this]
  have "session_at now0 (w_cache w3) ''tb_'' = Some \<lparr>sd_user = ''emp'', sd_role = Employee, sd_created_at = now0, sd_seen_at = now0\<rparr>"
    using C by (simp add: now w1 w2 w3)
  moreover have "\<exists>w'. session_revoke_all env0 ''emp'' w3 = (Inr (), w')" by (simp add: env0_def run_simps)
  ultimately show ?thesis using r w3 by blast
qed

theorem revocation_complete_witness:
  "\<exists>w w'. sessions_reach [''tb_uuuu'', ''tb_uu'', ''tb_''] (w_cache w) \<and> session_revoke_all env0 ''emp'' w = (Inr (), w')
     \<and> session_at now0 (w_cache w) ''tb_'' \<noteq> None \<and> session_at now0 (w_cache w') ''tb_'' = None"
proof -
  obtain w w' where r: "sessions_reach [''tb_uuuu'', ''tb_uu'', ''tb_''] (w_cache w)"
    and run: "session_revoke_all env0 ''emp'' w = (Inr (), w')"
    and at: "session_at now0 (w_cache w) ''tb_'' = Some \<lparr>sd_user = ''emp'', sd_role = Employee, sd_created_at = now0, sd_seen_at = now0\<rparr>"
    using reach0 by blast
  from revocation_complete [OF r run, of "''tb_''" now0] at have "session_at now0 (w_cache w') ''tb_'' = None" by simp
  with r run at show ?thesis by blast
qed

text \<open>
  The machine takes a touch as one step. It is a read and a write: a revocation in between is
  undone, and the token is no longer in the index, so revoking again does not help.
\<close>

theorem touch_undoes_revocation:
  assumes "session_read E t w = (Inr d, w1)" "sd_user d = u" "session_inv ts (w_cache w1)" "t \<in> set ts"
    and "session_revoke_all E u w1 = (Inr (), w2)" "session_touch_write E ttl t d w2 = (Inr (), w3)" "0 < ttl"
  shows "session_at (e_now E) (w_cache w3) t = Some (d\<lparr>sd_seen_at := e_now E\<rparr>)"
    and "session_revoke_all E u w3 = (Inr (), w4) \<Longrightarrow> session_at (e_now E) (w_cache w4) t \<noteq> None"
proof -
  have c3: "w_cache w3 = AList.update (session_key t) (CSession (d\<lparr>sd_seen_at := e_now E\<rparr>), expiry (e_now E) ttl) (w_cache w2)"
    using assms(6) by (auto simp: session_touch_write_def cache_set_def exec_ok)
  then show at: "session_at (e_now E) (w_cache w3) t = Some (d\<lparr>sd_seen_at := e_now E\<rparr>)"
    using assms(7) by (simp add: session_at_def cache_at_update expiry_def)
  have "token_set (cache_at (e_now E) (w_cache w2) (user_key u)) = []"
    using assms(5) by (auto simp: session_revoke_all_def bind_ok cache_smembers_def cache_del_def exec_ok ret_ok cache_at_drop
        token_set_def split: if_splits)
  then have "token_set (cache_at (e_now E) (w_cache w3) (user_key u)) = []" by (simp add: c3 cache_at_update)
  then show "session_at (e_now E) (w_cache w4) t \<noteq> None" if "session_revoke_all E u w3 = (Inr (), w4)"
    using that at by (auto simp: session_revoke_all_def bind_ok cache_smembers_def exec_ok ret_ok)
qed

text \<open>
  The machine also takes a login as one step. A login between the SMEMBERS and the DEL commands of a revocation
  stays live, and as the index is deleted after it, revoking again does not reach its token.
\<close>

theorem create_escapes_revocation:
  assumes "cache_smembers E (user_key u) w = (Inr tokens, w1)"
    and "session_create E' ttl u role w1 = (Inr s, w2)" "0 < ttl" "ss_token s \<notin> set tokens"
    and "cache_del E (map session_key tokens) w2 = (Inr (), w3)" "cache_del E [user_key u] w3 = (Inr (), w4)"
  shows "\<exists>d. session_at (e_now E') (w_cache w4) (ss_token s) = Some d \<and> sd_user d = u"
    and "session_revoke_all E' u w4 = (Inr (), w5) \<Longrightarrow> session_at (e_now E') (w_cache w5) (ss_token s) \<noteq> None"
proof -
  have c4: "w_cache w4 = drop_keys [user_key u] (drop_keys (map session_key tokens) (w_cache w2))"
    using assms(5,6) by (auto simp: cache_del_def exec_ok)
  show at: "\<exists>d. session_at (e_now E') (w_cache w4) (ss_token s) = Some d \<and> sd_user d = u"
    using create_session_ok(1) [OF assms(2,3), of "ss_token s"] assms(4) by (simp add: c4 session_at_drop image_iff)
  have "token_set (cache_at (e_now E') (w_cache w4) (user_key u)) = []"
    by (simp add: c4 cache_at_drop token_set_def)
  then show "session_at (e_now E') (w_cache w5) (ss_token s) \<noteq> None" if "session_revoke_all E' u w4 = (Inr (), w5)"
    using that at by (auto simp: session_revoke_all_def bind_ok cache_smembers_def exec_ok ret_ok)
qed

section \<open>Login codes\<close>

text \<open>A login code is worth its session token once: redeemed within two minutes of its issue while Redis answers it
  gives the token, and no later call gives anything for it; redeemed later it gives nothing.\<close>

theorem handoff_single_use:
  assumes "issue_code E token w = (Inr code, w1)" "e_fault E' (w_tick w1) = None"
  shows "(e_now E' < e_now E + 120 * sec_ns \<longrightarrow> (\<exists>w2. redeem_code E' code w1 = (Inr token, w2)
        \<and> (\<forall>E'' r w3. redeem_code E'' code w2 = (r, w3) \<longrightarrow> (\<forall>t. r \<noteq> Inr t))))
    \<and> (e_now E + 120 * sec_ns \<le> e_now E' \<longrightarrow> fst (redeem_code E' code w1) = Inl (IdentityErr ErrHandoffNotFound))"
proof -
  have c: "w_cache w1 = AList.update (handoff_key code) (CToken token, Some (e_now E + 120 * sec_ns)) (w_cache w)"
    using assms(1) by (auto simp: issue_code_def Let_def bind_ok cache_set_def exec_ok ret_ok expiry_def sec_ns_def)
  let ?w2 = "w1\<lparr>w_cache := drop_keys [handoff_key code] (w_cache w1), w_tick := Suc (w_tick w1)\<rparr>"
  have "redeem_code E' code w1 = (if e_now E + 120 * sec_ns \<le> e_now E' then (Inl (IdentityErr ErrHandoffNotFound), ?w2) else (Inr token, ?w2))"
    using assms(2) by (simp add: redeem_code_def bind_def cache_getdel_def exec_def cache_at_update c ret_def fail_def)
  moreover have "r \<noteq> Inr t" if "redeem_code E'' code ?w2 = (r, w3)" for E'' r w3 t
    using that by (auto simp: redeem_code_def bind_def cache_getdel_def exec_def cache_at_drop fail_def split: option.splits)
  ultimately show ?thesis by auto
qed

theorem handoff_single_use_witness:
  "\<exists>w1 w2. issue_code env0 ''tb_x'' world0 = (Inr '''', w1) \<and> redeem_code env0 '''' w1 = (Inr ''tb_x'', w2)"
proof -
  obtain w1 where i: "issue_code env0 ''tb_x'' world0 = (Inr '''', w1)" by (simp add: scenario_defs run_simps)
  have "e_fault env0 (w_tick w1) = None" by (simp add: env0_def)
  from handoff_single_use [OF i this] i show ?thesis by (auto simp: sec_ns_def)
qed

section \<open>Authentication\<close>

lemma session_get_result:
  assumes "session_get E tok w = (r, w1)"
  shows "w_db w1 = w_db w" "r = Inr s \<Longrightarrow> \<exists>d. session_at (e_now E) (w_cache w) tok = Some d \<and> ss_user s = sd_user d"
    "r = Inl (IdentityErr ErrSessionNotFound) \<Longrightarrow> cache_at (e_now E) (w_cache w) (session_key tok) = None"
  using assms
  by (auto simp: session_get_def session_read_def bind_def cache_get_def exec_def ret_def fail_def session_at_def session_of_def
      decode_failure_def split: option.splits cache_value.splits)

lemma jwt_auth_ok:
  assumes "try_jwt_auth E ac tok w = (r, w')"
  shows "\<exists>a. r = Inr a \<and> (\<forall>u t. a = AuthUser u t \<longrightarrow> t = tok \<and> u \<in> set (users (w_db w)) \<and> u_status u = UserActive
    \<and> (\<exists>lib. ac_jwt ac = Some lib \<and> verify_access_token ac lib tok = Some (u_id u)))"
proof (cases "\<exists>lib sub. ac_jwt ac = Some lib \<and> verify_access_token ac lib tok = Some sub")
  case True
  then obtain lib sub where v: "ac_jwt ac = Some lib" "verify_access_token ac lib tok = Some sub" by blast
  obtain x w1 where x: "user_get_by_id E sub w = (x, w1)" by fastforce
  show ?thesis
  proof (cases x)
    case (Inr u)
    with user_get_result(2) [OF x] v x assms show ?thesis
      by (auto simp: try_jwt_auth_def bind_def attempt_def ret_def split: if_splits dest: by_key_SomeD)
  qed (use v x assms in \<open>auto simp: try_jwt_auth_def bind_def attempt_def ret_def\<close>)
qed (use assms in \<open>auto simp: try_jwt_auth_def ret_def split: option.splits\<close>)

lemma session_auth_ok:
  assumes "try_session_auth E ac tok w = (r, w1)"
  shows "\<exists>a. r = Inr a \<and> (a = None \<longrightarrow> cache_at (e_now E) (w_cache w) (session_key tok) = None)
    \<and> (\<forall>u t. a = Some (AuthUser u t) \<longrightarrow> t = tok \<and> u \<in> set (users (w_db w)) \<and> u_status u = UserActive
      \<and> (\<exists>d. session_at (e_now E) (w_cache w) tok = Some d \<and> sd_user d = u_id u))"
proof -
  obtain x w2 where x: "session_get E tok w = (x, w2)" by fastforce
  note G = session_get_result [OF x]
  show ?thesis
  proof (cases x)
    case (Inl e)
    with G(3) x assms show ?thesis by (auto simp: try_session_auth_def bind_def attempt_def ret_def split: if_splits)
  next
    case (Inr s)
    obtain y w3 where y: "user_get_by_id E (ss_user s) w2 = (y, w3)" by fastforce
    show ?thesis
    proof (cases y)
      case (Inl e)
      with Inr x y assms show ?thesis by (auto simp: try_session_auth_def bind_def attempt_def ret_def)
    next
      case (Inr u)
      from user_get_result(2) [OF y Inr] G(1) have u: "u \<in> set (users (w_db w))" "u_id u = ss_user s"
        by (auto dest: by_key_SomeD)
      with G(2) \<open>x = Inr s\<close> Inr x y assms show ?thesis
        by (auto simp: try_session_auth_def bind_def attempt_def ret_def split: if_splits prod.splits)
    qed
  qed
qed

text \<open>C29: A request is served as a user only for a bearer token that is a live session of that user, or, when Redis
  knows no such session, an access token the verifier accepts with that user as its subject and this server in its
  audience; and only if the account is on file and active. The authentication itself never fails and changes no row.\<close>

theorem authenticate_sound:
  assumes "authenticate E ac h w = (r, w')"
  shows "w_db w' = w_db w \<and> (\<exists>a. r = Inr a \<and> (\<forall>u tok. a = AuthUser u tok \<longrightarrow>
      h = ''Bearer '' @ tok \<and> tok \<noteq> [] \<and> u \<in> set (users (w_db w)) \<and> u_status u = UserActive
      \<and> ((\<exists>d. session_at (e_now E) (w_cache w) tok = Some d \<and> sd_user d = u_id u)
        \<or> (cache_at (e_now E) (w_cache w) (session_key tok) = None
            \<and> (\<exists>lib. ac_jwt ac = Some lib \<and> verify_access_token ac lib tok = Some (u_id u))))))"
proof (intro conjI)
  show "w_db w' = w_db w" by (rule roD [OF ro_authentication(2) assms])
  show "\<exists>a. r = Inr a \<and> (\<forall>u tok. a = AuthUser u tok \<longrightarrow>
      h = ''Bearer '' @ tok \<and> tok \<noteq> [] \<and> u \<in> set (users (w_db w)) \<and> u_status u = UserActive
      \<and> ((\<exists>d. session_at (e_now E) (w_cache w) tok = Some d \<and> sd_user d = u_id u)
        \<or> (cache_at (e_now E) (w_cache w) (session_key tok) = None
            \<and> (\<exists>lib. ac_jwt ac = Some lib \<and> verify_access_token ac lib tok = Some (u_id u)))))"
  proof (cases "\<exists>tok. cut_prefix ''Bearer '' h = Some tok \<and> tok \<noteq> []")
    case True
    then obtain tok where h: "cut_prefix ''Bearer '' h = Some tok" "tok \<noteq> []" by blast
    then have pre: "h = ''Bearer '' @ tok" by (simp add: cut_prefix_Some)
    obtain x w1 where x: "try_session_auth E ac tok w = (x, w1)" by fastforce
    from session_auth_ok [OF x] obtain a where a: "x = Inr a" by blast
    have db: "w_db w1 = w_db w"
      using x by (rule roD [rotated]) (unfold try_session_auth_def, intro ro_intros)
    show ?thesis
    proof (cases a)
      case None
      with a h x assms have "try_jwt_auth E ac tok w1 = (r, w')" by (simp add: authenticate_def bind_def)
      with jwt_auth_ok session_auth_ok [OF x] a None h(2) pre db show ?thesis by fastforce
    next
      case (Some b)
      with a h x assms have "r = Inr b" by (simp add: authenticate_def bind_def ret_def)
      with session_auth_ok [OF x] a Some h(2) pre show ?thesis by auto
    qed
  qed (use assms in \<open>auto simp: authenticate_def ret_def split: option.splits if_splits\<close>)
qed

definition auth0 :: auth_config where
  "auth0 = \<lparr>ac_session_ttl = hour_ns, ac_jwt = None, ac_audience = ''''\<rparr>"

definition authed0 :: world where
  "authed0 = world0\<lparr>w_cache := [(''sess:tb_x'', CSession \<lparr>sd_user = ''emp'', sd_role = Employee, sd_created_at = 0,
     sd_seen_at = 0\<rparr>, None)]\<rparr>"

theorem authenticate_sound_witness:
  "\<exists>w'. authenticate env0 auth0 ''Bearer tb_x'' authed0 = (Inr (AuthUser (user0 ''emp'' Employee) ''tb_x''), w') \<and> w_db w' = db0"
proof -
  obtain w' where run: "authenticate env0 auth0 ''Bearer tb_x'' authed0 = (Inr (AuthUser (user0 ''emp'' Employee) ''tb_x''), w')"
    by (simp add: auth0_def authed0_def scenario_defs run_simps cut_prefix_def)
  with authenticate_sound [OF run] show ?thesis by (simp add: authed0_def world0_def)
qed

end
