(* ===== verification/World_Parts.thy ===== *)
theory World_Parts
  imports Tables
begin

text \<open>
  What a statement on the database cannot touch: the parts of the world outside the database
  (the Redis store, the calls made to the identity provider). Locale \<open>world_part\<close> states what
  such a part is and carries the fact that an operation leaves it alone through the program
  constructs, as \<open>ro\<close> does for the database itself.
\<close>

locale world_part =
  fixes part :: "world \<Rightarrow> 'x"
  assumes part_tick: "part (w\<lparr>w_tick := n\<rparr>) = part w" and part_db: "part (w\<lparr>w_db := d\<rparr>) = part w"
begin

definition leaves :: "'a io \<Rightarrow> bool" where
  "leaves m \<longleftrightarrow> (\<forall>w r w'. m w = (r, w') \<longrightarrow> part w' = part w)"

lemma leavesD: "leaves m \<Longrightarrow> m w = (r, w') \<Longrightarrow> part w' = part w"
  by (auto simp: leaves_def)

lemma leaves_exec: "(\<And>w a w1. f w = Inr (a, w1) \<Longrightarrow> part w1 = part w) \<Longrightarrow> leaves (exec E f)"
  by (auto simp: leaves_def exec_def part_tick split: option.splits sum.splits)

lemma leaves_basic: "leaves (ret a)" "leaves (fail e)" "leaves (from_res r)"
  by (auto simp: leaves_def io_simps)

lemma leaves_bind: "leaves m \<Longrightarrow> (\<And>a. leaves (f a)) \<Longrightarrow> leaves (bind m f)"
  unfolding leaves_def bind_def by (fastforce split: prod.splits sum.splits)

lemma leaves_attempt: "leaves m \<Longrightarrow> leaves (attempt m)"
  by (fastforce simp: leaves_def io_simps)

lemma leaves_map_err: "leaves m \<Longrightarrow> leaves (map_err h m)"
  unfolding leaves_def map_err_def by (fastforce split: prod.splits sum.splits)

lemma leaves_if: "(c \<Longrightarrow> leaves m) \<Longrightarrow> (\<not> c \<Longrightarrow> leaves n) \<Longrightarrow> leaves (if c then m else n)"
  by simp

lemma leaves_cases:
  "(x = None \<Longrightarrow> leaves m) \<Longrightarrow> (\<And>a. x = Some a \<Longrightarrow> leaves (f a)) \<Longrightarrow> leaves (case x of None \<Rightarrow> m | Some a \<Rightarrow> f a)"
  "(\<And>e. y = Inl e \<Longrightarrow> leaves (g e)) \<Longrightarrow> (\<And>a. y = Inr a \<Longrightarrow> leaves (h a)) \<Longrightarrow>
     leaves (case y of Inl e \<Rightarrow> g e | Inr a \<Rightarrow> h a)"
  "(\<And>a b. leaves (k a b)) \<Longrightarrow> leaves (case p of (a, b) \<Rightarrow> k a b)"
  by (auto split: option.splits sum.splits prod.splits)

lemma leaves_for_each: "(\<And>x. leaves (f x)) \<Longrightarrow> leaves (for_each f xs)"
  by (induction xs) (auto intro: leaves_basic leaves_bind)

lemma leaves_query: "leaves (query E q)" "leaves (query_at E s q)"
  unfolding query_def query_at_def by (rule leaves_exec; simp split: sum.splits)+

lemma leaves_rows:
  "leaves (get_row E tbl key e k)" "leaves (select_rows E tbl P srt)" "leaves (insert_row E upd chk mk)"
  "leaves (update_rows E tbl upd chk' lost P f)"
  unfolding get_row_def select_rows_def insert_row_def update_rows_def
  by (rule leaves_query leaves_exec; auto simp: Let_def part_db split: option.splits if_splits)+

lemma leaves_begin_func:
  assumes "\<And>s. leaves (body s)"
  shows "leaves (begin_func E body)"
proof -
  have "leaves (exec E (\<lambda>x. Inr ((), x)))" by (rule leaves_exec) simp
  then show ?thesis
    using assms unfolding leaves_def begin_func_def
    by (fastforce simp: part_db split: prod.splits sum.splits)
qed

lemmas leaves_intros = leaves_basic leaves_bind leaves_attempt leaves_map_err leaves_if leaves_cases
  leaves_for_each leaves_query leaves_rows leaves_begin_func

end

interpretation redis: world_part w_cache by unfold_locales simp_all

interpretation idp: world_part w_idp by unfold_locales simp_all

end
