(* ===== verification/Vendor_Inv.thy ===== *)
theory Vendor_Inv
  imports Vendors Session_Props World_Parts
begin

text \<open>
  The tables of vendors, plants served and operators as abstract maps, what each statement and
  each operation does to them, and the invariant of the tables.
\<close>

section \<open>The tables as maps\<close>

definition vendor_at :: "db \<Rightarrow> uuid \<Rightarrow> vendor_status option" where
  "vendor_at d i = map_option v_status (by_key v_id i (vendors d))"

definition operator_at :: "db \<Rightarrow> uuid \<Rightarrow> operator_status option" where
  "operator_at d i = map_option oa_status (by_key oa_id i (operators d))"

definition mapping_key :: "plant_mapping \<Rightarrow> uuid \<times> string" where
  "mapping_key m = (pm_vendor m, pm_plant m)"

text \<open>Whether a vendor serves a plant, and in which window.\<close>

definition served :: "db \<Rightarrow> uuid \<Rightarrow> string \<Rightarrow> (bool \<times> string) option" where
  "served d v p = map_option (\<lambda>m. (pm_active m, pm_window m)) (by_key mapping_key (v, p) (plant_mappings d))"

definition operator_key :: "operator_account \<Rightarrow> uuid \<times> string" where
  "operator_key x = (oa_vendor x, oa_email x)"

definition settings_ok :: "vendor \<Rightarrow> bool" where
  "settings_ok v \<longleftrightarrow> to_lower (v_email v) = v_email v \<and> 0 \<le> v_cutoff_hour v \<and> v_cutoff_hour v \<le> 23
     \<and> 1 \<le> v_preorder_days v \<and> v_preorder_days v \<le> 30"

definition vendor_inv :: "db \<Rightarrow> bool" where
  "vendor_inv d \<longleftrightarrow> distinct (map v_id (vendors d)) \<and> distinct (map v_email (vendors d)) \<and> (\<forall>v\<in>set (vendors d). settings_ok v)
     \<and> distinct (map mapping_key (plant_mappings d))
     \<and> (\<forall>m\<in>set (plant_mappings d). pm_vendor m \<in> v_id ` set (vendors d) \<and> pm_plant m \<in> p_code ` set (plants d))
     \<and> distinct (map oa_id (operators d)) \<and> distinct (map operator_key (operators d))
     \<and> (\<forall>x\<in>set (operators d). to_lower (oa_email x) = oa_email x \<and> slug_ok (oa_provider x) \<and> oa_vendor x \<in> v_id ` set (vendors d))"

lemma vendor_inv_cong:
  "vendors d' = vendors d \<Longrightarrow> plant_mappings d' = plant_mappings d \<Longrightarrow> operators d' = operators d \<Longrightarrow> plants d' = plants d
     \<Longrightarrow> vendor_inv d' = vendor_inv d"
  by (simp add: vendor_inv_def)

section \<open>Statements\<close>

text \<open>An UPDATE that does not mind hitting no row.\<close>

lemma update_quiet_ok:
  assumes "update_rows E tbl upd chk None P f w = (Inr (), w')" "\<And>g d. g (tbl d) = tbl d \<Longrightarrow> upd g d = d"
  shows "w_db w' = upd (sql_update P f) (w_db w)" "\<forall>r\<in>set (tbl (w_db w)). P r \<longrightarrow> chk (w_db w) (f r) = None"
proof -
  let ?hit = "filter P (tbl (w_db w))"
  have "?hit = [] \<Longrightarrow> upd (sql_update P f) (w_db w) = w_db w"
    by (rule assms(2), rule sql_update_none) (auto simp: filter_empty_conv list_ex_iff)
  then show "w_db w' = upd (sql_update P f) (w_db w)" "\<forall>r\<in>set (tbl (w_db w)). P r \<longrightarrow> chk (w_db w) (f r) = None"
    using assms(1)
    by (auto simp: update_rows_def io_simps Let_def first_err_None filter_empty_conv split: if_splits option.splits)
qed

lemma table_ids [simp]:
  "g (vendors d) = vendors d \<Longrightarrow> vendors_update g d = d" "h (operators d) = operators d \<Longrightarrow> operators_update h d = d"
  by (cases d; simp)+

lemma vendor_update_status_ok:
  assumes "vendor_update_status E st by i w = (Inr (), w')"
  shows "\<exists>f. w_db w' = vendors_update (sql_update (\<lambda>v. v_id v = i) f) (w_db w)
      \<and> (\<forall>v. v_id (f v) = v_id v \<and> v_status (f v) = st \<and> v_email (f v) = v_email v \<and> settings_ok (f v) = settings_ok v)"
  using update_quiet_ok(1) [OF assms [unfolded vendor_update_status_def]] by (auto simp: settings_ok_def)

lemma vendor_at_update:
  assumes "\<And>v. v_id (f v) = v_id v \<and> v_status (f v) = st"
  shows "vendor_at (vendors_update (sql_update (\<lambda>v. v_id v = i) f) d) k =
    (if k = i then map_option (\<lambda>_. st) (vendor_at d k) else vendor_at d k)"
  using assms by (auto simp: vendor_at_def by_key_sql_update map_option_case split: option.splits dest: by_key_SomeD)

lemma operator_moved_simps [simp]:
  "oa_id (operator_moved E st x) = oa_id x" "oa_vendor (operator_moved E st x) = oa_vendor x"
  "oa_email (operator_moved E st x) = oa_email x" "oa_provider (operator_moved E st x) = oa_provider x"
  "oa_subject (operator_moved E st x) = oa_subject x" "oa_status (operator_moved E st x) = st"
  by (simp_all add: operator_moved_def)

lemma operator_set_statuses_ok:
  assumes "operator_set_statuses E v from to w = (Inr (), w')" "from \<noteq> []"
  shows "w_db w' = operators_update (sql_update (\<lambda>x. oa_vendor x = v \<and> oa_status x \<in> set from) (operator_moved E to)) (w_db w)"
  using assms update_quiet_ok(1) [where w = w and w' = w' and tbl = operators and upd = operators_update]
  by (auto simp: operator_set_statuses_def)

lemma operator_at_update:
  "operator_at (operators_update (sql_update P (operator_moved E to)) d) i =
     map_option (\<lambda>x. if P x then to else oa_status x) (by_key oa_id i (operators d))"
  by (auto simp: operator_at_def by_key_sql_update option.map_comp comp_def intro!: option.map_cong0)

section \<open>Plants\<close>

lemma by_key_filter: "by_key k x (filter (\<lambda>r. Q (k r)) rows) = (if Q x then by_key k x rows else None)"
  by (induction rows) auto

lemma plants_delete_ok:
  assumes "plants_delete_others E v (Some l) w = (Inr (), w')"
  shows "w_db w' = plant_mappings_update (filter (\<lambda>m. case mapping_key m of (a, p) \<Rightarrow> a = v \<longrightarrow> p \<in> set l)) (w_db w)"
  using assms by (auto simp: plants_delete_others_def exec_ok mapping_key_def intro!: arg_cong2 [of _ _ _ _ plant_mappings_update])

lemma plants_insert_ok:
  assumes "plants_insert E v p w = (Inr (), w')"
  shows "served (w_db w') a q = (if (a, q) = (v, p)
      then Some (True, case served (w_db w) v p of None \<Rightarrow> [] | Some (_, win) \<Rightarrow> win) else served (w_db w) a q)"
    and "\<exists>g. w_db w' = plant_mappings_update g (w_db w)"
proof -
  let ?ms = "plant_mappings (w_db w)"
  let ?hit = "\<lambda>m. pm_vendor m = v \<and> pm_plant m = p"
  have hit: "?hit = (\<lambda>m. mapping_key m = (v, p))" by (auto simp: mapping_key_def fun_eq_iff)
  show "\<exists>g. w_db w' = plant_mappings_update g (w_db w)"
    using assms by (auto simp: plants_insert_def exec_ok Let_def split: if_splits)
  show "served (w_db w') a q = (if (a, q) = (v, p)
      then Some (True, case served (w_db w) v p of None \<Rightarrow> [] | Some (_, win) \<Rightarrow> win) else served (w_db w) a q)"
  proof (cases "list_ex ?hit ?ms")
    case True
    with assms have d: "plant_mappings (w_db w') = sql_update (\<lambda>m. mapping_key m = (v, p)) (\<lambda>m. m\<lparr>pm_active := True\<rparr>) ?ms"
      by (auto simp: plants_insert_def exec_ok Let_def hit)
    from True have "by_key mapping_key (v, p) ?ms \<noteq> None"
      by (auto simp: by_key_None list_ex_iff mapping_key_def image_iff)
    moreover have k: "mapping_key (m\<lparr>pm_active := True\<rparr>) = mapping_key m" for m by (simp add: mapping_key_def)
    ultimately show ?thesis
      by (auto simp: served_def d by_key_sql_update option.map_comp comp_def split: option.splits dest: by_key_SomeD
          intro!: option.map_cong0)
  next
    case False
    with assms obtain m where d: "plant_mappings (w_db w') = ?ms @ [m]" "mapping_key m = (v, p)" "pm_active m" "pm_window m = []"
      by (auto simp: plants_insert_def exec_ok Let_def mapping_key_def split: if_splits)
    from False have "by_key mapping_key (v, p) ?ms = None" by (auto simp: by_key_None list_ex_iff mapping_key_def)
    with d show ?thesis by (auto simp: served_def by_key_append split: option.splits)
  qed
qed

lemma plants_insert_loop:
  assumes "for_each (plants_insert E v) ps w = (Inr (), w')"
  shows "served (w_db w') a q = (if a = v \<and> q \<in> set ps
      then Some (True, case served (w_db w) v q of None \<Rightarrow> [] | Some (_, win) \<Rightarrow> win) else served (w_db w) a q)"
    and "\<exists>g. w_db w' = plant_mappings_update g (w_db w)"
proof -
  have "(\<forall>a q. served (w_db w') a q = (if a = v \<and> q \<in> set ps
      then Some (True, case served (w_db w) v q of None \<Rightarrow> [] | Some (_, win) \<Rightarrow> win) else served (w_db w) a q))
    \<and> (\<exists>g. w_db w' = plant_mappings_update g (w_db w))"
    using assms
  proof (induction ps arbitrary: w)
    case Nil
    have "w_db w' = plant_mappings_update id (w_db w)" using Nil by (cases "w_db w") (simp add: ret_ok)
    then have "\<exists>g. w_db w' = plant_mappings_update g (w_db w)" by blast
    with Nil show ?case by (simp add: ret_ok)
  next
    case (Cons p ps)
    then obtain w1 where 1: "plants_insert E v p w = (Inr (), w1)" and 2: "for_each (plants_insert E v) ps w1 = (Inr (), w')"
      by (auto simp: bind_ok)
    note A = plants_insert_ok(1) [OF 1]
    from plants_insert_ok(2) [OF 1] Cons.IH [OF 2] obtain g h where
      "w_db w1 = plant_mappings_update g (w_db w)" "w_db w' = plant_mappings_update h (w_db w1)" by blast
    then have "w_db w' = plant_mappings_update (h \<circ> g) (w_db w)" by simp
    moreover have "served (w_db w') a q = (if a = v \<and> q \<in> set (p # ps)
      then Some (True, case served (w_db w) v q of None \<Rightarrow> [] | Some (_, win) \<Rightarrow> win) else served (w_db w) a q)" for a q
      using Cons.IH [OF 2] by (auto simp: A split: option.splits)
    ultimately show ?case by blast
  qed
  then show "served (w_db w') a q = (if a = v \<and> q \<in> set ps
      then Some (True, case served (w_db w) v q of None \<Rightarrow> [] | Some (_, win) \<Rightarrow> win) else served (w_db w) a q)"
    "\<exists>g. w_db w' = plant_mappings_update g (w_db w)" by blast+
qed

lemma plants_set_ok:
  assumes "plants_set E v (Some l) w = (Inr (), w')"
  shows "served (w_db w') a q = (if a = v then (if q \<in> set l
      then Some (True, case served (w_db w) v q of None \<Rightarrow> [] | Some (_, win) \<Rightarrow> win) else None) else served (w_db w) a q)"
    and "\<exists>g. w_db w' = plant_mappings_update g (w_db w)"
proof -
  let ?w1 = "w\<lparr>w_tick := Suc (w_tick w)\<rparr>"
  from assms obtain w3 where w': "w_db w' = w_db w3"
    and run: "bind (plants_delete_others E v (Some l)) (\<lambda>_. for_each (plants_insert E v) l) ?w1 = (Inr (), w3)"
    by (auto simp: plants_set_def begin_func_ok)
  then obtain w2 where del: "plants_delete_others E v (Some l) ?w1 = (Inr (), w2)"
    and ins: "for_each (plants_insert E v) l w2 = (Inr (), w3)" by (auto simp: bind_ok)
  note d = plants_delete_ok [OF del] and I = plants_insert_loop [OF ins]
  have s: "served (w_db w2) a q = (if a = v \<longrightarrow> q \<in> set l then served (w_db w) a q else None)" for a q
    by (simp add: served_def d by_key_filter [where Q = "\<lambda>(a, p). a = v \<longrightarrow> p \<in> set l"])
  show "served (w_db w') a q = (if a = v then (if q \<in> set l
      then Some (True, case served (w_db w) v q of None \<Rightarrow> [] | Some (_, win) \<Rightarrow> win) else None) else served (w_db w) a q)"
    using I(1) by (auto simp: w' s)
  from I(2) show "\<exists>g. w_db w' = plant_mappings_update g (w_db w)" by (auto simp: w' d)
qed

section \<open>Every operation keeps the tables well-formed\<close>

text \<open>An UPDATE of one vendor that keeps its email, or gives it one the check accepted.\<close>

lemma vendor_update_inv:
  assumes "vendor_inv d" "\<And>x. v_id (f x) = v_id x"
    and "\<And>x. x \<in> set (vendors d) \<Longrightarrow> v_id x = i \<Longrightarrow> settings_ok (f x) \<and> (\<forall>y\<in>set (vendors d). v_id y \<noteq> i \<longrightarrow> v_email y \<noteq> v_email (f x))"
  shows "vendor_inv (vendors_update (sql_update (\<lambda>x. v_id x = i) f) d)"
proof -
  let ?vs = "sql_update (\<lambda>x. v_id x = i) f (vendors d)"
  have ids: "map v_id ?vs = map v_id (vendors d)" by (simp add: map_sql_update assms(2))
  then have idset: "v_id ` set ?vs = v_id ` set (vendors d)" by (metis set_map)
  have "distinct (map v_email ?vs)"
  proof (cases "by_key v_id i (vendors d)")
    case None
    then have "?vs = vendors d" by (intro sql_update_none) (auto simp: by_key_None list_ex_iff)
    then show ?thesis using assms(1) by (simp add: vendor_inv_def)
  next
    case (Some x)
    then have x: "x \<in> set (vendors d)" "v_id x = i" by (auto dest: by_key_SomeD)
    have one: "\<And>r. r \<in> set (vendors d) \<Longrightarrow> v_id r = i \<Longrightarrow> r = x"
      using assms(1) x by (auto simp: vendor_inv_def) (metis distinct_map inj_onD)
    have eq: "?vs = sql_update (\<lambda>x. v_id x = i) (\<lambda>_. f x) (vendors d)"
      using one by (auto simp: sql_update_def)
    show ?thesis unfolding eq
      by (rule distinct_sql_update_at [where y = "v_email (f x)"]) (use assms(1,3) x in \<open>auto simp: vendor_inv_def\<close>)
  qed
  moreover have "\<forall>x\<in>set ?vs. settings_ok x" using assms(1,3) by (auto simp: set_sql_update vendor_inv_def)
  ultimately show ?thesis using assms(1) by (simp add: vendor_inv_def ids idset)
qed

lemma vendor_check_None:
  "vendor_check d v = None \<longleftrightarrow> settings_ok v \<and> (\<forall>x\<in>set (vendors d). v_id x \<noteq> v_id v \<longrightarrow> v_email x \<noteq> v_email v) \<and> fk_user d (v_approved_by v)"
  by (auto simp: vendor_check_def settings_ok_def list_ex_iff)

lemma atomic_vendor_statements [atomic_intros]:
  "atomic (vendor_create E v)" "atomic (vendor_update_status E st by i)" "atomic (vendor_update_settings E c ds i)"
  "atomic (vendor_update_contact_email E em i)" "atomic (plants_delete_others E i ps)" "atomic (plants_insert E i p)"
  "atomic (plants_set_window E i p win)" "atomic (plants_set E i ps)" "atomic (operator_upsert E x)"
  "atomic (operator_set_status E i k ost)" "atomic (operator_set_statuses E i from to)"
  unfolding vendor_create_def vendor_update_status_def vendor_update_settings_def vendor_update_contact_email_def
    plants_delete_others_def plants_insert_def plants_set_window_def plants_set_def operator_upsert_def
    operator_set_status_def operator_set_statuses_def
  by (intro atomic_intros atomic_bind_ret ro_intros)+

lemma keeps_vendor_updates:
  "keeps vendor_inv (vendor_update_status E st by i)" "keeps vendor_inv (vendor_update_settings E c ds i)"
  "keeps vendor_inv (vendor_update_contact_email E em i)"
proof -
  show "keeps vendor_inv (vendor_update_status E st by i)"
  proof (rule keeps_of_ok [OF atomic_vendor_statements(2)])
    fix w r w'
    assume inv: "vendor_inv (w_db w)" and run: "vendor_update_status E st by i w = (Inr r, w')"
    from vendor_update_status_ok [of E st "by" i w w'] run obtain f where
      f: "w_db w' = vendors_update (sql_update (\<lambda>v. v_id v = i) f) (w_db w)"
      "\<And>v. v_id (f v) = v_id v \<and> v_status (f v) = st \<and> v_email (f v) = v_email v \<and> settings_ok (f v) = settings_ok v" by auto
    show "vendor_inv (w_db w')" unfolding f(1)
    proof (rule vendor_update_inv [OF inv])
      fix x assume x: "x \<in> set (vendors (w_db w))" "v_id x = i"
      with inv f(2) show "settings_ok (f x) \<and> (\<forall>y\<in>set (vendors (w_db w)). v_id y \<noteq> i \<longrightarrow> v_email y \<noteq> v_email (f x))"
        by (auto simp: vendor_inv_def) (metis distinct_map inj_onD)
    qed (simp add: f(2))
  qed
  have upd: "keeps vendor_inv (update_rows E vendors vendors_update vendor_check (Some e) (\<lambda>v. v_id v = i) f)"
    if "\<And>v. v_id (f v) = v_id v" for f e
  proof (rule keeps_of_ok [OF atomic_table_writes(2)])
    fix w r w'
    assume inv: "vendor_inv (w_db w)"
      and run: "update_rows E vendors vendors_update vendor_check (Some e) (\<lambda>v. v_id v = i) f w = (Inr r, w')"
    note U = update_rows_ok [of E vendors vendors_update vendor_check e "\<lambda>v. v_id v = i" f w w']
    have d: "w_db w' = vendors_update (sql_update (\<lambda>v. v_id v = i) f) (w_db w)" using U(1) run by simp
    have ok: "\<forall>r\<in>set (vendors (w_db w)). v_id r = i \<longrightarrow> vendor_check (w_db w) (f r) = None" using U(3) run by simp
    show "vendor_inv (w_db w')" unfolding d
      by (rule vendor_update_inv [OF inv that]) (use ok that in \<open>auto simp: vendor_check_None\<close>)
  qed
  show "keeps vendor_inv (vendor_update_settings E c ds i)" "keeps vendor_inv (vendor_update_contact_email E em i)"
    unfolding vendor_update_settings_def vendor_update_contact_email_def by (rule upd; simp)+
qed

lemma keeps_vendor_create: "keeps vendor_inv (vendor_create E v)"
  unfolding vendor_create_def
proof (rule keeps_bind)
  let ?mk = "\<lambda>i. v\<lparr>v_id := i, v_approved_at := None, v_approved_by := None, v_cutoff_hour := 17, v_preorder_days := 7,
          v_created_at := e_dbnow E, v_updated_at := e_dbnow E\<rparr>"
  show "keeps vendor_inv (insert_row E vendors_update vendor_insert_check ?mk)"
  proof (rule keeps_of_ok [OF atomic_table_writes(1)])
    fix w r w'
    assume inv: "vendor_inv (w_db w)" and run: "insert_row E vendors_update vendor_insert_check ?mk w = (Inr r, w')"
    note I = insert_row_ok [OF run]
    from I(2) have "v_id r \<notin> v_id ` set (vendors (w_db w))" and c: "vendor_check (w_db w) r = None"
      by (auto simp: vendor_insert_check_def split: if_splits)
    moreover have "v_email r \<notin> v_email ` set (vendors (w_db w))"
    proof
      assume "v_email r \<in> v_email ` set (vendors (w_db w))"
      then obtain x where x: "x \<in> set (vendors (w_db w))" "v_email x = v_email r" by force
      with calculation(1) have "v_id x \<noteq> v_id r" by (metis imageI)
      with c x show False by (auto simp: vendor_check_None)
    qed
    ultimately show "vendor_inv (w_db w')"
      using inv c by (auto simp: I(3) vendor_inv_def vendor_check_None)
  qed
qed (rule keeps_ro, rule ro_ret)

lemma keeps_plant_statements:
  "keeps vendor_inv (plants_delete_others E v ps)" "keeps vendor_inv (plants_insert E v p)"
  "keeps vendor_inv (plants_set_window E v p win)" "keeps vendor_inv (plants_set E v ps)"
proof -
  show del: "keeps vendor_inv (plants_delete_others E v ps)"
    unfolding plants_delete_others_def
    by (rule keeps_exec) (auto simp: vendor_inv_def distinct_map_filter split: option.splits)
  have upd: "vendor_inv (plant_mappings_update (sql_update P f) d)"
    if "vendor_inv d" "\<And>m. mapping_key (f m) = mapping_key m" for P f d
  proof -
    have "map mapping_key (sql_update P f (plant_mappings d)) = map mapping_key (plant_mappings d)"
      by (simp add: map_sql_update that(2))
    then show ?thesis using that by (auto simp: vendor_inv_def set_sql_update mapping_key_def)
  qed
  have ins: "keeps vendor_inv (plants_insert E v p)" for p
    unfolding plants_insert_def
  proof (rule keeps_exec)
    fix w a w1
    let ?hit = "\<lambda>m. pm_vendor m = v \<and> pm_plant m = p"
    let ?new = "\<lparr>pm_id = e_uuid E (w_tick w), pm_vendor = v, pm_plant = p, pm_active = True, pm_window = '''',
       pm_created_at = e_dbnow E\<rparr>"
    assume inv: "vendor_inv (w_db w)" and "(let d = w_db w; hit = ?hit in
     if list_ex hit (plant_mappings d)
     then Inr ((), w\<lparr>w_db := plant_mappings_update (sql_update hit (\<lambda>m. m\<lparr>pm_active := True\<rparr>)) d\<rparr>)
     else if \<not> fk_vendor d (Some v) \<or> p \<notin> p_code ` set (plants d) then Inl fk_violation
     else if e_uuid E (w_tick w) \<in> pm_id ` set (plant_mappings d) then Inl unique_violation
     else Inr ((), w\<lparr>w_db := plant_mappings_update (\<lambda>ms. ms @ [?new]) d\<rparr>)) = Inr (a, w1)"
    then consider "w_db w1 = plant_mappings_update (sql_update ?hit (\<lambda>m. m\<lparr>pm_active := True\<rparr>)) (w_db w)"
      | "\<not> list_ex ?hit (plant_mappings (w_db w))" "fk_vendor (w_db w) (Some v)" "p \<in> p_code ` set (plants (w_db w))"
        "w_db w1 = plant_mappings_update (\<lambda>ms. ms @ [?new]) (w_db w)"
      by (auto simp: Let_def split: if_splits)
    then show "vendor_inv (w_db w1)"
    proof cases
      case 1
      then show ?thesis using upd [OF inv, of "\<lambda>m. m\<lparr>pm_active := True\<rparr>"] by (simp add: mapping_key_def)
    next
      case 2
      have "v \<in> v_id ` set (vendors (w_db w))" using 2(2) by (auto simp: fk_vendor_def list_ex_iff)
      moreover have "mapping_key ?new \<notin> mapping_key ` set (plant_mappings (w_db w))"
        using 2(1) by (auto simp: list_ex_iff mapping_key_def)
      ultimately show ?thesis using inv 2(3) by (auto simp: 2(4) vendor_inv_def)
    qed
  qed
  show "keeps vendor_inv (plants_insert E v p)" by (rule ins)
  show "keeps vendor_inv (plants_set_window E v p win)"
    unfolding plants_set_window_def
  proof (rule keeps_of_ok [OF atomic_table_writes(2)])
    fix w r w'
    let ?P = "\<lambda>m. pm_vendor m = v \<and> pm_plant m = p \<and> pm_active m" and ?f = "\<lambda>m. m\<lparr>pm_window := win\<rparr>"
    assume inv: "vendor_inv (w_db w)" and "update_rows E plant_mappings plant_mappings_update no_check
     (Some (VendorErr ErrVendorNotFound)) ?P ?f w = (Inr r, w')"
    then have "w_db w' = plant_mappings_update (sql_update ?P ?f) (w_db w)"
      using update_rows_ok(1) [of E plant_mappings plant_mappings_update no_check "VendorErr ErrVendorNotFound" ?P ?f w w']
      by simp
    then show "vendor_inv (w_db w')" using upd [OF inv, of ?f ?P] by (simp add: mapping_key_def)
  qed
  show "keeps vendor_inv (plants_set E v ps)"
    unfolding plants_set_def by (intro keeps_tx keeps_bind del keeps_for_each ins)
qed

lemma keeps_operator_moves:
  "keeps vendor_inv (operator_set_status E v i st)" "keeps vendor_inv (operator_set_statuses E v from to)"
proof -
  have upd: "vendor_inv (operators_update (sql_update P (operator_moved E st)) d)" if "vendor_inv d" for P st d
  proof -
    have "map oa_id (sql_update P (operator_moved E st) (operators d)) = map oa_id (operators d)"
      "map operator_key (sql_update P (operator_moved E st) (operators d)) = map operator_key (operators d)"
      by (simp_all add: map_sql_update operator_key_def)
    then show ?thesis using that by (auto simp: vendor_inv_def set_sql_update)
  qed
  show "keeps vendor_inv (operator_set_status E v i st)"
    unfolding operator_set_status_def
  proof (rule keeps_of_ok [OF atomic_table_writes(2)])
    fix w r w'
    let ?P = "\<lambda>x. oa_vendor x = v \<and> oa_id x = i"
    assume inv: "vendor_inv (w_db w)" and "update_rows E operators operators_update no_check
      (Some (VendorErr ErrOperatorNotFound)) ?P (operator_moved E st) w = (Inr r, w')"
    then have "w_db w' = operators_update (sql_update ?P (operator_moved E st)) (w_db w)"
      using update_rows_ok(1) [of E operators operators_update no_check "VendorErr ErrOperatorNotFound" ?P "operator_moved E st" w w']
      by simp
    then show "vendor_inv (w_db w')" using upd [OF inv] by simp
  qed
  show "keeps vendor_inv (operator_set_statuses E v from to)"
  proof (rule keeps_of_ok [OF atomic_vendor_statements(11)])
    fix w r w'
    assume inv: "vendor_inv (w_db w)" and run: "operator_set_statuses E v from to w = (Inr r, w')"
    show "vendor_inv (w_db w')"
    proof (cases "from = []")
      case True
      with inv run show ?thesis by (simp add: operator_set_statuses_def ret_ok)
    next
      case False
      with operator_set_statuses_ok [of E v "from" to w w'] run upd [OF inv] show ?thesis by simp
    qed
  qed
qed

lemma fk_vendor_Some: "fk_vendor d (Some i) \<longleftrightarrow> i \<in> v_id ` set (vendors d)"
  by (auto simp: fk_vendor_def list_ex_iff image_iff)

lemma operator_check_None:
  "operator_check d x = None \<longleftrightarrow> to_lower (oa_email x) = oa_email x \<and> slug_ok (oa_provider x)
     \<and> oa_vendor x \<in> v_id ` set (vendors d) \<and> (oa_subject x \<noteq> None \<longrightarrow> (\<forall>y\<in>set (operators d).
       oa_id y \<noteq> oa_id x \<longrightarrow> oa_provider y = oa_provider x \<longrightarrow> oa_subject y \<noteq> oa_subject x))"
  by (auto simp: operator_check_def fk_vendor_Some list_ex_iff)

lemma keeps_operator_upsert: "keeps vendor_inv (operator_upsert E x)"
proof (rule keeps_of_ok [OF atomic_vendor_statements(9)])
  fix w z w'
  assume inv: "vendor_inv (w_db w)" and run: "operator_upsert E x w = (Inr z, w')"
  let ?d = "w_db w" and ?hit = "\<lambda>y. oa_vendor y = oa_vendor x \<and> oa_email y = oa_email x"
  have hit: "?hit = (\<lambda>y. operator_key y = operator_key x)" by (auto simp: operator_key_def fun_eq_iff)
  show "vendor_inv (w_db w')"
  proof (cases "find ?hit (operators ?d)")
    case (Some y)
    then have y: "y \<in> set (operators ?d)" "operator_key y = operator_key x" by (auto simp: find_Some_iff operator_key_def)
    let ?z = "x\<lparr>oa_id := oa_id y, oa_created_at := oa_created_at y, oa_updated_at := e_dbnow E\<rparr>"
    from run Some have w': "w_db w' = operators_update (sql_update ?hit (\<lambda>_. ?z)) ?d" and ok: "operator_check ?d ?z = None"
      by (auto simp: operator_upsert_def exec_ok Let_def split: option.splits)
    have one: "r = y" if "r \<in> set (operators ?d)" "operator_key r = operator_key x" for r
      using that y inv by (auto simp: vendor_inv_def) (metis distinct_map inj_onD)
    have "map oa_id (sql_update ?hit (\<lambda>_. ?z) (operators ?d)) = map oa_id (operators ?d)"
      "map operator_key (sql_update ?hit (\<lambda>_. ?z) (operators ?d)) = map operator_key (operators ?d)"
      unfolding hit using y(2) by (auto simp: sql_update_def operator_key_def dest: one)
    moreover have "oa_vendor x \<in> v_id ` set (vendors ?d)" "to_lower (oa_email x) = oa_email x" "slug_ok (oa_provider x)"
      using ok by (auto simp: operator_check_None)
    ultimately show ?thesis using inv by (auto simp: w' vendor_inv_def set_sql_update)
  next
    case None
    let ?z = "x\<lparr>oa_id := e_uuid E (w_tick w), oa_created_at := e_dbnow E, oa_updated_at := e_dbnow E\<rparr>"
    from run None have w': "w_db w' = operators_update (\<lambda>os. os @ [?z]) ?d" and ok: "operator_check ?d ?z = None"
      "oa_id ?z \<notin> oa_id ` set (operators ?d)"
      by (auto simp: operator_upsert_def exec_ok Let_def split: option.splits if_splits)
    from None have "operator_key ?z \<notin> operator_key ` set (operators ?d)"
      by (auto simp: find_None_iff operator_key_def)
    moreover have "oa_vendor x \<in> v_id ` set (vendors ?d)" "to_lower (oa_email x) = oa_email x" "slug_ok (oa_provider x)"
      using ok(1) by (auto simp: operator_check_None)
    ultimately show ?thesis using inv ok(2) by (simp add: w' vendor_inv_def)
  qed
qed

lemma keeps_vendor_audit: "keeps vendor_inv (vendor_audit E cfg a act v pl)"
  unfolding vendor_audit_def audit_write_def
  by (intro keeps_op keeps_tx keeps_audit_write; rule vendor_inv_cong; simp)

lemmas vendor_keeps = keeps_op keeps_vendor_updates keeps_vendor_create keeps_plant_statements keeps_operator_moves
  keeps_operator_upsert keeps_vendor_audit ro_vendor_reads [THEN keeps_ro] ro_remote [THEN keeps_ro]
  ro_catalog [THEN keeps_ro] ro_from_res [THEN keeps_ro]

lemma keeps_vendor_ops [keeps_intros]:
  "keeps vendor_inv (create_pending E n l em)" "keeps vendor_inv (approve E cfg i a ps)" "keeps vendor_inv (suspend E cfg i a)"
  "keeps vendor_inv (reinstate E cfg i a)" "keeps vendor_inv (update_settings E i c ds)"
  "keeps vendor_inv (update_profile E cfg i a oe ops)" "keeps vendor_inv (set_plant_window E i p win)"
  "keeps vendor_inv (create_operator E cfg i em n)" "keeps vendor_inv (suspend_operator E cfg i k)"
  "keeps vendor_inv (reinstate_operator E cfg i k)"
  unfolding create_pending_def approve_def suspend_def reinstate_def update_settings_def update_profile_def
    update_profile_email_def update_profile_plants_def set_plant_window_def create_operator_def suspend_operator_def
    reinstate_operator_def Let_def
  by (intro vendor_keeps)+

end
