(* ===== verification/Identity_Props.thy ===== *)
theory Identity_Props
  imports Identity World_Parts Scenario
begin

text \<open>
  What logins and bearer authentication guarantee: the tables of users and identities, the login
  step by step, the sessions of a user and their revocation, the authentication of a request, the
  single-use login codes.
\<close>

section \<open>The tables\<close>

definition identity_inv :: "db \<Rightarrow> bool" where
  "identity_inv d \<longleftrightarrow> distinct (map u_id (users d)) \<and> distinct (map u_email (users d))
     \<and> (\<forall>u\<in>set (users d). to_lower (u_email u) = u_email u)
     \<and> distinct (map id_key (identities d)) \<and> id_user ` set (identities d) \<subseteq> u_id ` set (users d)"

text \<open>The user behind an external subject.\<close>

definition linked :: "db \<Rightarrow> string \<Rightarrow> string \<Rightarrow> uuid option" where
  "linked d slug sub = map_option id_user (by_key id_key (slug, sub) (identities d))"

lemma user_create_ok:
  assumes "user_create E c w = (Inr u, w')" "identity_inv (w_db w)"
  shows "u = c\<lparr>u_id := u_id u, u_created_at := e_dbnow E, u_updated_at := e_dbnow E\<rparr>"
    "w_db w' = (w_db w)\<lparr>users := users (w_db w) @ [u]\<rparr>" "identity_inv (w_db w')"
    "by_key u_id (u_id u) (users (w_db w)) = None"
proof -
  note I = insert_row_ok [OF assms(1) [unfolded user_create_def]]
  show 1: "u = c\<lparr>u_id := u_id u, u_created_at := e_dbnow E, u_updated_at := e_dbnow E\<rparr>" using I(1) by simp
  show 2: "w_db w' = (w_db w)\<lparr>users := users (w_db w) @ [u]\<rparr>" using I(3) by simp
  from I(2) have "u_id u \<notin> u_id ` set (users (w_db w))" "u_email u \<notin> u_email ` set (users (w_db w))"
    "u_email u = to_lower (u_email u)" by (simp_all add: user_insert_check_def)
  with assms(2) show "identity_inv (w_db w')" "by_key u_id (u_id u) (users (w_db w)) = None"
    by (auto simp: identity_inv_def 2 by_key_None)
qed

lemma user_update_profile_ok:
  assumes "user_update_profile E c w = (Inr u, w')" "identity_inv (w_db w)"
  shows "\<exists>x. by_key u_id (u_id c) (users (w_db w)) = Some x \<and> u = with_profile E c x"
    "w_db w' = (w_db w)\<lparr>users := sql_update (\<lambda>x. u_id x = u_id c) (with_profile E c) (users (w_db w))\<rparr>"
    "identity_inv (w_db w')"
proof -
  let ?d = "w_db w"
  from assms(1) obtain x where o: "by_key u_id (u_id c) (users ?d) = Some x" "u = with_profile E c x"
    "user_check ?d u = None"
    and d: "w_db w' = ?d\<lparr>users := sql_update (\<lambda>x. u_id x = u_id c) (with_profile E c) (users ?d)\<rparr>"
    by (auto simp: user_update_profile_def io_simps Let_def split: option.splits)
  from o show "\<exists>x. by_key u_id (u_id c) (users ?d) = Some x \<and> u = with_profile E c x" by blast
  show "w_db w' = ?d\<lparr>users := sql_update (\<lambda>x. u_id x = u_id c) (with_profile E c) (users ?d)\<rparr>" by (fact d)
  have id: "u_id u = u_id c" "u_email u = u_email c" using o(1) by (auto simp: o(2) with_profile_def dest: by_key_SomeD)
  with o(3) have em: "to_lower (u_email c) = u_email c" "\<And>x. x \<in> set (users ?d) \<Longrightarrow> u_id x \<noteq> u_id c \<Longrightarrow> u_email x \<noteq> u_email c"
    by (auto simp: user_check_def user_email_taken_def list_ex_iff)
  have wp: "u_id (with_profile E c x) = u_id x" "u_email (with_profile E c x) = u_email c" for x
    by (simp_all add: with_profile_def)
  have "distinct (map u_email (users (w_db w')))"
    using assms(2) by (simp add: d) (rule distinct_sql_update_at [where y = "u_email c"], auto simp: identity_inv_def em wp)
  moreover have "\<forall>u\<in>set (users (w_db w')). to_lower (u_email u) = u_email u"
    using assms(2) em(1) by (auto simp: d set_sql_update identity_inv_def wp)
  moreover have "map u_id (users (w_db w')) = map u_id (users ?d)" by (simp add: d map_sql_update wp)
  moreover from calculation have "u_id ` set (users (w_db w')) = u_id ` set (users ?d)" by (metis set_map)
  ultimately show "identity_inv (w_db w')" using assms(2) by (simp add: identity_inv_def d)
qed

lemma identity_link_ok:
  assumes "identity_link E x w = (Inr y, w')" "identity_inv (w_db w)"
  shows "w_db w' = (w_db w)\<lparr>identities := identities (w_db w) @ [y]\<rparr>" "id_user y = id_user x" "id_key y = id_key x"
    "id_key y \<notin> id_key ` set (identities (w_db w))" "identity_inv (w_db w')"
proof -
  note I = insert_row_ok [OF assms(1) [unfolded identity_link_def]]
  show 1: "w_db w' = (w_db w)\<lparr>identities := identities (w_db w) @ [y]\<rparr>" using I(3) by simp
  show 2: "id_user y = id_user x" "id_key y = id_key x" by (simp_all add: I(1) id_key_def)
  from I(2) have "\<exists>x\<in>set (users (w_db w)). u_id x = id_user y" by (simp add: identity_check_def fk_user_def list_ex_iff)
  then have "id_user y \<in> u_id ` set (users (w_db w))" by (metis imageI)
  moreover from I(2) have "id_key y \<notin> id_key ` set (identities (w_db w))"
    by (auto simp: identity_check_def list_ex_iff id_key_def image_iff)
  ultimately show "id_key y \<notin> id_key ` set (identities (w_db w))" "identity_inv (w_db w')"
    using assms(2) by (auto simp: 1 identity_inv_def)
qed

section \<open>The login\<close>

lemma bind_attempt_ok:
  "bind (attempt m) (\<lambda>r. case r of Inl e \<Rightarrow> f e | Inr a \<Rightarrow> g a) w = (Inr b, w') \<longleftrightarrow>
     (\<exists>e w1. m w = (Inl e, w1) \<and> f e w1 = (Inr b, w')) \<or> (\<exists>a w1. m w = (Inr a, w1) \<and> g a w1 = (Inr b, w'))"
  by (auto simp: bind_def attempt_def split: prod.splits sum.splits)

lemma cache_of_login [simp]:
  "redis.leaves (user_for_identity E slug sub em)" "redis.leaves (upsert_user_for_login E slug ui c)"
  "redis.leaves (link_identity_if_missing E slug ui i)"
proof -
  show f: "redis.leaves (user_for_identity E slug sub em)" for slug sub em
    unfolding user_for_identity_def identity_get_def user_get_by_id_def user_get_by_email_def
    by (intro redis.leaves_intros)
  have "redis.leaves (user_update_profile E x)" "redis.leaves (user_create E x)" for x
    unfolding user_update_profile_def user_create_def
    by (rule redis.leaves_exec redis.leaves_rows; auto simp: Let_def split: option.splits)+
  then show "redis.leaves (upsert_user_for_login E slug ui c)"
    unfolding upsert_user_for_login_def by (intro redis.leaves_intros f)
  show "redis.leaves (link_identity_if_missing E slug ui i)"
    unfolding link_identity_if_missing_def identity_get_def identity_link_def by (intro redis.leaves_intros)
qed

lemma identity_get_result:
  assumes "identity_get E slug sub w = (r, w')"
  shows "w_db w' = w_db w" "r = Inr x \<Longrightarrow> by_key id_key (slug, sub) (identities (w_db w)) = Some x"
    "r = Inl (IdentityErr ErrIdentityNotFound) \<Longrightarrow> by_key id_key (slug, sub) (identities (w_db w)) = None"
  using assms by (auto simp: identity_get_def get_row_def query_def exec_def split: option.splits sum.splits)

lemma user_for_identity_ok:
  assumes "user_for_identity E slug sub em w = (Inr r, w')"
  shows "w_db w' = w_db w"
    "linked (w_db w) slug sub = Some i \<Longrightarrow> \<exists>u. r = Some u \<and> by_key u_id i (users (w_db w)) = Some u"
    "r = Some u \<Longrightarrow> u \<in> set (users (w_db w))"
proof -
  let ?d = "w_db w"
  show "w_db w' = ?d" by (rule roD [OF ro_authentication(1) assms])
  from assms obtain x w1 where x: "identity_get E slug sub w = (x, w1)"
    and rest: "(case x of Inr y \<Rightarrow> bind (user_get_by_id E (id_user y)) (\<lambda>u. ret (Some u))
       | Inl e \<Rightarrow> if e \<noteq> IdentityErr ErrIdentityNotFound then fail e
         else bind (attempt (user_get_by_email E em)) (\<lambda>r. case r of
             Inr u \<Rightarrow> ret (Some u)
           | Inl e \<Rightarrow> if e = IdentityErr ErrIdUserNotFound then ret None else fail e)) w1 = (Inr r, w')"
    by (auto simp: user_for_identity_def bind_ok attempt_ok)
  note G = identity_get_result [OF x]
  show "\<exists>u. r = Some u \<and> by_key u_id i (users ?d) = Some u" if "linked ?d slug sub = Some i"
    using that rest G by (auto simp: linked_def io_simps user_get_by_id_def split: sum.splits if_splits)
  show "u \<in> set (users ?d)" if "r = Some u"
  proof (cases x)
    case (Inr y)
    with that rest G(1) show ?thesis by (auto simp: io_simps user_get_by_id_def dest: by_key_SomeD)
  next
    case (Inl e)
    with rest that obtain a w2 where a: "user_get_by_email E em w1 = (a, w2)"
      "(case a of Inr u \<Rightarrow> ret (Some u) | Inl e \<Rightarrow> if e = IdentityErr ErrIdUserNotFound then ret None else fail e) w2
        = (Inr (Some u), w')"
      by (auto simp: bind_ok attempt_ok fail_ok split: if_splits)
    then have "user_get_by_email E em w1 = (Inr u, w2)" by (cases a) (auto simp: io_simps split: if_splits)
    then show ?thesis using G(1) by (auto simp: user_get_by_email_def io_simps dest: by_key_SomeD)
  qed
qed

text \<open>The stored user carries the profile of the claims.\<close>

definition carries :: "user \<Rightarrow> user \<Rightarrow> bool" where
  "carries u c \<longleftrightarrow> u_email u = u_email c \<and> u_name u = u_name c \<and> u_role u = u_role c \<and> u_status u = u_status c
     \<and> u_employee_id u = u_employee_id c \<and> u_vendor u = u_vendor c \<and> u_plant u = u_plant c \<and> u_department u = u_department c"

lemma upsert_user_ok:
  assumes "upsert_user_for_login E slug ui c w = (Inr u, w')" "identity_inv (w_db w)"
  shows "identity_inv (w_db w')" "by_key u_id (u_id u) (users (w_db w')) = Some u"
    "carries u c" "identities (w_db w') = identities (w_db w)"
    "linked (w_db w) slug (un_subject ui) = Some i \<Longrightarrow> u_id u = i"
    "by_key u_id (u_id u) (users (w_db w)) = Some v \<Longrightarrow> u_status v = UserActive"
    "k \<noteq> u_id u \<Longrightarrow> by_key u_id k (users (w_db w')) = by_key u_id k (users (w_db w))"
proof -
  let ?d = "w_db w"
  from assms(1) obtain r w1 where r: "user_for_identity E slug (un_subject ui) (u_email c) w = (Inr r, w1)"
    and rest: "(case r of None \<Rightarrow> user_create E c
     | Some u \<Rightarrow> if u_status u \<noteq> UserActive then fail (IdentityErr ErrAccountSuspended)
         else user_update_profile E (c\<lparr>u_id := u_id u\<rparr>)) w1 = (Inr u, w')"
    by (auto simp: upsert_user_for_login_def bind_ok)
  note F = user_for_identity_ok [OF r]
  have inv: "identity_inv (w_db w1)" using assms(2) F(1) by simp
  have "identity_inv (w_db w') \<and> by_key u_id (u_id u) (users (w_db w')) = Some u \<and>
    carries u c \<and> identities (w_db w') = identities (w_db w) \<and>
    (\<forall>i. linked (w_db w) slug (un_subject ui) = Some i \<longrightarrow> u_id u = i) \<and>
    (\<forall>v. by_key u_id (u_id u) (users (w_db w)) = Some v \<longrightarrow> u_status v = UserActive) \<and>
    (\<forall>k. k \<noteq> u_id u \<longrightarrow> by_key u_id k (users (w_db w')) = by_key u_id k (users (w_db w)))"
  proof (cases r)
    case None
    with rest have "user_create E c w1 = (Inr u, w')" by simp
    note C = user_create_ok [OF this inv]
    have "carries u c" unfolding carries_def by (intro conjI; subst C(1); simp)
    with C F None show ?thesis by (auto simp: by_key_append split: option.splits)
  next
    case (Some o')
    with rest have act: "u_status o' = UserActive" and run: "user_update_profile E (c\<lparr>u_id := u_id o'\<rparr>) w1 = (Inr u, w')"
      by (auto simp: fail_def split: if_splits)
    note U = user_update_profile_ok [OF run inv]
    from F(3) [OF Some] assms(2) have o': "by_key u_id (u_id o') (users ?d) = Some o'"
      by (simp add: identity_inv_def by_key_iff)
    with U(1) F(1) have u: "u = with_profile E (c\<lparr>u_id := u_id o'\<rparr>) o'" by simp
    then have f: "u_id u = u_id o'" "carries u c" by (simp_all add: with_profile_def carries_def)
    have at: "by_key u_id k (users (w_db w')) = (if k = u_id o' then Some u else by_key u_id k (users ?d))" for k
      using o' by (auto simp: U(2) F(1) by_key_sql_update with_profile_def u map_option_case split: option.splits
          dest: by_key_SomeD)
    have "identities (w_db w') = identities ?d" by (simp add: U(2) F(1))
    moreover have "u_id o' = i" if "linked ?d slug (un_subject ui) = Some i" for i
      using F(2) [OF that] Some by (auto dest: by_key_SomeD)
    ultimately show ?thesis using U(3) act o' by (simp add: at f)
  qed
  then show "identity_inv (w_db w')" "by_key u_id (u_id u) (users (w_db w')) = Some u"
    "carries u c" "identities (w_db w') = identities (w_db w)"
    "linked (w_db w) slug (un_subject ui) = Some i \<Longrightarrow> u_id u = i"
    "by_key u_id (u_id u) (users (w_db w)) = Some v \<Longrightarrow> u_status v = UserActive"
    "k \<noteq> u_id u \<Longrightarrow> by_key u_id k (users (w_db w')) = by_key u_id k (users (w_db w))"
    by blast+
qed

lemma link_identity_ok:
  assumes "link_identity_if_missing E slug ui i w = (Inr (), w')" "identity_inv (w_db w)"
    and "\<And>j. linked (w_db w) slug (un_subject ui) = Some j \<Longrightarrow> j = i"
  shows "linked (w_db w') slug (un_subject ui) = Some i" "identity_inv (w_db w')" "users (w_db w') = users (w_db w)"
    "(s, t) \<noteq> (slug, un_subject ui) \<Longrightarrow> linked (w_db w') s t = linked (w_db w) s t"
proof -
  from assms(1) obtain r w1 where r: "identity_get E slug (un_subject ui) w = (r, w1)"
    and rest: "(case r of Inr _ \<Rightarrow> ret ()
     | Inl e \<Rightarrow> if e \<noteq> IdentityErr ErrIdentityNotFound then fail e
         else bind (identity_link E \<lparr>id_id = [], id_user = i, id_provider = slug, id_subject = un_subject ui,
             id_claims = un_claims ui, id_linked_at = 0\<rparr>) (\<lambda>_. ret ())) w1 = (Inr (), w')"
    by (auto simp: link_identity_if_missing_def bind_ok attempt_ok)
  note G = identity_get_result [OF r]
  have "linked (w_db w') slug (un_subject ui) = Some i \<and> identity_inv (w_db w') \<and> users (w_db w') = users (w_db w) \<and>
    (\<forall>s t. (s, t) \<noteq> (slug, un_subject ui) \<longrightarrow> linked (w_db w') s t = linked (w_db w) s t)"
  proof (cases r)
    case (Inr x)
    with G rest assms(2,3) show ?thesis by (auto simp: linked_def ret_ok)
  next
    case (Inl e)
    with rest obtain y where run: "identity_link E \<lparr>id_id = [], id_user = i, id_provider = slug, id_subject = un_subject ui,
        id_claims = un_claims ui, id_linked_at = 0\<rparr> w1 = (Inr y, w')" and e: "e = IdentityErr ErrIdentityNotFound"
      by (auto simp: io_simps split: if_splits)
    have inv: "identity_inv (w_db w1)" using assms(2) G(1) by simp
    note L = identity_link_ok [OF run inv]
    have k: "id_user y = i" "id_key y = (slug, un_subject ui)" using L(2,3) by (simp_all add: id_key_def)
    from G(3) Inl e have "by_key id_key (slug, un_subject ui) (identities (w_db w)) = None" by simp
    then show ?thesis using L(5) by (auto simp: linked_def L(1) G(1) by_key_append k split: option.splits)
  qed
  then show "linked (w_db w') slug (un_subject ui) = Some i" "identity_inv (w_db w')" "users (w_db w') = users (w_db w)"
    "(s, t) \<noteq> (slug, un_subject ui) \<Longrightarrow> linked (w_db w') s t = linked (w_db w) s t"
    by blast+
qed

text \<open>What a login has to show: a state of the provider that is on file, and an ID token for it.\<close>

definition credential :: "env \<Rightarrow> login_config \<Rightarrow> cache \<Rightarrow> string \<Rightarrow> string \<Rightarrow> string \<Rightarrow> state_payload \<Rightarrow> id_token \<Rightarrow> bool" where
  "credential E cfg c slug st code sp t \<longleftrightarrow> cache_at (e_now E) c (state_key st) = Some (CState sp) \<and> sp_provider sp = slug
     \<and> (\<exists>p k. map_of (lc_providers cfg) slug = Some p \<and> pv_token p k code (sp_verifier sp) = Some t)
     \<and> it_nonce t = sp_nonce sp \<and> it_email_verified t \<and> it_email t \<noteq> [] \<and> it_subject t \<noteq> []"

lemma to_lower_Nil [simp]: "to_lower s = [] \<longleftrightarrow> s = []"
  by (simp add: to_lower_def)

lemma exchange_ok:
  assumes "exchange_and_validate cfg k code sp = Inr (ui, c)" "cache_at (e_now E) ca (state_key st) = Some (CState sp)"
    "sp_provider sp = slug"
  shows "\<exists>t. credential E cfg ca slug st code sp t \<and> un_subject ui = it_subject t \<and> un_claims ui = it_claims t
     \<and> un_email ui = to_lower (it_email t)"
    "user_from_claims cfg (sp_app sp) ui = Inr c"
proof -
  from assms(1) obtain p where p: "map_of (lc_providers cfg) (sp_provider sp) = Some p"
    and x: "provider_exchange p k code (sp_verifier sp) (sp_nonce sp) = Inr ui"
    and g: "un_verified ui" "un_email ui \<noteq> []" "un_subject ui \<noteq> []"
    and u: "user_from_claims cfg (sp_app sp) ui = Inr c"
    by (auto simp: exchange_and_validate_def split: option.splits sum.splits if_splits)
  from u show "user_from_claims cfg (sp_app sp) ui = Inr c" .
  from x obtain t where t: "pv_token p k code (sp_verifier sp) = Some t" "it_nonce t = sp_nonce sp"
    "ui = \<lparr>un_subject = it_subject t, un_email = to_lower (it_email t), un_verified = it_email_verified t,
           un_name = (if it_name t \<noteq> [] then it_name t else if it_preferred t \<noteq> [] then it_preferred t else it_email t),
           un_claims = it_claims t\<rparr>"
    by (auto simp: provider_exchange_def split: option.splits if_splits)
  with assms(2,3) p g show "\<exists>t. credential E cfg ca slug st code sp t \<and> un_subject ui = it_subject t
      \<and> un_claims ui = it_claims t \<and> un_email ui = to_lower (it_email t)"
    unfolding credential_def by (intro exI [of _ t]) auto
qed

lemma role_of_text_Some [simp]: "role_of_text s = Some r \<longleftrightarrow> s = role_text r"
  by (cases r) (auto simp: role_of_text_def)

lemma user_from_claims_ok:
  assumes "user_from_claims cfg app ui = Inr c"
  shows "role_for_app app = Some (u_role c)" "u_status c = UserActive" "u_email c = to_lower (un_email ui)"
    "claim_string (lc_frac_text cfg) (un_claims ui) ''tbite_role'' = role_text (u_role c)"
    "u_role c = VendorOperator \<Longrightarrow>
      u_vendor c = Some (claim_string (lc_frac_text cfg) (un_claims ui) ''tbite_vendor_id'')"
  using assms
  by (auto simp: user_from_claims_def Let_def split: option.splits if_splits user_role.splits)

lemma consume_frame:
  assumes "state_consume E ttl st w = (r, w')"
  shows "w_db w' = w_db w" "session_at now (w_cache w') t = session_at now (w_cache w) t"
    "tokens_of now (w_cache w') u = tokens_of now (w_cache w) u"
proof -
  show "w_db w' = w_db w" by (rule roD [OF ro_sessions(11) assms])
  have "w_cache w' = w_cache w \<or>
    (\<exists>v e. w_cache w' = drop_keys [state_key st] (AList.update (consumed_key st) (v, e) (w_cache w)))"
    using assms by (auto simp: state_consume_def bind_def cache_get_def exec_def ret_def split: option.splits) blast+
  then have "cache_at now (w_cache w') k = cache_at now (w_cache w) k" if "k \<noteq> state_key st" "k \<noteq> consumed_key st" for k
    using that by (auto simp: cache_at_drop cache_at_update)
  then have "cache_at now (w_cache w') (session_key t) = cache_at now (w_cache w) (session_key t)"
    "cache_at now (w_cache w') (user_key u) = cache_at now (w_cache w) (user_key u)"
    by (simp_all add: session_key_def user_key_def state_key_def consumed_key_def)
  then show "session_at now (w_cache w') t = session_at now (w_cache w) t"
    "tokens_of now (w_cache w') u = tokens_of now (w_cache w) u"
    by (simp_all add: session_at_def tokens_of_def)
qed

lemma login_run:
  assumes "complete_login E cfg slug st code w = (Inr (Inr out), w')"
  obtains sp ui c r w0 w1 w2 w3 where
    "cache_at (e_now E) (w_cache w) (state_key st) = Some (CState sp)" "sp_provider sp = slug"
    "w_db w0 = w_db w" "w_cache w0 = w_cache w" "state_consume E (lc_state_ttl cfg) st w0 = (r, w1)"
    "exchange_and_validate cfg (w_tick w1) code sp = Inr (ui, c)"
    "upsert_user_for_login E slug ui c w1 = (Inr (lo_user out), w2)"
    "link_identity_if_missing E slug ui (u_id (lo_user out)) w2 = (Inr (), w3)"
    "session_create E (lc_session_ttl cfg) (u_id (lo_user out)) (u_role (lo_user out)) w3 = (Inr (lo_session out), w')"
    "lo_app out = sp_app sp" "lo_return_to out = sp_return_to sp"
proof -
  from assms obtain x w0 where x: "state_get E st w = (x, w0)"
    and rest: "(case x of Inl e \<Rightarrow> ret (Inl (None, e))
     | Inr (Inl p) \<Rightarrow> ret (Inl (Some (sp_app p), IdentityErr ErrStateConsumed))
     | Inr (Inr sp) \<Rightarrow> bind (attempt (login_body E cfg slug st code sp)) (\<lambda>r. case r of
         Inl e \<Rightarrow> ret (Inl (Some (sp_app sp), e))
       | Inr out \<Rightarrow> ret (Inr out))) w0 = (Inr (Inr out), w')"
    by (auto simp: complete_login_def bind_ok attempt_ok)
  from rest obtain sp where sp: "x = Inr (Inr sp)" and body: "login_body E cfg slug st code sp w0 = (Inr out, w')"
    by (auto simp: bind_attempt_ok ret_ok split: sum.splits)
  from x sp have g: "cache_at (e_now E) (w_cache w) (state_key st) = Some (CState sp)" "w_db w0 = w_db w" "w_cache w0 = w_cache w"
    by (auto simp: state_get_def cache_get_def io_simps split: option.splits cache_value.splits)
  from body have p: "sp_provider sp = slug" by (auto simp: login_body_def fail_def split: if_splits)
  show thesis using body g p that
    by (auto simp: login_body_def io_simps split: prod.splits sum.splits)
qed

text \<open>The claims of the token admit the user to the app of the state, and are what the account carries.\<close>

definition login_proof :: "env \<Rightarrow> login_config \<Rightarrow> cache \<Rightarrow> string \<Rightarrow> string \<Rightarrow> string \<Rightarrow> id_token \<Rightarrow> login_output \<Rightarrow> bool" where
  "login_proof E cfg ca slug st code t out \<longleftrightarrow> (\<exists>sp c ui. credential E cfg ca slug st code sp t
     \<and> un_subject ui = it_subject t \<and> un_claims ui = it_claims t \<and> un_email ui = to_lower (it_email t)
     \<and> user_from_claims cfg (sp_app sp) ui = Inr c \<and> carries (lo_user out) c
     \<and> role_for_app (sp_app sp) = Some (u_role c) \<and> lo_app out = sp_app sp)"

lemma login_effect:
  assumes run: "complete_login E cfg slug st code w = (Inr (Inr out), w')"
    and inv: "identity_inv (w_db w)" and ttl: "0 < lc_session_ttl cfg"
  shows "\<exists>t. login_proof E cfg (w_cache w) slug st code t out \<and> linked (w_db w') slug (it_subject t) = Some (u_id (lo_user out))
      \<and> (\<forall>i. linked (w_db w) slug (it_subject t) = Some i \<longrightarrow> i = u_id (lo_user out))"
    "by_key u_id (u_id (lo_user out)) (users (w_db w')) = Some (lo_user out)" "u_status (lo_user out) = UserActive"
    "by_key u_id (u_id (lo_user out)) (users (w_db w)) = Some v \<Longrightarrow> u_status v = UserActive"
    "k \<noteq> u_id (lo_user out) \<Longrightarrow> by_key u_id k (users (w_db w')) = by_key u_id k (users (w_db w))"
    "session_at (e_now E) (w_cache w') tok = (if tok = ss_token (lo_session out)
      then Some \<lparr>sd_user = u_id (lo_user out), sd_role = u_role (lo_user out), sd_created_at = e_now E, sd_seen_at = e_now E\<rparr>
      else session_at (e_now E) (w_cache w) tok)"
    "identity_inv (w_db w')"
proof -
  from run obtain sp ui c r w0 w1 w2 w3 where
    st: "cache_at (e_now E) (w_cache w) (state_key st) = Some (CState sp)" "sp_provider sp = slug"
    and w0: "w_db w0 = w_db w" "w_cache w0 = w_cache w" and con: "state_consume E (lc_state_ttl cfg) st w0 = (r, w1)"
    and ex: "exchange_and_validate cfg (w_tick w1) code sp = Inr (ui, c)"
    and up: "upsert_user_for_login E slug ui c w1 = (Inr (lo_user out), w2)"
    and li: "link_identity_if_missing E slug ui (u_id (lo_user out)) w2 = (Inr (), w3)"
    and se: "session_create E (lc_session_ttl cfg) (u_id (lo_user out)) (u_role (lo_user out)) w3 = (Inr (lo_session out), w')"
    and app: "lo_app out = sp_app sp" by (rule login_run)
  note C = consume_frame [OF con]
  have inv1: "identity_inv (w_db w1)" using inv C(1) w0 by simp
  note U = upsert_user_ok [OF up inv1]
  have "linked (w_db w2) slug (un_subject ui) = linked (w_db w1) slug (un_subject ui)" by (simp add: linked_def U(4))
  with U(5) have "linked (w_db w2) slug (un_subject ui) = Some j \<Longrightarrow> j = u_id (lo_user out)" for j by simp
  note L = link_identity_ok [OF li U(1) this]
  note S = create_session_ok [OF se ttl]
  from exchange_ok [OF ex st(1)] st(2) obtain t where t: "credential E cfg (w_cache w) slug st code sp t"
    "un_subject ui = it_subject t" "un_claims ui = it_claims t" "un_email ui = to_lower (it_email t)" and fc: "user_from_claims cfg (sp_app sp) ui = Inr c" by blast
  note F = user_from_claims_ok [OF fc] U(3) [unfolded carries_def]
  have lk: "linked (w_db w') slug (it_subject t) = Some (u_id (lo_user out))" using L(1) S(5) t(2) by (simp add: linked_def)
  have "\<forall>i. linked (w_db w) slug (it_subject t) = Some i \<longrightarrow> i = u_id (lo_user out)"
    using U(5) C(1) w0 t(2) by (auto simp: linked_def)
  with t fc U(3) F(1) app lk show "\<exists>t. login_proof E cfg (w_cache w) slug st code t out \<and> linked (w_db w') slug (it_subject t) = Some (u_id (lo_user out))
      \<and> (\<forall>i. linked (w_db w) slug (it_subject t) = Some i \<longrightarrow> i = u_id (lo_user out))"
    unfolding login_proof_def by (intro exI [of _ t]) blast
  show "by_key u_id (u_id (lo_user out)) (users (w_db w')) = Some (lo_user out)" using U(2) L(3) S(5) by simp
  show "u_status (lo_user out) = UserActive" using F by simp
  show "by_key u_id (u_id (lo_user out)) (users (w_db w)) = Some v \<Longrightarrow> u_status v = UserActive"
    using U(6) C(1) w0 by simp
  show "k \<noteq> u_id (lo_user out) \<Longrightarrow> by_key u_id k (users (w_db w')) = by_key u_id k (users (w_db w))"
    using U(7) L(3) S(5) C(1) w0 by simp
  have "w_cache w3 = w_cache w1"
    using redis.leavesD [OF cache_of_login(2) up] redis.leavesD [OF cache_of_login(3) li] by simp
  then show "session_at (e_now E) (w_cache w') tok = (if tok = ss_token (lo_session out)
      then Some \<lparr>sd_user = u_id (lo_user out), sd_role = u_role (lo_user out), sd_created_at = e_now E, sd_seen_at = e_now E\<rparr>
      else session_at (e_now E) (w_cache w) tok)"
    using S(1) [of tok] C(2) w0 by simp
  show "identity_inv (w_db w')" using L(2) S(5) by simp
qed

text \<open>C27: A login that succeeds had a credential: an unexpired login state of that provider, and an ID token for
  it with the state's nonce and a verified email. It enters the app of the state with the role of that app, which is the
  role in the claims; the account it enters is the one linked to the token's subject, was not suspended, is on file
  with exactly the profile of the claims, and no other account changes. The new token stands for that account and
  role, and every other session is as before.\<close>

theorem login_grants_session:
  assumes "complete_login E cfg slug st code w = (Inr (Inr out), w')" "identity_inv (w_db w)" "0 < lc_session_ttl cfg"
  shows "(\<exists>t. login_proof E cfg (w_cache w) slug st code t out \<and> linked (w_db w') slug (it_subject t) = Some (u_id (lo_user out))
        \<and> (\<forall>i. linked (w_db w) slug (it_subject t) = Some i \<longrightarrow> i = u_id (lo_user out)))
    \<and> by_key u_id (u_id (lo_user out)) (users (w_db w')) = Some (lo_user out)
    \<and> u_status (lo_user out) = UserActive
    \<and> (\<forall>v. by_key u_id (u_id (lo_user out)) (users (w_db w)) = Some v \<longrightarrow> u_status v = UserActive)
    \<and> (\<forall>k. k \<noteq> u_id (lo_user out) \<longrightarrow> by_key u_id k (users (w_db w')) = by_key u_id k (users (w_db w)))
    \<and> (\<forall>tok. session_at (e_now E) (w_cache w') tok = (if tok = ss_token (lo_session out)
        then Some \<lparr>sd_user = u_id (lo_user out), sd_role = u_role (lo_user out), sd_created_at = e_now E, sd_seen_at = e_now E\<rparr>
        else session_at (e_now E) (w_cache w) tok))
    \<and> identity_inv (w_db w')"
proof (intro conjI)
  note L = login_effect [OF assms]
  show "\<exists>t. login_proof E cfg (w_cache w) slug st code t out \<and> linked (w_db w') slug (it_subject t) = Some (u_id (lo_user out))
      \<and> (\<forall>i. linked (w_db w) slug (it_subject t) = Some i \<longrightarrow> i = u_id (lo_user out))" by (rule L(1))
qed (use login_effect [OF assms] in blast)+

text \<open>An employee known by email logs in for the first time.\<close>

definition state0 :: state_payload where
  "state0 = \<lparr>sp_app = ''employee'', sp_provider = ''idp'', sp_return_to = ''/'', sp_verifier = ''ver'', sp_nonce = ''non''\<rparr>"

definition token0 :: id_token where
  "token0 = \<lparr>it_nonce = ''non'', it_subject = ''sub'', it_email = ''emp'', it_email_verified = True, it_name = ''E'',
     it_preferred = '''', it_claims = [(''tbite_role'', JStr ''employee''), (''tbite_employee_id'', JStr ''7''),
       (''tbite_plant'', JStr ''P1'')]\<rparr>"

definition login0 :: login_config where
  "login0 = \<lparr>lc_providers = [(''idp'', \<lparr>pv_display = ''IdP'', pv_url = (\<lambda>s v n f. s),
       pv_token = (\<lambda>k c v. if c = ''code'' \<and> v = ''ver'' then Some token0 else None)\<rparr>)],
     lc_state_ttl = 600 * sec_ns, lc_session_ttl = 24 * hour_ns, lc_frac_text = (\<lambda>a b. [])\<rparr>"

definition waiting0 :: world where
  "waiting0 = world0\<lparr>w_cache := [(''oidc:st'', CState state0, None)]\<rparr>"

lemma claims0 [simp]:
  "trim_space ''employee'' = ''employee''" "trim_space ''7'' = ''7''" "trim_space ''P1'' = ''P1''" "to_lower ''emp'' = ''emp''"
  by (simp_all add: trim_space_plain plain_def to_lower_def lower_char_def Let_def)

lemma identity_inv0: "identity_inv db0"
proof -
  have "to_lower ''op'' = ''op''" "to_lower ''adm'' = ''adm''" by (simp_all add: to_lower_def lower_char_def Let_def)
  then show ?thesis by (simp add: identity_inv_def scenario_defs)
qed

lemma login0_ok: "\<exists>out w'. complete_login env0 login0 ''idp'' ''st'' ''code'' waiting0 = (Inr (Inr out), w')
    \<and> u_id (lo_user out) = ''emp''"
  by (simp add: waiting0_def login0_def state0_def token0_def scenario_defs run_simps exchange_and_validate_def
      provider_exchange_def user_from_claims_def claim_string_def role_of_text_def role_for_app_def with_profile_def
      user_check_def user_email_taken_def fk_vendor_def identity_check_def slug_ok_def slug_start_def id_key_def fk_user_def)

theorem login_grants_session_witness:
  "\<exists>out w'. complete_login env0 login0 ''idp'' ''st'' ''code'' waiting0 = (Inr (Inr out), w')
     \<and> linked (w_db w') ''idp'' ''sub'' = Some ''emp''"
proof -
  obtain out w' where run: "complete_login env0 login0 ''idp'' ''st'' ''code'' waiting0 = (Inr (Inr out), w')"
    and u: "u_id (lo_user out) = ''emp''" using login0_ok by blast
  have "identity_inv (w_db waiting0)" "0 < lc_session_ttl login0"
    using identity_inv0 by (simp_all add: waiting0_def login0_def hour_ns_def sec_ns_def)
  from login_grants_session [OF run this] obtain t where
    "login_proof env0 login0 (w_cache waiting0) ''idp'' ''st'' ''code'' t out" "linked (w_db w') ''idp'' (it_subject t) = Some ''emp''"
    using u by auto
  moreover from this(1) have "t = token0" by (auto simp: login_proof_def credential_def login0_def split: if_splits)
  ultimately show ?thesis using run by (auto simp: token0_def)
qed

end
