(* ===== verification/Vendor_Props.thy ===== *)
theory Vendor_Props
  imports Vendor_Inv Identity_Props
begin

text \<open>
  What the vendor service promises: the plants served are exactly those asked for, a suspension
  reaches every active operator, and reinstating gives back what the suspension took.
\<close>

section \<open>The loops over operators\<close>

lemma remote_loop:
  assumes "for_each (remote_operator cfg call) ops w = (Inr (), w')"
  shows "w_db w' = w_db w \<and> w_cache w' = w_cache w \<and> (\<forall>x\<in>set ops. oa_subject x \<noteq> None)
    \<and> w_idp w' = w_idp w @ map (\<lambda>x. call (oa_provider x) (the (oa_subject x))) ops"
  using assms
proof (induction ops arbitrary: w)
  case (Cons x ops)
  then obtain w1 where 1: "remote_operator cfg call x w = (Inr (), w1)" and 2: "for_each (remote_operator cfg call) ops w1 = (Inr (), w')"
    by (auto simp: bind_ok)
  from 1 have "w_db w1 = w_db w \<and> w_cache w1 = w_cache w \<and> oa_subject x \<noteq> None
      \<and> w_idp w1 = w_idp w @ [call (oa_provider x) (the (oa_subject x))]"
    by (auto simp: remote_operator_def remote_def fail_def split: option.splits if_splits)
  with Cons.IH [OF 2] show ?case by simp
qed (simp add: ret_ok)

lemma reinstate_loop:
  "for_each (reinstate_remote_operator cfg) ops w = (Inr (), w') \<Longrightarrow>
     w_db w' = w_db w \<and> w_cache w' = w_cache w
     \<and> w_idp w' = w_idp w @ map (\<lambda>x. IdpReinstate (oa_provider x) (the (oa_subject x)) (oa_vendor x)) ops"
proof (induction ops arbitrary: w)
  case (Cons x ops)
  then obtain w1 where 1: "reinstate_remote_operator cfg x w = (Inr (), w1)"
    and 2: "for_each (reinstate_remote_operator cfg) ops w1 = (Inr (), w')" by (auto simp: bind_ok)
  from 1 have "w_db w1 = w_db w \<and> w_cache w1 = w_cache w
      \<and> w_idp w1 = w_idp w @ [IdpReinstate (oa_provider x) (the (oa_subject x)) (oa_vendor x)]"
    by (auto simp: reinstate_remote_operator_def remote_operator_def remote_def fail_def split: option.splits if_splits)
  with Cons.IH [OF 2] show ?case by simp
qed (simp add: ret_ok)

text \<open>The users an operator's email belongs to, and the sessions after they were revoked.\<close>

definition users_of :: "db \<Rightarrow> operator_account list \<Rightarrow> uuid set" where
  "users_of d ops = {u_id u | u. u \<in> set (users d) \<and> u_email u \<in> oa_email ` set ops}"

lemma revoke_by_email_ok:
  assumes "revoke_by_email E cfg em w = (Inr (), w')" "vc_sessions cfg" "session_inv ts (w_cache w)" "identity_inv (w_db w)"
  shows "session_inv ts (w_cache w')" "w_db w' = w_db w" "w_idp w' = w_idp w"
    "t \<in> set ts \<Longrightarrow> session_at now (w_cache w') t = (case session_at now (w_cache w) t of None \<Rightarrow> None
      | Some d \<Rightarrow> if \<exists>u\<in>set (users (w_db w)). u_email u = em \<and> u_id u = sd_user d then None else Some d)"
proof -
  show db: "w_db w' = w_db w" by (rule roD [OF ro_vendor_reads(9) assms(1)])
  have "(w_cache w' = w_cache w \<and> w_idp w' = w_idp w \<and> by_key u_email em (users (w_db w)) = None) \<or>
    (\<exists>u w1. by_key u_email em (users (w_db w)) = Some u \<and> w_cache w1 = w_cache w \<and> w_idp w1 = w_idp w
       \<and> session_revoke_all E (u_id u) w1 = (Inr (), w'))"
    using assms(1,2)
    by (auto simp: revoke_by_email_def bind_attempt_ok fail_def ret_ok user_get_by_email_def get_row_def query_def exec_def
        split: option.splits sum.splits if_splits intro!: exI [of _ "w\<lparr>w_tick := Suc (w_tick w)\<rparr>"])
  then show "session_inv ts (w_cache w')" "w_idp w' = w_idp w"
    "t \<in> set ts \<Longrightarrow> session_at now (w_cache w') t = (case session_at now (w_cache w) t of None \<Rightarrow> None
      | Some d \<Rightarrow> if \<exists>u\<in>set (users (w_db w)). u_email u = em \<and> u_id u = sd_user d then None else Some d)"
  proof (atomize (full), elim disjE exE conjE, goal_cases)
    case 1
    then have "u_email u \<noteq> em" if "u \<in> set (users (w_db w))" for u using that by (auto simp: by_key_None)
    with 1 assms(3) show ?case by (auto split: option.splits)
  next
    case (2 u w1)
    have inv: "session_inv ts (w_cache w1)" using 2 assms(3) by simp
    have "w_idp w' = w_idp w1" using 2(4)
      by (auto simp: session_revoke_all_def bind_ok cache_smembers_def cache_del_def exec_ok ret_ok split: if_splits)
    moreover have "(\<exists>x\<in>set (users (w_db w)). u_email x = em \<and> u_id x = i) \<longleftrightarrow> i = u_id u" for i
      using 2(1) assms(4) by (auto simp: identity_inv_def by_key_iff) (metis distinct_map inj_onD)
    ultimately show ?case
      using revoke_all_inv [OF 2(4) inv] 2(2,3) by (auto split: option.splits)
  qed
qed

lemma revoke_loop:
  assumes "for_each (\<lambda>x. revoke_by_email E cfg (oa_email x)) ops w = (Inr (), w')" "vc_sessions cfg"
    "session_inv ts (w_cache w)" "identity_inv (w_db w)"
  shows "session_inv ts (w_cache w') \<and> w_db w' = w_db w \<and> w_idp w' = w_idp w
    \<and> (\<forall>t\<in>set ts. session_at now (w_cache w') t = (case session_at now (w_cache w) t of None \<Rightarrow> None
      | Some d \<Rightarrow> if sd_user d \<in> users_of (w_db w) ops then None else Some d))"
  using assms(1,3,4)
proof (induction ops arbitrary: w)
  case Nil
  then show ?case by (auto simp: ret_ok users_of_def split: option.splits)
next
  case (Cons x ops)
  then obtain w1 where 1: "revoke_by_email E cfg (oa_email x) w = (Inr (), w1)"
    and 2: "for_each (\<lambda>x. revoke_by_email E cfg (oa_email x)) ops w1 = (Inr (), w')" by (auto simp: bind_ok)
  note R = revoke_by_email_ok [OF 1 assms(2) Cons.prems(2,3)]
  have "users_of (w_db w) (x # ops) = {u_id u | u. u \<in> set (users (w_db w)) \<and> u_email u = oa_email x} \<union> users_of (w_db w) ops"
    by (auto simp: users_of_def)
  moreover have "identity_inv (w_db w1)" using Cons.prems(3) R(2) by simp
  ultimately show ?case using Cons.IH [OF 2 R(1)] R(2,3,4) by (auto split: option.splits)
qed

section \<open>Suspending and reinstating\<close>

text \<open>The accounts a suspension reaches.\<close>

definition active_operators :: "db \<Rightarrow> uuid \<Rightarrow> operator_account list" where
  "active_operators d v = newest_first (filter (\<lambda>x. oa_vendor x = v \<and> oa_status x = OpActive) (operators d))"

lemma set_active_operators [simp]:
  "x \<in> set (active_operators d v) \<longleftrightarrow> x \<in> set (operators d) \<and> oa_vendor x = v \<and> oa_status x = OpActive"
  by (auto simp: active_operators_def newest_first_def)

lemma audit_frame:
  assumes "vendor_audit E cfg a act v pl w = (Inr (), w')"
  shows "w_cache w' = w_cache w" "w_idp w' = w_idp w" "vendors (w_db w') = vendors (w_db w)"
    "operators (w_db w') = operators (w_db w)" "plant_mappings (w_db w') = plant_mappings (w_db w)"
  using assms
  by (auto simp: vendor_audit_def ret_ok audit_write_def begin_func_ok audit_write_tx_def exec_ok Let_def split: if_splits)

lemma suspend_run:
  assumes "suspend E cfg v admin w = (Inr (), w')"
  obtains w1 w2 w3 w4 w5 where "vendor_at (w_db w) v = Some VApproved" "w_db w1 = w_db w" "w_cache w1 = w_cache w" "w_idp w1 = w_idp w"
    "for_each (suspend_remote_operator cfg) (active_operators (w_db w) v) w1 = (Inr (), w2)"
    "vendor_update_status E VSuspended None v w2 = (Inr (), w3)"
    "operator_set_statuses E v [OpActive] OpVendorSuspended w3 = (Inr (), w4)"
    "for_each (\<lambda>x. revoke_by_email E cfg (oa_email x)) (active_operators (w_db w) v) w4 = (Inr (), w5)"
    "vendor_audit E cfg admin ''vendor.suspend'' v [] w5 = (Inr (), w')"
proof -
  from assms obtain x w0 where x: "vendor_get_by_id E v w = (Inr x, w0)" "v_status x = VApproved"
    and rest: "bind (operator_list_by_status E v [OpActive]) (\<lambda>ops.
       bind (for_each (suspend_remote_operator cfg) ops) (\<lambda>_.
       bind (vendor_update_status E VSuspended None v) (\<lambda>_.
       bind (operator_set_statuses E v [OpActive] OpVendorSuspended) (\<lambda>_.
       bind (for_each (\<lambda>x. revoke_by_email E cfg (oa_email x)) ops) (\<lambda>_.
       vendor_audit E cfg admin ''vendor.suspend'' v []))))) w0 = (Inr (), w')"
    by (auto simp: suspend_def bind_ok fail_def split: if_splits)
  from x(1) have w0: "by_key v_id v (vendors (w_db w)) = Some x" "w_db w0 = w_db w" "w_cache w0 = w_cache w" "w_idp w0 = w_idp w"
    by (auto simp: vendor_get_by_id_def io_simps split: option.splits)
  from rest obtain ops w1 w2 w3 w4 w5 where l: "operator_list_by_status E v [OpActive] w0 = (Inr ops, w1)"
    and r: "for_each (suspend_remote_operator cfg) ops w1 = (Inr (), w2)"
    "vendor_update_status E VSuspended None v w2 = (Inr (), w3)"
    "operator_set_statuses E v [OpActive] OpVendorSuspended w3 = (Inr (), w4)"
    "for_each (\<lambda>x. revoke_by_email E cfg (oa_email x)) ops w4 = (Inr (), w5)"
    "vendor_audit E cfg admin ''vendor.suspend'' v [] w5 = (Inr (), w')"
    by (auto simp: bind_ok)
  from l have "ops = active_operators (w_db w) v" "w_db w1 = w_db w" "w_cache w1 = w_cache w" "w_idp w1 = w_idp w"
    using w0 by (auto simp: operator_list_by_status_def select_rows_ok active_operators_def)
  with r w0 x(2) show thesis by (intro that [of w1 w2 w3 w4 w5]) (auto simp: vendor_at_def)
qed

text \<open>A suspended vendor's operators, as the suspension leaves them.\<close>

lemma operator_at_suspended:
  assumes "distinct (map oa_id (operators d))"
  shows "operator_at (operators_update (sql_update (\<lambda>x. oa_vendor x = v \<and> oa_status x \<in> set from) (operator_moved E to)) d) i =
    (case by_key oa_id i (operators d) of None \<Rightarrow> None
     | Some x \<Rightarrow> Some (if oa_vendor x = v \<and> oa_status x \<in> set from then to else oa_status x))"
  by (simp add: operator_at_update split: option.splits)

lemma quiet_status:
  assumes "vendor_update_status E st by v w = (Inr (), w')"
  shows "operators (w_db w') = operators (w_db w)" "users (w_db w') = users (w_db w)" "identities (w_db w') = identities (w_db w)"
    "vendor_at (w_db w') k = (if k = v then map_option (\<lambda>_. st) (vendor_at (w_db w) k) else vendor_at (w_db w) k)"
proof -
  from vendor_update_status_ok [OF assms] obtain f where
    "w_db w' = vendors_update (sql_update (\<lambda>x. v_id x = v) f) (w_db w)" "\<And>x. v_id (f x) = v_id x \<and> v_status (f x) = st" by blast
  then show "operators (w_db w') = operators (w_db w)" "users (w_db w') = users (w_db w)" "identities (w_db w') = identities (w_db w)"
    "vendor_at (w_db w') k = (if k = v then map_option (\<lambda>_. st) (vendor_at (w_db w) k) else vendor_at (w_db w) k)"
    by (simp_all add: vendor_at_update)
qed

lemma quiet_redis:
  "redis.leaves (vendor_update_status E st by v)" "redis.leaves (operator_set_statuses E v from to)"
  "idp.leaves (vendor_update_status E st by v)" "idp.leaves (operator_set_statuses E v from to)"
  unfolding vendor_update_status_def operator_set_statuses_def
  by (intro redis.leaves_intros idp.leaves_intros)+

text \<open>The tables after a suspension, whether or not sessions are configured.\<close>

lemma suspend_tables:
  assumes run: "suspend E cfg v admin w = (Inr (), w')"
  shows "vendor_at (w_db w) v = Some VApproved"
    "vendor_at (w_db w') = (vendor_at (w_db w))(v \<mapsto> VSuspended)"
    "operators (w_db w') = sql_update (\<lambda>x. oa_vendor x = v \<and> oa_status x = OpActive) (operator_moved E OpVendorSuspended)
      (operators (w_db w))"
    "operator_at (w_db w') i = (case by_key oa_id i (operators (w_db w)) of None \<Rightarrow> None
      | Some x \<Rightarrow> Some (if oa_vendor x = v \<and> oa_status x = OpActive then OpVendorSuspended else oa_status x))"
proof -
  from run obtain w1 w2 w3 w4 w5 where va: "vendor_at (w_db w) v = Some VApproved" and w1: "w_db w1 = w_db w"
    and rem: "for_each (suspend_remote_operator cfg) (active_operators (w_db w) v) w1 = (Inr (), w2)"
    and vs: "vendor_update_status E VSuspended None v w2 = (Inr (), w3)"
    and os: "operator_set_statuses E v [OpActive] OpVendorSuspended w3 = (Inr (), w4)"
    and rev: "for_each (\<lambda>x. revoke_by_email E cfg (oa_email x)) (active_operators (w_db w) v) w4 = (Inr (), w5)"
    and aud: "vendor_audit E cfg admin ''vendor.suspend'' v [] w5 = (Inr (), w')" by (rule suspend_run)
  show "vendor_at (w_db w) v = Some VApproved" by (fact va)
  have "suspend_remote_operator cfg = remote_operator cfg IdpSuspend" by (simp add: fun_eq_iff suspend_remote_operator_def)
  note R = remote_loop [OF rem [unfolded this]]
  note V = quiet_status [OF vs]
  have d4: "w_db w4 = operators_update (sql_update (\<lambda>x. oa_vendor x = v \<and> oa_status x = OpActive) (operator_moved E OpVendorSuspended)) (w_db w3)"
    using operator_set_statuses_ok [OF os] by simp
  have d5: "w_db w5 = w_db w4" by (rule roD [OF ro_for_each rev]) (rule ro_vendor_reads(9))
  note A = audit_frame [OF aud]
  show "vendor_at (w_db w') = (vendor_at (w_db w))(v \<mapsto> VSuspended)"
  proof
    fix k
    have "vendor_at (w_db w') k = vendor_at (w_db w3) k" using A(3) d5 by (simp add: d4 vendor_at_def)
    then show "vendor_at (w_db w') k = ((vendor_at (w_db w))(v \<mapsto> VSuspended)) k" using V(4) [of k] R w1 va by simp
  qed
  show ops: "operators (w_db w') = sql_update (\<lambda>x. oa_vendor x = v \<and> oa_status x = OpActive) (operator_moved E OpVendorSuspended)
      (operators (w_db w))" using A(4) d5 V(1) R w1 by (simp add: d4)
  show "operator_at (w_db w') i = (case by_key oa_id i (operators (w_db w)) of None \<Rightarrow> None
      | Some x \<Rightarrow> Some (if oa_vendor x = v \<and> oa_status x = OpActive then OpVendorSuspended else oa_status x))"
    by (auto simp: operator_at_def ops by_key_sql_update split: option.splits)
qed

lemma suspend_effect:
  assumes run: "suspend E cfg v admin w = (Inr (), w')" and s: "vc_sessions cfg"
    and inv: "session_inv ts (w_cache w)" "identity_inv (w_db w)" "vendor_inv (w_db w)"
  shows "vendor_at (w_db w) v = Some VApproved"
    "vendor_at (w_db w') = (vendor_at (w_db w))(v \<mapsto> VSuspended)"
    "operator_at (w_db w') i = (case by_key oa_id i (operators (w_db w)) of None \<Rightarrow> None
      | Some x \<Rightarrow> Some (if oa_vendor x = v \<and> oa_status x = OpActive then OpVendorSuspended else oa_status x))"
    "operators (w_db w') = sql_update (\<lambda>x. oa_vendor x = v \<and> oa_status x = OpActive) (operator_moved E OpVendorSuspended)
      (operators (w_db w))"
    "w_idp w' = w_idp w @ map (\<lambda>x. IdpSuspend (oa_provider x) (the (oa_subject x))) (active_operators (w_db w) v)"
    "t \<in> set ts \<Longrightarrow> session_at now (w_cache w') t = (case session_at now (w_cache w) t of None \<Rightarrow> None
      | Some d \<Rightarrow> if sd_user d \<in> users_of (w_db w) (active_operators (w_db w) v) then None else Some d)"
    "session_inv ts (w_cache w')"
proof -
  from run obtain w1 w2 w3 w4 w5 where va: "vendor_at (w_db w) v = Some VApproved"
    and w1: "w_db w1 = w_db w" "w_cache w1 = w_cache w" "w_idp w1 = w_idp w"
    and rem: "for_each (suspend_remote_operator cfg) (active_operators (w_db w) v) w1 = (Inr (), w2)"
    and vs: "vendor_update_status E VSuspended None v w2 = (Inr (), w3)"
    and os: "operator_set_statuses E v [OpActive] OpVendorSuspended w3 = (Inr (), w4)"
    and rev: "for_each (\<lambda>x. revoke_by_email E cfg (oa_email x)) (active_operators (w_db w) v) w4 = (Inr (), w5)"
    and aud: "vendor_audit E cfg admin ''vendor.suspend'' v [] w5 = (Inr (), w')" by (rule suspend_run)
  note T = suspend_tables [OF run]
  show "vendor_at (w_db w) v = Some VApproved" "vendor_at (w_db w') = (vendor_at (w_db w))(v \<mapsto> VSuspended)"
    "operators (w_db w') = sql_update (\<lambda>x. oa_vendor x = v \<and> oa_status x = OpActive) (operator_moved E OpVendorSuspended)
      (operators (w_db w))"
    "operator_at (w_db w') i = (case by_key oa_id i (operators (w_db w)) of None \<Rightarrow> None
      | Some x \<Rightarrow> Some (if oa_vendor x = v \<and> oa_status x = OpActive then OpVendorSuspended else oa_status x))"
    by (fact T(1), fact T(2), fact T(3), fact T(4))
  have "suspend_remote_operator cfg = remote_operator cfg IdpSuspend" by (simp add: fun_eq_iff suspend_remote_operator_def)
  note R = remote_loop [OF rem [unfolded this]]
  note V = quiet_status [OF vs]
  note O = operator_set_statuses_ok [OF os]
  have c4: "w_cache w4 = w_cache w" "w_idp w4 = w_idp w2"
    using redis.leavesD [OF quiet_redis(1) vs] redis.leavesD [OF quiet_redis(2) os] idp.leavesD [OF quiet_redis(3) vs]
      idp.leavesD [OF quiet_redis(4) os] R w1 by simp_all
  have d4: "w_db w4 = operators_update (sql_update (\<lambda>x. oa_vendor x = v \<and> oa_status x = OpActive) (operator_moved E OpVendorSuspended)) (w_db w3)"
    using O by simp
  have u4: "users (w_db w4) = users (w_db w)" "identities (w_db w4) = identities (w_db w)" using V R w1 by (simp_all add: d4)
  have "session_inv ts (w_cache w4)" "identity_inv (w_db w4)" using inv c4 u4 by (simp_all add: identity_inv_def)
  note S = revoke_loop [OF rev s this]
  note A = audit_frame [OF aud]
  show "w_idp w' = w_idp w @ map (\<lambda>x. IdpSuspend (oa_provider x) (the (oa_subject x))) (active_operators (w_db w) v)"
    using A(2) S c4 R w1 by simp
  have "users_of (w_db w4) ops = users_of (w_db w) ops" for ops using u4 by (simp add: users_of_def)
  then show "t \<in> set ts \<Longrightarrow> session_at now (w_cache w') t = (case session_at now (w_cache w) t of None \<Rightarrow> None
      | Some d \<Rightarrow> if sd_user d \<in> users_of (w_db w) (active_operators (w_db w) v) then None else Some d)"
    using A(1) S c4 by (simp split: option.splits)
  show "session_inv ts (w_cache w')" using A(1) S by simp
qed

lemma reinstate_effect:
  assumes run: "reinstate E cfg v admin w = (Inr (), w')"
  shows "vendor_at (w_db w') = (vendor_at (w_db w))(v \<mapsto> VApproved)"
    "operator_at (w_db w') i = (case by_key oa_id i (operators (w_db w)) of None \<Rightarrow> None
      | Some x \<Rightarrow> Some (if oa_vendor x = v \<and> oa_status x = OpVendorSuspended then OpActive else oa_status x))"
proof -
  from run obtain x w0 where x: "vendor_get_by_id E v w = (Inr x, w0)" "v_status x = VSuspended"
    and rest: "bind (operator_list_by_status E v [OpVendorSuspended]) (\<lambda>ops.
       bind (for_each (reinstate_remote_operator cfg) ops) (\<lambda>_.
       bind (vendor_update_status E VApproved (Some admin) v) (\<lambda>_.
       bind (operator_set_statuses E v [OpVendorSuspended] OpActive) (\<lambda>_.
       vendor_audit E cfg admin ''vendor.reinstate'' v [])))) w0 = (Inr (), w')"
    by (auto simp: reinstate_def bind_ok fail_def split: if_splits)
  from rest obtain ops w1 w2 w3 w4 where l: "operator_list_by_status E v [OpVendorSuspended] w0 = (Inr ops, w1)"
    and rem: "for_each (reinstate_remote_operator cfg) ops w1 = (Inr (), w2)"
    and vs: "vendor_update_status E VApproved (Some admin) v w2 = (Inr (), w3)"
    and os: "operator_set_statuses E v [OpVendorSuspended] OpActive w3 = (Inr (), w4)"
    and aud: "vendor_audit E cfg admin ''vendor.reinstate'' v [] w4 = (Inr (), w')"
    by (auto simp: bind_ok)
  have d2: "w_db w2 = w_db w"
    using reinstate_loop [OF rem] roD [OF ro_vendor_reads(6) l] roD [OF ro_catalog(2) x(1)] by simp
  from x have va: "vendor_at (w_db w) v = Some VSuspended"
    by (auto simp: vendor_get_by_id_def io_simps vendor_at_def split: option.splits)
  note V = quiet_status [OF vs] and A = audit_frame [OF aud]
  have d4: "w_db w4 = operators_update (sql_update (\<lambda>x. oa_vendor x = v \<and> oa_status x = OpVendorSuspended) (operator_moved E OpActive)) (w_db w3)"
    using operator_set_statuses_ok [OF os] by simp
  show "vendor_at (w_db w') = (vendor_at (w_db w))(v \<mapsto> VApproved)"
  proof
    fix k
    have "vendor_at (w_db w') k = vendor_at (w_db w3) k" using A(3) by (simp add: d4 vendor_at_def)
    then show "vendor_at (w_db w') k = ((vendor_at (w_db w))(v \<mapsto> VApproved)) k" using V(4) [of k] d2 va by simp
  qed
  have "operators (w_db w') = sql_update (\<lambda>x. oa_vendor x = v \<and> oa_status x = OpVendorSuspended) (operator_moved E OpActive)
      (operators (w_db w))" using A(4) V(1) d2 by (simp add: d4)
  then show "operator_at (w_db w') i = (case by_key oa_id i (operators (w_db w)) of None \<Rightarrow> None
      | Some x \<Rightarrow> Some (if oa_vendor x = v \<and> oa_status x = OpVendorSuspended then OpActive else oa_status x))"
    by (auto simp: operator_at_def by_key_sql_update split: option.splits)
qed

section \<open>Properties\<close>


text \<open>C31: Settings outside 0-23 hours and 1-30 days are refused without a statement being sent; a call that succeeds
  returns the vendor as stored, with exactly those settings, and changes no other vendor.\<close>

theorem update_settings_bounds:
  assumes "update_settings E i cutoff days w = (r, w')"
  shows "(\<not> (0 \<le> cutoff \<and> cutoff \<le> 23 \<and> 1 \<le> days \<and> days \<le> 30) \<longrightarrow> r = Inl (VendorErr ErrInvalidSettings) \<and> w' = w)
    \<and> (\<forall>v. r = Inr v \<longrightarrow> by_key v_id i (vendors (w_db w')) = Some v \<and> v_cutoff_hour v = cutoff \<and> v_preorder_days v = days
        \<and> (\<forall>k. k \<noteq> i \<longrightarrow> by_key v_id k (vendors (w_db w')) = by_key v_id k (vendors (w_db w))))"
proof (intro conjI allI impI)
  assume "\<not> (0 \<le> cutoff \<and> cutoff \<le> 23 \<and> 1 \<le> days \<and> days \<le> 30)"
  then show "r = Inl (VendorErr ErrInvalidSettings)" "w' = w"
    using assms by (auto simp: update_settings_def fail_def split: if_splits)
next
  fix v assume "r = Inr v"
  with assms obtain w1 where upd: "vendor_update_settings E cutoff days i w = (Inr (), w1)"
    and get: "vendor_get_by_id E i w1 = (Inr v, w')"
    by (auto simp: update_settings_def bind_ok fail_def split: if_splits)
  let ?f = "\<lambda>v. v\<lparr>v_cutoff_hour := cutoff, v_preorder_days := days, v_updated_at := e_dbnow E\<rparr>"
  have d1: "w_db w1 = vendors_update (sql_update (\<lambda>v. v_id v = i) ?f) (w_db w)"
    using update_rows_ok(1) [OF upd [unfolded vendor_update_settings_def]] .
  from vendor_get_ok [OF get] have v: "by_key v_id i (vendors (w_db w1)) = Some v" "w_db w' = w_db w1" by simp_all
  have at: "by_key v_id k (vendors (w_db w1)) = map_option (\<lambda>v. if v_id v = i then ?f v else v) (by_key v_id k (vendors (w_db w)))" for k
    by (simp add: d1 by_key_sql_update)
  show "by_key v_id i (vendors (w_db w')) = Some v" using v by simp
  show "v_cutoff_hour v = cutoff" "v_preorder_days v = days" using v(1) at [of i] by (auto dest: by_key_SomeD)
  show "by_key v_id k (vendors (w_db w')) = by_key v_id k (vendors (w_db w))" if "k \<noteq> i" for k
    using at [of k] that v(2) by (cases "by_key v_id k (vendors (w_db w))") (auto dest: by_key_SomeD)
qed

theorem update_settings_bounds_witness:
  "\<exists>v w'. update_settings env0 ''v1'' 23 30 world0 = (Inr v, w') \<and> v_cutoff_hour v = 23
     \<and> fst (update_settings env0 ''v1'' 24 30 world0) = Inl (VendorErr ErrInvalidSettings)"
proof -
  have "to_lower ''v'' = ''v''" by (simp add: to_lower_def lower_char_def)
  then obtain v w' where run: "update_settings env0 ''v1'' 23 30 world0 = (Inr v, w')"
    by (simp add: scenario_defs run_simps vendor_get_by_id_def vendor_check_def)
  obtain r w2 where bad: "update_settings env0 ''v1'' 24 30 world0 = (r, w2)" by fastforce
  from update_settings_bounds [OF run] update_settings_bounds [OF bad] run bad show ?thesis by simp
qed

text \<open>C32: Replacing the plants of a vendor is the update of the map from vendors and plants to service windows: the vendor
  then serves exactly the given plants, keeps the window of a plant it served before, starts a new one without a window,
  and no other vendor is touched.\<close>

theorem plants_set_refines:
  assumes "plants_set E v (Some l) w = (Inr (), w')"
  shows "served (w_db w') = (\<lambda>a q. if a = v then (if q \<in> set l
      then Some (True, case served (w_db w) v q of None \<Rightarrow> [] | Some (_, win) \<Rightarrow> win) else None) else served (w_db w) a q)"
  using plants_set_ok(1) [OF assms] by (simp add: fun_eq_iff)

definition plants0 :: world where
  "plants0 = world0\<lparr>w_db := db0\<lparr>plants := map (\<lambda>c. \<lparr>p_code = c, p_label = c, p_address = [], p_active = True, p_sort = 0,
     p_created_at = 0, p_updated_at = 0\<rparr>) [''P1'', ''P2'']\<rparr>\<rparr>"

theorem plants_set_refines_witness:
  "\<exists>w'. plants_set env0 ''v1'' (Some [''P2'']) plants0 = (Inr (), w')
     \<and> served (w_db w') ''v1'' ''P1'' = None \<and> served (w_db w') ''v1'' ''P2'' = Some (True, [])"
proof -
  obtain w' where run: "plants_set env0 ''v1'' (Some [''P2'']) plants0 = (Inr (), w')"
    by (simp add: plants0_def scenario_defs run_simps fk_vendor_def)
  from plants_set_refines [OF run] have "served (w_db w') = (\<lambda>a q. if a = ''v1'' then (if q \<in> set [''P2'']
      then Some (True, case served (w_db plants0) ''v1'' q of None \<Rightarrow> [] | Some (_, win) \<Rightarrow> win) else None)
      else served (w_db plants0) a q)" .
  moreover have "served (w_db plants0) ''v1'' ''P2'' = None"
    by (simp add: plants0_def scenario_defs served_def mapping_key_def)
  ultimately show ?thesis using run by simp
qed

text \<open>C33: A suspension that succeeds was of an approved vendor and ends the access of its active operators everywhere: the
  vendor is suspended, each active operator is marked suspended with the vendor and was suspended at the identity provider,
  every token that was handed out to the user of such an operator stands for nobody, and everyone else's stays.\<close>

theorem suspend_ends_access:
  assumes "suspend E cfg v admin w = (Inr (), w')" "vc_sessions cfg"
    and "sessions_reach ts (w_cache w)" "identity_inv (w_db w)" "vendor_inv (w_db w)"
  shows "vendor_at (w_db w) v = Some VApproved \<and> vendor_at (w_db w') = (vendor_at (w_db w))(v \<mapsto> VSuspended)
    \<and> (\<forall>i. operator_at (w_db w') i = (case by_key oa_id i (operators (w_db w)) of None \<Rightarrow> None
        | Some x \<Rightarrow> Some (if oa_vendor x = v \<and> oa_status x = OpActive then OpVendorSuspended else oa_status x)))
    \<and> w_idp w' = w_idp w @ map (\<lambda>x. IdpSuspend (oa_provider x) (the (oa_subject x))) (active_operators (w_db w) v)
    \<and> (\<forall>t\<in>set ts. \<forall>now. session_at now (w_cache w') t = (case session_at now (w_cache w) t of None \<Rightarrow> None
        | Some d \<Rightarrow> if sd_user d \<in> users_of (w_db w) (active_operators (w_db w) v) then None else Some d))"
  using suspend_effect [OF assms(1,2) reach_inv [OF assms(3)] assms(4,5)] by blast

text \<open>The vendor of the scenario with an active operator and one that was suspended before.\<close>

definition operator0 :: "uuid \<Rightarrow> string \<Rightarrow> operator_status \<Rightarrow> operator_account" where
  "operator0 i em st = \<lparr>oa_id = i, oa_vendor = ''v1'', oa_email = em, oa_name = em, oa_provider = ''idp'', oa_subject = Some em,
     oa_status = st, oa_setup_url = None, oa_synced_at = None, oa_created_at = 0, oa_updated_at = 0\<rparr>"

definition staffed0 :: world where
  "staffed0 = plants0\<lparr>w_db := (w_db plants0)\<lparr>operators := [operator0 ''o1'' ''op'' OpActive, operator0 ''o2'' ''x'' OpSuspended]\<rparr>\<rparr>"

definition vendors0 :: vendor_config where
  "vendors0 = \<lparr>vc_provisioner = Some \<lparr>pr_upsert = (\<lambda>h c. None), pr_accepts = (\<lambda>h c. True)\<rparr>, vc_sessions = True, vc_audit = True,
     vc_parse_address = (\<lambda>s. True)\<rparr>"

lemmas staffed_defs = staffed0_def operator0_def vendors0_def plants0_def scenario_defs

lemma vendor_inv0: "vendor_inv (w_db staffed0)"
proof -
  have "to_lower ''v'' = ''v''" "to_lower ''op'' = ''op''" "to_lower ''x'' = ''x''"
    by (simp_all add: to_lower_def lower_char_def)
  then show ?thesis
    by (simp add: vendor_inv_def staffed_defs settings_ok_def mapping_key_def operator_key_def slug_ok_def slug_start_def)
qed

lemma staffed0_ok: "identity_inv (w_db staffed0)" "sessions_reach [] (w_cache staffed0)"
  "suspend env0 vendors0 ''v1'' ''adm'' staffed0 = (Inr (), snd (suspend env0 vendors0 ''v1'' ''adm'' staffed0))"
proof -
  show "identity_inv (w_db staffed0)" using identity_inv0 by (simp add: staffed0_def plants0_def identity_inv_def)
  show "sessions_reach [] (w_cache staffed0)" by (simp add: staffed_defs sessions_reach.Empty)
  have "to_lower ''v'' = ''v''" by (simp add: to_lower_def lower_char_def)
  then have "fst (suspend env0 vendors0 ''v1'' ''adm'' staffed0) = Inr ()"
    by (simp add: staffed_defs run_simps vendor_get_by_id_def newest_first_def vendor_check_def fk_user_def operator_moved_def
        user_get_by_email_def audit_write_def audit_write_tx_def audit_of_def)
  then show "suspend env0 vendors0 ''v1'' ''adm'' staffed0 = (Inr (), snd (suspend env0 vendors0 ''v1'' ''adm'' staffed0))"
    by (metis prod.collapse)
qed

theorem suspend_ends_access_witness:
  "\<exists>w'. suspend env0 vendors0 ''v1'' ''adm'' staffed0 = (Inr (), w') \<and> vendor_at (w_db w') ''v1'' = Some VSuspended
     \<and> operator_at (w_db w') ''o1'' = Some OpVendorSuspended \<and> operator_at (w_db w') ''o2'' = Some OpSuspended"
proof -
  have "vc_sessions vendors0" by (simp add: vendors0_def)
  from suspend_ends_access [OF staffed0_ok(3) this staffed0_ok(2,1) vendor_inv0] staffed0_ok(3)
  have "vendor_at (w_db (snd (suspend env0 vendors0 ''v1'' ''adm'' staffed0))) ''v1'' = Some VSuspended"
    "\<And>i. operator_at (w_db (snd (suspend env0 vendors0 ''v1'' ''adm'' staffed0))) i =
      (case by_key oa_id i (operators (w_db staffed0)) of None \<Rightarrow> None
        | Some x \<Rightarrow> Some (if oa_vendor x = ''v1'' \<and> oa_status x = OpActive then OpVendorSuspended else oa_status x))" by auto
  moreover have "operators (w_db staffed0) = [operator0 ''o1'' ''op'' OpActive, operator0 ''o2'' ''x'' OpSuspended]"
    by (simp add: staffed0_def)
  ultimately show ?thesis using staffed0_ok(3) by (intro exI conjI) (auto simp: operator0_def)
qed

text \<open>C34: A suspension followed by its reinstatement leaves the vendor approved and every vendor with the status it had.
  Each operator that was active is active again, each that had been suspended on its own stays suspended, and no operator
  of another vendor changes. An operator left suspended with the vendor from before (by an approval of the suspended
  vendor, which does not touch the operators) becomes active; without such operators every status is as it was.\<close>

theorem suspend_reinstate_roundtrip:
  assumes "suspend E cfg v admin w = (Inr (), w1)" "reinstate E' cfg' v admin' w1 = (Inr (), w')"
  shows "vendor_at (w_db w') = vendor_at (w_db w) \<and> vendor_at (w_db w') v = Some VApproved
    \<and> (\<forall>i. operator_at (w_db w') i = (case by_key oa_id i (operators (w_db w)) of None \<Rightarrow> None
        | Some x \<Rightarrow> Some (if oa_vendor x = v \<and> oa_status x = OpVendorSuspended then OpActive else oa_status x)))
    \<and> ((\<forall>x\<in>set (operators (w_db w)). oa_vendor x = v \<longrightarrow> oa_status x \<noteq> OpVendorSuspended) \<longrightarrow>
         operator_at (w_db w') = operator_at (w_db w))"
proof -
  note S = suspend_tables [OF assms(1)] and R = reinstate_effect [OF assms(2)]
  have v: "vendor_at (w_db w') = vendor_at (w_db w)" "vendor_at (w_db w') v = Some VApproved"
    using S(1) by (auto simp: R(1) S(2))
  have op: "operator_at (w_db w') i = (case by_key oa_id i (operators (w_db w)) of None \<Rightarrow> None
        | Some x \<Rightarrow> Some (if oa_vendor x = v \<and> oa_status x = OpVendorSuspended then OpActive else oa_status x))" for i
    by (auto simp: R(2) S(3) by_key_sql_update split: option.splits)
  have "operator_at (w_db w') i = operator_at (w_db w) i"
    if "\<forall>x\<in>set (operators (w_db w)). oa_vendor x = v \<longrightarrow> oa_status x \<noteq> OpVendorSuspended" for i
  proof (cases "by_key oa_id i (operators (w_db w))")
    case (Some x)
    with that have "oa_vendor x = v \<longrightarrow> oa_status x \<noteq> OpVendorSuspended" by (auto dest: by_key_SomeD)
    with Some show ?thesis by (simp only: op) (auto simp: operator_at_def)
  qed (simp only: op, simp add: operator_at_def)
  with v op show ?thesis by (auto simp: fun_eq_iff)
qed

theorem suspend_reinstate_roundtrip_witness:
  "\<exists>w1 w'. suspend env0 vendors0 ''v1'' ''adm'' staffed0 = (Inr (), w1) \<and> reinstate env0 vendors0 ''v1'' ''adm'' w1 = (Inr (), w')
     \<and> operator_at (w_db w') = operator_at (w_db staffed0)"
proof -
  let ?w1 = "snd (suspend env0 vendors0 ''v1'' ''adm'' staffed0)"
  have "to_lower ''v'' = ''v''" by (simp add: to_lower_def lower_char_def)
  then have "fst (reinstate env0 vendors0 ''v1'' ''adm'' ?w1) = Inr ()"
    by (simp add: staffed_defs run_simps vendor_get_by_id_def newest_first_def vendor_check_def fk_user_def operator_moved_def
        user_get_by_email_def audit_write_def audit_write_tx_def audit_of_def)
  then have r: "reinstate env0 vendors0 ''v1'' ''adm'' ?w1 = (Inr (), snd (reinstate env0 vendors0 ''v1'' ''adm'' ?w1))"
    by (metis prod.collapse)
  have "\<forall>x\<in>set (operators (w_db staffed0)). oa_vendor x = ''v1'' \<longrightarrow> oa_status x \<noteq> OpVendorSuspended"
    by (simp add: staffed0_def operator0_def)
  with suspend_reinstate_roundtrip [OF staffed0_ok(3) r]
  have "operator_at (w_db (snd (reinstate env0 vendors0 ''v1'' ''adm'' ?w1))) = operator_at (w_db staffed0)" by simp
  with staffed0_ok(3) r show ?thesis by blast
qed

text \<open>
  An approval is also accepted for a suspended vendor. It leaves the operators suspended with the
  vendor, and as the vendor is approved now, reinstating it is refused.
\<close>

theorem approve_strands_operators:
  "\<exists>w2. approve env0 vendors0 ''v1'' ''adm'' None (snd (suspend env0 vendors0 ''v1'' ''adm'' staffed0)) = (Inr (), w2)
     \<and> vendor_at (w_db w2) ''v1'' = Some VApproved \<and> operator_at (w_db w2) ''o1'' = Some OpVendorSuspended
     \<and> fst (reinstate env0 vendors0 ''v1'' ''adm'' w2) = Inl (VendorErr ErrInvalidStatus)"
proof -
  have "to_lower ''v'' = ''v''" by (simp add: to_lower_def lower_char_def)
  then show ?thesis
    by (simp add: staffed_defs run_simps vendor_get_by_id_def newest_first_def vendor_check_def fk_user_def operator_moved_def
        user_get_by_email_def audit_write_def audit_write_tx_def audit_of_def vendor_at_def operator_at_def)
qed

text \<open>
  A suspension is a sequence of statements and remote calls without a transaction. When one after
  the status update fails the vendor stays suspended, its operators stay active here and their
  sessions alive, and the call cannot be repeated: the vendor is no longer approved.
\<close>

definition torn :: env where
  "torn = env0\<lparr>e_fault := (\<lambda>n. if n = 3 then Some IoErr else None)\<rparr>"

theorem suspend_not_retryable:
  "\<exists>w1. suspend torn vendors0 ''v1'' ''adm'' staffed0 = (Inl (DbErr IoErr), w1)
     \<and> vendor_at (w_db w1) ''v1'' = Some VSuspended \<and> operator_at (w_db w1) ''o1'' = Some OpActive
     \<and> w_idp w1 = [IdpSuspend ''idp'' ''op'']
     \<and> fst (suspend env0 vendors0 ''v1'' ''adm'' w1) = Inl (VendorErr ErrInvalidStatus)"
proof -
  have "to_lower ''v'' = ''v''" by (simp add: to_lower_def lower_char_def)
  then show ?thesis
    by (simp add: torn_def staffed_defs run_simps vendor_get_by_id_def newest_first_def vendor_check_def fk_user_def
        vendor_at_def operator_at_def)
qed

end
