(* ===== verification/Compliance_Props.thy ===== *)
theory Compliance_Props
  imports Documents Vendor_Props
begin

text \<open>
  What uploads and anomaly triage guarantee: where an uploaded document ends up and what its row
  says, and what a triage has done to the anomaly and to the vendor when it reports success.
\<close>

section \<open>Uploads\<close>

lemma int_text_no_slash: "CHR ''/'' \<notin> set (int_text n)"
  using nat_text_digits by (auto simp: int_text_def)

lemma sanitized:
  assumes "sanitize_doc_filename name = Inr f"
  shows "CHR ''/'' \<notin> set f" "f \<noteq> ''.''" "f \<noteq> ''..''"
  using assms path_base_no_slash by (auto simp: sanitize_doc_filename_def Let_def split: if_splits)

lemma read_limited_short: "read_limited (Suc n) b = Some s \<Longrightarrow> length s \<le> n \<Longrightarrow> s = ub_data b \<and> \<not> ub_breaks b"
  by (auto simp: read_limited_def split: if_splits)

lemma document_get_ok:
  "document_get E i w = (Inr x, w') \<longleftrightarrow>
     e_fault E (w_tick w) = None \<and> by_key dc_id i (documents (w_db w)) = Some x \<and> w' = w\<lparr>w_tick := Suc (w_tick w)\<rparr>"
  by (simp add: document_get_def get_row_ok)

definition replaces_reviewed :: "db \<Rightarrow> upload \<Rightarrow> bool" where
  "replaces_reviewed d u \<longleftrightarrow> (case up_supersedes u of None \<Rightarrow> True
     | Some i \<Rightarrow> \<exists>x. by_key dc_id i (documents d) = Some x \<and> dc_vendor x = up_vendor u \<and> dc_status x \<noteq> DocPending)"

lemma prepare_ok:
  assumes "upload_prepare E u w = (Inr (f, buf), w')"
  shows "w_db w' = w_db w" "sanitize_doc_filename (up_filename u) = Inr f" "buf = ub_data (up_body u)"
    "length buf \<le> max_document_bytes" "replaces_reviewed (w_db w) u"
proof -
  show "w_db w' = w_db w" using roD [OF ro_document_reads(8) assms] .
  from assms obtain w1 where c: "check_supersedes E u w = (Inr (), w1)"
    and s: "sanitize_doc_filename (up_filename u) = Inr f"
    and l: "read_limited (Suc max_document_bytes) (up_body u) = Some buf" "length buf \<le> max_document_bytes"
    by (auto simp: upload_prepare_def io_simps split: option.splits if_splits)
  show "sanitize_doc_filename (up_filename u) = Inr f" "length buf \<le> max_document_bytes" by (fact s, fact l(2))
  show "buf = ub_data (up_body u)" using read_limited_short [OF l] by simp
  show "replaces_reviewed (w_db w) u"
    using c by (auto simp: check_supersedes_def replaces_reviewed_def io_simps document_get_ok validate_resupply_target_def
        split: option.splits if_splits)
qed

lemma upload_tx_ok:
  assumes "begin_func E (\<lambda>_. upload_body_tx E u f uri n) w = (Inr x, w')"
  shows "documents (w_db w') = documents (w_db w) @ [x]" "dc_uri x = uri" "dc_filename x = f" "dc_vendor x = up_vendor u"
    "dc_status x = DocPending" "dc_supersedes x = up_supersedes u" "dc_id x \<notin> dc_id ` set (documents (w_db w))"
proof -
  from assms obtain w1 w2 w3 where b: "upload_body_tx E u f uri n w1 = (Inr x, w2)" "w_db w1 = w_db w" "w' = w2\<lparr>w_tick := w3\<rparr>"
    by (auto simp: begin_func_ok)
  from b(1) obtain v where c: "document_create E \<lparr>di_vendor = up_vendor u, di_kind = up_kind u, di_uri = uri, di_filename = f,
       di_uploaded_by = Some (up_by u), di_expires = up_expires u, di_status = Some DocPending, di_notes = '''',
       di_supersedes = up_supersedes u\<rparr> w1 = (Inr x, v)" and d: "documents (w_db w2) = documents (w_db v)"
    by (auto simp: upload_body_tx_def io_simps dest!: audit_write_tx_ok)
  from insert_row_ok [OF c [unfolded document_create_def]] b(2)
  have "x = document_row \<lparr>di_vendor = up_vendor u, di_kind = up_kind u, di_uri = uri, di_filename = f,
       di_uploaded_by = Some (up_by u), di_expires = up_expires u, di_status = Some DocPending, di_notes = '''',
       di_supersedes = up_supersedes u\<rparr> (e_dbnow E) (e_uuid E (w_tick w1))" "document_check (w_db w) x = None"
    "documents (w_db v) = documents (w_db w) @ [x]" by simp_all
  then show "documents (w_db w') = documents (w_db w) @ [x]" "dc_uri x = uri" "dc_filename x = f" "dc_vendor x = up_vendor u"
    "dc_status x = DocPending" "dc_supersedes x = up_supersedes u" "dc_id x \<notin> dc_id ` set (documents (w_db w))"
    using d b(3) by (simp_all add: document_row_def document_check_def)
qed

text \<open>C37: An upload that succeeds has put the bytes it was given, at most 10 MiB, under a key of the vendor's own
  prefix that no file name can leave, and registered exactly one new pending document pointing at that object; a
  document it replaces is one of the same vendor that was already reviewed. An upload that fails leaves the database
  as it was.\<close>

theorem upload_confined:
  assumes "upload_document E bucket put u s = (r, s')"
  shows "(\<forall>e. r = Inl e \<longrightarrow> w_db (ar_world s') = w_db (ar_world s))
    \<and> (\<forall>x. r = Inr x \<longrightarrow> (\<exists>name. CHR ''/'' \<notin> set name
        \<and> dc_uri x = object_uri bucket (''vendor-docs/'' @ up_vendor u @ ''/'' @ name)
        \<and> ar_objects s' = AList.update (''vendor-docs/'' @ up_vendor u @ ''/'' @ name) (ub_data (up_body u)) (ar_objects s))
      \<and> length (ub_data (up_body u)) \<le> max_document_bytes
      \<and> documents (w_db (ar_world s')) = documents (w_db (ar_world s)) @ [x]
      \<and> dc_id x \<notin> dc_id ` set (documents (w_db (ar_world s))) \<and> dc_vendor x = up_vendor u \<and> dc_status x = DocPending
      \<and> replaces_reviewed (w_db (ar_world s)) u)"
proof -
  obtain p w1 where p: "upload_prepare E u (ar_world s) = (p, w1)" by fastforce
  note d1 = roD [OF ro_document_reads(8) p]
  show ?thesis
  proof (cases p)
    case (Inl e)
    with assms p d1 show ?thesis by (auto simp: upload_document_def)
  next
    case (Inr q)
    then obtain f buf where q: "p = Inr (f, buf)" by (cases q) auto
    note P = prepare_ok [OF p [unfolded q]]
    let ?name = "int_text (e_now E) @ ''-'' @ f"
    let ?key = "document_key (up_vendor u) (e_now E) f" and ?uri = "object_uri bucket (document_key (up_vendor u) (e_now E) f)"
    have key: "?key = ''vendor-docs/'' @ up_vendor u @ ''/'' @ ?name" by (simp add: document_key_def)
    have name: "CHR ''/'' \<notin> set ?name" using int_text_no_slash sanitized(1) [OF P(2)] by simp
    show ?thesis
    proof (cases "put ?key buf")
      case False
      with assms p q d1 show ?thesis by (auto simp: upload_document_def Let_def)
    next
      case True
      obtain t w2 where t: "begin_func E (\<lambda>_. upload_body_tx E u f ?uri (length buf)) w1 = (t, w2)" by fastforce
      have run: "r = t" "s' = \<lparr>ar_world = w2, ar_objects = AList.update ?key buf (ar_objects s)\<rparr>"
        using assms p q True t by (auto simp: upload_document_def Let_def)
      show ?thesis
      proof (cases t)
        case (Inl e)
        then have "w_db w2 = w_db w1" using t atomicD [OF atomic_begin_func] by blast
        with Inl run d1 show ?thesis by simp
      next
        case (Inr x)
        note T = upload_tx_ok [OF t [unfolded Inr]]
        show ?thesis
          using T P(3,4,5) d1 run Inr name key by (auto intro!: exI [of _ ?name])
      qed
    qed
  qed
qed

definition upload0 :: upload where
  "upload0 = \<lparr>up_vendor = ''v1'', up_kind = Insurance, up_filename = ''../../payroll/x.csv'',
     up_body = \<lparr>ub_data = ''data'', ub_breaks = False\<rparr>, up_expires = Some 20500, up_by = ''adm'', up_role = None,
     up_supersedes = None\<rparr>"

theorem upload_confined_witness:
  "\<exists>x s'. upload_document env0 ''b'' (\<lambda>_ _. True) upload0 \<lparr>ar_world = world0, ar_objects = []\<rparr> = (Inr x, s')
     \<and> documents (w_db (ar_world s')) = [x] \<and> dc_status x = DocPending \<and> map snd (ar_objects s') = [''data'']"
proof -
  have "trim_space ''../../payroll/x.csv'' = ''../../payroll/x.csv''" by (rule trim_space_plain) (simp add: plain_def)
  then have s: "sanitize_doc_filename (up_filename upload0) = Inr ''x.csv''"
    by (simp add: sanitize_doc_filename_def upload0_def path_base_def Let_def)
  have m: "max_document_bytes = Suc (Suc (Suc (Suc 10485756)))" by (simp add: max_document_bytes_def)
  have l: "read_limited (Suc max_document_bytes) (up_body upload0) = Some ''data''"
    by (simp add: read_limited_def upload0_def m)
  have p: "upload_prepare env0 upload0 world0 = (Inr (''x.csv'', ''data''), world0)"
    using s l by (simp add: upload_prepare_def check_supersedes_def upload0_def run_simps m)
  have "\<exists>x. fst (upload_document env0 ''b'' (\<lambda>_ _. True) upload0 \<lparr>ar_world = world0, ar_objects = []\<rparr>) = Inr x"
    by (simp add: upload_document_def p Let_def)
      (simp add: scenario_defs run_simps upload0_def document_check_def fk_vendor_def fk_user_def fk_document_def
        document_row_def audit_write_tx_def audit_of_def)
  then obtain x s' where run: "upload_document env0 ''b'' (\<lambda>_ _. True) upload0 \<lparr>ar_world = world0, ar_objects = []\<rparr> = (Inr x, s')"
    by (metis prod.collapse)
  moreover have "documents (w_db world0) = []" by (simp add: scenario_defs)
  ultimately show ?thesis using upload_confined [OF run] by (auto simp: upload0_def)
qed

section \<open>What a suspension leaves alone and how it fails\<close>

lemma keeps_suspend:
  assumes "\<And>f d. I (vendors_update f d) = I d" "\<And>g d. I (operators_update g d) = I d" "\<And>e. keeps I (audit_write_tx E e)"
  shows "keeps I (suspend E cfg v admin)"
  unfolding suspend_def vendor_update_status_def operator_set_statuses_def vendor_audit_def audit_write_def
  by (intro keeps_op keeps_for_each keeps_tx assms(3) keeps_table_writes assms(1,2) ro_vendor_reads [THEN keeps_ro]
      ro_remote [THEN keeps_ro] ro_catalog [THEN keeps_ro] ro_ret [THEN keeps_ro] ro_fail [THEN keeps_ro])+

definition not_status_error :: "err \<Rightarrow> bool" where
  "not_status_error e \<longleftrightarrow> e \<noteq> VendorErr ErrInvalidStatus"

lemma not_status_simps [simp]:
  "not_status_error (DbErr p)" "not_status_error (IdentityErr k)" "not_status_error (VendorErr ErrProvisioningSetup)"
  "not_status_error (VendorErr ErrInvalidOperator)" "not_status_error (VendorErr ErrVendorNotFound)"
  "not_status_error fk_violation" "not_status_error unique_violation" "not_status_error check_violation"
  by (simp_all add: not_status_error_def fk_violation_def unique_violation_def check_violation_def)

lemma raises_rows:
  assumes "\<And>p. P (DbErr p)"
  shows "P e \<Longrightarrow> raises P (get_row E tbl key e k)" "raises P (select_rows E tbl Q srt)"
    "(\<And>d r y. chk d r = Some y \<Longrightarrow> P y) \<Longrightarrow> raises P (update_rows E tbl upd chk None Q f)"
proof -
  have fe: "first_err g rs = Some y \<Longrightarrow> \<exists>r. g r = Some y" for g rs y
    by (induction rs) (auto split: option.splits)
  show "P e \<Longrightarrow> raises P (get_row E tbl key e k)" "raises P (select_rows E tbl Q srt)"
    unfolding get_row_def select_rows_def by (intro raises_intros assms; auto split: option.splits)+
  show "(\<And>d r y. chk d r = Some y \<Longrightarrow> P y) \<Longrightarrow> raises P (update_rows E tbl upd chk None Q f)"
    unfolding update_rows_def
    by (intro raises_intros assms) (auto simp: Let_def split: if_splits option.splits dest!: fe)
qed

lemma raises_remote: "raises not_status_error (suspend_remote_operator cfg x)"
proof -
  have "raises not_status_error (remote p c)" for p c by (auto simp: raises_def remote_def)
  then show ?thesis unfolding suspend_remote_operator_def remote_operator_def by (intro raises_intros) simp_all
qed

lemma raises_cache: "raises not_status_error (session_revoke_all E u)"
  unfolding session_revoke_all_def cache_smembers_def cache_del_def
  by (intro raises_intros) (auto split: option.splits cache_value.splits)

lemma raises_revoke: "raises not_status_error (revoke_by_email E cfg em)"
proof -
  have "raises not_status_error (user_get_by_email E em)"
    unfolding user_get_by_email_def by (rule raises_rows) simp_all
  then show ?thesis unfolding revoke_by_email_def
    by (intro raises_split raises_basic(1) raises_attempt) (auto intro: raises_basic(1,2) raises_cache)
qed

text \<open>The status guard is the only place a suspension reports a wrong status, and nothing was written then.\<close>

lemma suspend_status_error:
  assumes "suspend E cfg v admin w = (Inl (VendorErr ErrInvalidStatus), w')"
  shows "w_db w' = w_db w" "\<exists>st. vendor_at (w_db w) v = Some st \<and> st \<noteq> VApproved"
proof -
  have chk: "vendor_check d x = Some y \<Longrightarrow> not_status_error y" for d x y
    by (auto simp: vendor_check_def checks_run split: if_splits)
  let ?rest = "bind (operator_list_by_status E v [OpActive]) (\<lambda>ops.
       bind (for_each (suspend_remote_operator cfg) ops) (\<lambda>_.
       bind (vendor_update_status E VSuspended None v) (\<lambda>_.
       bind (operator_set_statuses E v [OpActive] OpVendorSuspended) (\<lambda>_.
       bind (for_each (\<lambda>x. revoke_by_email E cfg (oa_email x)) ops) (\<lambda>_.
       vendor_audit E cfg admin ''vendor.suspend'' v [])))))"
  have rest: "raises not_status_error ?rest"
    unfolding operator_list_by_status_def operator_list_by_vendor_def vendor_update_status_def operator_set_statuses_def
      vendor_audit_def audit_write_def audit_write_tx_def
    by (intro raises_intros raises_rows raises_remote raises_revoke)
      (auto simp: Let_def no_check_def dest: chk split: if_splits)
  from assms have "\<exists>x w1. vendor_get_by_id E v w = (Inr x, w1) \<and> v_status x \<noteq> VApproved \<and> w' = w1"
  proof (cases "vendor_get_by_id E v w")
    case (Pair q w1)
    have "raises not_status_error (vendor_get_by_id E v)"
      unfolding vendor_get_by_id_def by (intro raises_intros) (auto split: option.splits)
    with Pair assms obtain x where x: "q = Inr x"
      by (cases q) (auto simp: suspend_def bind_def raises_def not_status_error_def)
    have step: "suspend E cfg v admin w = (if v_status x \<noteq> VApproved then fail (VendorErr ErrInvalidStatus) else ?rest) w1"
      using Pair x by (simp add: suspend_def bind_def [of "vendor_get_by_id E v"])
    have "v_status x \<noteq> VApproved"
    proof
      assume "v_status x = VApproved"
      with step assms have "?rest w1 = (Inl (VendorErr ErrInvalidStatus), w')" by simp
      from raisesD [OF rest this] show False by (simp add: not_status_error_def)
    qed
    with Pair x assms step show ?thesis by (auto simp: fail_def)
  qed
  then obtain x where x: "vendor_get_by_id E v w = (Inr x, w')" "v_status x \<noteq> VApproved" by blast
  from vendor_get_ok [OF x(1)] x(2) show "w_db w' = w_db w" "\<exists>st. vendor_at (w_db w) v = Some st \<and> st \<noteq> VApproved"
    by (auto simp: vendor_at_def)
qed

lemma suspend_vendor:
  assumes "suspend E cfg v admin w = (Inr (), w')"
  shows "vendor_at (w_db w) v = Some VApproved" "vendor_at (w_db w') = (vendor_at (w_db w))(v \<mapsto> VSuspended)"
proof -
  from assms obtain w1 w2 w3 w4 w5 where va: "vendor_at (w_db w) v = Some VApproved" and w1: "w_db w1 = w_db w"
    and rem: "for_each (suspend_remote_operator cfg) (active_operators (w_db w) v) w1 = (Inr (), w2)"
    and vs: "vendor_update_status E VSuspended None v w2 = (Inr (), w3)"
    and os: "operator_set_statuses E v [OpActive] OpVendorSuspended w3 = (Inr (), w4)"
    and rev: "for_each (\<lambda>x. revoke_by_email E cfg (oa_email x)) (active_operators (w_db w) v) w4 = (Inr (), w5)"
    and aud: "vendor_audit E cfg admin ''vendor.suspend'' v [] w5 = (Inr (), w')" by (rule suspend_run)
  show "vendor_at (w_db w) v = Some VApproved" by (fact va)
  have "w_db w2 = w_db w" using roD [OF ro_for_each [OF ro_remote(4)] rem] w1 by simp
  moreover have "vendors (w_db w4) = vendors (w_db w3)" using operator_set_statuses_ok [OF os] by simp
  moreover have "w_db w5 = w_db w4" using roD [OF ro_for_each [OF ro_vendor_reads(9)] rev] .
  ultimately have "vendor_at (w_db w') k = ((vendor_at (w_db w))(v \<mapsto> VSuspended)) k" for k
    using quiet_status(4) [OF vs, of k] audit_frame(3) [OF aud] va by (auto simp: vendor_at_def)
  then show "vendor_at (w_db w') = (vendor_at (w_db w))(v \<mapsto> VSuspended)" by blast
qed

section \<open>Triage\<close>

definition audited :: "db \<Rightarrow> string \<Rightarrow> uuid \<Rightarrow> uuid \<Rightarrow> bool" where
  "audited d action target actor \<longleftrightarrow>
     (\<exists>e\<in>set (audits d). au_action e = action \<and> au_target e = target \<and> au_actor e = Some actor)"

lemma audited_update [simp]:
  "audited (vendors_update f d) a t u = audited d a t u" "audited (operators_update g d) a t u = audited d a t u"
  "audited (d\<lparr>anomalies := as\<rparr>) a t u = audited d a t u"
  by (simp_all add: audited_def)

lemma keeps_audited: "keeps (\<lambda>d. audited d a t u) (audit_write_tx E e)"
  unfolding audit_write_tx_def by (rule keeps_exec) (auto simp: audited_def Let_def split: if_splits)

lemma audit_written:
  assumes "audit_write_tx E (audit_of (Some u) role a k t pl) w = (Inr (), w')"
  shows "audited (w_db w') a t u" "anomalies (w_db w') = anomalies (w_db w)" "vendors (w_db w') = vendors (w_db w)"
  using audit_write_tx_ok [OF assms] by (auto simp: audited_def audit_of_def audit_entry.defs)

lemma anomaly_status_cong: "anomalies d' = anomalies d \<Longrightarrow> anomaly_status_at d' = anomaly_status_at d"
  by (simp add: anomaly_status_at_def fun_eq_iff)

lemma anomaly_status_tables:
  "anomaly_status_at (vendors_update f d) = anomaly_status_at d" "anomaly_status_at (operators_update g d) = anomaly_status_at d"
  "anomaly_status_at (d\<lparr>audits := x\<rparr>) = anomaly_status_at d"
  by (rule anomaly_status_cong, simp)+

lemma triage_tx_ok:
  assumes "begin_func E (\<lambda>_. apply_triage_tx E a i by notes action) w = (Inr (), w')" "anomaly_inv (w_db w)"
  shows "anomaly_status_at (w_db w) i = Some AnomalyOpen" "audited (w_db w') ''anomaly.triage'' i by"
    "anomaly_status_at (w_db w') = (anomaly_status_at (w_db w))(i \<mapsto> AnomalyTriaged)"
    "action = action_warn \<Longrightarrow> an_target_kind a = ''vendor'' \<Longrightarrow> audited (w_db w') ''vendor.warning'' (an_target a) by"
    "vendors (w_db w') = vendors (w_db w)"
proof -
  from assms(1) obtain w1 w2 t where b: "apply_triage_tx E a i by notes action w1 = (Inr (), w2)" "w_db w1 = w_db w"
    "w' = w2\<lparr>w_tick := t\<rparr>" by (auto simp: begin_func_ok)
  let ?warn = "action = action_warn \<and> an_target_kind a = ''vendor''"
  from b(1) obtain v1 v2 where v1: "triage_anomaly_tx E i by notes w1 = (Inr (), v1)"
    and v2: "audit_write_tx E (audit_of (Some by) (Some WelfareAdmin) ''anomaly.triage'' ''anomaly_alert'' i
       [(''anomaly_id'', JStr i), (''notes'', JStr notes), (''action'', JStr action)]) v1 = (Inr (), v2)"
    and v3: "(if ?warn then audit_write_tx E (audit_of (Some by) (Some WelfareAdmin) ''vendor.warning'' ''vendor'' (an_target a)
       [(''anomaly_id'', JStr i), (''anomaly_kind'', JStr (an_kind a)), (''notes'', JStr notes)]) else ret ()) v2 = (Inr (), w2)"
    by (auto simp: apply_triage_tx_def bind_ok)
  have inv: "distinct (map an_id (anomalies (w_db w1)))" using assms(2) b(2) by (simp add: anomaly_inv_def)
  from triage.upd_from [OF inv v1] b(2) show "anomaly_status_at (w_db w) i = Some AnomalyOpen" by auto
  have d1: "w_db v1 = anomalies_update (sql_update (\<lambda>a. an_id a = i \<and> an_status a = AnomalyOpen)
      (\<lambda>a. a\<lparr>an_status := AnomalyTriaged, an_triaged_at := Some (e_dbnow E), an_triaged_by := Some by, an_notes := notes,
         an_updated_at := e_dbnow E\<rparr>)) (w_db w1)"
    using update_rows_ok(1) [OF v1 [unfolded triage_anomaly_tx_def]] .
  have fin: "anomalies (w_db w2) = anomalies (w_db v2)" "vendors (w_db w2) = vendors (w_db v2)"
      "audited (w_db w2) ''anomaly.triage'' i by" "?warn \<Longrightarrow> audited (w_db w2) ''vendor.warning'' (an_target a) by"
  proof -
    note A = audit_written [OF v2]
    show "anomalies (w_db w2) = anomalies (w_db v2)" "vendors (w_db w2) = vendors (w_db v2)"
      using v3 by (auto simp: ret_def dest: audit_written(2,3) split: if_splits)
    show "audited (w_db w2) ''anomaly.triage'' i by"
      using v3 A(1) keepsD [OF keeps_audited A(1)] by (auto simp: ret_def split: if_splits)
    show "?warn \<Longrightarrow> audited (w_db w2) ''vendor.warning'' (an_target a) by"
      using v3 by (auto dest: audit_written(1) split: if_splits)
  qed
  note A = audit_written [OF v2]
  show "anomaly_status_at (w_db w') = (anomaly_status_at (w_db w))(i \<mapsto> AnomalyTriaged)"
    using triage.upd_status [OF inv v1] anomaly_status_cong [of "w_db w2" "w_db v1"] A(2) fin(1) b(2,3) by simp
  show "vendors (w_db w') = vendors (w_db w)" using A(3) fin(2) b(2,3) d1 by simp
  show "audited (w_db w') ''anomaly.triage'' i by" using fin(3) b(3) by simp
  show "action = action_warn \<Longrightarrow> an_target_kind a = ''vendor'' \<Longrightarrow> audited (w_db w') ''vendor.warning'' (an_target a) by"
    using fin(4) b(3) by simp
qed

text \<open>C38: A triage that reports success was of an open anomaly, which is triaged and recorded in the audit log; a warning
  asked for is in the audit log of the vendor; and after a suspension was asked for, the vendor the anomaly is about is not
  approved any more, whether it had to be suspended or was not approved before, while no other vendor's status changes.\<close>

theorem triage_carries_out:
  assumes "triage_anomaly E (Some cfg) i by notes action w = (Inr (), w')" "anomaly_inv (w_db w)"
  shows "action \<in> {action_none, action_warn, action_suspend}
    \<and> anomaly_status_at (w_db w) i = Some AnomalyOpen
    \<and> anomaly_status_at (w_db w') = (anomaly_status_at (w_db w))(i \<mapsto> AnomalyTriaged)
    \<and> audited (w_db w') ''anomaly.triage'' i by
    \<and> (\<forall>a. by_key an_id i (anomalies (w_db w)) = Some a \<longrightarrow>
        (an_target_kind a = ''vendor'' \<and> action = action_warn \<longrightarrow> audited (w_db w') ''vendor.warning'' (an_target a) by)
      \<and> (if an_target_kind a = ''vendor'' \<and> action = action_suspend
         then (\<exists>st. vendor_at (w_db w') (an_target a) = Some st \<and> st \<noteq> VApproved)
           \<and> (\<forall>v. v \<noteq> an_target a \<longrightarrow> vendor_at (w_db w') v = vendor_at (w_db w) v)
         else vendor_at (w_db w') = vendor_at (w_db w)))"
proof -
  from assms(1) obtain a w1 w2 where act: "action \<in> {action_none, action_warn, action_suspend}"
    and g: "anomaly_get_by_id E i w = (Inr a, w1)"
    and t: "begin_func E (\<lambda>_. apply_triage_tx E a i by notes action) w1 = (Inr (), w2)"
    and c: "carry_out E (Some cfg) a by action w2 = (Inr (), w')"
    by (auto simp: triage_anomaly_def bind_ok fail_def split: if_splits)
  from g have a: "by_key an_id i (anomalies (w_db w)) = Some a" "w_db w1 = w_db w"
    by (auto simp: anomaly_get_by_id_def get_row_ok)
  note T = triage_tx_ok [OF t, unfolded a(2), OF assms(2)]
  have v2: "vendor_at (w_db w2) = vendor_at (w_db w)" using T(5) by (simp add: vendor_at_def fun_eq_iff)
  show ?thesis
  proof (cases "action = action_suspend \<and> an_target_kind a = ''vendor''")
    case False
    with c have "w' = w2" by (auto simp: carry_out_def ret_def split: if_splits)
    with False act a T v2 show ?thesis by auto
  next
    case True
    let ?v = "an_target a"
    from True c obtain r where s: "suspend E cfg ?v by w2 = (r, w')"
      and r: "r = Inr () \<or> r = Inl (VendorErr ErrInvalidStatus)"
      by (auto simp: carry_out_def bind_run attempt_def ret_def fail_def split: if_splits sum.splits prod.splits)
    have keep: "anomaly_status_at (w_db w') = anomaly_status_at (w_db w2)"
    proof (rule keepsD [OF keeps_suspend [of "\<lambda>d. anomaly_status_at d = anomaly_status_at (w_db w2)"] refl s])
      show "keeps (\<lambda>d. anomaly_status_at d = anomaly_status_at (w_db w2)) (audit_write_tx E e)" for e
        by (rule keeps_audit_write) (simp add: anomaly_status_tables)
    qed (simp_all add: anomaly_status_tables)
    have log: "audited (w_db w') ''anomaly.triage'' i by"
      using keepsD [OF keeps_suspend [of "\<lambda>d. audited d ''anomaly.triage'' i by"] T(2) s] by (simp add: keeps_audited)
    have "(\<exists>st. vendor_at (w_db w') ?v = Some st \<and> st \<noteq> VApproved) \<and> (\<forall>v. v \<noteq> ?v \<longrightarrow> vendor_at (w_db w') v = vendor_at (w_db w) v)"
      using r suspend_vendor(2) [of E cfg ?v "by" w2 w'] suspend_status_error [of E cfg ?v "by" w2 w'] s v2 by auto
    moreover have "action \<noteq> action_warn" using True by (simp add: action_suspend_def action_warn_def)
    ultimately show ?thesis using True act a(1) T keep log by simp
  qed
qed

text \<open>The staffed vendor of the scenario with an open alert about it.\<close>

definition alerted0 :: world where
  "alerted0 = staffed0\<lparr>w_db := (w_db staffed0)\<lparr>anomalies := [opened_anomaly \<lparr>ai_kind = ''on_time_rate_drop'',
     ai_target_kind = ''vendor'', ai_target = ''v1'', ai_severity = Some High, ai_payload = [], ai_evidence = []\<rparr> ''a1'' 0 0]\<rparr>\<rparr>"

lemmas alerted_run = alerted0_def staffed_defs run_simps vendor_get_by_id_def newest_first_def vendor_check_def fk_user_def
  operator_moved_def user_get_by_email_def audit_write_def audit_write_tx_def audit_of_def action_suspend_def action_none_def
  action_warn_def

lemma alerted0_inv: "anomaly_inv (w_db alerted0)"
  by (simp add: alerted0_def anomaly_inv_def open_keys_def)

theorem triage_carries_out_witness:
  "\<exists>w'. triage_anomaly env0 (Some vendors0) ''a1'' ''adm'' ''late'' action_suspend alerted0 = (Inr (), w')
     \<and> anomaly_status_at (w_db w') ''a1'' = Some AnomalyTriaged \<and> vendor_at (w_db w') ''v1'' \<noteq> Some VApproved"
proof -
  have "to_lower ''v'' = ''v''" by (simp add: to_lower_def lower_char_def)
  then have "fst (triage_anomaly env0 (Some vendors0) ''a1'' ''adm'' ''late'' action_suspend alerted0) = Inr ()"
    by (simp add: alerted_run)
  then obtain w' where run: "triage_anomaly env0 (Some vendors0) ''a1'' ''adm'' ''late'' action_suspend alerted0 = (Inr (), w')"
    by (metis prod.collapse)
  have "\<exists>a. by_key an_id ''a1'' (anomalies (w_db alerted0)) = Some a \<and> an_target_kind a = ''vendor'' \<and> an_target a = ''v1''"
    by (simp add: alerted0_def opened_anomaly_def)
  with triage_carries_out [OF run alerted0_inv] run show ?thesis by fastforce
qed

text \<open>
  The triage is committed before the suspension is carried out. When the suspension then fails, the call reports the
  failure, the vendor stays approved, and the triage cannot be repeated: the anomaly is not open any more.
\<close>

theorem triage_suspension_lost:
  "\<exists>w1. triage_anomaly (env0\<lparr>e_fault := (\<lambda>n. if n = 5 then Some IoErr else None)\<rparr>) (Some vendors0) ''a1'' ''adm'' ''late''
       action_suspend alerted0 = (Inl (DbErr IoErr), w1)
     \<and> vendor_at (w_db w1) ''v1'' = Some VApproved \<and> anomaly_status_at (w_db w1) ''a1'' = Some AnomalyTriaged
     \<and> fst (triage_anomaly env0 (Some vendors0) ''a1'' ''adm'' ''late'' action_suspend w1)
        = Inl (ComplianceErr ErrComplianceInvalidStatus)"
  by (simp add: alerted_run vendor_at_def anomaly_status_at_def)

end
