(* ===== verification/Doc_Scanner.thy ===== *)
theory Doc_Scanner
  imports Documents
begin

text \<open>
  The document expiry scanner, \<open>compliance/scanner/document_expiry.go\<close>, one scan at a time: a
  document past its expiry date is marked expired and reported, one that expires within the window
  is reported with a severity that grows as the day comes nearer. A document that cannot be
  handled is logged and skipped.
\<close>

definition expired_anomaly :: "document \<Rightarrow> anomaly_input" where
  "expired_anomaly x = \<lparr>ai_kind = ''document_expired'', ai_target_kind = ''vendor_document'', ai_target = dc_id x,
     ai_severity = Some Critical,
     ai_payload = [(''vendor_id'', JStr (dc_vendor x)), (''kind'', JStr (document_kind_text (dc_kind x))),
         (''filename'', JStr (dc_filename x))]
       @ (case dc_expires x of None \<Rightarrow> [] | Some e \<Rightarrow> [(''expired_at'', JStr (date_text e))]),
     ai_evidence = [dc_uri x]\<rparr>"

definition handle_past_expiry :: "env \<Rightarrow> document \<Rightarrow> bool io" where
  "handle_past_expiry E x =
     bind (attempt (document_update_status E (dc_id x) DocExpired None ''auto-expired by scanner'')) (\<lambda>r.
     case r of
       Inl _ \<Rightarrow> ret False
     | Inr _ \<Rightarrow> bind (attempt (anomaly_open E (expired_anomaly x))) (\<lambda>r2.
         case r2 of Inl _ \<Rightarrow> ret False | Inr _ \<Rightarrow> ret True))"

definition severity_for_days_until :: "int \<Rightarrow> severity" where
  "severity_for_days_until n = (if n \<le> 1 then Critical else if n \<le> 7 then High else Medium)"

text \<open>\<open>int(d.Hours() / 24)\<close>, which for the positive durations it is used on rounds down.\<close>

definition days_until :: "date \<Rightarrow> time \<Rightarrow> int" where
  "days_until e now = (midnight_utc e - now) div day_ns"

definition expiring_anomaly :: "document \<Rightarrow> date \<Rightarrow> time \<Rightarrow> anomaly_input" where
  "expiring_anomaly x e now = \<lparr>ai_kind = ''document_expiring'', ai_target_kind = ''vendor_document'', ai_target = dc_id x,
     ai_severity = Some (severity_for_days_until (days_until e now)),
     ai_payload = [(''vendor_id'', JStr (dc_vendor x)), (''kind'', JStr (document_kind_text (dc_kind x))),
       (''filename'', JStr (dc_filename x)), (''days_until_expiry'', JInt (days_until e now)),
       (''expires_at'', JStr (date_text e))],
     ai_evidence = [dc_uri x]\<rparr>"

definition handle_expiring_soon :: "env \<Rightarrow> time \<Rightarrow> document \<Rightarrow> bool io" where
  "handle_expiring_soon E now x = (case dc_expires x of
     None \<Rightarrow> ret False
   | Some e \<Rightarrow> if \<not> now < midnight_utc e then ret False
       else bind (attempt (anomaly_open E (expiring_anomaly x e now))) (\<lambda>r.
         case r of Inl _ \<Rightarrow> ret False | Inr _ \<Rightarrow> ret True))"

fun count_handled :: "('a \<Rightarrow> bool io) \<Rightarrow> 'a list \<Rightarrow> int io" where
  "count_handled f [] = ret 0"
| "count_handled f (x # xs) = bind (f x) (\<lambda>b. bind (count_handled f xs) (\<lambda>n. ret (if b then n + 1 else n)))"

definition days_window :: "int \<Rightarrow> int" where
  "days_window configured = (if configured \<le> 0 then 14 else configured)"

definition expiry_run_once :: "env \<Rightarrow> int \<Rightarrow> int io" where
  "expiry_run_once E configured = (let now = e_now E in
     bind (list_past_expiry E now) (\<lambda>past.
     bind (list_expiring_before E (now + days_window configured * day_ns)) (\<lambda>soon.
     bind (count_handled (handle_past_expiry E) past) (\<lambda>a.
     bind (count_handled (handle_expiring_soon E now) soon) (\<lambda>b. ret (a + b))))))"

lemmas scanner_runs [run_simps] = fun_cong [OF handle_past_expiry_def] fun_cong [OF handle_expiring_soon_def]
  fun_cong [OF count_handled.simps(1)] fun_cong [OF count_handled.simps(2)] fun_cong [OF expiry_run_once_def]

end
