(* ===== verification/Payroll_Repo.thy ===== *)
theory Payroll_Repo
  imports Tables Text
begin

text \<open>
  The payroll repositories, \<open>payroll/postgres\<close>: batches, entries, disputes and exceptions,
  and the query of the employee's current lines (\<open>payroll/current_lines.go\<close>).
\<close>

section \<open>Batches\<close>

definition batch_check :: "db \<Rightarrow> batch \<Rightarrow> err option" where
  "batch_check d b = checks
     [(b_end b < b_start b, check_violation),
      (b_id b \<in> b_id ` set (batches d), unique_violation),
      ((b_start b, b_end b) \<in> (\<lambda>x. (b_start x, b_end x)) ` set (batches d), PayrollErr ErrBatchPeriodExists)]"

definition batch_create_tx :: "env \<Rightarrow> batch \<Rightarrow> batch io" where
  "batch_create_tx E b = insert_row E batches_update batch_check
     (\<lambda>i. b\<lparr>b_id := i, b_created_at := e_dbnow E, b_updated_at := e_dbnow E\<rparr>)"

text \<open>The same statement, on its own.\<close>

definition batch_create :: "env \<Rightarrow> batch \<Rightarrow> batch io" where
  "batch_create E b = batch_create_tx E b"

definition batch_get_by_id :: "env \<Rightarrow> uuid \<Rightarrow> batch io" where
  "batch_get_by_id E i = get_row E batches b_id (PayrollErr ErrBatchNotFound) i"

definition batch_get_by_period :: "env \<Rightarrow> date \<Rightarrow> date \<Rightarrow> batch io" where
  "batch_get_by_period E start until =
     get_row E batches (\<lambda>b. (b_start b, b_end b)) (PayrollErr ErrBatchNotFound) (start, until)"

definition batch_user_check :: "db \<Rightarrow> batch \<Rightarrow> err option" where
  "batch_user_check d b = checks [(\<not> fk_user d (b_locked_by b), fk_violation)]"

definition batch_update_status_tx ::
    "env \<Rightarrow> batch_status \<Rightarrow> batch_status \<Rightarrow> uuid option \<Rightarrow> uuid \<Rightarrow> unit io" where
  "batch_update_status_tx E from to lockedBy i =
     update_rows E batches batches_update batch_user_check (Some (PayrollErr ErrPayrollInvalidTransition))
       (\<lambda>b. b_id b = i \<and> b_status b = from)
       (\<lambda>b. if to = BLocked
            then b\<lparr>b_status := to, b_locked_at := Some (e_dbnow E), b_locked_by := lockedBy, b_updated_at := e_dbnow E\<rparr>
            else b\<lparr>b_status := to, b_updated_at := e_dbnow E\<rparr>)"

definition batch_set_export_info_tx :: "env \<Rightarrow> uuid \<Rightarrow> string \<Rightarrow> time \<Rightarrow> unit io" where
  "batch_set_export_info_tx E i uri exportedAt =
     update_rows E batches batches_update no_check None (\<lambda>b. b_id b = i)
       (\<lambda>b. b\<lparr>b_status := BExported, b_exported_at := Some exportedAt, b_export_uri := Some uri,
              b_updated_at := e_dbnow E\<rparr>)"

definition batch_list :: "env \<Rightarrow> batch_status list \<Rightarrow> batch list io" where
  "batch_list E statuses = select_rows E batches (\<lambda>b. statuses = [] \<or> b_status b \<in> set statuses)
     (\<lambda>bs. sort_key (\<lambda>b. - b_end b) (sort_key (\<lambda>b. - b_start b) bs))"

section \<open>Entries\<close>

definition entry_check :: "db \<Rightarrow> entry \<Rightarrow> err option" where
  "entry_check d e = checks
     [(e_amount e < 0 \<or> e_refunded e < 0, check_violation),
      (e_id e \<in> e_id ` set (entries d), unique_violation),
      (by_key b_id (e_batch e) (batches d) = None \<or> by_key u_id (e_user e) (users d) = None, fk_violation)]"

definition entry_create_tx :: "env \<Rightarrow> entry \<Rightarrow> entry io" where
  "entry_create_tx E e = insert_row E entries_update entry_check
     (\<lambda>i. e\<lparr>e_id := i, e_created_at := e_dbnow E\<rparr>)"

definition entry_get_by_id :: "env \<Rightarrow> uuid \<Rightarrow> entry io" where
  "entry_get_by_id E i = get_row E entries e_id (PayrollErr ErrEntryNotFound) i"

definition entry_list_by_batch :: "env \<Rightarrow> uuid \<Rightarrow> entry list io" where
  "entry_list_by_batch E bid = select_rows E entries (\<lambda>e. e_batch e = bid)
     (\<lambda>es. sort_key e_created_at (sort_key e_id es))"

definition entry_find_by_order_for_user :: "env \<Rightarrow> uuid \<Rightarrow> uuid \<Rightarrow> uuid io" where
  "entry_find_by_order_for_user E user oid = query E (\<lambda>d.
     case find (\<lambda>e. e_user e = user \<and> oid \<in> set (e_orders e)) (entries d) of
       None \<Rightarrow> Inl (PayrollErr ErrEntryNotFound) | Some e \<Rightarrow> Inr (e_id e))"

record employee_entry =
  ee_entry :: uuid
  ee_batch :: uuid
  ee_start :: date
  ee_end :: date
  ee_status :: batch_status
  ee_order_count :: int
  ee_amount :: int
  ee_refunded :: int
  ee_created_at :: time

definition entry_list_by_user :: "env \<Rightarrow> uuid \<Rightarrow> employee_entry list io" where
  "entry_list_by_user E user = query E (\<lambda>d. Inr (
     sort_key (\<lambda>x. - ee_start x) (sort_key (\<lambda>x. - ee_created_at x)
       (List.map_filter (\<lambda>e. case by_key b_id (e_batch e) (batches d) of
          None \<Rightarrow> None
        | Some b \<Rightarrow> Some \<lparr>ee_entry = e_id e, ee_batch = e_batch e, ee_start = b_start b, ee_end = b_end b,
            ee_status = b_status b, ee_order_count = int (length (e_orders e)), ee_amount = e_amount e,
            ee_refunded = e_refunded e, ee_created_at = e_created_at e\<rparr>)
        (filter (\<lambda>e. e_user e = user) (entries d))))))"

definition refund_check :: "db \<Rightarrow> entry \<Rightarrow> err option" where
  "refund_check d e = checks
     [(\<not> int8_ok (e_refunded e), out_of_range), (e_refunded e < 0, check_violation)]"

definition entry_increment_refunded_tx :: "env \<Rightarrow> uuid \<Rightarrow> int \<Rightarrow> unit io" where
  "entry_increment_refunded_tx E i refund =
     update_rows E entries entries_update refund_check (Some (PayrollErr ErrEntryNotFound))
       (\<lambda>e. e_id e = i) (\<lambda>e. e\<lparr>e_refunded := e_refunded e + refund\<rparr>)"

section \<open>Disputes\<close>

definition dispute_check :: "db \<Rightarrow> dispute \<Rightarrow> err option" where
  "dispute_check d x = checks
     [(d_id x \<in> d_id ` set (disputes d), unique_violation),
      ((case d_entry x of None \<Rightarrow> False | Some e \<Rightarrow> by_key e_id e (entries d) = None)
        \<or> by_key o_id (d_order x) (orders d) = None \<or> by_key u_id (d_opened_by x) (users d) = None, fk_violation)]"

definition dispute_create :: "env \<Rightarrow> dispute \<Rightarrow> dispute io" where
  "dispute_create E x = insert_row E disputes_update dispute_check
     (\<lambda>i. x\<lparr>d_id := i, d_created_at := e_dbnow E, d_updated_at := e_dbnow E\<rparr>)"

definition dispute_get_by_id :: "env \<Rightarrow> uuid \<Rightarrow> dispute io" where
  "dispute_get_by_id E i = get_row E disputes d_id (PayrollErr ErrDisputeNotFound) i"

definition dispute_user_check :: "db \<Rightarrow> dispute \<Rightarrow> err option" where
  "dispute_user_check d x = checks [(\<not> fk_user d (d_resolved_by x), fk_violation)]"

text \<open>The update does not look at the current status.\<close>

definition dispute_update_status_tx ::
    "env \<Rightarrow> uuid \<Rightarrow> dispute_status \<Rightarrow> uuid option \<Rightarrow> string \<Rightarrow> int \<Rightarrow> unit io" where
  "dispute_update_status_tx E i status resolvedBy resolution refund =
     update_rows E disputes disputes_update dispute_user_check (Some (PayrollErr ErrDisputeNotFound))
       (\<lambda>x. d_id x = i)
       (\<lambda>x. x\<lparr>d_status := status, d_resolved_by := resolvedBy,
              d_resolved_at := (if status = DRefund \<or> status = DReject then Some (e_dbnow E) else d_resolved_at x),
              d_resolution := resolution, d_refund := refund, d_updated_at := e_dbnow E\<rparr>)"

definition dispute_list_by_status :: "env \<Rightarrow> dispute_status list \<Rightarrow> dispute list io" where
  "dispute_list_by_status E statuses =
     select_rows E disputes (\<lambda>x. statuses = [] \<or> d_status x \<in> set statuses) (sort_key (\<lambda>x. - d_created_at x))"

definition dispute_list_by_user :: "env \<Rightarrow> uuid \<Rightarrow> dispute list io" where
  "dispute_list_by_user E user =
     select_rows E disputes (\<lambda>x. d_opened_by x = user) (sort_key (\<lambda>x. - d_created_at x))"

section \<open>Exceptions\<close>

definition exception_key :: "payroll_exception \<Rightarrow> uuid \<times> uuid \<times> exception_kind" where
  "exception_key x = (x_batch x, x_entry x, x_kind x)"

text \<open>
  \<open>INSERT ... SELECT ... ON CONFLICT (batch_id, entry_id, kind) DO NOTHING\<close>: the selected
  entries one after the other, each with an id of its own.
\<close>

definition departed_exception :: "time \<Rightarrow> uuid \<Rightarrow> entry \<Rightarrow> user_status \<Rightarrow> payroll_exception" where
  "departed_exception now i e st =
     \<lparr>x_id = i, x_batch = e_batch e, x_entry = e_id e, x_user = e_user e, x_kind = EmployeeDeparted,
      x_status = ExOpen, x_detail = ''employee status: '' @ user_status_text st, x_resolution = '''',
      x_resolved_by = None, x_resolved_at = None, x_created_at = now, x_updated_at = now\<rparr>"

fun insert_departed ::
    "(nat \<Rightarrow> uuid) \<Rightarrow> time \<Rightarrow> nat \<Rightarrow> (entry \<times> user_status) list \<Rightarrow> payroll_exception list \<Rightarrow>
     err + payroll_exception list" where
  "insert_departed ids now n [] xs = Inr xs"
| "insert_departed ids now n ((e, st) # es) xs =
     (let x = departed_exception now (ids n) e st in
      if exception_key x \<in> exception_key ` set xs then insert_departed ids now (Suc n) es xs
      else if x_id x \<in> x_id ` set xs then Inl unique_violation
      else insert_departed ids now (Suc n) es (xs @ [x]))"

definition departed_entries :: "db \<Rightarrow> uuid \<Rightarrow> (entry \<times> user_status) list" where
  "departed_entries d bid = List.map_filter (\<lambda>e. case by_key u_id (e_user e) (users d) of
       None \<Rightarrow> None
     | Some u \<Rightarrow> if u_status u \<noteq> UserActive then Some (e, u_status u) else None)
     (filter (\<lambda>e. e_batch e = bid) (entries d))"

definition exception_upsert_departed_tx :: "env \<Rightarrow> uuid \<Rightarrow> unit io" where
  "exception_upsert_departed_tx E bid = exec E (\<lambda>w. let d = w_db w in
     case insert_departed (e_row_uuid E (w_tick w)) (e_dbnow E) 0 (departed_entries d bid) (exceptions d) of
       Inl e \<Rightarrow> Inl e
     | Inr xs \<Rightarrow> Inr ((), w\<lparr>w_db := d\<lparr>exceptions := xs\<rparr>\<rparr>))"

definition exception_upsert_departed :: "env \<Rightarrow> uuid \<Rightarrow> unit io" where
  "exception_upsert_departed E bid = exception_upsert_departed_tx E bid"

definition exception_check :: "db \<Rightarrow> payroll_exception \<Rightarrow> err option" where
  "exception_check d x = checks
     [(x_id x \<in> x_id ` set (exceptions d), unique_violation),
      (exception_key x \<in> exception_key ` set (exceptions d), unique_violation),
      (by_key b_id (x_batch x) (batches d) = None \<or> by_key e_id (x_entry x) (entries d) = None
        \<or> by_key u_id (x_user x) (users d) = None, fk_violation)]"

definition exception_create :: "env \<Rightarrow> payroll_exception \<Rightarrow> payroll_exception io" where
  "exception_create E x = insert_row E exceptions_update exception_check
     (\<lambda>i. x\<lparr>x_id := i, x_created_at := e_dbnow E, x_updated_at := e_dbnow E\<rparr>)"

definition exception_get_by_id :: "env \<Rightarrow> uuid \<Rightarrow> payroll_exception io" where
  "exception_get_by_id E i = get_row E exceptions x_id (PayrollErr ErrExceptionNotFound) i"

definition exception_list_by_batch :: "env \<Rightarrow> uuid \<Rightarrow> payroll_exception list io" where
  "exception_list_by_batch E bid = select_rows E exceptions (\<lambda>x. x_batch x = bid) (sort_key x_created_at)"

definition exception_user_check :: "db \<Rightarrow> payroll_exception \<Rightarrow> err option" where
  "exception_user_check d x = checks [(\<not> fk_user d (x_resolved_by x), fk_violation)]"

definition exception_resolve :: "env \<Rightarrow> uuid \<Rightarrow> exception_status \<Rightarrow> string \<Rightarrow> uuid \<Rightarrow> unit io" where
  "exception_resolve E i status resolution resolvedBy =
     update_rows E exceptions exceptions_update exception_user_check (Some (PayrollErr ErrExceptionNotFound))
       (\<lambda>x. x_id x = i)
       (\<lambda>x. x\<lparr>x_status := status, x_resolution := resolution, x_resolved_by := Some resolvedBy,
              x_resolved_at := Some (e_dbnow E), x_updated_at := e_dbnow E\<rparr>)"

section \<open>Current lines\<close>

text \<open>
  One line per chargeable order after the last locked period. Text is compared bytewise (the
  \<open>C\<close> collation) where the query orders by name.
\<close>

record payroll_line =
  pl_order :: uuid
  pl_date :: string
  pl_vendor :: string
  pl_items :: string
  pl_amount :: int
  pl_status :: string
  pl_rated :: bool
  pl_complaint :: "uuid option"

definition day_one :: date where "day_one = - 719162"

definition last_locked_end :: "db \<Rightarrow> date" where
  "last_locked_end d =
     (case map b_end (filter (\<lambda>b. b_status b \<in> {BLocked, BExported, BClosed}) (batches d)) of
        [] \<Rightarrow> day_one | x # xs \<Rightarrow> fold max xs x)"

definition items_summary :: "db \<Rightarrow> uuid \<Rightarrow> string" where
  "items_summary d oid = join_text '', '' (map (\<lambda>(n, q). int_text q @ ''x '' @ n)
     (sort_key fst (List.map_filter (\<lambda>i. case by_key m_id (i_menu_item i) (menu_items d) of
        None \<Rightarrow> None | Some m \<Rightarrow> Some (m_name m, i_qty i))
      (filter (\<lambda>i. i_order i = oid) (order_items d)))))"

definition line_status :: "order_status \<Rightarrow> string" where
  "line_status s = (if s = NoShow then ''no_show'' else if s = Refunded then ''reversed'' else ''charged'')"

definition line_complaint :: "db \<Rightarrow> uuid \<Rightarrow> uuid option" where
  "line_complaint d oid = (case sort_key (\<lambda>c. - c_created_at c) (filter (\<lambda>c. c_order c = oid) (complaints d)) of
     [] \<Rightarrow> None | c # _ \<Rightarrow> Some (c_id c))"

definition current_line :: "db \<Rightarrow> order_row \<Rightarrow> payroll_line option" where
  "current_line d r = (case by_key v_id (o_vendor r) (vendors d) of
     None \<Rightarrow> None
   | Some v \<Rightarrow> Some \<lparr>pl_order = o_id r, pl_date = date_text (o_date r), pl_vendor = v_name v,
       pl_items = items_summary d (o_id r), pl_amount = o_total r, pl_status = line_status (o_status r),
       pl_rated = (by_key r_order (o_id r) (ratings d) \<noteq> None), pl_complaint = line_complaint d (o_id r)\<rparr>)"

definition query_current_lines :: "env \<Rightarrow> uuid \<Rightarrow> payroll_line list io" where
  "query_current_lines E user = query E (\<lambda>d. Inr (
     List.map_filter (current_line d)
       (sort_key (\<lambda>r. - o_date r) (sort_key o_id
         (filter (\<lambda>r. o_user r = user \<and> o_status r \<in> {PickedUp, NoShow, Refunded}
                    \<and> last_locked_end d < o_date r) (orders d))))))"

section \<open>Reads and checks\<close>

lemma ro_payroll_reads [ro_intros]:
  "ro (batch_get_by_id E i)" "ro (batch_get_by_period E s u)" "ro (batch_list E bs)"
  "ro (entry_get_by_id E i)" "ro (entry_list_by_batch E i)" "ro (entry_find_by_order_for_user E i j)"
  "ro (entry_list_by_user E i)" "ro (dispute_get_by_id E i)" "ro (dispute_list_by_status E ds)"
  "ro (dispute_list_by_user E i)" "ro (exception_get_by_id E i)" "ro (exception_list_by_batch E i)"
  "ro (query_current_lines E i)"
  by (auto simp: batch_get_by_id_def batch_get_by_period_def batch_list_def entry_get_by_id_def
      entry_list_by_batch_def entry_find_by_order_for_user_def entry_list_by_user_def dispute_get_by_id_def
      dispute_list_by_status_def dispute_list_by_user_def exception_get_by_id_def exception_list_by_batch_def
      query_current_lines_def intro: ro_intros)

lemma atomic_payroll_statements [atomic_intros]:
  "atomic (batch_create_tx E b)" "atomic (batch_update_status_tx E f t l i)" "atomic (entry_create_tx E e)"
  "atomic (entry_increment_refunded_tx E i n)" "atomic (dispute_create E x)"
  "atomic (dispute_update_status_tx E i s u r n)" "atomic (exception_create E y)"
  "atomic (exception_upsert_departed_tx E i)" "atomic (exception_resolve E i es r v)"
  by (auto simp: batch_create_tx_def batch_update_status_tx_def entry_create_tx_def
      entry_increment_refunded_tx_def dispute_create_def dispute_update_status_tx_def exception_create_def
      exception_upsert_departed_tx_def exception_resolve_def intro: atomic_intros)

lemmas payroll_statement_defs = batch_create_tx_def batch_create_def batch_get_by_id_def
  batch_get_by_period_def batch_update_status_tx_def batch_set_export_info_tx_def batch_list_def
  entry_create_tx_def entry_get_by_id_def entry_list_by_batch_def entry_increment_refunded_tx_def
  dispute_create_def dispute_get_by_id_def dispute_update_status_tx_def dispute_list_by_status_def
  dispute_list_by_user_def exception_create_def exception_get_by_id_def exception_list_by_batch_def
  exception_resolve_def exception_upsert_departed_def

lemmas payroll_checks = batch_check_def batch_user_check_def entry_check_def refund_check_def
  dispute_check_def dispute_user_check_def exception_check_def exception_user_check_def

lemmas payroll_repo_runs [run_simps] = payroll_statement_defs payroll_checks
  fun_cong [OF entry_find_by_order_for_user_def] fun_cong [OF exception_upsert_departed_tx_def]
  fun_cong [OF query_current_lines_def]

text \<open>Locking a batch: one winner.\<close>

lemma user_checks_db:
  "batch_user_check d b = Some y \<Longrightarrow> \<exists>p. y = DbErr p"
  "dispute_user_check d x = Some y \<Longrightarrow> \<exists>p. y = DbErr p"
  "refund_check d e = Some y \<Longrightarrow> \<exists>p. y = DbErr p"
  by (auto simp: batch_user_check_def dispute_user_check_def refund_check_def checks_run split: if_splits)

interpretation lock_upd: guarded_update "batch_update_status_tx E BDraft BLocked u"
    "\<lambda>d k. map_option b_status (by_key b_id k (batches d))" batch_tbl.keyed "\<lambda>s. s = BDraft" BLocked
    "PayrollErr ErrPayrollInvalidTransition" for E u
  unfolding batch_update_status_tx_def by (rule batch_tbl.guarded) (auto dest: user_checks_db)

end
