(* ===== verification/Payroll.thy ===== *)
theory Payroll
  imports Payroll_Repo
begin

text \<open>
  The payroll service, \<open>payroll/service.go\<close> and \<open>payroll/reversal.go\<close>: building and
  locking a deduction batch, opening and resolving disputes, reversing a single order, and the
  manual exceptions. As in the order service, every operation reads through the pool and writes
  inside one transaction, except the two exception operations, which write their row first and
  the audit record in a transaction of its own.
\<close>

section \<open>Batches\<close>

record build_draft_input =
  bd_start :: date
  bd_end :: date

record payroll_user_acc =
  ua_orders :: "uuid list"
  ua_amount :: int

text \<open>The map \<open>byUser\<close>, as an association list in the order its keys were first written.\<close>

definition add_order ::
    "order \<Rightarrow> (uuid \<times> payroll_user_acc) list \<Rightarrow> (uuid \<times> payroll_user_acc) list" where
  "add_order x m =
     (let a = (case map_of m (o_user x) of None \<Rightarrow> \<lparr>ua_orders = [], ua_amount = 0\<rparr> | Some a \<Rightarrow> a)
      in AList.update (o_user x)
           \<lparr>ua_orders = ua_orders a @ [o_id x], ua_amount = i64 (ua_amount a + o_total x)\<rparr> m)"

definition aggregate_orders_by_user :: "order list \<Rightarrow> (uuid \<times> payroll_user_acc) list" where
  "aggregate_orders_by_user xs = fold add_order xs []"

definition new_entry :: "uuid \<Rightarrow> uuid \<Rightarrow> payroll_user_acc \<Rightarrow> entry" where
  "new_entry bid user a = \<lparr>e_id = '''', e_batch = bid, e_user = user, e_orders = ua_orders a,
     e_amount = ua_amount a, e_refunded = 0, e_created_at = 0\<rparr>"

definition new_batch :: "date \<Rightarrow> date \<Rightarrow> batch" where
  "new_batch start until = \<lparr>b_id = '''', b_start = start, b_end = until, b_status = BDraft,
     b_locked_at = None, b_locked_by = None, b_exported_at = None, b_export_uri = None,
     b_created_at = 0, b_updated_at = 0\<rparr>"

definition persist_draft_batch ::
    "env \<Rightarrow> batch \<Rightarrow> (uuid \<times> payroll_user_acc) list \<Rightarrow> batch io" where
  "persist_draft_batch E b byUser =
     bind (batch_create_tx E b) (\<lambda>b.
     bind (for_each (\<lambda>(user, a). bind (entry_create_tx E (new_entry (b_id b) user a)) (\<lambda>_. ret ()))
             (map_order (e_pick E) byUser)) (\<lambda>_.
     bind (exception_upsert_departed_tx E (b_id b)) (\<lambda>_.
     ret b)))"

definition build_draft :: "env \<Rightarrow> build_draft_input \<Rightarrow> batch io" where
  "build_draft E inp =
     (if bd_end inp < bd_start inp then fail (PayrollErr ErrPeriodOrder)
      else bind (attempt (batch_get_by_period E (bd_start inp) (bd_end inp))) (\<lambda>r. case r of
          Inr _ \<Rightarrow> fail (PayrollErr ErrBatchPeriodExists)
        | Inl e \<Rightarrow>
            if e \<noteq> PayrollErr ErrBatchNotFound then fail e
            else bind (list_picked_or_no_show_in_period E (bd_start inp) (bd_end inp)) (\<lambda>orders.
              begin_func E (\<lambda>_. persist_draft_batch E (new_batch (bd_start inp) (bd_end inp))
                (aggregate_orders_by_user orders)))))"

definition lock_body :: "env \<Rightarrow> batch \<Rightarrow> uuid \<Rightarrow> uuid \<Rightarrow> unit io" where
  "lock_body E b bid admin =
     bind (batch_update_status_tx E BDraft BLocked (Some admin) bid) (\<lambda>_.
     let pl = [(''batch_id'', JStr bid), (''period_start'', JStr (date_text (b_start b))),
               (''period_end'', JStr (date_text (b_end b)))] in
     bind (outbox_append_tx E ''payroll_batch'' bid ''payroll.batch_locked.v1'' pl []) (\<lambda>_.
     audit_write_tx E (audit_of (Some admin) (Some WelfareAdmin) ''payroll.lock'' ''payroll_batch'' bid pl)))"

definition lock_batch :: "env \<Rightarrow> uuid \<Rightarrow> uuid \<Rightarrow> unit io" where
  "lock_batch E bid admin =
     bind (batch_get_by_id E bid) (\<lambda>b.
       if b_status b \<noteq> BDraft then fail (PayrollErr ErrBatchLocked)
       else begin_func E (\<lambda>_. lock_body E b bid admin))"

section \<open>Disputes\<close>

record open_dispute_input =
  od_entry :: uuid
  od_order :: uuid
  od_opened_by :: uuid
  od_reason :: string

definition new_dispute :: "uuid option \<Rightarrow> uuid \<Rightarrow> uuid \<Rightarrow> string \<Rightarrow> dispute" where
  "new_dispute ent oid user reason = \<lparr>d_id = '''', d_entry = ent, d_order = oid, d_opened_by = user,
     d_reason = reason, d_status = DOpen, d_resolution = '''', d_resolved_by = None,
     d_resolved_at = None, d_refund = 0, d_created_at = 0, d_updated_at = 0\<rparr>"

definition open_dispute :: "env \<Rightarrow> open_dispute_input \<Rightarrow> dispute io" where
  "open_dispute E inp =
     bind (entry_get_by_id E (od_entry inp)) (\<lambda>e.
       if e_user e \<noteq> od_opened_by inp then fail (PayrollErr ErrPayrollForbidden)
       else if \<not> list_ex (\<lambda>i. i = od_order inp) (e_orders e) then fail (PayrollErr ErrOrderNotInEntry)
       else dispute_create E
         (new_dispute (Some (od_entry inp)) (od_order inp) (od_opened_by inp) (od_reason inp)))"

definition open_dispute_by_order :: "env \<Rightarrow> uuid \<Rightarrow> uuid \<Rightarrow> string \<Rightarrow> dispute io" where
  "open_dispute_by_order E oid user reason =
     bind (attempt (entry_find_by_order_for_user E user oid)) (\<lambda>r. case r of
       Inr ent \<Rightarrow> open_dispute E
         \<lparr>od_entry = ent, od_order = oid, od_opened_by = user, od_reason = reason\<rparr>
     | Inl e \<Rightarrow>
         if e \<noteq> PayrollErr ErrEntryNotFound then fail e
         else bind (order_get_by_id E oid) (\<lambda>x.
           if o_user x \<noteq> user then fail (PayrollErr ErrPayrollForbidden)
           else if o_status x \<noteq> PickedUp \<and> o_status x \<noteq> NoShow then fail (PayrollErr ErrOrderNotDisputable)
           else dispute_create E (new_dispute None oid user reason)))"

record resolve_dispute_input =
  rd_dispute :: uuid
  rd_resolved_by :: uuid
  rd_status :: dispute_status
  rd_resolution :: string
  rd_refund :: int

text \<open>The order is read through the pool while the transaction is open.\<close>

definition apply_dispute_refund :: "env \<Rightarrow> db \<Rightarrow> resolve_dispute_input \<Rightarrow> dispute \<Rightarrow> unit io" where
  "apply_dispute_refund E snap inp x =
     (if rd_refund inp < 0 then fail (PayrollErr ErrRefundNegative)
      else bind (order_get_by_id_at E snap (d_order x)) (\<lambda>ord.
        if o_total ord < rd_refund inp then fail (PayrollErr ErrRefundExceedsOrder)
        else bind (case d_entry x of
                     Some ent \<Rightarrow> entry_increment_refunded_tx E ent (rd_refund inp)
                   | None \<Rightarrow> ret ()) (\<lambda>_.
          if o_status ord = PickedUp \<or> o_status ord = NoShow
          then update_status_tx E (o_status ord) Refunded (d_order x)
          else ret ())))"

definition record_dispute_resolution :: "env \<Rightarrow> resolve_dispute_input \<Rightarrow> dispute \<Rightarrow> unit io" where
  "record_dispute_resolution E inp x =
     (let pl = [(''dispute_id'', JStr (rd_dispute inp)), (''order_id'', JStr (d_order x)),
                (''status'', JStr (dispute_status_text (rd_status inp))), (''refund_minor'', JInt (rd_refund inp))] in
     bind (outbox_append_tx E ''payroll_dispute'' (rd_dispute inp) ''payroll.dispute_resolved.v1'' pl []) (\<lambda>_.
     audit_write_tx E (audit_of (Some (rd_resolved_by inp)) (Some WelfareAdmin) ''payroll.dispute_resolve''
       ''payroll_dispute'' (rd_dispute inp) pl)))"

definition resolve_body :: "env \<Rightarrow> db \<Rightarrow> resolve_dispute_input \<Rightarrow> dispute \<Rightarrow> unit io" where
  "resolve_body E snap inp x =
     bind (dispute_update_status_tx E (rd_dispute inp) (rd_status inp) (Some (rd_resolved_by inp))
             (rd_resolution inp) (rd_refund inp)) (\<lambda>_.
     bind (if rd_status inp = DRefund then apply_dispute_refund E snap inp x else ret ()) (\<lambda>_.
     record_dispute_resolution E inp x))"

definition resolve_dispute :: "env \<Rightarrow> resolve_dispute_input \<Rightarrow> unit io" where
  "resolve_dispute E inp =
     (if rd_status inp \<noteq> DRefund \<and> rd_status inp \<noteq> DReject then fail (PayrollErr ErrInvalidResolution)
      else bind (dispute_get_by_id E (rd_dispute inp)) (\<lambda>x.
        if d_status x \<noteq> DOpen then fail (PayrollErr ErrPayrollInvalidTransition)
        else begin_func E (\<lambda>snap. resolve_body E snap inp x)))"

section \<open>Reversal\<close>

definition reverse_body :: "env \<Rightarrow> order \<Rightarrow> uuid \<Rightarrow> uuid option \<Rightarrow> unit io" where
  "reverse_body E x oid ent =
     bind (update_status_tx E (o_status x) Refunded oid) (\<lambda>_.
     bind (case ent of
             Some i \<Rightarrow> entry_increment_refunded_tx E i (o_total x)
           | None \<Rightarrow> ret ()) (\<lambda>_.
     let pl = [(''order_id'', JStr oid), (''user_id'', JStr (o_user x)),
               (''entry_id'', JStr (case ent of Some i \<Rightarrow> i | None \<Rightarrow> '''')), (''refund_minor'', JInt (o_total x))] in
     bind (outbox_append_tx E ''order'' oid ''payroll.order_reversed.v1'' pl []) (\<lambda>_.
     audit_write_tx E (audit_of None (Some WelfareAdmin) ''payroll.order_reverse'' ''order'' oid pl))))"

definition reverse_order :: "env \<Rightarrow> uuid \<Rightarrow> unit io" where
  "reverse_order E oid =
     bind (order_get_by_id E oid) (\<lambda>x.
       if o_status x = Refunded then ret ()
       else if o_status x \<noteq> PickedUp \<and> o_status x \<noteq> NoShow then fail (PayrollErr ErrPayrollInvalidTransition)
       else bind (attempt (entry_find_by_order_for_user E (o_user x) oid)) (\<lambda>r.
         case (case r of Inr i \<Rightarrow> Inr (Some i)
               | Inl e \<Rightarrow> if e = PayrollErr ErrEntryNotFound then Inr None else Inl e) of
           Inl e \<Rightarrow> fail e
         | Inr ent \<Rightarrow> begin_func E (\<lambda>_. reverse_body E x oid ent)))"

section \<open>Reads\<close>

definition list_batches :: "env \<Rightarrow> batch_status list \<Rightarrow> batch list io" where
  "list_batches E statuses = batch_list E statuses"

definition get_batch :: "env \<Rightarrow> uuid \<Rightarrow> batch io" where
  "get_batch E i = batch_get_by_id E i"

definition list_batch_entries :: "env \<Rightarrow> uuid \<Rightarrow> entry list io" where
  "list_batch_entries E bid = entry_list_by_batch E bid"

definition list_disputes :: "env \<Rightarrow> dispute_status list \<Rightarrow> dispute list io" where
  "list_disputes E statuses = dispute_list_by_status E statuses"

definition list_my_disputes :: "env \<Rightarrow> uuid \<Rightarrow> dispute list io" where
  "list_my_disputes E user = dispute_list_by_user E user"

definition list_my_entries :: "env \<Rightarrow> uuid \<Rightarrow> employee_entry list io" where
  "list_my_entries E user = entry_list_by_user E user"

definition list_current_lines :: "env \<Rightarrow> uuid \<Rightarrow> payroll_line list io" where
  "list_current_lines E user = query_current_lines E user"

section \<open>Exceptions\<close>

record flag_exception_input =
  fe_batch :: uuid
  fe_entry :: uuid
  fe_detail :: string
  fe_by :: uuid

definition list_exceptions :: "env \<Rightarrow> uuid \<Rightarrow> payroll_exception list io" where
  "list_exceptions E bid =
     bind (batch_get_by_id E bid) (\<lambda>_.
     bind (exception_upsert_departed E bid) (\<lambda>_.
     exception_list_by_batch E bid))"

definition new_exception :: "uuid \<Rightarrow> uuid \<Rightarrow> uuid \<Rightarrow> string \<Rightarrow> payroll_exception" where
  "new_exception bid ent user detail = \<lparr>x_id = '''', x_batch = bid, x_entry = ent, x_user = user,
     x_kind = DeductionFailed, x_status = ExOpen, x_detail = detail, x_resolution = '''',
     x_resolved_by = None, x_resolved_at = None, x_created_at = 0, x_updated_at = 0\<rparr>"

definition flag_exception :: "env \<Rightarrow> flag_exception_input \<Rightarrow> payroll_exception io" where
  "flag_exception E inp =
     bind (entry_get_by_id E (fe_entry inp)) (\<lambda>e.
       if e_batch e \<noteq> fe_batch inp then fail (PayrollErr ErrInvalidException)
       else bind (exception_create E (new_exception (fe_batch inp) (fe_entry inp) (e_user e) (fe_detail inp))) (\<lambda>x.
         bind (begin_func E (\<lambda>_. audit_write_tx E (audit_of (Some (fe_by inp)) (Some WelfareAdmin)
             ''payroll.exception_flag'' ''payroll_exception'' (x_id x)
             [(''batch_id'', JStr (fe_batch inp)), (''entry_id'', JStr (fe_entry inp)),
              (''kind'', JStr (exception_kind_text DeductionFailed))]))) (\<lambda>_.
         ret x)))"

definition resolve_exception ::
    "env \<Rightarrow> uuid \<Rightarrow> exception_status \<Rightarrow> string \<Rightarrow> uuid \<Rightarrow> unit io" where
  "resolve_exception E i status resolution by_user =
     (if status \<noteq> ExResolved \<and> status \<noteq> ExExcluded then fail (PayrollErr ErrInvalidException)
      else bind (exception_get_by_id E i) (\<lambda>x.
        bind (exception_resolve E i status resolution by_user) (\<lambda>_.
        begin_func E (\<lambda>_. audit_write_tx E (audit_of (Some by_user) (Some WelfareAdmin)
          ''payroll.exception_resolve'' ''payroll_exception'' i
          [(''batch_id'', JStr (x_batch x)), (''status'', JStr (exception_status_text status))])))))"

lemmas payroll_runs [run_simps] = fun_cong [OF persist_draft_batch_def] fun_cong [OF build_draft_def]
  fun_cong [OF lock_body_def] fun_cong [OF lock_batch_def] fun_cong [OF open_dispute_def]
  fun_cong [OF open_dispute_by_order_def] fun_cong [OF apply_dispute_refund_def]
  fun_cong [OF record_dispute_resolution_def] fun_cong [OF resolve_body_def]
  fun_cong [OF resolve_dispute_def] fun_cong [OF reverse_body_def] fun_cong [OF reverse_order_def]
  fun_cong [OF list_exceptions_def] fun_cong [OF flag_exception_def] fun_cong [OF resolve_exception_def]
  audit_of_def new_dispute_def new_entry_def new_batch_def new_exception_def add_order_def
  aggregate_orders_by_user_def

section \<open>Failures\<close>

lemma atomic_payroll_ops [atomic_intros]:
  "atomic (build_draft E bd)" "atomic (lock_batch E i u)" "atomic (open_dispute E od)"
  "atomic (open_dispute_by_order E i u r)" "atomic (resolve_dispute E rd)" "atomic (reverse_order E i)"
  unfolding build_draft_def lock_batch_def open_dispute_def open_dispute_by_order_def resolve_dispute_def
    reverse_order_def
  by (intro atomic_op atomic_payroll_statements ro_attempt ro_payroll_reads ro_order_reads atomic_ro ro_ret)+

end
