(* ===== verification/Feedback_Repo.thy ===== *)
theory Feedback_Repo
  imports Payroll Text
begin

text \<open>
  The feedback repositories, \<open>feedback/postgres\<close>: ratings, complaints and the projection of an
  order the service validates against. The unique keys are told apart by the constraint name the
  server puts into its message, which \<open>mapUniqueViolation\<close> of the service looks for.
\<close>

section \<open>Orders\<close>

record order_info =
  oi_id :: uuid
  oi_user :: uuid
  oi_vendor :: uuid
  oi_status :: order_status

definition get_order_info :: "env \<Rightarrow> uuid \<Rightarrow> order_info io" where
  "get_order_info E i = query E (\<lambda>d. case by_key o_id i (orders d) of
     None \<Rightarrow> Inl (FeedbackErr ErrFbOrderNotFound)
   | Some r \<Rightarrow> Inr \<lparr>oi_id = o_id r, oi_user = o_user r, oi_vendor = o_vendor r, oi_status = o_status r\<rparr>)"

section \<open>Ratings\<close>

definition rating_key_violation :: err where
  "rating_key_violation = DbErr (PgErr ''23505 meal_rating_order_id_key'')"

definition complaint_key_violation :: err where
  "complaint_key_violation = DbErr (PgErr ''23505 meal_complaint_one_open_idx'')"

definition rating_check :: "db \<Rightarrow> rating \<Rightarrow> err option" where
  "rating_check d r = checks
     [(r_score r < 1 \<or> 5 < r_score r, check_violation),
      (r_id r \<in> r_id ` set (ratings d), unique_violation),
      (r_order r \<in> r_order ` set (ratings d), rating_key_violation),
      (by_key o_id (r_order r) (orders d) = None \<or> by_key u_id (r_user r) (users d) = None
        \<or> by_key v_id (r_vendor r) (vendors d) = None, fk_violation)]"

definition rating_create_tx :: "env \<Rightarrow> rating \<Rightarrow> rating io" where
  "rating_create_tx E r = insert_row E ratings_update rating_check
     (\<lambda>i. r\<lparr>r_id := i, r_created_at := e_dbnow E\<rparr>)"

definition rating_get_by_order :: "env \<Rightarrow> uuid \<Rightarrow> rating io" where
  "rating_get_by_order E i = get_row E ratings r_order (FeedbackErr ErrRatingNotFound) i"

text \<open>
  A group of \<open>GROUP BY vendor_id\<close>: the average is the quotient of the sum and the count. The
  order of the groups is the server's.
\<close>

record vendor_rating_stat =
  vr_vendor :: uuid
  vr_sum :: int
  vr_count :: int

definition rating_stat :: "rating list \<Rightarrow> uuid \<Rightarrow> vendor_rating_stat" where
  "rating_stat rs v = \<lparr>vr_vendor = v, vr_sum = sql_sum (\<lambda>r. r_vendor r = v) r_score rs,
     vr_count = int (sql_affected (\<lambda>r. r_vendor r = v) rs)\<rparr>"

definition aggregate_by_vendor_since :: "env \<Rightarrow> time \<Rightarrow> vendor_rating_stat list io" where
  "aggregate_by_vendor_since E since = query E (\<lambda>d.
     let rs = filter (\<lambda>r. since \<le> r_created_at r) (ratings d) in
     Inr (map_order (e_pick E) (map (rating_stat rs) (remdups (map r_vendor rs)))))"

section \<open>Complaints\<close>

definition complaint_check :: "db \<Rightarrow> complaint \<Rightarrow> err option" where
  "complaint_check d c = checks
     [(c_id c \<in> c_id ` set (complaints d), unique_violation),
      (c_status c \<noteq> CResolved \<and> c_order c \<in> c_order ` {x \<in> set (complaints d). c_status x \<noteq> CResolved},
        complaint_key_violation),
      (by_key o_id (c_order c) (orders d) = None \<or> by_key u_id (c_user c) (users d) = None
        \<or> by_key v_id (c_vendor c) (vendors d) = None, fk_violation)]"

definition complaint_create_tx :: "env \<Rightarrow> complaint \<Rightarrow> complaint io" where
  "complaint_create_tx E c = insert_row E complaints_update complaint_check
     (\<lambda>i. c\<lparr>c_id := i, c_created_at := e_dbnow E, c_updated_at := e_dbnow E\<rparr>)"

definition complaint_get_by_id :: "env \<Rightarrow> uuid \<Rightarrow> complaint io" where
  "complaint_get_by_id E i = get_row E complaints c_id (FeedbackErr ErrComplaintNotFound) i"

record complaint_update =
  cu_response :: string
  cu_resolution :: string
  cu_resolved_by :: "uuid option"

definition apply_complaint_update ::
    "time \<Rightarrow> complaint_status \<Rightarrow> complaint_update \<Rightarrow> complaint \<Rightarrow> complaint" where
  "apply_complaint_update now to f c = c\<lparr>
     c_status := to,
     c_response := (if to = CVendorResponded then cu_response f else c_response c),
     c_responded_at := (if to = CVendorResponded then Some now else c_responded_at c),
     c_escalated_at := (if to = CEscalated then Some now else c_escalated_at c),
     c_resolution := (if to = CResolved then cu_resolution f else c_resolution c),
     c_resolved_by := (if to = CResolved then cu_resolved_by f else c_resolved_by c),
     c_resolved_at := (if to = CResolved then Some now else c_resolved_at c),
     c_updated_at := now\<rparr>"

text \<open>The reference to the resolving user is checked when it changes.\<close>

definition complaint_user_check :: "complaint_status \<Rightarrow> db \<Rightarrow> complaint \<Rightarrow> err option" where
  "complaint_user_check to d c = checks [(to = CResolved \<and> \<not> fk_user d (c_resolved_by c), fk_violation)]"

definition complaint_update_status_tx ::
    "env \<Rightarrow> complaint_status \<Rightarrow> complaint_status \<Rightarrow> complaint_update \<Rightarrow> uuid \<Rightarrow> unit io" where
  "complaint_update_status_tx E from to f i =
     update_rows E complaints complaints_update (complaint_user_check to) (Some (FeedbackErr ErrFbInvalidTransition))
       (\<lambda>c. c_id c = i \<and> c_status c = from) (apply_complaint_update (e_dbnow E) to f)"

definition complaint_list_by_user :: "env \<Rightarrow> uuid \<Rightarrow> complaint list io" where
  "complaint_list_by_user E user =
     select_rows E complaints (\<lambda>c. c_user c = user) (sort_key (\<lambda>c. - c_created_at c))"

definition complaint_list_by_vendor :: "env \<Rightarrow> uuid \<Rightarrow> complaint_status list \<Rightarrow> complaint list io" where
  "complaint_list_by_vendor E vid statuses = select_rows E complaints
     (\<lambda>c. c_vendor c = vid \<and> (statuses = [] \<or> c_status c \<in> set statuses)) (sort_key (\<lambda>c. - c_created_at c))"

definition complaint_list_by_status :: "env \<Rightarrow> complaint_status list \<Rightarrow> complaint list io" where
  "complaint_list_by_status E statuses = select_rows E complaints
     (\<lambda>c. statuses = [] \<or> c_status c \<in> set statuses) (sort_key (\<lambda>c. - c_created_at c))"

record vendor_complaint_stat =
  vc_vendor :: uuid
  vc_count :: int

definition complaint_stat :: "complaint list \<Rightarrow> uuid \<Rightarrow> vendor_complaint_stat" where
  "complaint_stat cs v = \<lparr>vc_vendor = v, vc_count = int (sql_affected (\<lambda>c. c_vendor c = v) cs)\<rparr>"

definition count_by_vendor_since :: "env \<Rightarrow> time \<Rightarrow> vendor_complaint_stat list io" where
  "count_by_vendor_since E since = query E (\<lambda>d.
     let cs = filter (\<lambda>c. since \<le> c_created_at c) (complaints d) in
     Inr (map_order (e_pick E) (map (complaint_stat cs) (remdups (map c_vendor cs)))))"

lemma ro_feedback_reads [ro_intros]:
  "ro (get_order_info E i)" "ro (rating_get_by_order E i)" "ro (aggregate_by_vendor_since E t)"
  "ro (complaint_get_by_id E i)" "ro (complaint_list_by_user E i)" "ro (complaint_list_by_vendor E i sts)"
  "ro (complaint_list_by_status E sts)" "ro (count_by_vendor_since E t)"
  unfolding get_order_info_def rating_get_by_order_def aggregate_by_vendor_since_def complaint_get_by_id_def
    complaint_list_by_user_def complaint_list_by_vendor_def complaint_list_by_status_def
    count_by_vendor_since_def
  by (intro ro_intros)+

lemma atomic_feedback_statements [atomic_intros]:
  "atomic (rating_create_tx E r)" "atomic (complaint_create_tx E c)"
  "atomic (complaint_update_status_tx E s t f i)"
  unfolding rating_create_tx_def complaint_create_tx_def complaint_update_status_tx_def
  by (intro atomic_intros)+

lemmas feedback_repo_runs [run_simps] = fun_cong [OF get_order_info_def] fun_cong [OF rating_create_tx_def]
  fun_cong [OF rating_get_by_order_def] fun_cong [OF aggregate_by_vendor_since_def]
  fun_cong [OF complaint_create_tx_def] fun_cong [OF complaint_get_by_id_def]
  fun_cong [OF complaint_update_status_tx_def] fun_cong [OF count_by_vendor_since_def]
  rating_check_def complaint_check_def complaint_user_check_def apply_complaint_update_def
  rating_stat_def complaint_stat_def sql_affected_def

section \<open>Constraints of the two tables\<close>

definition unresolved :: "db \<Rightarrow> uuid list" where
  "unresolved d = map c_order (filter (\<lambda>c. c_status c \<noteq> CResolved) (complaints d))"

text \<open>
  One rating per order with a score from 1 to 5, one unresolved complaint per order, and the
  workflow columns of a complaint agree with its status.
\<close>

definition stamps_ok :: "complaint \<Rightarrow> bool" where
  "stamps_ok c \<longleftrightarrow> (c_status c = COpen \<longrightarrow> c_responded_at c = None \<and> c_escalated_at c = None \<and> c_resolved_at c = None)
     \<and> (c_status c = CVendorResponded \<longrightarrow> c_responded_at c \<noteq> None \<and> c_escalated_at c = None \<and> c_resolved_at c = None)
     \<and> (c_status c = CEscalated \<longrightarrow> c_escalated_at c \<noteq> None \<and> c_resolved_at c = None)
     \<and> (c_status c = CResolved \<longrightarrow> c_resolved_at c \<noteq> None)"

definition feedback_inv :: "db \<Rightarrow> bool" where
  "feedback_inv d \<longleftrightarrow> distinct (map r_order (ratings d)) \<and> (\<forall>r\<in>set (ratings d). 1 \<le> r_score r \<and> r_score r \<le> 5)
     \<and> distinct (map c_id (complaints d)) \<and> distinct (unresolved d) \<and> (\<forall>c\<in>set (complaints d). stamps_ok c)"

lemma apply_update_simps [simp]:
  "c_id (apply_complaint_update now to f c) = c_id c"
  "c_order (apply_complaint_update now to f c) = c_order c"
  "c_user (apply_complaint_update now to f c) = c_user c"
  "c_vendor (apply_complaint_update now to f c) = c_vendor c"
  "c_status (apply_complaint_update now to f c) = to"
  "c_created_at (apply_complaint_update now to f c) = c_created_at c"
  by (simp_all add: apply_complaint_update_def)

text \<open>The edges of the complaint workflow.\<close>

fun complaint_edge :: "complaint_status \<Rightarrow> complaint_status \<Rightarrow> bool" where
  "complaint_edge COpen to = (to \<noteq> COpen)"
| "complaint_edge CVendorResponded to = (to = CEscalated \<or> to = CResolved)"
| "complaint_edge CEscalated to = (to = CResolved)"
| "complaint_edge CResolved to = False"

fun complaint_rank :: "complaint_status \<Rightarrow> nat" where
  "complaint_rank COpen = 0"
| "complaint_rank CVendorResponded = 1"
| "complaint_rank CEscalated = 2"
| "complaint_rank CResolved = 3"

lemma edge_rank: "complaint_edge a b \<Longrightarrow> complaint_rank a < complaint_rank b"
  by (cases a; cases b) auto

lemma stamps_update:
  "stamps_ok c \<Longrightarrow> complaint_edge (c_status c) to \<Longrightarrow> stamps_ok (apply_complaint_update now to f c)"
  by (cases "c_status c"; cases to) (auto simp: stamps_ok_def apply_complaint_update_def)

lemma unresolved_update:
  assumes "\<And>c. P c \<Longrightarrow> c_status c \<noteq> CResolved" "distinct (map c_order (filter (\<lambda>c. c_status c \<noteq> CResolved) cs))"
  shows "distinct (map c_order (filter (\<lambda>c. c_status c \<noteq> CResolved) (sql_update P (apply_complaint_update now to f) cs)))"
proof -
  have "set (map c_order (filter (\<lambda>c. c_status c \<noteq> CResolved) (sql_update P (apply_complaint_update now to f) cs)))
      \<subseteq> set (map c_order (filter (\<lambda>c. c_status c \<noteq> CResolved) cs))" for cs
    using assms(1) by (auto simp: set_sql_update)
  with assms(2) show ?thesis
    by (induction cs) (use assms(1) in \<open>auto split: if_splits\<close>)
qed

end
