(* ===== verification/Feedback.thy ===== *)
theory Feedback
  imports Feedback_Repo Anomalies
begin

text \<open>
  The feedback service, \<open>feedback/service.go\<close>, and its scanner, \<open>feedback/scanner.go\<close>:
  ratings of picked-up orders, the complaint workflow (open, vendor responded, escalated,
  resolved), the compensation of a resolved complaint through the payroll reversal, and the
  anomalies opened for vendors whose ratings drop or whose complaints pile up. Text lengths are
  byte counts, as \<open>len\<close> of a Go string is.
\<close>

section \<open>Ratings\<close>

definition validation :: err where "validation = FeedbackErr ErrValidation"

text \<open>The text of a server error; the sentinel errors of the program name no constraint.\<close>

fun err_text :: "err \<Rightarrow> string" where
  "err_text (DbErr (PgErr t)) = t"
| "err_text e = ''''"

definition map_unique_violation :: "err \<Rightarrow> err" where
  "map_unique_violation e =
     (if contains_text ''meal_complaint_one_open_idx'' (err_text e) then FeedbackErr ErrComplaintExists
      else if contains_text ''meal_rating_order_id_key'' (err_text e) then FeedbackErr ErrAlreadyRated
      else e)"

definition feedback_audit :: "uuid \<Rightarrow> user_role \<Rightarrow> string \<Rightarrow> string \<Rightarrow> uuid \<Rightarrow> payload \<Rightarrow> audit_entry" where
  "feedback_audit actor role action kind target pl = audit_of (Some actor) (Some role) action kind target pl"

record rate_order_input =
  ro_order :: uuid
  ro_user :: uuid
  ro_score :: int
  ro_comment :: string

definition new_rating :: "rate_order_input \<Rightarrow> uuid \<Rightarrow> rating" where
  "new_rating inp vid = \<lparr>r_id = '''', r_order = ro_order inp, r_user = ro_user inp, r_vendor = vid,
     r_score = ro_score inp, r_comment = ro_comment inp, r_created_at = 0\<rparr>"

definition rate_body :: "env \<Rightarrow> rate_order_input \<Rightarrow> uuid \<Rightarrow> rating io" where
  "rate_body E inp vid =
     bind (map_err map_unique_violation (rating_create_tx E (new_rating inp vid))) (\<lambda>r.
     bind (audit_write_tx E (feedback_audit (ro_user inp) Employee ''feedback.rate_order'' ''meal_rating'' (r_id r)
       [(''order_id'', JStr (ro_order inp)), (''vendor_id'', JStr vid), (''score'', JInt (ro_score inp))])) (\<lambda>_.
     ret r))"

definition rate_order :: "env \<Rightarrow> rate_order_input \<Rightarrow> rating io" where
  "rate_order E inp =
     (if ro_score inp < 1 \<or> 5 < ro_score inp then fail validation
      else if 500 < length (ro_comment inp) then fail validation
      else bind (get_order_info E (ro_order inp)) (\<lambda>oi.
        if oi_user oi \<noteq> ro_user inp then fail (FeedbackErr ErrFbForbidden)
        else if oi_status oi \<noteq> PickedUp then fail (FeedbackErr ErrOrderNotPickedUp)
        else bind (attempt (rating_get_by_order E (ro_order inp))) (\<lambda>r. case r of
            Inr _ \<Rightarrow> fail (FeedbackErr ErrAlreadyRated)
          | Inl e \<Rightarrow>
              if e \<noteq> FeedbackErr ErrRatingNotFound then fail e
              else begin_func E (\<lambda>_. rate_body E inp (oi_vendor oi)))))"

definition get_rating :: "env \<Rightarrow> uuid \<Rightarrow> rating io" where
  "get_rating E i = rating_get_by_order E i"

section \<open>Complaints\<close>

text \<open>\<open>validCategory\<close>: the texts the workflow accepts, as the value they stand for.\<close>

definition valid_category :: "string \<Rightarrow> complaint_category option" where
  "valid_category s = map_of (map (\<lambda>c. (category_text c, c))
     [WrongItem, MissingItem, Quality, Portion, Hygiene, OtherCategory]) s"

record file_complaint_input =
  fc_order :: uuid
  fc_user :: uuid
  fc_category :: string
  fc_description :: string

definition new_complaint :: "file_complaint_input \<Rightarrow> complaint_category \<Rightarrow> uuid \<Rightarrow> string \<Rightarrow> complaint" where
  "new_complaint inp cat vid desc = \<lparr>c_id = '''', c_order = fc_order inp, c_user = fc_user inp, c_vendor = vid,
     c_category = cat, c_description = desc, c_status = COpen, c_response = '''', c_responded_at = None,
     c_escalated_at = None, c_resolution = '''', c_resolved_by = None, c_resolved_at = None,
     c_created_at = 0, c_updated_at = 0\<rparr>"

definition file_body :: "env \<Rightarrow> file_complaint_input \<Rightarrow> complaint_category \<Rightarrow> uuid \<Rightarrow> string \<Rightarrow> complaint io" where
  "file_body E inp cat vid desc =
     bind (map_err map_unique_violation (complaint_create_tx E (new_complaint inp cat vid desc))) (\<lambda>c.
     bind (audit_write_tx E (feedback_audit (fc_user inp) Employee ''feedback.file_complaint'' ''meal_complaint'' (c_id c)
       [(''order_id'', JStr (fc_order inp)), (''vendor_id'', JStr vid), (''category'', JStr (fc_category inp))])) (\<lambda>_.
     ret c))"

definition file_complaint :: "env \<Rightarrow> file_complaint_input \<Rightarrow> complaint io" where
  "file_complaint E inp = (case valid_category (fc_category inp) of
       None \<Rightarrow> fail validation
     | Some cat \<Rightarrow> let desc = trim_space (fc_description inp) in
         if length desc < 5 \<or> 1000 < length desc then fail validation
         else bind (get_order_info E (fc_order inp)) (\<lambda>oi.
           if oi_user oi \<noteq> fc_user inp then fail (FeedbackErr ErrFbForbidden)
           else if oi_status oi \<noteq> PickedUp then fail (FeedbackErr ErrOrderNotPickedUp)
           else begin_func E (\<lambda>_. file_body E inp cat (oi_vendor oi) desc)))"

record complaint_transition =
  ct_from :: complaint_status
  ct_to :: complaint_status
  ct_fields :: complaint_update
  ct_actor :: uuid
  ct_role :: user_role
  ct_action :: string
  ct_extra :: payload

text \<open>The extra keys overwrite those of the payload.\<close>

definition transition_payload :: "complaint \<Rightarrow> complaint_transition \<Rightarrow> payload" where
  "transition_payload c t = fold (\<lambda>(k, v). AList.update k v) (ct_extra t)
     [(''complaint_id'', JStr (c_id c)), (''order_id'', JStr (c_order c)), (''vendor_id'', JStr (c_vendor c)),
      (''to'', JStr (complaint_status_text (ct_to t)))]"

definition transition_body :: "env \<Rightarrow> complaint \<Rightarrow> complaint_transition \<Rightarrow> unit io" where
  "transition_body E c t =
     bind (complaint_update_status_tx E (ct_from t) (ct_to t) (ct_fields t) (c_id c)) (\<lambda>_.
     audit_write_tx E (feedback_audit (ct_actor t) (ct_role t) (ct_action t) ''meal_complaint'' (c_id c)
       (transition_payload c t)))"

definition transition :: "env \<Rightarrow> complaint \<Rightarrow> complaint_transition \<Rightarrow> unit io" where
  "transition E c t = begin_func E (\<lambda>_. transition_body E c t)"

definition no_fields :: complaint_update where
  "no_fields = \<lparr>cu_response = '''', cu_resolution = '''', cu_resolved_by = None\<rparr>"

definition respond_to_complaint :: "env \<Rightarrow> uuid \<Rightarrow> uuid \<Rightarrow> uuid \<Rightarrow> string \<Rightarrow> unit io" where
  "respond_to_complaint E cid vid actor response =
     bind (complaint_get_by_id E cid) (\<lambda>c.
       if c_vendor c \<noteq> vid then fail (FeedbackErr ErrFbForbidden)
       else if c_status c \<noteq> COpen then fail (FeedbackErr ErrFbInvalidTransition)
       else if length (trim_space response) < 5 then fail validation
       else transition E c \<lparr>ct_from = COpen, ct_to = CVendorResponded,
         ct_fields = no_fields\<lparr>cu_response := trim_space response\<rparr>, ct_actor = actor, ct_role = VendorOperator,
         ct_action = ''feedback.complaint_respond'', ct_extra = [(''vendor_id'', JStr vid)]\<rparr>)"

definition escalate_gate :: time where "escalate_gate = 24 * hour_ns"

definition escalate_complaint :: "env \<Rightarrow> uuid \<Rightarrow> uuid \<Rightarrow> unit io" where
  "escalate_complaint E cid user =
     bind (complaint_get_by_id E cid) (\<lambda>c.
       if c_user c \<noteq> user then fail (FeedbackErr ErrFbForbidden)
       else if c_status c \<noteq> COpen \<and> c_status c \<noteq> CVendorResponded then fail (FeedbackErr ErrFbInvalidTransition)
       else if e_now E < c_created_at c + escalate_gate then fail (FeedbackErr ErrEscalateTooEarly)
       else transition E c \<lparr>ct_from = c_status c, ct_to = CEscalated, ct_fields = no_fields, ct_actor = user,
         ct_role = Employee, ct_action = ''feedback.complaint_escalate'',
         ct_extra = [(''from'', JStr (complaint_status_text (c_status c)))]\<rparr>)"

definition employee_resolve_complaint :: "env \<Rightarrow> uuid \<Rightarrow> uuid \<Rightarrow> unit io" where
  "employee_resolve_complaint E cid user =
     bind (complaint_get_by_id E cid) (\<lambda>c.
       if c_user c \<noteq> user then fail (FeedbackErr ErrFbForbidden)
       else if c_status c \<noteq> COpen \<and> c_status c \<noteq> CVendorResponded then fail (FeedbackErr ErrFbInvalidTransition)
       else transition E c \<lparr>ct_from = c_status c, ct_to = CResolved,
         ct_fields = no_fields\<lparr>cu_resolution := ''resolved by employee (satisfied)'', cu_resolved_by := Some user\<rparr>,
         ct_actor = user, ct_role = Employee, ct_action = ''feedback.complaint_resolve'',
         ct_extra = [(''resolved_by_role'', JStr ''employee''), (''from'', JStr (complaint_status_text (c_status c)))]\<rparr>)"

text \<open>
  The transition commits before the reversal starts; \<open>reverser\<close> tells whether the payroll
  service is wired in.
\<close>

definition admin_transition :: "uuid \<Rightarrow> string \<Rightarrow> bool \<Rightarrow> complaint_transition" where
  "admin_transition admin resolution compensate = \<lparr>ct_from = CEscalated, ct_to = CResolved,
     ct_fields = no_fields\<lparr>cu_resolution := trim_space resolution, cu_resolved_by := Some admin\<rparr>,
     ct_actor = admin, ct_role = WelfareAdmin, ct_action = ''feedback.complaint_resolve'',
     ct_extra = [(''resolved_by_role'', JStr ''welfare_admin''), (''compensate'', JBool compensate)]\<rparr>"

definition admin_resolve_complaint :: "env \<Rightarrow> bool \<Rightarrow> uuid \<Rightarrow> uuid \<Rightarrow> string \<Rightarrow> bool \<Rightarrow> unit io" where
  "admin_resolve_complaint E reverser cid admin resolution compensate =
     bind (complaint_get_by_id E cid) (\<lambda>c.
       if c_status c \<noteq> CEscalated then fail (FeedbackErr ErrFbInvalidTransition)
       else if length (trim_space resolution) < 5 then fail validation
       else if compensate \<and> \<not> reverser then fail (FeedbackErr ErrReverserMissing)
       else bind (transition E c (admin_transition admin resolution compensate)) (\<lambda>_.
         if compensate then reverse_order E (c_order c) else ret ()))"

definition list_my_complaints :: "env \<Rightarrow> uuid \<Rightarrow> complaint list io" where
  "list_my_complaints E user = complaint_list_by_user E user"

definition list_vendor_complaints :: "env \<Rightarrow> uuid \<Rightarrow> complaint_status list \<Rightarrow> complaint list io" where
  "list_vendor_complaints E vid statuses = complaint_list_by_vendor E vid statuses"

definition list_escalated_complaints :: "env \<Rightarrow> complaint list io" where
  "list_escalated_complaints E = complaint_list_by_status E [CEscalated]"

definition get_complaint :: "env \<Rightarrow> uuid \<Rightarrow> complaint io" where
  "get_complaint E i = complaint_get_by_id E i"

section \<open>The scanner\<close>

text \<open>
  The thresholds 3.5 and 2.5 are exact in binary floating point, and so is the comparison of a
  mean of small integers with them: the model compares the quotient. A failed opening is logged
  and skipped; the result counts the openings that went through.
\<close>

definition below_half :: "vendor_rating_stat \<Rightarrow> int \<Rightarrow> bool" where
  "below_half st halves \<longleftrightarrow> 2 * vr_sum st < halves * vr_count st"

definition rating_anomaly :: "int \<Rightarrow> vendor_rating_stat \<Rightarrow> anomaly_input" where
  "rating_anomaly windowDays st = \<lparr>ai_kind = ''satisfaction_drop'', ai_target_kind = ''vendor'',
     ai_target = vr_vendor st, ai_severity = Some (if below_half st 5 then High else Medium),
     ai_payload = [(''avg_score'', JFrac (vr_sum st) (vr_count st)), (''sample_count'', JInt (vr_count st)),
       (''window_days'', JInt windowDays), (''threshold'', JFrac 7 2)], ai_evidence = []\<rparr>"

definition complaint_anomaly :: "int \<Rightarrow> vendor_complaint_stat \<Rightarrow> anomaly_input" where
  "complaint_anomaly windowDays st = \<lparr>ai_kind = ''complaint_spike'', ai_target_kind = ''vendor'',
     ai_target = vc_vendor st, ai_severity = Some (if 10 \<le> vc_count st then High else Medium),
     ai_payload = [(''complaint_count'', JInt (vc_count st)), (''window_days'', JInt windowDays),
       (''threshold'', JInt 5)], ai_evidence = []\<rparr>"

fun open_all :: "env \<Rightarrow> anomaly_input list \<Rightarrow> int io" where
  "open_all E [] = ret 0"
| "open_all E (x # xs) =
     bind (attempt (anomaly_open E x)) (\<lambda>r.
     bind (open_all E xs) (\<lambda>n.
     ret (case r of Inl _ \<Rightarrow> n | Inr _ \<Rightarrow> n + 1)))"

definition rating_alarm :: "vendor_rating_stat \<Rightarrow> bool" where
  "rating_alarm st \<longleftrightarrow> \<not> (vr_count st < 5 \<or> \<not> below_half st 7)"

definition complaint_alarm :: "vendor_complaint_stat \<Rightarrow> bool" where
  "complaint_alarm st \<longleftrightarrow> \<not> vc_count st < 5"

definition open_rating_anomalies :: "env \<Rightarrow> vendor_rating_stat list \<Rightarrow> int \<Rightarrow> int io" where
  "open_rating_anomalies E sts windowDays = open_all E (map (rating_anomaly windowDays) (filter rating_alarm sts))"

definition open_complaint_anomalies :: "env \<Rightarrow> vendor_complaint_stat list \<Rightarrow> int \<Rightarrow> int io" where
  "open_complaint_anomalies E sts windowDays =
     open_all E (map (complaint_anomaly windowDays) (filter complaint_alarm sts))"

definition scan_window :: "time \<Rightarrow> time" where
  "scan_window window = (if window \<le> 0 then 14 * day_ns else window)"

definition feedback_run_once :: "env \<Rightarrow> time \<Rightarrow> int io" where
  "feedback_run_once E configured =
     (let window = scan_window configured; since = e_now E - window; windowDays = window div day_ns in
      bind (aggregate_by_vendor_since E since) (\<lambda>rs.
      bind (open_rating_anomalies E rs windowDays) (\<lambda>n.
      bind (count_by_vendor_since E since) (\<lambda>cs.
      bind (open_complaint_anomalies E cs windowDays) (\<lambda>m.
      ret (n + m))))))"

lemmas feedback_runs [run_simps] = fun_cong [OF rate_body_def] fun_cong [OF rate_order_def]
  fun_cong [OF file_body_def] fun_cong [OF file_complaint_def] fun_cong [OF transition_body_def]
  fun_cong [OF transition_def] fun_cong [OF respond_to_complaint_def] fun_cong [OF escalate_complaint_def]
  fun_cong [OF employee_resolve_complaint_def] fun_cong [OF admin_resolve_complaint_def]
  fun_cong [OF open_all.simps(1)] fun_cong [OF open_all.simps(2)] fun_cong [OF feedback_run_once_def]
  open_rating_anomalies_def open_complaint_anomalies_def rating_anomaly_def complaint_anomaly_def
  feedback_audit_def new_rating_def new_complaint_def no_fields_def admin_transition_def validation_def
  transition_payload_def valid_category_def map_unique_violation_def

lemma atomic_feedback_ops [atomic_intros]:
  "atomic (rate_order E r)" "atomic (file_complaint E f)" "atomic (respond_to_complaint E i v u s)"
  "atomic (escalate_complaint E i u)" "atomic (employee_resolve_complaint E i u)"
  unfolding rate_order_def file_complaint_def respond_to_complaint_def escalate_complaint_def
    employee_resolve_complaint_def transition_def Let_def
  by (intro atomic_op ro_feedback_reads ro_attempt)+

end
