(* ===== verification/Feedback_Scan.thy ===== *)
theory Feedback_Scan
  imports Feedback Scenario
begin

text \<open>
  The feedback scanner against a reference definition: which vendors have too many low ratings or
  too many complaints in the window, written over the tables, and the alerts a scan leaves.
\<close>

section \<open>Opening a list of alerts\<close>

text \<open>The ids the server is going to draw are new.\<close>

definition fresh_from :: "env \<Rightarrow> world \<Rightarrow> bool" where
  "fresh_from E w \<longleftrightarrow> inj (e_uuid E) \<and> (\<forall>t\<ge>w_tick w. e_uuid E t \<notin> an_id ` set (anomalies (w_db w)))"

lemma refresh_ids: "an_id ` set (sql_update P (refresh x t) rows) = an_id ` set rows"
proof -
  have "map an_id (sql_update P (refresh x t) rows) = map an_id rows" by (simp add: map_sql_update)
  then show ?thesis by (metis list.set_map)
qed

lemma open_ids:
  assumes "anomaly_open E x w = (Inr a, w')"
  shows "an_id ` set (anomalies (w_db w')) \<subseteq> insert (e_uuid E (w_tick w)) (an_id ` set (anomalies (w_db w)))"
    "w_tick w' = Suc (w_tick w)"
  using assms by (auto simp: anomaly_open_def exec_ok Let_def refresh_ids split: option.splits if_splits)

lemma open_succeeds:
  assumes "fresh_from E w" "e_fault E (w_tick w) = None"
  obtains a w' where "anomaly_open E x w = (Inr a, w')" "fresh_from E w'"
proof -
  obtain r w' where run: "anomaly_open E x w = (r, w')" by fastforce
  have "e_uuid E (w_tick w) \<notin> an_id ` set (anomalies (w_db w))" using assms(1) by (simp add: fresh_from_def)
  with run assms(2) obtain a where a: "r = Inr a"
    by (auto simp: anomaly_open_def exec_def Let_def split: option.splits)
  have "e_uuid E t \<notin> an_id ` set (anomalies (w_db w'))" if "w_tick w' \<le> t" for t
  proof -
    have "w_tick w \<le> t" "t \<noteq> w_tick w" using that open_ids(2) [OF run [unfolded a]] by simp_all
    moreover have "e_uuid E t \<noteq> e_uuid E (w_tick w)"
      using \<open>t \<noteq> w_tick w\<close> assms(1) by (auto simp: fresh_from_def dest: injD)
    ultimately show ?thesis using open_ids(1) [OF run [unfolded a]] assms(1) by (auto simp: fresh_from_def)
  qed
  then have "fresh_from E w'" using assms(1) by (simp add: fresh_from_def)
  with run a that show thesis by simp
qed

lemma same_anomalies: "\<exists>rs. d = d\<lparr>anomalies := rs\<rparr>"
  by (rule exI [of _ "anomalies d"]) simp

lemma open_all_ok:
  assumes "anomaly_inv (w_db w)" "fresh_from E w" "\<And>n. e_fault E n = None" "distinct (map input_key xs)"
  shows "\<exists>w'. open_all E xs w = (Inr (int (length xs)), w') \<and> anomaly_inv (w_db w') \<and> fresh_from E w'
    \<and> set (open_keys (w_db w')) = set (open_keys (w_db w)) \<union> input_key ` set xs
    \<and> (\<forall>x\<in>set xs. \<exists>b\<in>set (anomalies (w_db w')). alert_for x b)
    \<and> (\<forall>b. (\<forall>x\<in>set xs. \<not> open_for x b) \<longrightarrow> b \<in> set (anomalies (w_db w)) \<longleftrightarrow> b \<in> set (anomalies (w_db w')))
    \<and> (\<exists>rs. w_db w' = (w_db w)\<lparr>anomalies := rs\<rparr>)"
  using assms(1,2,4)
proof (induction xs arbitrary: w)
  case Nil
  show ?case by (intro exI [of _ w] conjI same_anomalies Nil(1,2)) (simp_all add: ret_def)
next
  case (Cons x xs)
  obtain a w1 where 1: "anomaly_open E x w = (Inr a, w1)" and f: "fresh_from E w1"
    by (rule open_succeeds [OF Cons.prems(2) assms(3)])
  note O = anomaly_open_ok [OF Cons.prems(1) 1]
  have "distinct (map input_key xs)" using Cons.prems(3) by simp
  from Cons.IH [OF O(1) f this] obtain w' where w': "open_all E xs w1 = (Inr (int (length xs)), w')"
    and R: "anomaly_inv (w_db w')" "fresh_from E w'"
      "set (open_keys (w_db w')) = set (open_keys (w_db w1)) \<union> input_key ` set xs"
      "\<forall>y\<in>set xs. \<exists>b\<in>set (anomalies (w_db w')). alert_for y b"
      "\<forall>b. (\<forall>y\<in>set xs. \<not> open_for y b) \<longrightarrow> b \<in> set (anomalies (w_db w1)) \<longleftrightarrow> b \<in> set (anomalies (w_db w'))"
      "\<exists>rs. w_db w' = (w_db w1)\<lparr>anomalies := rs\<rparr>" by blast
  have run: "open_all E (x # xs) w = (Inr (int (length (x # xs))), w')"
    using 1 w' by (simp add: bind_run attempt_def ret_def)
  have keys: "set (open_keys (w_db w')) = set (open_keys (w_db w)) \<union> input_key ` set (x # xs)"
    using R(3) O(5) by auto
  from O(2) obtain b where b: "b \<in> set (anomalies (w_db w1))" "alert_for x b" by blast
  have "\<not> open_for y b" if "y \<in> set xs" for y
    using b(2) Cons.prems(3) that by (auto simp: alert_for_def open_for_def)
  then have "b \<in> set (anomalies (w_db w'))" using R(5) b(1) by blast
  then have alerts: "\<forall>y\<in>set (x # xs). \<exists>b\<in>set (anomalies (w_db w')). alert_for y b" using R(4) b(2) by auto
  have others: "\<forall>b. (\<forall>y\<in>set (x # xs). \<not> open_for y b) \<longrightarrow> b \<in> set (anomalies (w_db w)) \<longleftrightarrow> b \<in> set (anomalies (w_db w'))"
    using R(5) O(3,4) by (metis list.set_intros)
  from R(6) O(6) have "\<exists>rs. w_db w' = (w_db w)\<lparr>anomalies := rs\<rparr>" by auto
  with run R(1,2) keys alerts others show ?case by blast
qed

section \<open>The reference\<close>

definition recent_ratings :: "db \<Rightarrow> time \<Rightarrow> uuid \<Rightarrow> rating list" where
  "recent_ratings d since v = filter (\<lambda>r. r_vendor r = v \<and> since \<le> r_created_at r) (ratings d)"

definition recent_complaints :: "db \<Rightarrow> time \<Rightarrow> uuid \<Rightarrow> complaint list" where
  "recent_complaints d since v = filter (\<lambda>c. c_vendor c = v \<and> since \<le> c_created_at c) (complaints d)"

definition mean_below :: "rating list \<Rightarrow> int \<Rightarrow> bool" where
  "mean_below rs halves \<longleftrightarrow> 2 * sum_list (map r_score rs) < halves * int (length rs)"

definition unhappy :: "db \<Rightarrow> time \<Rightarrow> uuid \<Rightarrow> bool" where
  "unhappy d since v \<longleftrightarrow> 5 \<le> length (recent_ratings d since v) \<and> mean_below (recent_ratings d since v) 7"

definition troubled :: "db \<Rightarrow> time \<Rightarrow> uuid \<Rightarrow> bool" where
  "troubled d since v \<longleftrightarrow> 5 \<le> length (recent_complaints d since v)"

definition drop_key :: "uuid \<Rightarrow> string \<times> string \<times> string" where
  "drop_key v = (''satisfaction_drop'', ''vendor'', v)"

definition spike_key :: "uuid \<Rightarrow> string \<times> string \<times> string" where
  "spike_key v = (''complaint_spike'', ''vendor'', v)"

text \<open>The aggregates of the database are the reference read at each vendor.\<close>

lemma rating_stat_recent:
  assumes "rs = filter (\<lambda>r. since \<le> r_created_at r) (ratings d)"
  shows "vr_sum (rating_stat rs v) = sum_list (map r_score (recent_ratings d since v))"
    "vr_count (rating_stat rs v) = int (length (recent_ratings d since v))"
    "vr_vendor (rating_stat rs v) = v"
  by (simp_all add: assms rating_stat_def recent_ratings_def sql_sum_def sql_affected_def conj_commute)

lemma complaint_stat_recent:
  assumes "cs = filter (\<lambda>c. since \<le> c_created_at c) (complaints d)"
  shows "vc_count (complaint_stat cs v) = int (length (recent_complaints d since v))" "vc_vendor (complaint_stat cs v) = v"
  by (simp_all add: assms complaint_stat_def recent_complaints_def sql_affected_def conj_commute)

lemma rating_alarm_iff:
  assumes "rs = filter (\<lambda>r. since \<le> r_created_at r) (ratings d)"
  shows "rating_alarm (rating_stat rs v) \<longleftrightarrow> unhappy d since v"
    "below_half (rating_stat rs v) 5 \<longleftrightarrow> mean_below (recent_ratings d since v) 5"
  by (auto simp: rating_alarm_def below_half_def unhappy_def mean_below_def rating_stat_recent [OF assms])

lemma complaint_alarm_iff:
  assumes "cs = filter (\<lambda>c. since \<le> c_created_at c) (complaints d)"
  shows "complaint_alarm (complaint_stat cs v) \<longleftrightarrow> troubled d since v"
  by (auto simp: complaint_alarm_def troubled_def complaint_stat_recent [OF assms])

text \<open>A vendor the reference reports has rows in the window.\<close>

lemma unhappy_rows: "unhappy d since v \<Longrightarrow> v \<in> r_vendor ` set (filter (\<lambda>r. since \<le> r_created_at r) (ratings d))"
proof -
  assume "unhappy d since v"
  then obtain r where "r \<in> set (recent_ratings d since v)"
    by (cases "recent_ratings d since v") (auto simp: unhappy_def)
  then show ?thesis by (auto simp: recent_ratings_def)
qed

lemma troubled_rows: "troubled d since v \<Longrightarrow> v \<in> c_vendor ` set (filter (\<lambda>c. since \<le> c_created_at c) (complaints d))"
proof -
  assume "troubled d since v"
  then obtain c where "c \<in> set (recent_complaints d since v)"
    by (cases "recent_complaints d since v") (auto simp: troubled_def)
  then show ?thesis by (auto simp: recent_complaints_def)
qed

text \<open>The alerts a scan asks for: one per reported vendor.\<close>

definition rating_inputs :: "env \<Rightarrow> db \<Rightarrow> time \<Rightarrow> int \<Rightarrow> anomaly_input list" where
  "rating_inputs E d since days = (let rs = filter (\<lambda>r. since \<le> r_created_at r) (ratings d) in
     map (rating_anomaly days) (filter rating_alarm (map_order (e_pick E) (map (rating_stat rs) (remdups (map r_vendor rs))))))"

definition complaint_inputs :: "env \<Rightarrow> db \<Rightarrow> time \<Rightarrow> int \<Rightarrow> anomaly_input list" where
  "complaint_inputs E d since days = (let cs = filter (\<lambda>c. since \<le> c_created_at c) (complaints d) in
     map (complaint_anomaly days) (filter complaint_alarm (map_order (e_pick E) (map (complaint_stat cs) (remdups (map c_vendor cs))))))"

lemma distinct_filter_map: "distinct (map f xs) \<Longrightarrow> distinct (map f (filter P xs))"
  by (induction xs) auto

lemma set_reported:
  assumes "\<And>v. P (g v) \<longleftrightarrow> Q v" "\<And>v. Q v \<Longrightarrow> v \<in> set vs"
  shows "set (map f (filter P (map_order p (map g (remdups vs))))) = (\<lambda>v. f (g v)) ` {v. Q v}"
  using assms by (auto simp: map_order_props)

lemma rating_inputs_props:
  shows "distinct (map input_key (rating_inputs E d since days))"
    and "input_key ` set (rating_inputs E d since days) = drop_key ` {v. unhappy d since v}"
    and "unhappy d since v \<Longrightarrow> \<exists>x\<in>set (rating_inputs E d since days). input_key x = drop_key v
      \<and> input_severity x = (if mean_below (recent_ratings d since v) 5 then High else Medium)"
proof -
  let ?rs = "filter (\<lambda>r. since \<le> r_created_at r) (ratings d)"
  let ?sts = "map_order (e_pick E) (map (rating_stat ?rs) (remdups (map r_vendor ?rs)))"
  note st = rating_stat_recent [of ?rs since d, OF refl] and al = rating_alarm_iff [of ?rs since d, OF refl]
  have key: "input_key (rating_anomaly days st) = drop_key (vr_vendor st)" for st
    by (simp add: rating_anomaly_def input_key_def drop_key_def)
  have "distinct (map (drop_key \<circ> vr_vendor) ?sts)"
    unfolding map_order_props(4) by (simp add: comp_def st distinct_map inj_on_def drop_key_def)
  then show "distinct (map input_key (rating_inputs E d since days))"
    by (simp add: rating_inputs_def Let_def comp_def key distinct_filter_map)
  have set: "set (rating_inputs E d since days) = (\<lambda>v. rating_anomaly days (rating_stat ?rs v)) ` {v. unhappy d since v}"
    unfolding rating_inputs_def Let_def
    by (rule set_reported) (use al(1) unhappy_rows [of d since] in auto)
  show "input_key ` set (rating_inputs E d since days) = drop_key ` {v. unhappy d since v}"
    by (simp add: set image_image key st)
  show "\<exists>x\<in>set (rating_inputs E d since days). input_key x = drop_key v
      \<and> input_severity x = (if mean_below (recent_ratings d since v) 5 then High else Medium)" if "unhappy d since v"
    using that by (auto simp: set key st input_severity_def rating_anomaly_def al input_key_def drop_key_def)
qed

lemma complaint_inputs_props:
  shows "distinct (map input_key (complaint_inputs E d since days))"
    and "input_key ` set (complaint_inputs E d since days) = spike_key ` {v. troubled d since v}"
    and "troubled d since v \<Longrightarrow> \<exists>x\<in>set (complaint_inputs E d since days). input_key x = spike_key v
      \<and> input_severity x = (if 10 \<le> length (recent_complaints d since v) then High else Medium)"
proof -
  let ?cs = "filter (\<lambda>c. since \<le> c_created_at c) (complaints d)"
  let ?sts = "map_order (e_pick E) (map (complaint_stat ?cs) (remdups (map c_vendor ?cs)))"
  note st = complaint_stat_recent [of ?cs since d, OF refl] and al = complaint_alarm_iff [of ?cs since d, OF refl]
  have key: "input_key (complaint_anomaly days st) = spike_key (vc_vendor st)" for st
    by (simp add: complaint_anomaly_def input_key_def spike_key_def)
  have "distinct (map (spike_key \<circ> vc_vendor) ?sts)"
    unfolding map_order_props(4) by (simp add: comp_def st distinct_map inj_on_def spike_key_def)
  then show "distinct (map input_key (complaint_inputs E d since days))"
    by (simp add: complaint_inputs_def Let_def comp_def key distinct_filter_map)
  have set: "set (complaint_inputs E d since days) = (\<lambda>v. complaint_anomaly days (complaint_stat ?cs v)) ` {v. troubled d since v}"
    unfolding complaint_inputs_def Let_def
    by (rule set_reported) (use al troubled_rows [of d since] in auto)
  show "input_key ` set (complaint_inputs E d since days) = spike_key ` {v. troubled d since v}"
    by (simp add: set image_image key st)
  show "\<exists>x\<in>set (complaint_inputs E d since days). input_key x = spike_key v
      \<and> input_severity x = (if 10 \<le> length (recent_complaints d since v) then High else Medium)" if "troubled d since v"
    using that by (auto simp: set key st input_severity_def complaint_anomaly_def input_key_def spike_key_def)
qed


section \<open>The scan\<close>

definition scan_since :: "env \<Rightarrow> time \<Rightarrow> time" where
  "scan_since E configured = e_now E - scan_window configured"

definition open_alert :: "db \<Rightarrow> string \<times> string \<times> string \<Rightarrow> severity \<Rightarrow> bool" where
  "open_alert d k sev \<longleftrightarrow> (\<exists>a\<in>set (anomalies d). anomaly_key a = k \<and> an_status a = AnomalyOpen \<and> an_severity a = sev)"

lemma fresh_tick: "fresh_from E w \<Longrightarrow> fresh_from E (w\<lparr>w_tick := Suc (w_tick w)\<rparr>)"
  by (simp add: fresh_from_def)

lemma keys_differ: "drop_key v \<noteq> spike_key u"
  by (simp add: drop_key_def spike_key_def)

lemma rating_inputs_cong:
  "ratings d' = ratings d \<Longrightarrow> complaints d' = complaints d \<Longrightarrow>
     complaint_inputs E d' since days = complaint_inputs E d since days"
  by (simp add: complaint_inputs_def)

lemma alert_of_input:
  assumes "\<forall>x\<in>set xs. \<exists>b\<in>set (anomalies d). alert_for x b" "\<exists>x\<in>set xs. input_key x = k \<and> input_severity x = sev"
  shows "open_alert d k sev"
  using assms by (fastforce simp: open_alert_def alert_for_def open_for_def)

lemma scan_run:
  fixes win :: time
  assumes "anomaly_inv (w_db w)" "fresh_from E w" "\<And>n. e_fault E n = None"
  defines "since \<equiv> scan_since E win" and "days \<equiv> scan_window win div day_ns"
  shows "\<exists>w'. feedback_run_once E win w
      = (Inr (int (length (rating_inputs E (w_db w) since days)) + int (length (complaint_inputs E (w_db w) since days))), w')
    \<and> anomaly_inv (w_db w') \<and> (\<exists>rs. w_db w' = (w_db w)\<lparr>anomalies := rs\<rparr>)
    \<and> set (open_keys (w_db w')) = set (open_keys (w_db w)) \<union> input_key ` set (rating_inputs E (w_db w) since days)
        \<union> input_key ` set (complaint_inputs E (w_db w) since days)
    \<and> (\<forall>x\<in>set (rating_inputs E (w_db w) since days) \<union> set (complaint_inputs E (w_db w) since days).
         \<exists>b\<in>set (anomalies (w_db w')). alert_for x b)"
proof -
  let ?d = "w_db w" and ?w1 = "w\<lparr>w_tick := Suc (w_tick w)\<rparr>"
  let ?rx = "rating_inputs E ?d since days" and ?cx = "complaint_inputs E ?d since days"
  have 1: "aggregate_by_vendor_since E since w = (Inr (map_order (e_pick E) (map (rating_stat (filter (\<lambda>r. since \<le> r_created_at r) (ratings ?d)))
      (remdups (map r_vendor (filter (\<lambda>r. since \<le> r_created_at r) (ratings ?d)))))), ?w1)"
    by (simp add: aggregate_by_vendor_since_def query_ok assms(3) Let_def)
  have "anomaly_inv (w_db ?w1)" using assms(1) by simp
  from open_all_ok [OF this fresh_tick [OF assms(2)] assms(3) rating_inputs_props(1) [of E ?d since days]]
  obtain w2 where 2: "open_all E ?rx ?w1 = (Inr (int (length ?rx)), w2)"
    and R: "anomaly_inv (w_db w2)" "fresh_from E w2" "set (open_keys (w_db w2)) = set (open_keys ?d) \<union> input_key ` set ?rx"
      "\<forall>x\<in>set ?rx. \<exists>b\<in>set (anomalies (w_db w2)). alert_for x b" "\<exists>rs. w_db w2 = ?d\<lparr>anomalies := rs\<rparr>"
    by auto
  let ?w3 = "w2\<lparr>w_tick := Suc (w_tick w2)\<rparr>"
  have same: "ratings (w_db w2) = ratings ?d" "complaints (w_db w2) = complaints ?d" using R(5) by auto
  have 3: "count_by_vendor_since E since w2 = (Inr (map_order (e_pick E) (map (complaint_stat (filter (\<lambda>c. since \<le> c_created_at c) (complaints ?d)))
      (remdups (map c_vendor (filter (\<lambda>c. since \<le> c_created_at c) (complaints ?d)))))), ?w3)"
    by (simp add: count_by_vendor_since_def query_ok assms(3) Let_def same)
  have "anomaly_inv (w_db ?w3)" using R(1) by simp
  from open_all_ok [OF this fresh_tick [OF R(2)] assms(3) complaint_inputs_props(1) [of E ?d since days]]
  obtain w' where 4: "open_all E ?cx ?w3 = (Inr (int (length ?cx)), w')"
    and C: "anomaly_inv (w_db w')" "set (open_keys (w_db w')) = set (open_keys (w_db w2)) \<union> input_key ` set ?cx"
      "\<forall>x\<in>set ?cx. \<exists>b\<in>set (anomalies (w_db w')). alert_for x b"
      "\<forall>b. (\<forall>x\<in>set ?cx. \<not> open_for x b) \<longrightarrow> b \<in> set (anomalies (w_db w2)) \<longleftrightarrow> b \<in> set (anomalies (w_db w'))"
      "\<exists>rs. w_db w' = (w_db w2)\<lparr>anomalies := rs\<rparr>"
    by auto
  have run: "feedback_run_once E win w = (Inr (int (length ?rx) + int (length ?cx)), w')"
    using 1 2 3 4
    by (simp add: feedback_run_once_def Let_def bind_run open_rating_anomalies_def open_complaint_anomalies_def
        rating_inputs_def complaint_inputs_def since_def days_def scan_since_def ret_def)
  have "\<exists>b\<in>set (anomalies (w_db w')). alert_for x b" if "x \<in> set ?rx" for x
  proof -
    from R(4) that obtain b where b: "b \<in> set (anomalies (w_db w2))" "alert_for x b" by blast
    have "\<not> open_for y b" if "y \<in> set ?cx" for y
      using b(2) rating_inputs_props(2) [of E ?d since days] complaint_inputs_props(2) [of E ?d since days]
        \<open>x \<in> set ?rx\<close> that keys_differ unfolding alert_for_def open_for_def by (metis imageE image_eqI)
    with C(4) b show ?thesis by blast
  qed
  moreover have "\<exists>rs. w_db w' = ?d\<lparr>anomalies := rs\<rparr>" using R(5) C(5) by auto
  ultimately show ?thesis using run C(1-3) R(3) by blast
qed

text \<open>C26: While the database answers, a scan leaves exactly the right alerts open: every vendor with at
  least five ratings in the window and a mean below 3.5 has an open satisfaction alert, of high
  severity below 2.5, every vendor with at least five complaints an open complaint alert, of high
  severity from ten on, no other alert is opened, there is never more than one open alert per
  vendor and kind, and nothing else in the database changes.\<close>

theorem scan_reports_vendors:
  assumes "anomaly_inv (w_db w)" "fresh_from E w" "\<And>n. e_fault E n = None"
  shows "\<exists>n w'. feedback_run_once E win w = (Inr n, w') \<and> anomaly_inv (w_db w')
    \<and> set (open_keys (w_db w')) = set (open_keys (w_db w)) \<union> drop_key ` {v. unhappy (w_db w) (scan_since E win) v}
        \<union> spike_key ` {v. troubled (w_db w) (scan_since E win) v}
    \<and> (\<forall>v. unhappy (w_db w) (scan_since E win) v \<longrightarrow> open_alert (w_db w') (drop_key v)
        (if mean_below (recent_ratings (w_db w) (scan_since E win) v) 5 then High else Medium))
    \<and> (\<forall>v. troubled (w_db w) (scan_since E win) v \<longrightarrow> open_alert (w_db w') (spike_key v)
        (if 10 \<le> length (recent_complaints (w_db w) (scan_since E win) v) then High else Medium))
    \<and> (\<exists>rs. w_db w' = (w_db w)\<lparr>anomalies := rs\<rparr>)"
proof -
  let ?since = "scan_since E win" and ?days = "scan_window win div day_ns"
  let ?rx = "rating_inputs E (w_db w) ?since ?days" and ?cx = "complaint_inputs E (w_db w) ?since ?days"
  from scan_run [OF assms] obtain w' where w': "feedback_run_once E win w = (Inr (int (length ?rx) + int (length ?cx)), w')"
    and inv: "anomaly_inv (w_db w')" and fr: "\<exists>rs. w_db w' = (w_db w)\<lparr>anomalies := rs\<rparr>"
    and keys: "set (open_keys (w_db w')) = set (open_keys (w_db w)) \<union> input_key ` set ?rx \<union> input_key ` set ?cx"
    and al: "\<forall>x\<in>set ?rx \<union> set ?cx. \<exists>b\<in>set (anomalies (w_db w')). alert_for x b" by blast
  have "open_alert (w_db w') (drop_key v) (if mean_below (recent_ratings (w_db w) ?since v) 5 then High else Medium)"
    if "unhappy (w_db w) ?since v" for v
    by (rule alert_of_input [of ?rx]) (use al rating_inputs_props(3) [OF that] in blast)+
  moreover have "open_alert (w_db w') (spike_key v) (if 10 \<le> length (recent_complaints (w_db w) ?since v) then High else Medium)"
    if "troubled (w_db w) ?since v" for v
    by (rule alert_of_input [of ?cx]) (use al complaint_inputs_props(3) [OF that] in blast)+
  ultimately show ?thesis
    using w' inv fr keys rating_inputs_props(2) [of E "w_db w" ?since ?days] complaint_inputs_props(2) [of E "w_db w" ?since ?days]
    by (intro exI [of _ "int (length ?rx) + int (length ?cx)"] exI [of _ w'] conjI) simp_all
qed

definition scan0 :: world where
  "scan0 = world0\<lparr>w_db := db0\<lparr>ratings := map (\<lambda>i. \<lparr>r_id = i, r_order = i, r_user = ''emp'', r_vendor = ''v1'', r_score = 2,
     r_comment = '''', r_created_at = now0\<rparr>) [''a'', ''b'', ''c'', ''d'', ''e'']\<rparr>\<rparr>"

lemma env0_uuids: "inj (e_uuid env0)"
  by (rule injI) (metis env0_def env.select_convs(5) length_replicate)

theorem scan_reports_vendors_witness:
  "\<exists>n w'. feedback_run_once env0 0 scan0 = (Inr n, w') \<and> open_alert (w_db w') (''satisfaction_drop'', ''vendor'', ''v1'') High"
proof -
  have inv: "anomaly_inv (w_db scan0)" "fresh_from env0 scan0" and nf: "\<And>n. e_fault env0 n = None"
    using env0_uuids by (simp_all add: scan0_def scenario_defs anomaly_inv_def open_keys_def fresh_from_def)
  have r: "recent_ratings (w_db scan0) (scan_since env0 0) ''v1'' = ratings (w_db scan0)"
    by (simp add: scan0_def recent_ratings_def scan_since_def scan_window_def scenario_defs now0_def day_ns_def
        hour_ns_def sec_ns_def)
  have "unhappy (w_db scan0) (scan_since env0 0) ''v1''" "mean_below (ratings (w_db scan0)) 5"
    unfolding unhappy_def r by (simp_all add: scan0_def mean_below_def)
  with scan_reports_vendors [OF inv nf, of 0] show ?thesis by (auto simp: r drop_key_def)
qed

end
