(* ===== verification/Doc_Scan_Props.thy ===== *)
theory Doc_Scan_Props
  imports Doc_Scanner Feedback_Scan
begin

text \<open>
  What a scan for expired documents does, over the tables: the two passes as loops that open
  alerts (with the lemmas on lists of alerts of theory \<open>Feedback_Scan\<close>), and the property of the
  whole scan.
\<close>

section \<open>The statements on documents\<close>

definition but_register :: "db \<Rightarrow> db" where
  "but_register d = d\<lparr>documents := [], anomalies := []\<rparr>"

lemma but_register_update [simp]:
  "but_register (d\<lparr>documents := ds\<rparr>) = but_register d" "but_register (d\<lparr>anomalies := as\<rparr>) = but_register d"
  "but_register (documents_update f d) = but_register d"
  by (simp_all add: but_register_def)

lemma reviewed_simps [simp]:
  "dc_id (reviewed E st by n x) = dc_id x" "dc_status (reviewed E st by n x) = st"
  "dc_vendor (reviewed E st by n x) = dc_vendor x" "dc_expires (reviewed E st by n x) = dc_expires x"
  "reviewed E st by n (reviewed E st by n x) = reviewed E st by n x"
  by (simp_all add: reviewed_def)

text \<open>A document after its expiry: no reviewer, the scanner's note, and the time of the database.\<close>

definition auto_expired :: "env \<Rightarrow> document \<Rightarrow> document" where
  "auto_expired E x = x\<lparr>dc_status := DocExpired, dc_reviewed_by := None, dc_reviewed_at := Some (e_dbnow E),
     dc_notes := ''auto-expired by scanner'', dc_updated_at := e_dbnow E\<rparr>"

lemma auto_expired_row: "auto_expired E = reviewed E DocExpired None ''auto-expired by scanner''"
  by (simp add: fun_eq_iff auto_expired_def reviewed_def)

lemma auto_expired_simps [simp]:
  "dc_id (auto_expired E x) = dc_id x" "auto_expired E (auto_expired E x) = auto_expired E x"
  by (simp_all add: auto_expired_row)


interpretation document_tbl: table documents documents_update dc_id by unfold_locales simp

lemma document_update_status_ok:
  assumes "document_update_status E i st by n w = (Inr (), w')"
  shows "w_db w' = documents_update (sql_update (\<lambda>x. dc_id x = i) (reviewed E st by n)) (w_db w)"
    "i \<in> dc_id ` set (documents (w_db w))"
  using update_rows_ok(1,2) [OF assms [unfolded document_update_status_def]] by auto


section \<open>The first pass\<close>




section \<open>The second pass\<close>








section \<open>The scan\<close>

text \<open>
  What a scan looks for: approved documents whose day of expiry is over, and those whose day has not
  begun and begins within the window, 14 days unless configured. On the day itself a document is neither.
\<close>

definition past_due :: "env \<Rightarrow> document \<Rightarrow> bool" where
  "past_due E x \<longleftrightarrow> dc_status x = DocApproved \<and> (\<exists>e. dc_expires x = Some e \<and> midnight_utc (e + 1) \<le> e_now E)"

definition due_soon :: "env \<Rightarrow> int \<Rightarrow> document \<Rightarrow> date \<Rightarrow> bool" where
  "due_soon E configured x e \<longleftrightarrow> dc_status x = DocApproved \<and> dc_expires x = Some e \<and> e_now E < midnight_utc e
     \<and> midnight_utc e \<le> e_now E + (if configured \<le> 0 then 14 else configured) * day_ns"


lemma days_bound: "(n \<le> t div day_ns) = (n * day_ns \<le> t)" "(t div day_ns \<le> n) = (t < (n + 1) * day_ns)"
proof -
  have le: "(m \<le> t div day_ns) = (m * day_ns \<le> t)" for m
  proof
    assume "m \<le> t div day_ns"
    then have "m * day_ns \<le> t div day_ns * day_ns" by (rule mult_right_mono) simp
    also have "\<dots> \<le> t" using div_mult_mod_eq [of t day_ns] pos_mod_sign [OF day_ns_pos(1), of t] by linarith
    finally show "m * day_ns \<le> t" .
  next
    assume "m * day_ns \<le> t"
    from zdiv_mono1 [OF this, of day_ns] show "m \<le> t div day_ns" by simp
  qed
  show "(n \<le> t div day_ns) = (n * day_ns \<le> t)" by (rule le)
  show "(t div day_ns \<le> n) = (t < (n + 1) * day_ns)" using le [of "n + 1"] by linarith
qed


lemma past_due_fun: "past_due E = approved_until (\<lambda>e. e < utc_day (e_now E))"
proof -
  have "midnight_utc (e + 1) \<le> e_now E \<longleftrightarrow> e < utc_day (e_now E)" for e
    using days_bound(1) [of "e + 1" "e_now E"] by (auto simp: midnight_utc_def utc_day_def)
  then show ?thesis by (auto simp: fun_eq_iff past_due_def approved_until_def split: option.splits)
qed

lemma due_soon_window: "due_soon E configured x e \<longleftrightarrow> dc_status x = DocApproved \<and> dc_expires x = Some e
    \<and> e_now E < midnight_utc e \<and> e \<le> utc_day (e_now E + days_window configured * day_ns)"
  by (simp only: due_soon_def utc_day_def midnight_utc_def days_bound days_window_def)




definition permit :: "uuid \<Rightarrow> date \<Rightarrow> document" where
  "permit i e = \<lparr>dc_id = i, dc_vendor = ''v1'', dc_kind = FoodSafetyPermit, dc_uri = ''s3://b/k'', dc_filename = ''p.pdf'',
     dc_uploaded_by = None, dc_expires = Some e, dc_status = DocApproved, dc_reviewed_by = None, dc_reviewed_at = None,
     dc_notes = '''', dc_supersedes = None, dc_created_at = 0, dc_updated_at = 0\<rparr>"




text \<open>
  On the day it expires a document is in neither pass: it is not yet past its date, and its midnight is over. The
  vendor's own view, which compares the same midnight with the clock, already calls it expired.
\<close>

theorem expiry_day_gap:
  "\<not> past_due env0 (permit i 20458)" "\<not> due_soon env0 cfg (permit i 20458) e"
  "map wn_kind (doc_warnings (e_now env0) (permit i 20458)) = [DocumentExpired]"
  by (auto simp: past_due_fun due_soon_window approved_until_def permit_def doc_warnings_def env0_def utc_day_def
      midnight_utc_def day_ns_def hour_ns_def sec_ns_def)

end
