(* ===== verification/On_Time.thy ===== *)
theory On_Time
  imports Anomalies
begin

text \<open>
  The on-time evaluator, \<open>compliance/evaluator/ontime_rate.go\<close>: it keeps, per vendor and in
  memory, the pickups and no-shows of the last window, and opens an alert when the share of
  pickups falls below a threshold. The rate is the exact quotient the code rounds to a
  \<open>float64\<close>, thresholds are given in thousandths. \<open>None\<close> is data that does not decode.
\<close>

record on_time_event =
  oe_at :: time
  oe_picked_up :: bool

record on_time_config =
  oc_window :: time
  oc_threshold :: int
  oc_high :: int
  oc_min :: int

definition apply_defaults :: "on_time_config \<Rightarrow> on_time_config" where
  "apply_defaults c = \<lparr>oc_window = (if oc_window c \<le> 0 then 7 * day_ns else oc_window c),
     oc_threshold = (if oc_threshold c = 0 then 950 else oc_threshold c),
     oc_high = (if oc_high c = 0 then 900 else oc_high c),
     oc_min = (if oc_min c = 0 then 10 else oc_min c)\<rparr>"

record on_time =
  ot_world :: world
  ot_data :: "(uuid \<times> on_time_event list) list"

definition window_of :: "on_time \<Rightarrow> uuid \<Rightarrow> on_time_event list" where
  "window_of s v = (case map_of (ot_data s) v of None \<Rightarrow> [] | Some es \<Rightarrow> es)"

definition event_vendor :: "payload option \<Rightarrow> string option" where
  "event_vendor data = (case data of None \<Rightarrow> None
   | Some pl \<Rightarrow> (case map_of pl ''vendor_id'' of None \<Rightarrow> Some '''' | Some JNull \<Rightarrow> Some '''' | Some (JStr v) \<Rightarrow> Some v
       | Some _ \<Rightarrow> None))"

text \<open>The events that stay in the window once one more has arrived.\<close>

definition push_event :: "time \<Rightarrow> time \<Rightarrow> bool \<Rightarrow> on_time_event list \<Rightarrow> on_time_event list" where
  "push_event window now pickedUp es =
     filter (\<lambda>e. now - window < oe_at e) (es @ [\<lparr>oe_at = now, oe_picked_up = pickedUp\<rparr>])"

definition picked_count :: "on_time_event list \<Rightarrow> int" where
  "picked_count es = int (length (filter oe_picked_up es))"

text \<open>\<open>picked / n < t / 1000\<close>.\<close>

definition rate_below :: "int \<Rightarrow> on_time_event list \<Rightarrow> bool" where
  "rate_below t es \<longleftrightarrow> 1000 * picked_count es < t * int (length es)"

definition on_time_anomaly :: "on_time_config \<Rightarrow> uuid \<Rightarrow> on_time_event list \<Rightarrow> anomaly_input" where
  "on_time_anomaly c v es = \<lparr>ai_kind = ''on_time_rate_drop'', ai_target_kind = ''vendor'', ai_target = v,
     ai_severity = Some (if rate_below (oc_high c) es then High else Medium),
     ai_payload = [(''rate'', JFrac (picked_count es) (int (length es))), (''total'', JInt (int (length es))),
       (''picked_up'', JInt (picked_count es)), (''window_hours'', JFrac (oc_window c) hour_ns)],
     ai_evidence = []\<rparr>"

definition on_time_handle ::
    "env \<Rightarrow> on_time_config \<Rightarrow> string \<Rightarrow> payload option \<Rightarrow> on_time \<Rightarrow> (err + unit) \<times> on_time" where
  "on_time_handle E c subject data s =
     (case event_vendor data of
        None \<Rightarrow> (Inl (ComplianceErr ErrDecodePayload), s)
      | Some v \<Rightarrow>
          if v = '''' then (Inr (), s)
          else let es = push_event (oc_window c) (e_now E) (subject = ''order.picked_up.v1'') (window_of s v);
                 s1 = s\<lparr>ot_data := AList.update v es (ot_data s)\<rparr> in
            if int (length es) < oc_min c then (Inr (), s1)
            else if \<not> rate_below (oc_threshold c) es then (Inr (), s1)
            else (case anomaly_open E (on_time_anomaly c v es) (ot_world s1) of
                (Inl e, w1) \<Rightarrow> (Inl e, s1\<lparr>ot_world := w1\<rparr>)
              | (Inr _, w1) \<Rightarrow> (Inr (), s1\<lparr>ot_world := w1\<rparr>)))"

end
