(* ===== verification/On_Time_Props.thy ===== *)
theory On_Time_Props
  imports On_Time Feedback_Scan
begin

text \<open>
  The on-time evaluator against a reference that keeps every event ever received: after any
  sequence of deliveries the window in memory is the recent part of that history, and an alert is
  opened exactly when the recent part says so.
\<close>

section \<open>A run of deliveries\<close>










section \<open>One delivery\<close>


lemma window_of_world [simp]: "window_of (s\<lparr>ot_world := w\<rparr>) u = window_of s u"
  by (simp add: window_of_def)




section \<open>The property\<close>









end
