(* ===== verification/Reorder.thy ===== *)
theory Reorder
  imports Order_Service
begin

text \<open>
  Cloning an earlier order for another day, \<open>order/reorder_service.go\<close>, with the adapters of
  \<open>cmd/tbite/p9_adapters.go\<close> that feed it menu items and supplies. Items are classified
  outside the transaction; the survivors are placed in one.
\<close>

record reorder_menu_item =
  rm_id :: uuid
  rm_name :: string
  rm_price :: int
  rm_archived :: bool

record reorder_supply =
  rsu_remain :: int
  rsu_cutoff_at :: time

datatype reorder_reason = NoSupply | CutoffPassed | OutOfQuota | Archived

record unavailable_item =
  ui_item :: uuid
  ui_name :: string
  ui_reason :: reorder_reason

record reorder_candidate =
  rc_item :: reorder_menu_item
  rc_qty :: int
  rc_price :: int

text \<open>The target day is what \<open>time.Parse\<close> made of the text, if it could.\<close>

record reorder_input =
  ri_user :: uuid
  ri_source :: uuid
  ri_date :: "date option"
  ri_plant :: string

record reorder_result =
  rr_new_order :: uuid
  rr_unavailable :: "unavailable_item list"

text \<open>\<open>p9ItemRepoAdapter.GetByID\<close> and \<open>p9SupplyRepoAdapter.Get\<close>: absent is \<open>None\<close>.\<close>

definition reorder_item_get :: "env \<Rightarrow> uuid \<Rightarrow> reorder_menu_item option io" where
  "reorder_item_get E i =
     bind (attempt (item_get_by_id E i)) (\<lambda>r. case r of
       Inl e \<Rightarrow> if e = MenuErr ErrItemNotFound then ret None else fail e
     | Inr m \<Rightarrow> ret (Some \<lparr>rm_id = m_id m, rm_name = m_name m, rm_price = m_price m,
         rm_archived = (m_status m = ItemArchived \<or> m_archived_at m \<noteq> None)\<rparr>))"

definition reorder_supply_get :: "env \<Rightarrow> uuid \<Rightarrow> date \<Rightarrow> reorder_supply option io" where
  "reorder_supply_get E i dt =
     bind (attempt (supply_get E i dt)) (\<lambda>r. case r of
       Inl e \<Rightarrow> if e = QuotaErr ErrSupplyNotFound then ret None else fail e
     | Inr s \<Rightarrow> ret (Some \<lparr>rsu_remain = s_remain s, rsu_cutoff_at = s_cutoff_at s\<rparr>))"

definition validate_reorder_request :: "env \<Rightarrow> reorder_input \<Rightarrow> order io" where
  "validate_reorder_request E inp =
     bind (order_get_by_id E (ri_source inp)) (\<lambda>src.
       if o_user src \<noteq> ri_user inp then fail (OrderErr ErrForbidden)
       else bind (plants_list_by_vendor E (o_vendor src)) (\<lambda>plants.
         if \<not> list_ex (\<lambda>p. pm_plant p = ri_plant inp) plants
         then fail (OrderErr ErrVendorPlantMismatch)
         else ret src))"

definition classify_one ::
    "env \<Rightarrow> item \<Rightarrow> date \<Rightarrow> time \<Rightarrow> (unavailable_item + reorder_candidate) io" where
  "classify_one E it day now =
     bind (reorder_item_get E (i_menu_item it)) (\<lambda>mo. case mo of
       None \<Rightarrow> ret (Inl \<lparr>ui_item = i_menu_item it, ui_name = '''', ui_reason = Archived\<rparr>)
     | Some mi \<Rightarrow>
         if rm_archived mi then ret (Inl \<lparr>ui_item = rm_id mi, ui_name = rm_name mi, ui_reason = Archived\<rparr>)
         else bind (reorder_supply_get E (rm_id mi) day) (\<lambda>so. case so of
           None \<Rightarrow> ret (Inl \<lparr>ui_item = rm_id mi, ui_name = rm_name mi, ui_reason = NoSupply\<rparr>)
         | Some sp \<Rightarrow>
             if rsu_cutoff_at sp \<le> now
             then ret (Inl \<lparr>ui_item = rm_id mi, ui_name = rm_name mi, ui_reason = CutoffPassed\<rparr>)
             else if rsu_remain sp < i_qty it
             then ret (Inl \<lparr>ui_item = rm_id mi, ui_name = rm_name mi, ui_reason = OutOfQuota\<rparr>)
             else ret (Inr \<lparr>rc_item = mi, rc_qty = i_qty it, rc_price = rm_price mi\<rparr>)))"

fun classify_reorder_items ::
    "env \<Rightarrow> item list \<Rightarrow> date \<Rightarrow> time \<Rightarrow> (reorder_candidate list \<times> unavailable_item list) io" where
  "classify_reorder_items E [] day now = ret ([], [])"
| "classify_reorder_items E (it # its) day now =
     bind (classify_one E it day now) (\<lambda>c.
     bind (classify_reorder_items E its day now) (\<lambda>(cs, us).
     case c of Inl u \<Rightarrow> ret (cs, u # us) | Inr x \<Rightarrow> ret (x # cs, us)))"

definition candidate_item :: "reorder_candidate \<Rightarrow> item" where
  "candidate_item c = new_item (rm_id (rc_item c)) (rc_qty c) (rc_price c)"

definition build_reorder_order ::
    "env \<Rightarrow> reorder_input \<Rightarrow> order \<Rightarrow> date \<Rightarrow> time \<Rightarrow> reorder_candidate list \<Rightarrow> order io" where
  "build_reorder_order E inp src day now cs =
     (let tot = fold (\<lambda>c t. i64 (t + i64 (rc_price c * rc_qty c))) cs 0 in
      bind (vendor_get_by_id E (o_vendor src)) (\<lambda>v.
        ret (new_order (ri_user inp) (o_vendor src) (ri_plant inp) day tot '''' now
               (cutoff_of E day v) (map candidate_item cs))))"

definition reorder_body :: "env \<Rightarrow> reorder_input \<Rightarrow> uuid \<Rightarrow> order \<Rightarrow> date \<Rightarrow> order io" where
  "reorder_body E inp src x day = create_body E day x
     (\<lambda>y. new_event (o_id y) None Placed (Some (ri_user inp)) (Some Employee) ''reorder''
            [(''source_order_id'', JStr src)])
     (\<lambda>y. build_order_payload y @ [(''source_order_id'', JStr src)]) ''order.reorder''"

definition persist_reorder_tx :: "env \<Rightarrow> reorder_input \<Rightarrow> uuid \<Rightarrow> order \<Rightarrow> date \<Rightarrow> order io" where
  "persist_reorder_tx E inp src x day = begin_func E (\<lambda>_. reorder_body E inp src x day)"

definition reorder :: "env \<Rightarrow> reorder_input \<Rightarrow> reorder_result io" where
  "reorder E inp = (case ri_date inp of
     None \<Rightarrow> fail (OrderErr ErrInvalidSupplyDate)
   | Some day \<Rightarrow>
       bind (validate_reorder_request E inp) (\<lambda>src.
       bind (classify_reorder_items E (o_items src) day (e_now E)) (\<lambda>(survivors, unavailable).
         if survivors = [] then ret \<lparr>rr_new_order = '''', rr_unavailable = unavailable\<rparr>
         else bind (build_reorder_order E inp src day (e_now E) survivors) (\<lambda>x.
              bind (persist_reorder_tx E inp (o_id src) x day) (\<lambda>y.
              ret \<lparr>rr_new_order = o_id y, rr_unavailable = unavailable\<rparr>)))))"

lemmas reorder_runs [run_simps] = fun_cong [OF reorder_item_get_def] fun_cong [OF reorder_supply_get_def]
  fun_cong [OF validate_reorder_request_def] fun_cong [OF classify_one_def]
  fun_cong [OF classify_reorder_items.simps(1)] fun_cong [OF classify_reorder_items.simps(2)]
  fun_cong [OF build_reorder_order_def] fun_cong [OF reorder_body_def] fun_cong [OF persist_reorder_tx_def]
  fun_cong [OF reorder_def] candidate_item_def

section \<open>Classification\<close>

text \<open>What becomes of a line of the source order, as a function of the database alone.\<close>

definition fate :: "db \<Rightarrow> date \<Rightarrow> time \<Rightarrow> item \<Rightarrow> reorder_reason option" where
  "fate d day now it =
     (case by_key m_id (i_menu_item it) (menu_items d) of
        None \<Rightarrow> Some Archived
      | Some m \<Rightarrow>
          if m_status m = ItemArchived \<or> m_archived_at m \<noteq> None then Some Archived
          else (case by_key skey (i_menu_item it, day) (supplies d) of
             None \<Rightarrow> Some NoSupply
           | Some s \<Rightarrow>
               if s_cutoff_at s \<le> now then Some CutoffPassed
               else if s_remain s < i_qty it then Some OutOfQuota
               else None))"

lemma ro_reorder_reads [ro_intros]:
  "ro (reorder_item_get E i)" "ro (reorder_supply_get E i dt)" "ro (validate_reorder_request E inp)"
  "ro (classify_one E it day now)" "ro (classify_reorder_items E its day now)"
  "ro (build_reorder_order E inp src day now cs)"
proof -
  show i: "ro (reorder_item_get E i)" for i
    by (auto simp: reorder_item_get_def intro!: ro_intros split: sum.splits)
  show s: "ro (reorder_supply_get E i dt)" for i dt
    by (auto simp: reorder_supply_get_def intro!: ro_intros split: sum.splits)
  show "ro (validate_reorder_request E inp)"
    by (auto simp: validate_reorder_request_def intro!: ro_intros)
  show c: "ro (classify_one E it day now)" for it
    by (auto simp: classify_one_def intro!: ro_intros i s)
  show "ro (classify_reorder_items E its day now)"
    by (induction its) (auto intro!: ro_intros c)
  show "ro (build_reorder_order E inp src day now cs)"
    by (auto simp: build_reorder_order_def Let_def intro!: ro_intros)
qed

lemma item_get_result:
  "item_get_by_id E i w = (r, w') \<Longrightarrow> w_db w' = w_db w \<and>
     (case r of Inr m \<Rightarrow> by_key m_id i (menu_items (w_db w)) = Some m \<and> m_id m = i
      | Inl e \<Rightarrow> e = MenuErr ErrItemNotFound \<longrightarrow> by_key m_id i (menu_items (w_db w)) = None)"
  by (cases r)
    (auto simp: item_get_by_id_def io_simps query_err dest: roD [OF ro_query] by_key_SomeD split: option.splits)

lemma classify_one_ok:
  assumes "classify_one E it day now w = (Inr c, w')"
  shows "w_db w' = w_db w"
    and "case c of Inl u \<Rightarrow> fate (w_db w) day now it = Some (ui_reason u) \<and> ui_item u = i_menu_item it
         | Inr x \<Rightarrow> fate (w_db w) day now it = None
             \<and> line (candidate_item x) = (i_menu_item it, i_qty it, menu_price (w_db w) (i_menu_item it))"
proof -
  show "w_db w' = w_db w" using roD [OF ro_reorder_reads(4) assms] .
  from assms obtain r w1 where 1: "item_get_by_id E (i_menu_item it) w = (r, w1)"
    by (cases "item_get_by_id E (i_menu_item it) w") auto
  note M = item_get_result [OF 1]
  show "case c of Inl u \<Rightarrow> fate (w_db w) day now it = Some (ui_reason u) \<and> ui_item u = i_menu_item it
         | Inr x \<Rightarrow> fate (w_db w) day now it = None
             \<and> line (candidate_item x) = (i_menu_item it, i_qty it, menu_price (w_db w) (i_menu_item it))"
  proof (cases r)
    case (Inl e)
    with assms 1 M show ?thesis
      by (auto simp: classify_one_def reorder_item_get_def bind_run attempt_def fate_def ret_def fail_def
          split: if_splits)
  next
    case (Inr m)
    obtain s w2 where 2: "supply_get E (i_menu_item it) day w1 = (s, w2)"
      by (cases "supply_get E (i_menu_item it) day w1") auto
    note S = supply_get_ok [OF 2]
    have m: "by_key m_id (i_menu_item it) (menu_items (w_db w)) = Some m" "m_id m = i_menu_item it" "w_db w1 = w_db w"
      using M Inr by auto
    show ?thesis
    proof (cases "m_status m = ItemArchived \<or> m_archived_at m \<noteq> None")
      case True
      with assms 1 Inr m show ?thesis
        by (auto simp: classify_one_def reorder_item_get_def bind_run attempt_def fate_def ret_def)
    next
      case False
      show ?thesis
      proof (cases s)
        case (Inl e)
        with assms 1 2 Inr m False S show ?thesis
          by (auto simp: classify_one_def reorder_item_get_def reorder_supply_get_def bind_run attempt_def
              fate_def ret_def fail_def split: if_splits)
      next
        case (Inr sp)
        with assms 1 2 \<open>r = Inr m\<close> m False S show ?thesis
          by (auto simp: classify_one_def reorder_item_get_def reorder_supply_get_def bind_run attempt_def
              fate_def ret_def candidate_item_def menu_price_def split: if_splits)
      qed
    qed
  qed
qed

lemma ret_ok_case:
  "(case c of Inl u \<Rightarrow> ret (f u) | Inr x \<Rightarrow> ret (g x)) w = (Inr r, w') \<longleftrightarrow>
     w' = w \<and> (case c of Inl u \<Rightarrow> r = f u | Inr x \<Rightarrow> r = g x)"
  by (cases c) (auto simp: ret_def)

lemma classify_ok:
  assumes "classify_reorder_items E its day now w = (Inr (cs, us), w')"
  shows "w_db w' = w_db w
    \<and> map (line \<circ> candidate_item) cs
        = map (\<lambda>it. (i_menu_item it, i_qty it, menu_price (w_db w) (i_menu_item it)))
            (filter (\<lambda>it. fate (w_db w) day now it = None) its)
    \<and> map (\<lambda>u. (ui_item u, Some (ui_reason u))) us
        = map (\<lambda>it. (i_menu_item it, fate (w_db w) day now it))
            (filter (\<lambda>it. fate (w_db w) day now it \<noteq> None) its)"
  using assms
proof (induction its arbitrary: cs us w)
  case Nil
  then show ?case by (auto simp: io_simps)
next
  case (Cons it its)
  from Cons.prems obtain c w1 cs' us' w2 where 1: "classify_one E it day now w = (Inr c, w1)"
    and 2: "classify_reorder_items E its day now w1 = (Inr (cs', us'), w2)"
    and 3: "(case c of Inl u \<Rightarrow> ret (cs', u # us') | Inr x \<Rightarrow> ret (x # cs', us')) w2 = (Inr (cs, us), w')"
    by (auto simp: bind_ok)
  from 3 have r: "case c of Inl u \<Rightarrow> cs = cs' \<and> us = u # us' | Inr x \<Rightarrow> cs = x # cs' \<and> us = us'" "w' = w2"
    by (auto simp: ret_ok_case split: sum.splits)
  have 2: "classify_reorder_items E its day now w1 = (Inr (cs', us'), w')" using 2 r(2) by simp
  note C = classify_one_ok [OF 1]
  from Cons.IH [OF 2] C r(1) show ?case by (cases c) auto
qed

section \<open>Runs\<close>

lemma fold_total:
  "in_i64 t \<Longrightarrow> fold (\<lambda>c t. i64 (t + i64 (rc_price c * rc_qty c))) cs t
     = i64 (t + lines_total (map (line \<circ> candidate_item) cs))"
proof (induction cs arbitrary: t)
  case Nil
  then show ?case by (simp add: lines_total_def i64_id)
next
  case (Cons c cs)
  then show ?case
    by (simp add: lines_total_def candidate_item_def i64_range i64_absorb algebra_simps)
qed

lemma reorder_run:
  assumes "reorder E inp w = (Inr rr, w')"
  obtains day r where "ri_date inp = Some day" "by_key o_id (ri_source inp) (orders (w_db w)) = Some r"
      "o_user r = ri_user inp" "serves (w_db w) (o_vendor r) (ri_plant inp)"
      "map (\<lambda>u. (ui_item u, Some (ui_reason u))) (rr_unavailable rr)
        = map (\<lambda>it. (i_menu_item it, fate (w_db w) day (e_now E) it))
            (filter (\<lambda>it. fate (w_db w) day (e_now E) it \<noteq> None) (items_of (w_db w) (ri_source inp)))"
      "(filter (\<lambda>it. fate (w_db w) day (e_now E) it = None) (items_of (w_db w) (ri_source inp)) = []
          \<and> rr_new_order rr = '''' \<and> w_db w' = w_db w)
       \<or> (\<exists>x vd v v' y. filter (\<lambda>it. fate (w_db w) day (e_now E) it = None) (items_of (w_db w) (ri_source inp)) \<noteq> []
          \<and> by_key v_id (o_vendor r) (vendors (w_db w)) = Some vd
          \<and> x = new_order (ri_user inp) (o_vendor r) (ri_plant inp) day (o_total x) '''' (e_now E)
                  (cutoff_of E day vd) (o_items x)
          \<and> o_total x = i64 (lines_total (map line (o_items x)))
          \<and> map line (o_items x) = map (\<lambda>it. (i_menu_item it, i_qty it, menu_price (w_db w) (i_menu_item it)))
              (filter (\<lambda>it. fate (w_db w) day (e_now E) it = None) (items_of (w_db w) (ri_source inp)))
          \<and> w_db v = w_db w \<and> reorder_body E inp (ri_source inp) x day v = (Inr y, v')
          \<and> w_db w' = w_db v' \<and> rr_new_order rr = o_id y)"
proof -
  from assms obtain day src w1 cs us w2 where day: "ri_date inp = Some day"
    and 1: "validate_reorder_request E inp w = (Inr src, w1)"
    and 2: "classify_reorder_items E (o_items src) day (e_now E) w1 = (Inr (cs, us), w2)"
    and 3: "(if cs = [] then ret \<lparr>rr_new_order = '''', rr_unavailable = us\<rparr>
         else bind (build_reorder_order E inp src day (e_now E) cs) (\<lambda>x.
              bind (persist_reorder_tx E inp (o_id src) x day) (\<lambda>y.
              ret \<lparr>rr_new_order = o_id y, rr_unavailable = us\<rparr>))) w2 = (Inr rr, w')"
    by (auto simp: reorder_def bind_ok fail_def split: option.splits)
  from 1 obtain wa ps where a: "order_get_by_id E (ri_source inp) w = (Inr src, wa)"
    and u: "o_user src = ri_user inp" and b: "plants_list_by_vendor E (o_vendor src) wa = (Inr ps, w1)"
    and s: "list_ex (\<lambda>p. pm_plant p = ri_plant inp) ps"
    unfolding validate_reorder_request_def bind_ok guard_ok by (auto simp: ret_def)
  from order_get_ok [OF a] obtain r where r: "by_key o_id (ri_source inp) (orders (w_db w)) = Some r"
    "src = with_items r (items_of (w_db w) (ri_source inp))" "o_id r = ri_source inp" "w_db wa = w_db w" by blast
  note P = plants_list_ok [OF b] and C = classify_ok [OF 2]
  have w1: "w_db w1 = w_db w" "w_db w2 = w_db w" using P C r(4) by simp_all
  have serves: "serves (w_db w) (o_vendor r) (ri_plant inp)"
    using P s r(2,4) by (auto simp: serves_def list_ex_iff)
  let ?ok = "filter (\<lambda>it. fate (w_db w) day (e_now E) it = None) (items_of (w_db w) (ri_source inp))"
  have cs: "map (line \<circ> candidate_item) cs
      = map (\<lambda>it. (i_menu_item it, i_qty it, menu_price (w_db w) (i_menu_item it))) ?ok"
    using C w1 r(2) by simp
  have us: "map (\<lambda>u. (ui_item u, Some (ui_reason u))) us
        = map (\<lambda>it. (i_menu_item it, fate (w_db w) day (e_now E) it))
            (filter (\<lambda>it. fate (w_db w) day (e_now E) it \<noteq> None) (items_of (w_db w) (ri_source inp)))"
    using C w1 r(2) by simp
  have csok: "cs = [] \<longleftrightarrow> ?ok = []" using arg_cong [OF cs, of "\<lambda>l. l = []"] by simp
  show thesis
  proof (cases "cs = []")
    case True
    with 3 have "rr = \<lparr>rr_new_order = '''', rr_unavailable = us\<rparr>" "w' = w2" by (auto simp: ret_def)
    then show ?thesis
      using True csok us w1 r(2) u by (intro that [OF day r(1) _ serves]) simp_all
  next
    case False
    with 3 obtain x wb y where bx: "build_reorder_order E inp src day (e_now E) cs w2 = (Inr x, wb)"
      and px: "begin_func E (\<lambda>_. reorder_body E inp (o_id src) x day) wb = (Inr y, w')"
      and rr: "rr = \<lparr>rr_new_order = o_id y, rr_unavailable = us\<rparr>"
      by (auto simp: io_simps persist_reorder_tx_def)
    from bx obtain vd where vd: "by_key v_id (o_vendor r) (vendors (w_db w)) = Some vd" "w_db wb = w_db w"
      and x: "x = new_order (ri_user inp) (o_vendor src) (ri_plant inp) day
          (fold (\<lambda>c t. i64 (t + i64 (rc_price c * rc_qty c))) cs 0) '''' (e_now E)
               (cutoff_of E day vd) (map candidate_item cs)"
      using w1 r(2) by (auto simp: build_reorder_order_def Let_def io_simps dest!: vendor_get_ok)
    from begin_func_run [OF px] obtain v v' where v: "w_db v = w_db wb"
      "reorder_body E inp (o_id src) x day v = (Inr y, v')" "w_db w' = w_db v'" by blast
    have tot: "o_total x = i64 (lines_total (map line (o_items x)))"
      using fold_total [of 0 cs] by (simp add: x in_i64_def)
    have "x = new_order (ri_user inp) (o_vendor r) (ri_plant inp) day (o_total x) '''' (e_now E)
                  (cutoff_of E day vd) (o_items x)" by (simp add: x r(2))
    moreover have "map line (o_items x) = map (\<lambda>it. (i_menu_item it, i_qty it, menu_price (w_db w) (i_menu_item it))) ?ok"
      using cs by (simp add: x)
    moreover have "reorder_body E inp (ri_source inp) x day v = (Inr y, v')" using v(2) r(2,3) by simp
    moreover have okne: "?ok \<noteq> []" and vw: "w_db v = w_db w" and rrn: "rr_new_order rr = o_id y"
      using False csok v(1) vd(2) rr by simp_all
    ultimately have "?ok \<noteq> [] \<and> by_key v_id (o_vendor r) (vendors (w_db w)) = Some vd
          \<and> x = new_order (ri_user inp) (o_vendor r) (ri_plant inp) day (o_total x) '''' (e_now E)
                  (cutoff_of E day vd) (o_items x)
          \<and> o_total x = i64 (lines_total (map line (o_items x)))
          \<and> map line (o_items x) = map (\<lambda>it. (i_menu_item it, i_qty it, menu_price (w_db w) (i_menu_item it))) ?ok
          \<and> w_db v = w_db w \<and> reorder_body E inp (ri_source inp) x day v = (Inr y, v')
          \<and> w_db w' = w_db v' \<and> rr_new_order rr = o_id y"
      using okne vd(1) tot vw v(3) rrn by blast
    then show ?thesis
      using us r(2) u rr by (intro that [OF day r(1) _ serves]) (simp, simp, blast)
  qed
qed

section \<open>Effects\<close>

lemma reorder_body_run:
  assumes "order_inv (w_db v)" "reorder_body E inp src x day v = (Inr y, v')" "o_date x = day" "o_status x = Placed"
  shows "taken (w_db v') k = taken (w_db v) k + demand_at day (o_items x) k"
    and "sold_at (w_db v') k = sold_at (w_db v) k + demand_at day (o_items x) k"
    and "capacity_at (w_db v') = capacity_at (w_db v)"
    and "status_at (w_db v') = (status_at (w_db v))(o_id y \<mapsto> Placed)"
    and "status_at (w_db v) (o_id y) = None"
    and "order_inv (w_db v')"
  using create_body_effect [OF assms(1) assms(2) [unfolded reorder_body_def assms(3) [symmetric]] assms(4) place_body_event]
    create_body_inv [OF assms(1) assms(2) [unfolded reorder_body_def assms(3) [symmetric]] assms(4) place_body_event]
  by (simp_all add: assms(3))

lemma keeps_inv_reorder [keeps_intros]: "keeps order_inv (reorder E inp)"
proof -
  have tx: "keeps order_inv (persist_reorder_tx E inp src x day)" if "o_date x = day" "o_status x = Placed" for src x day
    unfolding persist_reorder_tx_def
    by (intro keeps_inv_tx) (erule (1) reorder_body_run(6) [OF _ _ that])
  have bound: "keeps order_inv (bind (build_reorder_order E inp src day now cs) (\<lambda>x.
              bind (persist_reorder_tx E inp (o_id src) x day) (\<lambda>y.
              ret \<lparr>rr_new_order = o_id y, rr_unavailable = us\<rparr>)))" for src day now cs us
    unfolding keeps_def
  proof (intro allI impI)
    fix w r w'
    assume inv: "order_inv (w_db w)" and run: "bind (build_reorder_order E inp src day now cs) (\<lambda>x.
              bind (persist_reorder_tx E inp (o_id src) x day) (\<lambda>y.
              ret \<lparr>rr_new_order = o_id y, rr_unavailable = us\<rparr>)) w = (r, w')"
    obtain z w1 where 1: "build_reorder_order E inp src day now cs w = (z, w1)"
      by (cases "build_reorder_order E inp src day now cs w")
    have w1: "w_db w1 = w_db w" by (rule roD [OF ro_reorder_reads(6) 1])
    show "order_inv (w_db w')"
    proof (cases z)
      case (Inl e)
      with run 1 inv w1 show ?thesis by (simp add: bind_run)
    next
      case (Inr x)
      with 1 have "o_date x = day" "o_status x = Placed"
        by (auto simp: build_reorder_order_def Let_def io_simps)
      then have K: "keeps order_inv (bind (persist_reorder_tx E inp (o_id src) x day) (\<lambda>y.
              ret \<lparr>rr_new_order = o_id y, rr_unavailable = us\<rparr>))" by (intro keeps_op tx)
      from run 1 Inr have "bind (persist_reorder_tx E inp (o_id src) x day) (\<lambda>y.
              ret \<lparr>rr_new_order = o_id y, rr_unavailable = us\<rparr>) w1 = (r, w')" by (simp add: bind_run)
      from keepsD [OF K _ this] inv w1 show ?thesis by simp
    qed
  qed
  show ?thesis
    unfolding reorder_def
    by (intro keeps_op ro_reorder_reads [THEN keeps_ro] keeps_option bound)
qed

lemma atomic_reorder [atomic_intros]: "atomic (reorder E inp)"
proof -
  have A: "atomic (bind (persist_reorder_tx E inp src x day) (\<lambda>y. ret (f y)))" for src x day f
    unfolding persist_reorder_tx_def by (intro atomic_bind_ret atomic_begin_func)
  show ?thesis
    unfolding reorder_def
    by (intro atomic_option atomic_fail atomic_bind_ro [OF ro_reorder_reads(3)] atomic_prod
        atomic_bind_ro [OF ro_reorder_reads(5)] atomic_if A atomic_ro [OF ro_ret]
        atomic_bind_ro [OF ro_reorder_reads(6)])
qed

text \<open>The lines that survive, and what they ask for.\<close>

definition survivors :: "db \<Rightarrow> date \<Rightarrow> time \<Rightarrow> uuid \<Rightarrow> item list" where
  "survivors d day now src = filter (\<lambda>it. fate d day now it = None) (items_of d src)"

lemma reorder_ledger:
  assumes "order_inv (w_db w)" "reorder E inp w = (Inr rr, w')" "ri_date inp = Some day"
  shows "taken (w_db w') k = taken (w_db w) k + demand_at day (survivors (w_db w) day (e_now E) (ri_source inp)) k"
    and "sold_at (w_db w') k = sold_at (w_db w) k + demand_at day (survivors (w_db w) day (e_now E) (ri_source inp)) k"
    and "capacity_at (w_db w') = capacity_at (w_db w)"
proof -
  let ?s = "survivors (w_db w) day (e_now E) (ri_source inp)"
  have dem: "demand_at day is k = demand_at day ?s k"
    if "map line is = map (\<lambda>it. (i_menu_item it, i_qty it, menu_price (w_db w) (i_menu_item it))) ?s" for "is"
  proof -
    have L: "map line is = price_lines (w_db w) (map (\<lambda>it. \<lparr>pi_item = i_menu_item it, pi_qty = i_qty it\<rparr>) ?s)"
      by (simp add: that price_lines_def)
    moreover have "wanted (map (\<lambda>it. \<lparr>pi_item = i_menu_item it, pi_qty = i_qty it\<rparr>) ?s) m = demand ?s m" for m
      by (simp add: wanted_def demand_def sql_sum_def filter_map comp_def)
    ultimately have "demand is m = demand ?s m" for m using demand_lines(1) [OF L] by simp
    then show ?thesis by (simp add: demand_at_def)
  qed
  have "(?s = [] \<and> w_db w' = w_db w) \<or> (\<exists>x v v' y. o_date x = day \<and> o_status x = Placed
      \<and> map line (o_items x) = map (\<lambda>it. (i_menu_item it, i_qty it, menu_price (w_db w) (i_menu_item it))) ?s
      \<and> w_db v = w_db w \<and> reorder_body E inp (ri_source inp) x day v = (Inr y, v') \<and> w_db w' = w_db v')"
  proof (rule reorder_run [OF assms(2)], goal_cases)
    case (1 day' r)
    from 1(1) assms(3) have d: "day' = day" by simp
    from 1(6) show ?case
    proof (elim disjE exE conjE, goal_cases)
      case 1
      then show ?case by (simp add: survivors_def d)
    next
      case (2 x vd v v' y)
      have "o_date x = day" "o_status x = Placed" by (subst 2(3), simp add: d)+
      with 2(5-8) show ?case unfolding survivors_def d by blast
    qed
  qed
  then have "taken (w_db w') k = taken (w_db w) k + demand_at day ?s k
    \<and> sold_at (w_db w') k = sold_at (w_db w) k + demand_at day ?s k
    \<and> capacity_at (w_db w') = capacity_at (w_db w)"
  proof (elim disjE exE conjE)
    assume "?s = []" "w_db w' = w_db w"
    then show ?thesis by (simp add: demand_at_def demand_def)
  next
    fix x v v' y
    assume x: "o_date x = day" "o_status x = Placed"
      "map line (o_items x) = map (\<lambda>it. (i_menu_item it, i_qty it, menu_price (w_db w) (i_menu_item it))) ?s"
      and v: "w_db v = w_db w" "reorder_body E inp (ri_source inp) x day v = (Inr y, v')" "w_db w' = w_db v'"
    have "order_inv (w_db v)" using assms(1) v(1) by simp
    note B = reorder_body_run [OF this v(2) x(1,2)]
    show ?thesis using B(1) [of k] B(2) [of k] B(3) dem [OF x(3)] by (simp add: v(1,3))
  qed
  then show "taken (w_db w') k = taken (w_db w) k + demand_at day ?s k"
    "sold_at (w_db w') k = sold_at (w_db w) k + demand_at day ?s k"
    "capacity_at (w_db w') = capacity_at (w_db w)" by simp_all
qed

text \<open>A sold-out flag stops every decrement of its row, and no decrement clears it.\<close>

definition sold_out_at :: "db \<Rightarrow> supply_key \<Rightarrow> bool" where
  "sold_out_at d k = (case by_key skey k (supplies d) of None \<Rightarrow> False | Some s \<Rightarrow> s_sold_out s)"

lemma decrement_sold_out:
  assumes "wf_supplies (w_db w)" "decrement_tx E i dt n w = (Inr r, w')"
  shows "\<not> sold_out_at (w_db w) (i, dt)" and "sold_out_at (w_db w') = sold_out_at (w_db w)"
proof -
  let ?d = "w_db w"
  let ?f = "\<lambda>s. s\<lparr>s_remain := s_remain s - n, s_updated_at := e_dbnow E\<rparr>"
  from assms(2) obtain s where s: "find (decrementable (i, dt) n) (supplies ?d) = Some s"
    and w': "w_db w' = ?d\<lparr>supplies := sql_update (decrementable (i, dt) n) ?f (supplies ?d)\<rparr>"
    by (auto simp: decrement_tx_def sql_decrement_def io_simps Let_def split: if_splits option.splits)
  from s show "\<not> sold_out_at ?d (i, dt)"
    by (auto simp: find_decrementable [OF assms(1)] sold_out_at_def split: option.splits if_splits)
  have "by_key skey k (sql_update (decrementable (i, dt) n) ?f (supplies ?d))
      = map_option (\<lambda>r. if decrementable (i, dt) n r then ?f r else r) (by_key skey k (supplies ?d))" for k
    by (rule by_key_sql_update) simp
  then show "sold_out_at (w_db w') = sold_out_at ?d"
    by (auto simp: w' sold_out_at_def fun_eq_iff split: option.splits)
qed

lemma decrement_items_sold_out:
  assumes "wf_supplies (w_db w)" "decrement_items E dt is w = (Inr (), w')" "i \<in> set is"
  shows "\<not> sold_out_at (w_db w) (i_menu_item i, dt)"
  using assms
proof (induction "is" arbitrary: w)
  case Nil
  then show ?case by simp
next
  case (Cons j "is")
  from Cons.prems(2) obtain r w1 where 1: "decrement_tx E (i_menu_item j) dt (i_qty j) w = (Inr r, w1)"
    and 2: "decrement_items E dt is w1 = (Inr (), w')"
    by (auto simp: decrement_items_def io_simps)
  note D = decrement_sold_out [OF Cons.prems(1) 1]
  show ?case
  proof (cases "i = j")
    case True
    with D(1) show ?thesis by simp
  next
    case False
    with Cons.IH [OF decrement_ok(4) [OF Cons.prems(1) 1] 2] Cons.prems(3) D(2) show ?thesis by simp
  qed
qed

end
