(* ===== verification/Sweepers.thy ===== *)
theory Sweepers
  imports Order_Service
begin

text \<open>
  The two schedulers of \<open>order/scheduler\<close>: the cutoff sweep (\<open>cutoff.go\<close>), which moves
  placed orders whose cutoff has passed, and the no-show sweep (\<open>no_show.go\<close>), which gives
  \<open>Service.MarkNoShow\<close> its age limit. One tick of each is modelled; the ticker loops around
  them only repeat it.
\<close>

definition cutoff_body :: "env \<Rightarrow> order \<Rightarrow> unit io" where
  "cutoff_body E x =
     bind (update_status_tx E Placed Cutoff (o_id x)) (\<lambda>_.
       append_trail E (new_event (o_id x) (Some Placed) Cutoff None None ''scheduler_cutoff'' [])
         ''order.cutoff.v1''
         [(''order_id'', JStr (o_id x)), (''vendor_id'', JStr (o_vendor x)), (''plant'', JStr (o_plant x))]
         ''order.cutoff'')"

definition transition_one :: "env \<Rightarrow> order \<Rightarrow> unit io" where
  "transition_one E x = begin_func E (\<lambda>_. cutoff_body E x)"

definition cutoff_run_once :: "env \<Rightarrow> nat io" where
  "cutoff_run_once E =
     bind (list_placed_due_for_cutoff E (e_now E)) (\<lambda>pending. sweep (transition_one E) pending 0)"

definition no_show_run_once :: "env \<Rightarrow> int \<Rightarrow> nat io" where
  "no_show_run_once E maxAge = mark_no_show E (if maxAge \<le> 0 then 2 * hour_ns else maxAge)"

lemmas sweeper_runs [run_simps] = fun_cong [OF cutoff_body_def] fun_cong [OF transition_one_def]
  fun_cong [OF cutoff_run_once_def] fun_cong [OF no_show_run_once_def]

lemma cutoff_body_effect:
  assumes "wf_order_ids (w_db w)" "cutoff_body E x w = (Inr (), w')"
  shows "quiet_move (w_db w) (o_id x) Placed Cutoff (w_db w')"
proof -
  from assms(2) obtain w1 where 1: "update_status_tx E Placed Cutoff (o_id x) w = (Inr (), w1)"
    and 2: "append_trail E (new_event (o_id x) (Some Placed) Cutoff None None ''scheduler_cutoff'' [])
         ''order.cutoff.v1''
         [(''order_id'', JStr (o_id x)), (''vendor_id'', JStr (o_vendor x)), (''plant'', JStr (o_plant x))]
         ''order.cutoff'' w1 = (Inr (), w')"
    by (auto simp: cutoff_body_def io_simps)
  show ?thesis
    using cutoff_upd.upd_status [OF assms(1) 1] cutoff_upd.upd_from [OF assms(1) 1]
    by (intro quiet_moveI [OF 1 [unfolded update_status_tx_def] _ _ _ _ 2]) (auto simp: can_transition_def)
qed

lemma keeps_wf_cutoff [keeps_intros]: "keeps wf_orders (cutoff_body E x)"
  unfolding cutoff_body_def by (intro keeps_intros)

lemma cutoff_body_inv:
  assumes "order_inv (w_db w)" "cutoff_body E x w = (Inr (), w')"
  shows "order_inv (w_db w')"
  by (rule order_invI_quiet [OF assms(1) cutoff_body_effect [OF order_invD(4) [OF assms(1)] assms(2)]])
    (rule keepsD [OF keeps_wf_cutoff order_invD(2) [OF assms(1)] assms(2)])

lemma keeps_inv_transition_one [keeps_intros]: "keeps order_inv (transition_one E x)"
  unfolding transition_one_def by (intro keeps_inv_tx) (auto intro: cutoff_body_inv)

lemma keeps_inv_sweepers [keeps_intros]:
  "keeps order_inv (cutoff_run_once E)" "keeps order_inv (no_show_run_once E age)"
  unfolding cutoff_run_once_def no_show_run_once_def
  by (intro keeps_intros ro_order_reads [THEN keeps_ro])+

lemma transition_one_moved:
  assumes "order_inv (w_db v)" "transition_one E x v = (Inr (), v')"
  shows "quiet_move (w_db v) (o_id x) Placed Cutoff (w_db v')"
proof -
  from assms(2) obtain u u' where u: "w_db u = w_db v" "cutoff_body E x u = (Inr (), u')" "w_db v' = w_db u'"
    unfolding transition_one_def by (metis begin_func_run)
  have "wf_order_ids (w_db u)" using order_invD(4) assms(1) u(1) by simp
  from cutoff_body_effect [OF this u(2)] show ?thesis by (simp add: u(1,3))
qed

lemma no_show_one_moved:
  assumes "order_inv (w_db v)" "no_show_one E x v = (Inr (), v')"
  shows "quiet_move (w_db v) (o_id x) Ready NoShow (w_db v')"
proof -
  from assms(2) obtain u u' where u: "w_db u = w_db v" "no_show_body E x u = (Inr (), u')" "w_db v' = w_db u'"
    unfolding no_show_one_def map_err_ok by (metis begin_func_run)
  have "wf_order_ids (w_db u)" using order_invD(4) assms(1) u(1) by simp
  from no_show_body_effect [OF this u(2)] show ?thesis by (simp add: u(1,3))
qed

text \<open>A sweep changes nothing on the ledger.\<close>

lemma sweep_ledger:
  assumes "sweep f xs n0 w = (Inr n, w')" "order_inv (w_db w)"
    and "\<And>x. keeps order_inv (f x)" "\<And>x. atomic (f x)"
    and "\<And>x v v'. order_inv (w_db v) \<Longrightarrow> f x v = (Inr (), v') \<Longrightarrow> quiet_move (w_db v) (o_id x) a b (w_db v')"
  shows "taken (w_db w') = taken (w_db w) \<and> sold_at (w_db w') = sold_at (w_db w)
    \<and> capacity_at (w_db w') = capacity_at (w_db w)"
  using assms(1,2)
proof (induction xs arbitrary: n0 w)
  case Nil
  then show ?case by (auto simp: io_simps)
next
  case (Cons x xs)
  obtain r w1 where 1: "f x w = (r, w1)" by (cases "f x w")
  with Cons.prems(1) have 2: "sweep f xs (case r of Inl _ \<Rightarrow> n0 | Inr _ \<Rightarrow> n0 + 1) w1 = (Inr n, w')"
    by (simp add: bind_run attempt_def)
  have "taken (w_db w1) = taken (w_db w) \<and> sold_at (w_db w1) = sold_at (w_db w)
    \<and> capacity_at (w_db w1) = capacity_at (w_db w)"
  proof (cases r)
    case (Inl e)
    with 1 atomicD [OF assms(4)] have "w_db w1 = w_db w" by blast
    then show ?thesis by simp
  next
    case (Inr u)
    with 1 assms(5) [OF Cons.prems(2)] show ?thesis by (simp add: quiet_move_def)
  qed
  with Cons.IH [OF 2 keepsD [OF assms(3) Cons.prems(2) 1]] show ?case by simp
qed

lemma atomic_transition_one [atomic_intros]: "atomic (transition_one E x)"
  unfolding transition_one_def by (rule atomic_begin_func)

section \<open>A sweep on a database that answers\<close>

lemma transition_one_succeeds:
  assumes "e_fault E = (\<lambda>_. None)" "order_inv (w_db w)" "status_at (w_db w) (o_id x) = Some Placed"
  shows "\<exists>w'. transition_one E x w = (Inr (), w')"
  unfolding transition_one_def
proof (rule begin_func_succeeds [OF assms(1)])
  fix v :: world
  assume v: "w_db v = w_db w"
  have st: "status_at (w_db v) (o_id x) = Some Placed" and ids: "wf_order_ids (w_db v)"
    using assms(2,3) v order_invD(4) by simp_all
  from update_status_tx_succeeds [OF assms(1) st] obtain v1 where
    1: "update_status_tx E Placed Cutoff (o_id x) v = (Inr (), v1)" by blast
  let ?ev = "new_event (o_id x) (Some Placed) Cutoff None None ''scheduler_cutoff'' []"
  have "status_at (w_db v1) (ev_order ?ev) \<noteq> None" using cutoff_upd.upd_to [OF ids 1] by simp
  moreover have "fk_user (w_db v1) (ev_actor ?ev)" by (simp add: fk_user_def)
  ultimately obtain v2 where "append_trail E ?ev ''order.cutoff.v1''
         [(''order_id'', JStr (o_id x)), (''vendor_id'', JStr (o_vendor x)), (''plant'', JStr (o_plant x))]
         ''order.cutoff'' v1 = (Inr (), v2)"
    using append_trail_succeeds [OF assms(1)] by blast
  with 1 show "\<exists>v'. cutoff_body E x v = (Inr (), v')" by (simp add: cutoff_body_def bind_run)
qed

lemma cutoff_sweep_all:
  assumes "e_fault E = (\<lambda>_. None)" "order_inv (w_db w)" "distinct (map o_id xs)"
    and "\<And>x. x \<in> set xs \<Longrightarrow> status_at (w_db w) (o_id x) = Some Placed"
  shows "\<exists>w'. sweep (transition_one E) xs n0 w = (Inr (n0 + length xs), w')
    \<and> (\<forall>k. status_at (w_db w') k = (if k \<in> o_id ` set xs then Some Cutoff else status_at (w_db w) k))"
  using assms(2-4)
proof (induction xs arbitrary: n0 w)
  case Nil
  then show ?case by (auto simp: io_simps)
next
  case (Cons x xs)
  from transition_one_succeeds [OF assms(1) Cons.prems(1), of x] Cons.prems(3)
  obtain w1 where 1: "transition_one E x w = (Inr (), w1)" by auto
  note inv1 = keepsD [OF keeps_inv_transition_one Cons.prems(1) 1]
  from transition_one_moved [OF Cons.prems(1) 1]
  have st: "status_at (w_db w1) = (status_at (w_db w))(o_id x \<mapsto> Cutoff)"
    by (simp add: quiet_move_def moved_def)
  have "distinct (map o_id xs)" and new: "o_id x \<notin> o_id ` set xs" using Cons.prems(2) by auto
  moreover have "status_at (w_db w1) (o_id z) = Some Placed" if "z \<in> set xs" for z
  proof -
    from that new have "o_id z \<noteq> o_id x" by (metis imageI)
    with st Cons.prems(3) that show ?thesis by simp
  qed
  ultimately obtain w' where 2: "sweep (transition_one E) xs (n0 + 1) w1 = (Inr (n0 + 1 + length xs), w')"
    "\<forall>k. status_at (w_db w') k = (if k \<in> o_id ` set xs then Some Cutoff else status_at (w_db w1) k)"
    using Cons.IH [OF inv1, of "n0 + 1"] by blast
  with 1 have "sweep (transition_one E) (x # xs) n0 w = (Inr (n0 + length (x # xs)), w')"
    by (simp add: bind_run attempt_def)
  with 2(2) st show ?case by (intro exI [of _ w']) auto
qed

end
