(* ===== verification/Payroll_Effects.thy ===== *)
theory Payroll_Effects
  imports Payroll Order_Effects
begin

text \<open>
  What the payroll operations do to the database: the aggregation of a period partitions its
  orders by employee, a batch is locked once, departed employees are detected idempotently, and
  a refund moves the order and its entry together.
\<close>

section \<open>The aggregation of a period\<close>

text \<open>What the map holds for an employee, read off the list of orders.\<close>

definition user_total :: "order list \<Rightarrow> uuid \<Rightarrow> payroll_user_acc" where
  "user_total xs u = (let ys = filter (\<lambda>x. o_user x = u) xs in
     \<lparr>ua_orders = map o_id ys, ua_amount = i64 (sum_list (map o_total ys))\<rparr>)"

lemma aggregate_snoc: "aggregate_orders_by_user (xs @ [x]) = add_order x (aggregate_orders_by_user xs)"
  by (simp add: aggregate_orders_by_user_def)

lemma aggregate_Nil [simp]: "aggregate_orders_by_user [] = []"
  by (simp add: aggregate_orders_by_user_def)

lemma i64_0 [simp]: "i64 0 = 0"
  by (simp add: i64_def)

lemma aggregate_map_of:
  "map_of (aggregate_orders_by_user xs) u =
     (if u \<in> o_user ` set xs then Some (user_total xs u) else None)"
proof (induction xs arbitrary: u rule: rev_induct)
  case Nil
  then show ?case by simp
next
  case (snoc x xs)
  show ?case
  proof (cases "u = o_user x")
    case True
    have none: "o_user x \<notin> o_user ` set xs \<Longrightarrow> filter (\<lambda>y. o_user y = o_user x) xs = []"
      by (auto simp: filter_empty_conv image_iff)
    show ?thesis
      using True none by (simp add: aggregate_snoc add_order_def update_conv snoc.IH user_total_def Let_def)
  next
    case False
    then show ?thesis by (auto simp: aggregate_snoc add_order_def update_conv snoc.IH user_total_def Let_def)
  qed
qed

lemma aggregate_keys: "fst ` set (aggregate_orders_by_user xs) = o_user ` set xs"
  by (induction xs rule: rev_induct)
    (simp_all add: aggregate_snoc add_order_def Let_def dom_update)

lemma aggregate_distinct: "distinct (map fst (aggregate_orders_by_user xs))"
  by (induction xs rule: rev_induct)
    (simp_all add: aggregate_snoc add_order_def Let_def distinct_update)

lemma aggregate_values:
  "(u, a) \<in> set (aggregate_orders_by_user xs) \<Longrightarrow> a = user_total xs u \<and> u \<in> o_user ` set xs"
  using aggregate_map_of [of xs u] map_of_is_SomeI [OF aggregate_distinct, of u a xs]
  by (auto split: if_splits)

text \<open>Splitting a list by a key and putting the parts together again loses nothing.\<close>

lemma mset_split_by:
  assumes "distinct us" "f ` set xs \<subseteq> set us"
  shows "mset (concat (map (\<lambda>u. map g (filter (\<lambda>x. f x = u) xs)) us)) = mset (map g xs)"
  using assms(2)
proof (induction xs)
  case Nil
  then show ?case by (induction us) auto
next
  case (Cons x xs)
  have one: "mset (concat (map (\<lambda>u. map g (if f x = u then x # filter (\<lambda>x. f x = u) xs
         else filter (\<lambda>x. f x = u) xs)) us))
      = mset (concat (map (\<lambda>u. map g (filter (\<lambda>x. f x = u) xs)) us)) + (if f x \<in> set us then {#g x#} else {#})"
    using assms(1) by (induction us) auto
  with Cons show ?case by simp
qed

section \<open>Writing the batch\<close>

definition entry_of :: "uuid \<Rightarrow> entry \<Rightarrow> uuid \<times> payroll_user_acc \<Rightarrow> bool" where
  "entry_of bid e ua \<longleftrightarrow> e_batch e = bid \<and> e_user e = fst ua \<and> e_orders e = ua_orders (snd ua)
     \<and> e_amount e = ua_amount (snd ua) \<and> e_refunded e = 0 \<and> 0 \<le> e_amount e"

lemma entry_create_ok:
  assumes "entry_create_tx E e w = (Inr y, w')"
  shows "w_db w' = (w_db w)\<lparr>entries := entries (w_db w) @ [y]\<rparr>"
    and "y = e\<lparr>e_id := e_id y, e_created_at := e_created_at y\<rparr>" "e_id y \<notin> e_id ` set (entries (w_db w))"
    and "0 \<le> e_amount e"
  using insert_row_ok [OF assms [unfolded entry_create_tx_def]] by (auto simp: entry_check_def)

lemma entries_loop_ok:
  assumes "for_each (\<lambda>(user, a). bind (entry_create_tx E (new_entry bid user a)) (\<lambda>_. ret ())) m w = (Inr (), w')"
  shows "\<exists>new. w_db w' = (w_db w)\<lparr>entries := entries (w_db w) @ new\<rparr> \<and> list_all2 (entry_of bid) new m
    \<and> (entry_tbl.keyed (w_db w) \<longrightarrow> entry_tbl.keyed (w_db w'))"
  using assms
proof (induction m arbitrary: w)
  case Nil
  then show ?case by (auto simp: io_simps)
next
  case (Cons ua m)
  obtain u a where ua: "ua = (u, a)" by (cases ua)
  from Cons.prems obtain e w1 where 1: "entry_create_tx E (new_entry bid u a) w = (Inr e, w1)"
    and 2: "for_each (\<lambda>(user, a). bind (entry_create_tx E (new_entry bid user a)) (\<lambda>_. ret ())) m w1 = (Inr (), w')"
    by (auto simp: io_simps ua)
  note C = entry_create_ok [OF 1]
  have e: "entry_of bid e (u, a)" using C(2,4) by (simp add: entry_of_def new_entry_def) (metis entry.simps)
  have k: "entry_tbl.keyed (w_db w) \<longrightarrow> entry_tbl.keyed (w_db w1)"
    using C(1,3) by (simp add: entry_tbl.keyed_def)
  from Cons.IH [OF 2] obtain new where "w_db w' = (w_db w1)\<lparr>entries := entries (w_db w1) @ new\<rparr>"
    "list_all2 (entry_of bid) new m" "entry_tbl.keyed (w_db w1) \<longrightarrow> entry_tbl.keyed (w_db w')" by blast
  with C(1) e k show ?case by (intro exI [of _ "e # new"]) (simp add: ua)
qed

lemma upsert_departed_ok:
  assumes "exception_upsert_departed_tx E bid w = (Inr (), w')"
  shows "\<exists>xs. w_db w' = (w_db w)\<lparr>exceptions := exceptions (w_db w) @ xs\<rparr>"
proof -
  have ext: "insert_departed ids now n es xs = Inr ys \<Longrightarrow> \<exists>zs. ys = xs @ zs" for ids now n es xs ys
    by (induction ids now n es xs rule: insert_departed.induct) (auto simp: Let_def split: if_splits)
  from assms show ?thesis
    by (auto simp: exception_upsert_departed_tx_def io_simps Let_def split: sum.splits dest!: ext)
qed

lemma batch_create_ok:
  assumes "batch_create_tx E b w = (Inr y, w')"
  shows "w_db w' = (w_db w)\<lparr>batches := batches (w_db w) @ [y]\<rparr>"
    and "b_start y = b_start b" "b_end y = b_end b" "b_status y = b_status b"
    and "b_id y \<notin> b_id ` set (batches (w_db w))"
    and "(b_start b, b_end b) \<notin> (\<lambda>x. (b_start x, b_end x)) ` set (batches (w_db w))"
  using insert_row_ok [OF assms [unfolded batch_create_tx_def]] by (auto simp: batch_check_def)

text \<open>The orders a period charges.\<close>

definition chargeable :: "db \<Rightarrow> date \<Rightarrow> date \<Rightarrow> order_row list" where
  "chargeable d from until = filter (\<lambda>r. (o_status r = PickedUp \<or> o_status r = NoShow)
     \<and> from \<le> o_date r \<and> o_date r \<le> until) (orders d)"

lemma list_period_ok:
  assumes "list_picked_or_no_show_in_period E from until w = (Inr xs, w')"
  shows "mset (map row_of xs) = mset (chargeable (w_db w) from until)" "w_db w' = w_db w"
proof -
  note S = select_orders_ok [OF assms [unfolded list_picked_or_no_show_in_period_def]]
  then have "xs = map (\<lambda>r. with_items r []) (sort_key o_user (sort_key o_date (chargeable (w_db w) from until)))"
    by (simp add: chargeable_def)
  then have "map row_of xs = sort_key o_user (sort_key o_date (chargeable (w_db w) from until))"
    by (simp add: comp_def)
  then show "mset (map row_of xs) = mset (chargeable (w_db w) from until)" by simp
  show "w_db w' = w_db w" using S by simp
qed

lemma build_draft_run:
  assumes "build_draft E inp w = (Inr b, w')"
  obtains xs m new ex where
    "mset (map row_of xs) = mset (chargeable (w_db w) (bd_start inp) (bd_end inp))"
    "m = map_order (e_pick E) (aggregate_orders_by_user xs)" "list_all2 (entry_of (b_id b)) new m"
    "w_db w' = (w_db w)\<lparr>batches := batches (w_db w) @ [b], entries := entries (w_db w) @ new,
       exceptions := exceptions (w_db w) @ ex\<rparr>"
    "b_start b = bd_start inp" "b_end b = bd_end inp" "b_status b = BDraft" "bd_start inp \<le> bd_end inp"
    "b_id b \<notin> b_id ` set (batches (w_db w))"
    "(b_start b, b_end b) \<notin> (\<lambda>x. (b_start x, b_end x)) ` set (batches (w_db w))"
    "entry_tbl.keyed (w_db w) \<longrightarrow> entry_tbl.keyed (w_db w')"
proof -
  let ?byP = "batch_get_by_period E (bd_start inp) (bd_end inp)"
  from assms have le: "bd_start inp \<le> bd_end inp" by (auto simp: build_draft_def io_simps split: if_splits)
  from assms le obtain r w1 where 1: "?byP w = (r, w1)"
    and 2: "(case r of Inr _ \<Rightarrow> fail (PayrollErr ErrBatchPeriodExists)
        | Inl e \<Rightarrow> if e \<noteq> PayrollErr ErrBatchNotFound then fail e
            else bind (list_picked_or_no_show_in_period E (bd_start inp) (bd_end inp)) (\<lambda>orders.
              begin_func E (\<lambda>_. persist_draft_batch E (new_batch (bd_start inp) (bd_end inp))
                (aggregate_orders_by_user orders)))) w1 = (Inr b, w')"
    by (auto simp: build_draft_def io_simps)
  have w1: "w_db w1 = w_db w" using roD [OF ro_payroll_reads(2) 1] .
  from 2 obtain xs w2 where 3: "list_picked_or_no_show_in_period E (bd_start inp) (bd_end inp) w1 = (Inr xs, w2)"
    and 4: "begin_func E (\<lambda>_. persist_draft_batch E (new_batch (bd_start inp) (bd_end inp))
       (aggregate_orders_by_user xs)) w2 = (Inr b, w')"
    by (auto simp: io_simps split: sum.splits if_splits)
  note L = list_period_ok [OF 3]
  let ?m = "map_order (e_pick E) (aggregate_orders_by_user xs)"
  let ?w2 = "w2\<lparr>w_tick := Suc (w_tick w2)\<rparr>"
  from 4 obtain y w3 w4 w5 where
    5: "batch_create_tx E (new_batch (bd_start inp) (bd_end inp)) ?w2 = (Inr b, w3)"
    and 6: "for_each (\<lambda>(user, a). bind (entry_create_tx E (new_entry (b_id b) user a)) (\<lambda>_. ret ())) ?m w3 = (Inr (), w4)"
    and 7: "exception_upsert_departed_tx E (b_id b) w4 = (Inr (), w5)" and w': "w_db w' = w_db w5"
    unfolding begin_func_ok persist_draft_batch_def by (auto simp: io_simps)
  note B = batch_create_ok [OF 5]
  from entries_loop_ok [OF 6] obtain new where new: "w_db w4 = (w_db w3)\<lparr>entries := entries (w_db w3) @ new\<rparr>"
    "list_all2 (entry_of (b_id b)) new ?m" "entry_tbl.keyed (w_db w3) \<longrightarrow> entry_tbl.keyed (w_db w4)" by blast
  from upsert_departed_ok [OF 7] obtain ex where ex: "w_db w5 = (w_db w4)\<lparr>exceptions := exceptions (w_db w4) @ ex\<rparr>"
    by blast
  show thesis
  proof (rule that)
    show "mset (map row_of xs) = mset (chargeable (w_db w) (bd_start inp) (bd_end inp))" using L(1) w1 by simp
    show "list_all2 (entry_of (b_id b)) new ?m" by (rule new(2))
    show "w_db w' = (w_db w)\<lparr>batches := batches (w_db w) @ [b], entries := entries (w_db w) @ new,
       exceptions := exceptions (w_db w) @ ex\<rparr>" using w' ex new(1) B(1) L(2) w1 by simp
    show "entry_tbl.keyed (w_db w) \<longrightarrow> entry_tbl.keyed (w_db w')"
      using new(3) w' ex B(1) L(2) w1 by (simp add: entry_tbl.keyed_def)
  qed (use B le L(2) w1 in \<open>auto simp: new_batch_def\<close>)
qed

section \<open>Locking\<close>

lemma lock_body_ok:
  assumes "batch_tbl.keyed (w_db w)" "lock_body E b bid admin w = (Inr (), w')"
  shows "map_option b_status (by_key b_id bid (batches (w_db w))) = Some BDraft"
    and "map_option b_status (by_key b_id bid (batches (w_db w'))) = Some BLocked"
    and "k \<noteq> bid \<Longrightarrow> by_key b_id k (batches (w_db w')) = by_key b_id k (batches (w_db w))"
    and "batch_tbl.keyed (w_db w')"
    and "\<exists>m a. w_db w' = (w_db w)\<lparr>batches := batches (w_db w'), outbox := outbox (w_db w) @ [m],
           audits := audits (w_db w) @ [a]\<rparr> \<and> ox_agg m = bid \<and> ox_subject m = ''payroll.batch_locked.v1''
           \<and> ox_published_at m = None"
proof -
  from assms(2) obtain w1 w2 pl where 1: "batch_update_status_tx E BDraft BLocked (Some admin) bid w = (Inr (), w1)"
    and 2: "outbox_append_tx E ''payroll_batch'' bid ''payroll.batch_locked.v1'' pl [] w1 = (Inr (), w2)"
    and 3: "audit_write_tx E (audit_of (Some admin) (Some WelfareAdmin) ''payroll.lock'' ''payroll_batch'' bid pl) w2
        = (Inr (), w')"
    by (auto simp: lock_body_def Let_def io_simps)
  note U = update_rows_ok [OF 1 [unfolded batch_update_status_tx_def]]
  note O = outbox_append_tx_ok [OF 2] and A = audit_write_tx_ok [OF 3]
  have bs: "batches (w_db w') = batches (w_db w1)" using O A by simp
  show "map_option b_status (by_key b_id bid (batches (w_db w))) = Some BDraft"
    using lock_upd.upd_from [OF assms(1) 1] by auto
  show "map_option b_status (by_key b_id bid (batches (w_db w'))) = Some BLocked"
    unfolding bs by (rule lock_upd.upd_to [OF assms(1) 1])
  show "batch_tbl.keyed (w_db w')"
    using lock_upd.upd_inv [OF assms(1) 1] by (simp add: batch_tbl.keyed_def bs)
  show "by_key b_id k (batches (w_db w')) = by_key b_id k (batches (w_db w))" if "k \<noteq> bid"
    using that unfolding bs U(1)
    by (cases "by_key b_id k (batches (w_db w))") (auto simp: by_key_sql_update dest: by_key_SomeD)
  show "\<exists>m a. w_db w' = (w_db w)\<lparr>batches := batches (w_db w'), outbox := outbox (w_db w) @ [m],
           audits := audits (w_db w) @ [a]\<rparr> \<and> ox_agg m = bid \<and> ox_subject m = ''payroll.batch_locked.v1''
           \<and> ox_published_at m = None"
    using U(1) O A by (intro exI [of _ "last (outbox (w_db w2))"] exI [of _ "last (audits (w_db w'))"]) simp
qed

lemma lock_batch_run:
  assumes "lock_batch E bid admin w = (Inr (), w')"
  obtains b v v' where "by_key b_id bid (batches (w_db w)) = Some b" "b_status b = BDraft" "w_db v = w_db w"
    "lock_body E b bid admin v = (Inr (), v')" "w_db w' = w_db v'"
proof -
  from assms obtain b w1 where g: "batch_get_by_id E bid w = (Inr b, w1)" and D: "b_status b = BDraft"
    and t: "begin_func E (\<lambda>_. lock_body E b bid admin) w1 = (Inr (), w')"
    unfolding lock_batch_def bind_ok guard_ok by auto
  from g have b: "by_key b_id bid (batches (w_db w)) = Some b" "w_db w1 = w_db w"
    by (auto simp: batch_get_by_id_def io_simps)
  from t obtain w2 where "lock_body E b bid admin (w1\<lparr>w_tick := Suc (w_tick w1)\<rparr>) = (Inr (), w2)" "w_db w' = w_db w2"
    by (auto simp: begin_func_ok)
  from that [OF b(1) D _ this] b(2) show thesis by simp
qed

section \<open>Refunds\<close>

text \<open>What the orders of an entry that are refunded come to.\<close>

definition refund_of :: "db \<Rightarrow> uuid \<Rightarrow> int" where
  "refund_of d oid = (case by_key o_id oid (orders d) of
      None \<Rightarrow> 0 | Some r \<Rightarrow> if o_status r = Refunded then o_total r else 0)"

definition refunded_total :: "db \<Rightarrow> entry \<Rightarrow> int" where
  "refunded_total d e = sum_list (map (refund_of d) (e_orders e))"

text \<open>No order is in two entries, or twice in one.\<close>

definition entries_disjoint :: "db \<Rightarrow> bool" where
  "entries_disjoint d \<longleftrightarrow> distinct (concat (map e_orders (entries d)))"

definition refunds_bounded :: "db \<Rightarrow> bool" where
  "refunds_bounded d \<longleftrightarrow> (\<forall>e\<in>set (entries d). e_refunded e \<le> refunded_total d e)"

definition entry_charging :: "db \<Rightarrow> uuid \<Rightarrow> uuid \<Rightarrow> entry option" where
  "entry_charging d user oid = find (\<lambda>e. e_user e = user \<and> oid \<in> set (e_orders e)) (entries d)"

lemma entry_charging_SomeD:
  "entry_charging d u oid = Some e \<Longrightarrow> e \<in> set (entries d) \<and> e_user e = u \<and> oid \<in> set (e_orders e)"
  unfolding entry_charging_def by (metis (mono_tags, lifting) find_Some_iff nth_mem)

interpretation picked_refund: guarded_update "update_status_tx E PickedUp Refunded" status_at wf_order_ids
    "\<lambda>s. s = PickedUp" Refunded "OrderErr ErrInvalidTransition" for E
  unfolding update_status_tx_def by (rule order_update_guarded) auto

interpretation no_show_refund: guarded_update "update_status_tx E NoShow Refunded" status_at wf_order_ids
    "\<lambda>s. s = NoShow" Refunded "OrderErr ErrInvalidTransition" for E
  unfolding update_status_tx_def by (rule order_update_guarded) auto

lemma refund_status_ok:
  assumes "wf_order_ids (w_db w)" "a = PickedUp \<or> a = NoShow" "update_status_tx E a Refunded oid w = (Inr (), w')"
  shows "status_at (w_db w) oid = Some a" "status_at (w_db w') = (status_at (w_db w))(oid \<mapsto> Refunded)"
    "w_db w' = (w_db w)\<lparr>orders := orders (w_db w')\<rparr>"
    "map o_id (orders (w_db w')) = map o_id (orders (w_db w))"
    "map o_number (orders (w_db w')) = map o_number (orders (w_db w))"
    "map o_total (orders (w_db w')) = map o_total (orders (w_db w))"
    "j \<noteq> oid \<Longrightarrow> refund_of (w_db w') j = refund_of (w_db w) j"
    "by_key o_id oid (orders (w_db w)) = Some r \<Longrightarrow> refund_of (w_db w') oid = o_total r \<and> refund_of (w_db w) oid = 0"
    "sold_at (w_db w') = sold_at (w_db w)"
proof -
  show "status_at (w_db w) oid = Some a" "status_at (w_db w') = (status_at (w_db w))(oid \<mapsto> Refunded)"
    using assms picked_refund.upd_from picked_refund.upd_status no_show_refund.upd_from no_show_refund.upd_status
    by metis+
  note st = this
  note U = order_update_where_ok(1) [OF assms(3) [unfolded update_status_tx_def]]
  show "w_db w' = (w_db w)\<lparr>orders := orders (w_db w')\<rparr>" using U by simp
  show "map o_id (orders (w_db w')) = map o_id (orders (w_db w))"
    "map o_number (orders (w_db w')) = map o_number (orders (w_db w))"
    "map o_total (orders (w_db w')) = map o_total (orders (w_db w))" using U by (simp_all add: map_sql_update)
  have at: "by_key o_id j (orders (w_db w')) = map_option (\<lambda>r. if o_id r = oid \<and> o_status r = a
      then r\<lparr>o_status := Refunded, o_updated_at := e_dbnow E\<rparr> else r)
      (by_key o_id j (orders (w_db w)))" for j
    by (simp add: U by_key_sql_update)
  show "refund_of (w_db w') j = refund_of (w_db w) j" if "j \<noteq> oid"
    using that at [of j] by (cases "by_key o_id j (orders (w_db w))") (auto simp: refund_of_def dest: by_key_SomeD)
  show "refund_of (w_db w') oid = o_total r \<and> refund_of (w_db w) oid = 0"
    if "by_key o_id oid (orders (w_db w)) = Some r"
    using that at [of oid] st(1) assms(2) by (auto simp: refund_of_def status_at_def dest: by_key_SomeD)
  show "sold_at (w_db w') = sold_at (w_db w)"
    by (rule sold_at_order_update [OF assms(3) [unfolded update_status_tx_def]]) (use assms(2) in auto)
qed

lemma refund_inv:
  assumes "order_inv (w_db w)" "a = PickedUp \<or> a = NoShow" "update_status_tx E a Refunded oid w = (Inr (), w')"
  shows "order_inv (w_db w')"
proof -
  note I = order_invD [OF assms(1)]
  note R = refund_status_ok [OF I(4) assms(2,3)]
  have "set (map o_total (orders (w_db w'))) = set (map o_total (orders (w_db w)))"
    "set (map o_id (orders (w_db w'))) = set (map o_id (orders (w_db w)))" by (simp_all only: R(4,6))
  then have *: "o_total ` set (orders (w_db w')) = o_total ` set (orders (w_db w))"
    "o_id ` set (orders (w_db w')) = o_id ` set (orders (w_db w))" by simp_all
  have it: "order_items (w_db w') = order_items (w_db w)" "supplies (w_db w') = supplies (w_db w)"
    "state_events (w_db w') = state_events (w_db w)" by (subst R(3), simp)+
  have tot: "\<forall>r\<in>set (orders (w_db w')). 0 \<le> o_total r"
  proof
    fix r assume "r \<in> set (orders (w_db w'))"
    then have "o_total r \<in> o_total ` set (orders (w_db w))" using *(1) by auto
    then show "0 \<le> o_total r" using I(2) by (auto simp: wf_orders_def)
  qed
  have "wf_orders (w_db w')"
    using I(2) tot unfolding wf_orders_def wf_order_ids_def R(4,5) it * by blast
  moreover have "history_ok (w_db w')"
    by (rule history_ok_refund [OF I(3) R(1) _ R(2)]) (use assms(2) it in \<open>auto simp: can_transition_def\<close>)
  moreover have "wf_supplies (w_db w')" using I(1) by (simp add: wf_supplies_def it)
  ultimately show ?thesis by (simp add: order_inv_def)
qed

lemma increment_refunded_ok:
  assumes "entry_increment_refunded_tx E i n w = (Inr (), w')"
  shows "w_db w' = (w_db w)\<lparr>entries := sql_update (\<lambda>e. e_id e = i) (\<lambda>e. e\<lparr>e_refunded := e_refunded e + n\<rparr>) (entries (w_db w))\<rparr>"
  using update_rows_ok(1) [OF assms [unfolded entry_increment_refunded_tx_def]] by simp

text \<open>An entry's refund grows by an amount; nothing else of the entries moves.\<close>

definition bumped :: "entry list \<Rightarrow> uuid \<Rightarrow> int \<Rightarrow> entry list" where
  "bumped es i n = sql_update (\<lambda>e. e_id e = i) (\<lambda>e. e\<lparr>e_refunded := e_refunded e + n\<rparr>) es"

lemma bumped_orders [simp]: "map e_orders (bumped es i n) = map e_orders es" "map e_id (bumped es i n) = map e_id es"
  by (simp_all add: bumped_def map_sql_update)

lemma reverse_body_ok:
  assumes "order_inv (w_db w)" "o_status x = PickedUp \<or> o_status x = NoShow"
    and "reverse_body E x oid ent w = (Inr (), w')"
  shows "order_inv (w_db w')" "status_at (w_db w) oid = Some (o_status x)"
    and "status_at (w_db w') = (status_at (w_db w))(oid \<mapsto> Refunded)"
    and "entries (w_db w') = (case ent of None \<Rightarrow> entries (w_db w) | Some i \<Rightarrow> bumped (entries (w_db w)) i (o_total x))"
    and "j \<noteq> oid \<Longrightarrow> refund_of (w_db w') j = refund_of (w_db w) j"
    and "by_key o_id oid (orders (w_db w)) = Some r \<Longrightarrow> refund_of (w_db w') oid = o_total r \<and> refund_of (w_db w) oid = 0"
    and "state_events (w_db w') = state_events (w_db w)" "sold_at (w_db w') = sold_at (w_db w)"
    and "taken (w_db w') = taken (w_db w)" "capacity_at (w_db w') = capacity_at (w_db w)"
    and "disputes (w_db w') = disputes (w_db w)"
    and "map o_id (orders (w_db w')) = map o_id (orders (w_db w))"
    and "map o_total (orders (w_db w')) = map o_total (orders (w_db w))"
proof -
  note I = order_invD [OF assms(1)]
  from assms(3) obtain w1 w2 w3 pl where 1: "update_status_tx E (o_status x) Refunded oid w = (Inr (), w1)"
    and 2: "(case ent of Some i \<Rightarrow> entry_increment_refunded_tx E i (o_total x) | None \<Rightarrow> ret ()) w1 = (Inr (), w2)"
    and 3: "outbox_append_tx E ''order'' oid ''payroll.order_reversed.v1'' pl [] w2 = (Inr (), w3)"
    and 4: "audit_write_tx E (audit_of None (Some WelfareAdmin) ''payroll.order_reverse'' ''order'' oid pl) w3 = (Inr (), w')"
    by (auto simp: reverse_body_def Let_def io_simps)
  note R = refund_status_ok [OF I(4) assms(2) 1]
  have w2: "w_db w2 = (w_db w1)\<lparr>entries := (case ent of None \<Rightarrow> entries (w_db w1)
      | Some i \<Rightarrow> bumped (entries (w_db w1)) i (o_total x))\<rparr>"
    using 2 by (cases ent) (auto simp: io_simps bumped_def dest: increment_refunded_ok)
  have w': "w_db w' = (w_db w1)\<lparr>entries := entries (w_db w2), outbox := outbox (w_db w'), audits := audits (w_db w')\<rparr>"
    using outbox_append_tx_ok [OF 3] audit_write_tx_ok [OF 4] w2 by simp
  have same: "orders (w_db w') = orders (w_db w1)" "order_items (w_db w') = order_items (w_db w1)"
    "supplies (w_db w') = supplies (w_db w1)" "state_events (w_db w') = state_events (w_db w1)"
    "entries (w_db w') = entries (w_db w2)" "disputes (w_db w') = disputes (w_db w1)"
    by (subst w', simp)+
  note F = same
  have eq: "order_inv (w_db w') = order_inv (w_db w1)" "status_at (w_db w') = status_at (w_db w1)"
    "refund_of (w_db w') k = refund_of (w_db w1) k" "sold_at (w_db w') = sold_at (w_db w1)"
    "taken (w_db w') = taken (w_db w1)" "capacity_at (w_db w') = capacity_at (w_db w1)" for k
    using history_ok_cong [of "w_db w'" "w_db w1"]
    by (simp_all add: order_inv_def wf_supplies_def wf_orders_def wf_order_ids_def status_at_def refund_of_def
        sold_at_def live_def taken_def capacity_at_def F fun_eq_iff)
  show "order_inv (w_db w')" using refund_inv [OF assms(1,2) 1] eq(1) by simp
  show "status_at (w_db w) oid = Some (o_status x)" by (rule R(1))
  show "status_at (w_db w') = (status_at (w_db w))(oid \<mapsto> Refunded)" using R(2) eq(2) by simp
  have e1: "entries (w_db w1) = entries (w_db w)" "state_events (w_db w1) = state_events (w_db w)"
    "supplies (w_db w1) = supplies (w_db w)" by (subst R(3), simp)+
  show "entries (w_db w') = (case ent of None \<Rightarrow> entries (w_db w) | Some i \<Rightarrow> bumped (entries (w_db w)) i (o_total x))"
    by (simp add: F(5) w2 e1(1) split: option.split)
  show "refund_of (w_db w') j = refund_of (w_db w) j" if "j \<noteq> oid" using R(7) [OF that] eq(3) by simp
  show "refund_of (w_db w') oid = o_total r \<and> refund_of (w_db w) oid = 0"
    if "by_key o_id oid (orders (w_db w)) = Some r" using R(8) [OF that] eq(3) by simp
  show "state_events (w_db w') = state_events (w_db w)" using F(4) e1(2) by simp
  show "sold_at (w_db w') = sold_at (w_db w)" using R(9) eq(4) by simp
  show "taken (w_db w') = taken (w_db w)" "capacity_at (w_db w') = capacity_at (w_db w)"
    using eq(5,6) e1(3) by (simp_all add: taken_def capacity_at_def fun_eq_iff)
  have "disputes (w_db w1) = disputes (w_db w)" by (subst R(3), simp)
  then show "disputes (w_db w') = disputes (w_db w)"
    "map o_id (orders (w_db w')) = map o_id (orders (w_db w))"
    "map o_total (orders (w_db w')) = map o_total (orders (w_db w))" using F(1,6) R(4,6) by simp_all
qed

lemma reverse_order_run:
  assumes "reverse_order E oid w = (Inr (), w')"
  obtains (again) r where "by_key o_id oid (orders (w_db w)) = Some r" "o_status r = Refunded" "w_db w' = w_db w"
  | (charged) r x v v' where "by_key o_id oid (orders (w_db w)) = Some r"
      "x = with_items r (items_of (w_db w) oid)" "o_status x = PickedUp \<or> o_status x = NoShow" "w_db v = w_db w"
      "reverse_body E x oid (map_option e_id (entry_charging (w_db w) (o_user r) oid)) v = (Inr (), v')"
      "w_db w' = w_db v'"
proof -
  from assms obtain x w1 where g: "order_get_by_id E oid w = (Inr x, w1)"
    and k: "(if o_status x = Refunded then ret ()
       else if o_status x \<noteq> PickedUp \<and> o_status x \<noteq> NoShow then fail (PayrollErr ErrPayrollInvalidTransition)
       else bind (attempt (entry_find_by_order_for_user E (o_user x) oid)) (\<lambda>r.
         case (case r of Inr i \<Rightarrow> Inr (Some i)
               | Inl e \<Rightarrow> if e = PayrollErr ErrEntryNotFound then Inr None else Inl e) of
           Inl e \<Rightarrow> fail e
         | Inr ent \<Rightarrow> begin_func E (\<lambda>_. reverse_body E x oid ent))) w1 = (Inr (), w')"
    unfolding reverse_order_def bind_ok by blast
  from order_get_ok [OF g] obtain r where r: "by_key o_id oid (orders (w_db w)) = Some r"
    "x = with_items r (items_of (w_db w) oid)" "w_db w1 = w_db w" by blast
  show thesis
  proof (cases "o_status x = Refunded")
    case True
    with k r show thesis by (auto intro!: again [of r] simp: io_simps)
  next
    case False
    with k have st: "o_status x = PickedUp \<or> o_status x = NoShow" by (auto simp: io_simps split: if_splits)
    from False st k obtain q w2 where f: "entry_find_by_order_for_user E (o_user x) oid w1 = (q, w2)"
      and t: "(case (case q of Inr i \<Rightarrow> Inr (Some i)
               | Inl e \<Rightarrow> if e = PayrollErr ErrEntryNotFound then Inr None else Inl e) of
           Inl e \<Rightarrow> fail e
         | Inr ent \<Rightarrow> begin_func E (\<lambda>_. reverse_body E x oid ent)) w2 = (Inr (), w')"
      by (auto simp: io_simps)
    have w2: "w_db w2 = w_db w" using roD [OF ro_payroll_reads(6) f] r(3) by simp
    let ?ent = "map_option e_id (entry_charging (w_db w) (o_user r) oid)"
    have "begin_func E (\<lambda>_. reverse_body E x oid ?ent) w2 = (Inr (), w')"
      using t f r by (auto simp: entry_find_by_order_for_user_def entry_charging_def query_def exec_def io_simps
          split: sum.splits option.splits if_splits)
    then obtain v' where "reverse_body E x oid ?ent (w2\<lparr>w_tick := Suc (w_tick w2)\<rparr>) = (Inr (), v')" "w_db w' = w_db v'"
      by (auto simp: begin_func_ok)
    from charged [OF r(1,2) st _ this] w2 show thesis by simp
  qed
qed

lemma refund_steps_ok:
  assumes "order_inv (w_db w)" "orders snap = orders (w_db w)"
    and "apply_dispute_refund E snap inp x w = (Inr (), w')"
  obtains r where "by_key o_id (d_order x) (orders (w_db w)) = Some r" "0 \<le> rd_refund inp"
    "rd_refund inp \<le> o_total r" "order_inv (w_db w')"
    "entries (w_db w') = (case d_entry x of None \<Rightarrow> entries (w_db w)
       | Some i \<Rightarrow> bumped (entries (w_db w)) i (rd_refund inp))"
    "status_at (w_db w') = (if o_status r = PickedUp \<or> o_status r = NoShow
       then (status_at (w_db w))(d_order x \<mapsto> Refunded) else status_at (w_db w))"
    "\<And>j. j \<noteq> d_order x \<Longrightarrow> refund_of (w_db w') j = refund_of (w_db w) j"
    "o_status r = PickedUp \<or> o_status r = NoShow \<Longrightarrow> refund_of (w_db w') (d_order x) = o_total r"
    "o_status r = PickedUp \<or> o_status r = NoShow \<Longrightarrow> refund_of (w_db w) (d_order x) = 0"
    "\<not> (o_status r = PickedUp \<or> o_status r = NoShow) \<Longrightarrow> refund_of (w_db w') (d_order x) = refund_of (w_db w) (d_order x)"
    "w_db w' = (w_db w)\<lparr>orders := orders (w_db w'), entries := entries (w_db w')\<rparr>"
    "sold_at (w_db w') = sold_at (w_db w)"
    "map o_id (orders (w_db w')) = map o_id (orders (w_db w))"
    "map o_total (orders (w_db w')) = map o_total (orders (w_db w))"
proof -
  from assms(3) obtain ord w1 w2 where nn: "0 \<le> rd_refund inp"
    and 1: "order_get_by_id_at E snap (d_order x) w = (Inr ord, w1)" and le: "rd_refund inp \<le> o_total ord"
    and 2: "(case d_entry x of Some ent \<Rightarrow> entry_increment_refunded_tx E ent (rd_refund inp)
                   | None \<Rightarrow> ret ()) w1 = (Inr (), w2)"
    and 3: "(if o_status ord = PickedUp \<or> o_status ord = NoShow
          then update_status_tx E (o_status ord) Refunded (d_order x) else ret ()) w2 = (Inr (), w')"
    unfolding apply_dispute_refund_def bind_ok guard_ok by (auto simp: not_less)
  from order_get_at_ok [OF 1] assms(2) obtain r where
    r: "by_key o_id (d_order x) (orders (w_db w)) = Some r" "o_status ord = o_status r" "o_total ord = o_total r"
    and w1: "w_db w1 = w_db w" by auto
  have w2: "w_db w2 = (w_db w)\<lparr>entries := (case d_entry x of None \<Rightarrow> entries (w_db w)
      | Some i \<Rightarrow> bumped (entries (w_db w)) i (rd_refund inp))\<rparr>"
    using 2 w1 by (cases "d_entry x") (auto simp: io_simps bumped_def dest: increment_refunded_ok)
  have sm: "order_inv (w_db w2) = order_inv (w_db w)" "status_at (w_db w2) = status_at (w_db w)"
    "refund_of (w_db w2) = refund_of (w_db w)" "sold_at (w_db w2) = sold_at (w_db w)"
    using history_ok_cong [of "w_db w2" "w_db w"]
    by (simp_all add: w2 order_inv_def wf_supplies_def wf_orders_def wf_order_ids_def status_at_def
        refund_of_def sold_at_def live_def fun_eq_iff)
  show thesis
  proof (cases "o_status r = PickedUp \<or> o_status r = NoShow")
    case True
    with 3 r(2) have 4: "update_status_tx E (o_status r) Refunded (d_order x) w2 = (Inr (), w')" by simp
    have inv2: "order_inv (w_db w2)" using assms(1) sm(1) by simp
    note R = refund_status_ok [OF order_invD(4) [OF inv2] True 4]
    have k: "by_key o_id (d_order x) (orders (w_db w2)) = Some r" using r(1) w2 by simp
    note R8 = R(8) [OF k]
    have e: "entries (w_db w') = entries (w_db w2)" by (subst R(3), simp)
    show thesis
    proof (rule that [OF r(1) nn])
      show "rd_refund inp \<le> o_total r" using le r(3) by simp
      show "order_inv (w_db w')" by (rule refund_inv [OF inv2 True 4])
      show "entries (w_db w') = (case d_entry x of None \<Rightarrow> entries (w_db w)
         | Some i \<Rightarrow> bumped (entries (w_db w)) i (rd_refund inp))" using e w2 by simp
      show "w_db w' = (w_db w)\<lparr>orders := orders (w_db w'), entries := entries (w_db w')\<rparr>"
        by (subst R(3), simp add: w2 e)
    qed (use True R(2) R(4) R(6) R(7) R(9) R8 sm w2 in auto)
  next
    case False
    with 3 r(2) have 4: "w' = w2" by (auto simp: io_simps)
    show thesis by (rule that [OF r(1) nn]) (use False le r(3) 4 sm w2 assms(1) in auto)
  qed
qed

lemma resolve_dispute_run:
  assumes "resolve_dispute E inp w = (Inr (), w')"
  obtains x v1 v' where "by_key d_id (rd_dispute inp) (disputes (w_db w)) = Some x" "d_status x = DOpen"
    "rd_status inp = DRefund \<or> rd_status inp = DReject"
    "w_db v1 = (w_db w)\<lparr>disputes := disputes (w_db v1)\<rparr>"
    "(if rd_status inp = DRefund then apply_dispute_refund E (w_db w) inp x else ret ()) v1 = (Inr (), v')"
    "w_db w' = (w_db v')\<lparr>outbox := outbox (w_db w'), audits := audits (w_db w')\<rparr>"
    "map_option d_status (by_key d_id (rd_dispute inp) (disputes (w_db w'))) = Some (rd_status inp)"
    "map_option d_refund (by_key d_id (rd_dispute inp) (disputes (w_db w'))) = Some (rd_refund inp)"
    "\<forall>y\<in>set (disputes (w_db v1)). \<exists>z\<in>set (disputes (w_db w)). d_entry y = d_entry z \<and> d_order y = d_order z"
proof -
  from assms have st: "rd_status inp = DRefund \<or> rd_status inp = DReject"
    by (auto simp: resolve_dispute_def io_simps split: if_splits)
  with assms obtain x w1 where g: "dispute_get_by_id E (rd_dispute inp) w = (Inr x, w1)" and op: "d_status x = DOpen"
    and t: "begin_func E (\<lambda>snap. resolve_body E snap inp x) w1 = (Inr (), w')"
    unfolding resolve_dispute_def bind_ok guard_ok by auto
  from g have x: "by_key d_id (rd_dispute inp) (disputes (w_db w)) = Some x" and w1: "w_db w1 = w_db w"
    by (auto simp: dispute_get_by_id_def io_simps)
  let ?v = "w1\<lparr>w_tick := Suc (w_tick w1)\<rparr>"
  from t obtain u where b: "resolve_body E (w_db w1) inp x ?v = (Inr (), u)" and u: "w_db w' = w_db u"
    by (auto simp: begin_func_ok)
  from b obtain v1 v' where
    1: "dispute_update_status_tx E (rd_dispute inp) (rd_status inp) (Some (rd_resolved_by inp))
             (rd_resolution inp) (rd_refund inp) ?v = (Inr (), v1)"
    and 2: "(if rd_status inp = DRefund then apply_dispute_refund E (w_db w1) inp x else ret ()) v1 = (Inr (), v')"
    and 3: "record_dispute_resolution E inp x v' = (Inr (), u)"
    unfolding resolve_body_def bind_ok by auto
  note U = update_rows_ok [OF 1 [unfolded dispute_update_status_tx_def]]
  have v1: "w_db v1 = (w_db w)\<lparr>disputes := disputes (w_db v1)\<rparr>" using U(1) w1 by simp
  from 3 have rec: "w_db u = (w_db v')\<lparr>outbox := outbox (w_db u), audits := audits (w_db u)\<rparr>"
    by (auto simp: record_dispute_resolution_def Let_def io_simps dest!: outbox_append_tx_ok audit_write_tx_ok)
  have dd: "disputes (w_db u) = disputes (w_db v1)"
  proof -
    have "disputes (w_db v') = disputes (w_db v1)"
      using 2
      by (auto simp: apply_dispute_refund_def io_simps split: if_splits option.splits
          dest!: increment_refunded_ok order_get_at_ok simp: update_status_tx_def dest: order_update_where_ok(1))
    then show ?thesis by (subst rec, simp)
  qed
  have at: "by_key d_id (rd_dispute inp) (disputes (w_db v1)) =
      map_option (\<lambda>r. if d_id r = rd_dispute inp then r\<lparr>d_status := rd_status inp,
        d_resolved_by := Some (rd_resolved_by inp), d_resolved_at := Some (e_dbnow E),
        d_resolution := rd_resolution inp, d_refund := rd_refund inp, d_updated_at := e_dbnow E\<rparr> else r)
      (by_key d_id (rd_dispute inp) (disputes (w_db w)))"
    using st by (simp add: U(1) w1 by_key_sql_update)
  show thesis
    by (rule that [OF x op st v1 2 [unfolded w1]])
      (use u rec w1 dd at x in \<open>auto simp: U(1) set_sql_update dest: by_key_SomeD\<close>)
qed

end
