(* ===== verification/Settlement.thy ===== *)
theory Settlement
  imports Payroll_Effects
begin

text \<open>
  Vendor settlements: \<open>settlement/service.go\<close> over
  \<open>settlement/postgres/settlement_repo.go\<close>. Closing a period writes one row per vendor with
  the charged orders of the period; voiding a row allows the period to be closed again.
\<close>

section \<open>Aggregates over the order table\<close>

record vendor_aggregate =
  va_vendor :: uuid
  va_count :: int
  va_portions :: int
  va_gross :: int
  va_orders :: "uuid list"

record status_breakdown =
  sb_picked_up :: int
  sb_no_show :: int
  sb_cancelled :: int
  sb_refunded :: int

record reconciliation =
  rc_vendor :: uuid
  rc_start :: date
  rc_end :: date
  rc_count :: int
  rc_portions :: int
  rc_gross :: int
  rc_breakdown :: status_breakdown

record settlement_line =
  sl_order :: uuid
  sl_date :: date
  sl_status :: order_status
  sl_total :: int
  sl_portions :: int

definition portions_of :: "db \<Rightarrow> uuid \<Rightarrow> int" where
  "portions_of d oid = sql_sum (\<lambda>i. i_order i = oid) i_qty (order_items d)"

text \<open>
  \<open>SUM\<close> over \<open>BIGINT\<close> is exact (\<open>NUMERIC\<close>); a sum outside \<open>int64\<close> cannot be scanned, which is
  an error the driver raises.
\<close>

definition scan_error :: err where "scan_error = DbErr IoErr"

definition aggregate_rows :: "db \<Rightarrow> uuid \<Rightarrow> order_row list \<Rightarrow> vendor_aggregate" where
  "aggregate_rows d v rs = \<lparr>va_vendor = v, va_count = int (length rs),
     va_portions = sum_list (map (\<lambda>r. portions_of d (o_id r)) rs), va_gross = sum_list (map o_total rs),
     va_orders = map o_id (sort_key o_date (sort_key o_id rs))\<rparr>"

definition aggregate_fits :: "vendor_aggregate \<Rightarrow> bool" where
  "aggregate_fits a \<longleftrightarrow> in_i64 (va_portions a) \<and> in_i64 (va_gross a)"

definition vendors_of :: "order_row list \<Rightarrow> uuid list" where
  "vendors_of rs = sort (remdups (map o_vendor rs))"

definition aggregate_by_vendor :: "env \<Rightarrow> date \<Rightarrow> date \<Rightarrow> vendor_aggregate list io" where
  "aggregate_by_vendor E start until = query E (\<lambda>d.
     let rs = chargeable d start until;
         as = map (\<lambda>v. aggregate_rows d v (filter (\<lambda>r. o_vendor r = v) rs)) (vendors_of rs)
     in if list_all aggregate_fits as then Inr as else Inl scan_error)"

definition aggregate_for_vendor :: "env \<Rightarrow> uuid \<Rightarrow> date \<Rightarrow> date \<Rightarrow> vendor_aggregate io" where
  "aggregate_for_vendor E v start until = query E (\<lambda>d.
     let a = aggregate_rows d v (filter (\<lambda>r. o_vendor r = v) (chargeable d start until))
     in if aggregate_fits a then Inr a else Inl scan_error)"

definition count_status :: "order_row list \<Rightarrow> order_status \<Rightarrow> int" where
  "count_status rs s = int (sql_affected (\<lambda>r. o_status r = s) rs)"

definition status_breakdown_for_vendor :: "env \<Rightarrow> uuid \<Rightarrow> date \<Rightarrow> date \<Rightarrow> status_breakdown io" where
  "status_breakdown_for_vendor E v start until = query E (\<lambda>d.
     let rs = filter (\<lambda>r. o_vendor r = v \<and> start \<le> o_date r \<and> o_date r \<le> until) (orders d) in
     Inr \<lparr>sb_picked_up = count_status rs PickedUp, sb_no_show = count_status rs NoShow,
          sb_cancelled = count_status rs Cancelled, sb_refunded = count_status rs Refunded\<rparr>)"

definition order_lines_by_ids :: "env \<Rightarrow> uuid list \<Rightarrow> settlement_line list io" where
  "order_lines_by_ids E ids =
     (if ids = [] then ret []
      else query E (\<lambda>d. Inr (map (\<lambda>r. \<lparr>sl_order = o_id r, sl_date = o_date r, sl_status = o_status r,
          sl_total = o_total r, sl_portions = portions_of d (o_id r)\<rparr>)
        (sort_key o_date (sort_key o_id (filter (\<lambda>r. o_id r \<in> set ids) (orders d)))))))"

section \<open>The settlement table\<close>

definition settlement_check :: "db \<Rightarrow> settlement \<Rightarrow> err option" where
  "settlement_check d s = checks
     [(\<not> int4_ok (st_order_count s) \<or> \<not> int4_ok (st_portions s), scan_error),
      (st_order_count s < 0 \<or> st_portions s < 0 \<or> st_gross s < 0 \<or> st_end s < st_start s, check_violation),
      (st_id s \<in> st_id ` set (settlements d), unique_violation),
      (st_status s = StClosed \<and> list_ex (\<lambda>x. st_status x = StClosed \<and> st_vendor x = st_vendor s
          \<and> st_start x = st_start s \<and> st_end x = st_end s) (settlements d), SettlementErr ErrPeriodAlreadyClosed),
      (st_vendor s \<notin> v_id ` set (vendors d) \<or> \<not> fk_user d (st_closed_by s), fk_violation)]"

definition settlement_create_tx :: "env \<Rightarrow> settlement \<Rightarrow> settlement io" where
  "settlement_create_tx E s = insert_row E settlements_update settlement_check
     (\<lambda>i. s\<lparr>st_id := i, st_closed_at := e_dbnow E, st_created_at := e_dbnow E\<rparr>)"

definition settlement_get_by_id :: "env \<Rightarrow> uuid \<Rightarrow> settlement io" where
  "settlement_get_by_id E i = get_row E settlements st_id (SettlementErr ErrSettlementNotFound) i"

definition settlement_list_by_vendor :: "env \<Rightarrow> uuid \<Rightarrow> settlement list io" where
  "settlement_list_by_vendor E v = select_rows E settlements (\<lambda>s. st_vendor s = v)
     (\<lambda>ss. sort_key (\<lambda>s. - st_start s) (sort_key (\<lambda>s. - st_created_at s) ss))"

definition settlement_list_by_period :: "env \<Rightarrow> date \<Rightarrow> date \<Rightarrow> settlement list io" where
  "settlement_list_by_period E start until =
     select_rows E settlements (\<lambda>s. st_start s \<le> until \<and> start \<le> st_end s)
       (\<lambda>ss. sort_key (\<lambda>s. - st_start s) (sort_key st_vendor ss))"

definition settlement_void_tx :: "env \<Rightarrow> uuid \<Rightarrow> unit io" where
  "settlement_void_tx E i = update_rows E settlements settlements_update no_check
     (Some (SettlementErr ErrSettlementInvalidTransition))
     (\<lambda>s. st_id s = i \<and> st_status s = StClosed) (\<lambda>s. s\<lparr>st_status := StVoid\<rparr>)"

section \<open>The service\<close>

record close_input =
  ci_start :: date
  ci_end :: date
  ci_closed_by :: uuid

definition new_settlement :: "close_input \<Rightarrow> vendor_aggregate \<Rightarrow> settlement" where
  "new_settlement inp a = \<lparr>st_id = '''', st_vendor = va_vendor a, st_start = ci_start inp, st_end = ci_end inp,
     st_order_count = va_count a, st_portions = va_portions a, st_gross = va_gross a, st_orders = va_orders a,
     st_status = StClosed, st_closed_at = 0, st_closed_by = Some (ci_closed_by inp), st_created_at = 0\<rparr>"

definition close_body :: "env \<Rightarrow> close_input \<Rightarrow> vendor_aggregate list \<Rightarrow> settlement list io" where
  "close_body E inp aggs =
     bind (collect (\<lambda>a. settlement_create_tx E (new_settlement inp a)) aggs) (\<lambda>out.
     bind (audit_write_tx E (audit_of (Some (ci_closed_by inp)) (Some WelfareAdmin) ''settlement.close''
        ''vendor_settlement_period'' (date_text (ci_start inp) @ ''/'' @ date_text (ci_end inp))
        [(''period_start'', JStr (date_text (ci_start inp))), (''period_end'', JStr (date_text (ci_end inp))),
         (''vendor_count'', JInt (int (length out)))])) (\<lambda>_.
     ret out))"

definition close_settlement :: "env \<Rightarrow> close_input \<Rightarrow> settlement list io" where
  "close_settlement E inp =
     (if ci_end inp < ci_start inp then fail (SettlementErr ErrInvalidPeriod)
      else bind (aggregate_by_vendor E (ci_start inp) (ci_end inp)) (\<lambda>aggs.
        if aggs = [] then fail (SettlementErr ErrNoOrdersInPeriod)
        else begin_func E (\<lambda>_. close_body E inp aggs)))"

definition void_body :: "env \<Rightarrow> settlement \<Rightarrow> uuid \<Rightarrow> uuid \<Rightarrow> unit io" where
  "void_body E s i by_user =
     bind (settlement_void_tx E i) (\<lambda>_.
     audit_write_tx E (audit_of (Some by_user) (Some WelfareAdmin) ''settlement.void'' ''vendor_settlement'' i
       [(''settlement_id'', JStr i), (''vendor_id'', JStr (st_vendor s)),
        (''period_start'', JStr (date_text (st_start s))), (''period_end'', JStr (date_text (st_end s)))]))"

definition void_settlement :: "env \<Rightarrow> uuid \<Rightarrow> uuid \<Rightarrow> unit io" where
  "void_settlement E i by_user =
     bind (settlement_get_by_id E i) (\<lambda>s.
       if st_status s \<noteq> StClosed then fail (SettlementErr ErrSettlementInvalidTransition)
       else begin_func E (\<lambda>_. void_body E s i by_user))"

definition reconcile :: "env \<Rightarrow> uuid \<Rightarrow> date \<Rightarrow> date \<Rightarrow> reconciliation io" where
  "reconcile E v start until =
     (if until < start then fail (SettlementErr ErrInvalidPeriod)
      else bind (aggregate_for_vendor E v start until) (\<lambda>a.
        bind (status_breakdown_for_vendor E v start until) (\<lambda>b.
        ret \<lparr>rc_vendor = v, rc_start = start, rc_end = until, rc_count = va_count a, rc_portions = va_portions a,
             rc_gross = va_gross a, rc_breakdown = b\<rparr>)))"

definition list_vendor_settlements :: "env \<Rightarrow> uuid \<Rightarrow> settlement list io" where
  "list_vendor_settlements E v = settlement_list_by_vendor E v"

definition get_vendor_settlement :: "env \<Rightarrow> uuid \<Rightarrow> uuid \<Rightarrow> (settlement \<times> settlement_line list) io" where
  "get_vendor_settlement E v i =
     bind (settlement_get_by_id E i) (\<lambda>s.
       if st_vendor s \<noteq> v then fail (SettlementErr ErrSettlementNotFound)
       else bind (order_lines_by_ids E (st_orders s)) (\<lambda>lines. ret (s, lines)))"

definition list_settlements_by_period :: "env \<Rightarrow> date \<Rightarrow> date \<Rightarrow> settlement list io" where
  "list_settlements_by_period E start until =
     (if until < start then fail (SettlementErr ErrInvalidPeriod)
      else settlement_list_by_period E start until)"

lemmas settlement_runs [run_simps] = settlement_create_tx_def settlement_get_by_id_def
  settlement_list_by_vendor_def settlement_list_by_period_def settlement_void_tx_def settlement_check_def
  fun_cong [OF aggregate_by_vendor_def] fun_cong [OF aggregate_for_vendor_def]
  fun_cong [OF status_breakdown_for_vendor_def] fun_cong [OF order_lines_by_ids_def]
  fun_cong [OF close_body_def] fun_cong [OF close_settlement_def] fun_cong [OF void_body_def]
  fun_cong [OF void_settlement_def] fun_cong [OF reconcile_def] fun_cong [OF get_vendor_settlement_def]
  fun_cong [OF list_settlements_by_period_def] aggregate_rows_def aggregate_fits_def vendors_of_def
  new_settlement_def portions_of_def in_i64_def int4_ok_def int4_max_def

section \<open>Effects\<close>

lemma ro_settlement_reads [ro_intros]:
  "ro (aggregate_by_vendor E s u)" "ro (aggregate_for_vendor E v s u)" "ro (status_breakdown_for_vendor E v s u)"
  "ro (order_lines_by_ids E is)" "ro (settlement_get_by_id E i)" "ro (settlement_list_by_vendor E v)"
  "ro (settlement_list_by_period E s u)" "ro (reconcile E v s u)" "ro (get_vendor_settlement E v i)"
  by (auto simp: aggregate_by_vendor_def aggregate_for_vendor_def status_breakdown_for_vendor_def
      order_lines_by_ids_def settlement_get_by_id_def settlement_list_by_vendor_def
      settlement_list_by_period_def reconcile_def get_vendor_settlement_def intro!: ro_intros)

lemma atomic_settlement_ops [atomic_intros]:
  "atomic (close_settlement E inp)" "atomic (void_settlement E i u)"
  unfolding close_settlement_def void_settlement_def
  by (intro atomic_op ro_settlement_reads)+

text \<open>The rows a close inserts: each aggregate's row, each against the rows before it.\<close>

definition settles :: "close_input \<Rightarrow> vendor_aggregate \<Rightarrow> settlement \<Rightarrow> bool" where
  "settles inp a s \<longleftrightarrow> st_vendor s = va_vendor a \<and> st_start s = ci_start inp \<and> st_end s = ci_end inp
     \<and> st_order_count s = va_count a \<and> st_portions s = va_portions a \<and> st_gross s = va_gross a
     \<and> st_orders s = va_orders a \<and> st_status s = StClosed"

definition active_for :: "settlement list \<Rightarrow> uuid \<Rightarrow> date \<Rightarrow> date \<Rightarrow> bool" where
  "active_for ss v s u \<longleftrightarrow> list_ex (\<lambda>x. st_status x = StClosed \<and> st_vendor x = v \<and> st_start x = s \<and> st_end x = u) ss"

lemma settlement_create_ok:
  assumes "settlement_create_tx E (new_settlement inp a) w = (Inr s, w')"
  shows "settles inp a s" "w_db w' = (w_db w)\<lparr>settlements := settlements (w_db w) @ [s]\<rparr>"
    "\<not> active_for (settlements (w_db w)) (va_vendor a) (ci_start inp) (ci_end inp)"
    "st_id s \<notin> st_id ` set (settlements (w_db w))" "0 \<le> va_portions a" "0 \<le> va_gross a"
  using insert_row_ok [OF assms [unfolded settlement_create_tx_def]]
  by (simp_all add: settlement_check_def new_settlement_def settles_def active_for_def)

lemma active_for_append [simp]: "active_for (xs @ ys) v s u \<longleftrightarrow> active_for xs v s u \<or> active_for ys v s u"
  by (simp add: active_for_def)

lemma settlement_loop_ok:
  "collect (\<lambda>a. settlement_create_tx E (new_settlement inp a)) as w = (Inr out, w') \<Longrightarrow>
     list_all2 (settles inp) as out \<and> w_db w' = (w_db w)\<lparr>settlements := settlements (w_db w) @ out\<rparr>
     \<and> (\<forall>a\<in>set as. \<not> active_for (settlements (w_db w)) (va_vendor a) (ci_start inp) (ci_end inp))
     \<and> (\<forall>a\<in>set as. 0 \<le> va_gross a)
     \<and> (settlement_tbl.keyed (w_db w) \<longrightarrow> settlement_tbl.keyed (w_db w'))"
proof (induction as arbitrary: w out)
  case Nil
  then show ?case by (simp add: io_simps)
next
  case (Cons a as)
  then obtain s w1 rest where 1: "settlement_create_tx E (new_settlement inp a) w = (Inr s, w1)"
    and 2: "collect (\<lambda>a. settlement_create_tx E (new_settlement inp a)) as w1 = (Inr rest, w')"
    and out: "out = s # rest"
    by (auto simp: io_simps)
  note C = settlement_create_ok [OF 1] and R = Cons.IH [OF 2]
  have "settlement_tbl.keyed (w_db w) \<longrightarrow> settlement_tbl.keyed (w_db w1)"
    using C(2,4) by (simp add: settlement_tbl.keyed_def)
  with R have "settlement_tbl.keyed (w_db w) \<longrightarrow> settlement_tbl.keyed (w_db w')" by blast
  moreover have "w_db w' = (w_db w)\<lparr>settlements := settlements (w_db w) @ out\<rparr>" using R C(2) out by simp
  moreover have "list_all2 (settles inp) (a # as) out" using R C(1) out by simp
  moreover have "\<forall>x\<in>set (a # as). \<not> active_for (settlements (w_db w)) (va_vendor x) (ci_start inp) (ci_end inp)"
    using R C(2,3) by simp
  moreover have "\<forall>x\<in>set (a # as). 0 \<le> va_gross x" using R C(6) by simp
  ultimately show ?case by blast
qed

definition charged_vendor :: "db \<Rightarrow> close_input \<Rightarrow> uuid \<Rightarrow> order_row list" where
  "charged_vendor d inp v = filter (\<lambda>r. o_vendor r = v) (chargeable d (ci_start inp) (ci_end inp))"

lemma close_run:
  assumes "close_settlement E inp w = (Inr out, w')"
  obtains as a where "as = map (\<lambda>v. aggregate_rows (w_db w) v (charged_vendor (w_db w) inp v))
         (vendors_of (chargeable (w_db w) (ci_start inp) (ci_end inp)))"
    "list_all aggregate_fits as" "as \<noteq> []" "list_all2 (settles inp) as out" "ci_start inp \<le> ci_end inp"
    "w_db w' = (w_db w)\<lparr>settlements := settlements (w_db w) @ out, audits := audits (w_db w) @ [a]\<rparr>"
    "\<forall>x\<in>set as. \<not> active_for (settlements (w_db w)) (va_vendor x) (ci_start inp) (ci_end inp)"
    "settlement_tbl.keyed (w_db w) \<longrightarrow> settlement_tbl.keyed (w_db w')" "\<forall>x\<in>set as. 0 \<le> va_gross x"
proof -
  from assms have le: "ci_start inp \<le> ci_end inp" by (auto simp: close_settlement_def io_simps split: if_splits)
  from assms obtain as v where as: "aggregate_by_vendor E (ci_start inp) (ci_end inp) w = (Inr as, v)" "as \<noteq> []"
    and b: "begin_func E (\<lambda>_. close_body E inp as) v = (Inr out, w')"
    by (auto simp: close_settlement_def io_simps split: if_splits)
  from as(1) have A: "as = map (\<lambda>v. aggregate_rows (w_db w) v (charged_vendor (w_db w) inp v))
         (vendors_of (chargeable (w_db w) (ci_start inp) (ci_end inp)))" "list_all aggregate_fits as" "w_db v = w_db w"
    by (auto simp: aggregate_by_vendor_def charged_vendor_def io_simps Let_def split: if_splits)
  from b obtain v1 v2 v3 e where c: "collect (\<lambda>a. settlement_create_tx E (new_settlement inp a)) as v1 = (Inr out, v2)"
    and au: "audit_write_tx E e v2 = (Inr (), v3)" and db: "w_db v1 = w_db v" "w_db w' = w_db v3"
    unfolding close_body_def by (auto simp: begin_func_ok io_simps)
  note L = settlement_loop_ok [OF c]
  from au obtain a where "w_db v3 = (w_db v2)\<lparr>audits := audits (w_db v2) @ [a]\<rparr>"
    by (auto simp: audit_write_tx_def io_simps Let_def split: if_splits)
  with L A(3) db have w': "w_db w' = (w_db w)\<lparr>settlements := settlements (w_db w) @ out, audits := audits (w_db w) @ [a]\<rparr>"
    by simp
  have k: "settlement_tbl.keyed (w_db w) \<longrightarrow> settlement_tbl.keyed (w_db w')"
  proof -
    have "settlements (w_db w') = settlements (w_db v2)" using L A(3) db(1) w' by simp
    then have "settlement_tbl.keyed (w_db w') = settlement_tbl.keyed (w_db v2)"
      by (simp add: settlement_tbl.keyed_def)
    moreover have "settlement_tbl.keyed (w_db w) = settlement_tbl.keyed (w_db v1)" using A(3) db(1) by simp
    ultimately show ?thesis using L by blast
  qed
  show thesis
    by (rule that [OF A(1,2) as(2) _ le w' _ k]) (use L db(1) A(3) in auto)
qed

end
