(* ===== verification/Frames.thy ===== *)
theory Frames
  imports Reorder Sweepers Settlement Payroll
begin

text \<open>
  What the services do not touch. A predicate on the database that does not read the tables a
  service writes is kept by every operation of that service, whatever its outcome: one locale per
  service states which tables it writes, and the components that own the other tables interpret
  it on their invariants.
\<close>

section \<open>The logs\<close>

locale log_frame =
  fixes I :: "db \<Rightarrow> bool"
  assumes I_audits: "I (audits_update f d) = I d"
    and I_outbox: "I (outbox_update ob d) = I d"
begin

lemma keeps_logs: "keeps I (outbox_append_tx E ty i subj pl hs)" "keeps I (audit_write_tx E e)"
  by (simp_all add: keeps_outbox_append keeps_audit_write I_audits I_outbox)

end

section \<open>Orders and supplies\<close>

locale order_frame = log_frame +
  assumes I_supplies: "I (supplies_update g d) = I d"
    and I_orders: "I (orders_update h d) = I d"
    and I_order_items: "I (order_items_update k d) = I d"
    and I_state_events: "I (state_events_update l d) = I d"
begin

lemma keeps_supply_statements:
  "keeps I (sql_decrement E k n)" "keeps I (restore_tx E i dt n)" "keeps I (supply_set_sold_out E i dt b)"
  "keeps I (supply_upsert E s)"
  unfolding sql_decrement_def restore_tx_def supply_set_sold_out_def supply_upsert_def
  by (intro keeps_op keeps_exec; auto simp: I_supplies Let_def split: if_splits option.splits)+

lemma keeps_decrement: "keeps I (decrement_tx E i dt n)"
  unfolding decrement_tx_def by (intro keeps_op keeps_supply_statements ro_order_reads [THEN keeps_ro])

lemma keeps_order_statements:
  "keeps I (order_update_where E Q f i)" "keeps I (insert_item E i it)" "keeps I (insert_order_row E x)"
  "keeps I (delete_items E i)" "keeps I (update_order_total E i n s)" "keeps I (state_append_tx E ev)"
  unfolding order_update_where_def insert_item_def insert_order_row_def delete_items_def
    update_order_total_def state_append_tx_def
  by (intro keeps_exec; auto simp: I_orders I_order_items I_state_events Let_def split: if_splits)+

lemma keeps_order_repo:
  "keeps I (update_status_tx E a b i)" "keeps I (mark_ready_tx E i)" "keeps I (mark_picked_up_tx E i)"
  "keeps I (mark_no_show_tx E i)" "keeps I (order_create_tx E x)" "keeps I (replace_items_tx E i its n s)"
  unfolding update_status_tx_def mark_ready_tx_def mark_picked_up_tx_def mark_no_show_tx_def order_create_tx_def
    replace_items_tx_def
  by (intro keeps_op keeps_collect keeps_order_statements)+

lemmas keeps_statements = keeps_order_repo keeps_decrement keeps_supply_statements keeps_order_statements
  keeps_logs

lemma keeps_trail: "keeps I (append_trail E ev subject pl action)"
  unfolding append_trail_def by (intro keeps_op keeps_statements)

lemma keeps_bodies:
  "keeps I (create_body E dt x ev epl action)" "keeps I (cancel_body E x u)" "keeps I (modify_body E mo x its n delta)"
  "keeps I (mark_one_ready E snap v u i)" "keeps I (pickup_body E x i u)" "keeps I (no_show_body E x)"
  "keeps I (cutoff_body E x)"
  unfolding create_body_def cancel_body_def modify_body_def mark_one_ready_def pickup_body_def no_show_body_def
    cutoff_body_def decrement_items_def restore_items_def apply_quota_delta_def Let_def
  by (intro keeps_op keeps_trail keeps_statements ro_order_reads [THEN keeps_ro])+

lemma keeps_order_ops:
  "keeps I (place E p)" "keeps I (cancel E i u)" "keeps I (modify E mo)" "keeps I (mark_ready E v is u)"
  "keeps I (pickup E i u)" "keeps I (mark_no_show E age)" "keeps I (cutoff_run_once E)"
  "keeps I (no_show_run_once E age)" "keeps I (reorder E r)"
  unfolding place_def persist_placed_order_def place_body_def cancel_def persist_cancel_order_def modify_def
    persist_modified_order_def mark_ready_def pickup_def mark_no_show_def no_show_one_def cutoff_run_once_def
    transition_one_def no_show_run_once_def reorder_def persist_reorder_tx_def reorder_body_def
  by (intro keeps_op keeps_tx keeps_sweep keeps_bodies ro_resolve [THEN keeps_ro] ro_order_reads [THEN keeps_ro]
      ro_reorder_reads [THEN keeps_ro])+

lemma keeps_quota_ops:
  "keeps I (quota_set_capacity E v q)" "keeps I (quota_set_sold_out E v i dt b)"
  unfolding quota_set_capacity_def quota_set_sold_out_def Let_def
  by (intro keeps_op keeps_statements ro_supply_get [THEN keeps_ro] ro_catalog [THEN keeps_ro])+

end

section \<open>Payroll\<close>

locale payroll_frame = log_frame +
  assumes I_orders: "I (orders_update h d) = I d"
    and I_batches: "I (batches_update g d) = I d"
    and I_entries: "I (entries_update k d) = I d"
    and I_disputes: "I (disputes_update l d) = I d"
    and I_exceptions: "I (exceptions_update m d) = I d"
begin

lemma keeps_statements:
  "keeps I (batch_create_tx E b)" "keeps I (batch_update_status_tx E st st' u i)" "keeps I (entry_create_tx E e)"
  "keeps I (entry_increment_refunded_tx E i n)" "keeps I (dispute_create E x)"
  "keeps I (dispute_update_status_tx E i ds u r n)" "keeps I (exception_create E y)"
  "keeps I (exception_resolve E i xs r v)" "keeps I (exception_upsert_departed_tx E i)"
  "keeps I (batch_set_export_info_tx E i uri t)" "keeps I (order_update_where E Q f i)"
  unfolding batch_create_tx_def batch_update_status_tx_def entry_create_tx_def entry_increment_refunded_tx_def
    dispute_create_def dispute_update_status_tx_def exception_create_def exception_resolve_def
    exception_upsert_departed_tx_def batch_set_export_info_tx_def order_update_where_def
  by (simp_all add: keeps_table_writes I_batches I_entries I_disputes I_exceptions)
    (auto intro!: keeps_exec simp: Let_def I_orders I_exceptions split: sum.splits if_splits)

lemma keeps_payroll_ops:
  "keeps I (build_draft E bd)" "keeps I (lock_batch E i u)" "keeps I (open_dispute E od)"
  "keeps I (open_dispute_by_order E i u r)" "keeps I (resolve_dispute E rd)" "keeps I (reverse_order E i)"
  "keeps I (list_exceptions E i)" "keeps I (flag_exception E fe)" "keeps I (resolve_exception E i xs r u)"
  unfolding build_draft_def persist_draft_batch_def lock_batch_def lock_body_def open_dispute_by_order_def
    open_dispute_def resolve_dispute_def resolve_body_def apply_dispute_refund_def
    record_dispute_resolution_def reverse_order_def reverse_body_def list_exceptions_def flag_exception_def
    resolve_exception_def exception_upsert_departed_def update_status_tx_def Let_def
  by (intro keeps_op keeps_tx keeps_statements keeps_logs ro_payroll_reads [THEN keeps_ro]
      ro_order_reads [THEN keeps_ro])+

end

section \<open>Settlements\<close>

locale settlement_frame = log_frame +
  assumes I_settlements: "I (settlements_update g d) = I d"
begin

lemma keeps_statements: "keeps I (settlement_create_tx E s)" "keeps I (settlement_void_tx E i)"
  unfolding settlement_create_tx_def settlement_void_tx_def
  by (simp_all add: keeps_table_writes I_settlements)

lemma keeps_settlement_ops: "keeps I (close_settlement E c)" "keeps I (void_settlement E i u)"
  unfolding close_settlement_def close_body_def void_settlement_def void_body_def
  by (intro keeps_op keeps_collect keeps_tx keeps_statements keeps_logs ro_settlement_reads [THEN keeps_ro])+

end

end
