(* ===== verification/Feedback_Inv.thy ===== *)
theory Feedback_Inv
  imports Feedback Frames
begin

text \<open>
  The complaint workflow as an invariant and as a state machine: every feedback operation keeps
  \<open>feedback_inv\<close>, and the only thing it does to the status of an existing complaint is to move
  it along an edge of the workflow. \<open>complaint_at\<close> is the abstract state of the component.
\<close>

section \<open>What the statements do\<close>

lemma feedback_inv_cong:
  "ratings d' = ratings d \<Longrightarrow> complaints d' = complaints d \<Longrightarrow> feedback_inv d' = feedback_inv d"
  by (simp add: feedback_inv_def unresolved_def)

interpretation feedback_order: order_frame feedback_inv
  by unfold_locales (rule feedback_inv_cong; simp)+

interpretation feedback_payroll: payroll_frame feedback_inv
  by unfold_locales (rule feedback_inv_cong; simp)+

interpretation feedback_settlement: settlement_frame feedback_inv
  by unfold_locales (rule feedback_inv_cong; simp)+

lemma rating_create_ok:
  assumes "rating_create_tx E r w = (Inr y, w')"
  shows "y = r\<lparr>r_id := r_id y, r_created_at := e_dbnow E\<rparr>" "w_db w' = (w_db w)\<lparr>ratings := ratings (w_db w) @ [y]\<rparr>"
    "1 \<le> r_score r" "r_score r \<le> 5" "r_order r \<notin> r_order ` set (ratings (w_db w))"
proof -
  note I = insert_row_ok [OF assms [unfolded rating_create_tx_def]]
  show "y = r\<lparr>r_id := r_id y, r_created_at := e_dbnow E\<rparr>" using I(1) by simp
  show "w_db w' = (w_db w)\<lparr>ratings := ratings (w_db w) @ [y]\<rparr>" using I(3) by simp
  show "1 \<le> r_score r" "r_score r \<le> 5" "r_order r \<notin> r_order ` set (ratings (w_db w))"
    using I(2) by (auto simp: I(1) rating_check_def)
qed

lemma complaint_create_ok:
  assumes "complaint_create_tx E c w = (Inr y, w')"
  shows "y = c\<lparr>c_id := c_id y, c_created_at := e_dbnow E, c_updated_at := e_dbnow E\<rparr>"
    "w_db w' = (w_db w)\<lparr>complaints := complaints (w_db w) @ [y]\<rparr>"
    "c_id y \<notin> c_id ` set (complaints (w_db w))"
    "c_status c \<noteq> CResolved \<Longrightarrow> c_order c \<notin> set (unresolved (w_db w))"
proof -
  note I = insert_row_ok [OF assms [unfolded complaint_create_tx_def]]
  show "y = c\<lparr>c_id := c_id y, c_created_at := e_dbnow E, c_updated_at := e_dbnow E\<rparr>" using I(1) by simp
  show "w_db w' = (w_db w)\<lparr>complaints := complaints (w_db w) @ [y]\<rparr>" using I(3) by simp
  show "c_id y \<notin> c_id ` set (complaints (w_db w))"
    "c_status c \<noteq> CResolved \<Longrightarrow> c_order c \<notin> set (unresolved (w_db w))"
    using I(2) by (auto simp: I(1) complaint_check_def unresolved_def)
qed

lemma complaint_update_ok:
  assumes "complaint_update_status_tx E from to f i w = (Inr (), w')"
  shows "w_db w' = (w_db w)\<lparr>complaints := sql_update (\<lambda>c. c_id c = i \<and> c_status c = from)
      (apply_complaint_update (e_dbnow E) to f) (complaints (w_db w))\<rparr>"
    "\<exists>c\<in>set (complaints (w_db w)). c_id c = i \<and> c_status c = from"
  using update_rows_ok [OF assms [unfolded complaint_update_status_tx_def]] by simp_all

lemma keeps_rating_create: "keeps feedback_inv (rating_create_tx E r)"
proof (rule keeps_of_ok [OF atomic_feedback_statements(1)])
  fix w y w'
  assume inv: "feedback_inv (w_db w)" and run: "rating_create_tx E r w = (Inr y, w')"
  note R = rating_create_ok [OF run]
  have "r_order y = r_order r" "r_score y = r_score r" by (subst R(1), simp)+
  with inv R(3-5) show "feedback_inv (w_db w')"
    by (auto simp: R(2) feedback_inv_def unresolved_def)
qed

lemma keeps_complaint_create: "c_status c = COpen \<Longrightarrow> stamps_ok c \<Longrightarrow> keeps feedback_inv (complaint_create_tx E c)"
proof (rule keeps_of_ok [OF atomic_feedback_statements(2)])
  fix w y w'
  assume c: "c_status c = COpen" "stamps_ok c" and inv: "feedback_inv (w_db w)"
    and run: "complaint_create_tx E c w = (Inr y, w')"
  note R = complaint_create_ok [OF run]
  have y: "c_order y = c_order c" "c_status y = c_status c" by (subst R(1), simp)+
  have "stamps_ok y" using c by (subst R(1)) (simp add: stamps_ok_def)
  with inv R(3) R(4) c(1) y show "feedback_inv (w_db w')"
    by (auto simp: R(2) feedback_inv_def unresolved_def)
qed

lemma keeps_complaint_update:
  assumes "complaint_edge from to"
  shows "keeps feedback_inv (complaint_update_status_tx E from to f i)"
proof (rule keeps_of_ok [OF atomic_feedback_statements(3)])
  fix w y w'
  assume inv: "feedback_inv (w_db w)" and run: "complaint_update_status_tx E from to f i w = (Inr y, w')"
  then have R: "w_db w' = (w_db w)\<lparr>complaints := sql_update (\<lambda>c. c_id c = i \<and> c_status c = from)
      (apply_complaint_update (e_dbnow E) to f) (complaints (w_db w))\<rparr>"
    by (intro complaint_update_ok) simp
  have "from \<noteq> CResolved" using assms by auto
  then have "distinct (unresolved (w_db w'))"
    unfolding R unresolved_def using inv
    by (simp, intro unresolved_update) (auto simp: feedback_inv_def unresolved_def)
  moreover have "\<forall>c\<in>set (complaints (w_db w')). stamps_ok c"
    unfolding R using inv assms by (auto simp: set_sql_update feedback_inv_def stamps_update)
  ultimately show "feedback_inv (w_db w')"
    using inv by (simp add: feedback_inv_def R map_sql_update)
qed

section \<open>The operations\<close>

lemmas feedback_keeps = keeps_op keeps_tx feedback_order.keeps_logs ro_feedback_reads [THEN keeps_ro]

lemma keeps_transition: "complaint_edge (ct_from t) (ct_to t) \<Longrightarrow> keeps feedback_inv (transition E c t)"
  unfolding transition_def transition_body_def by (intro feedback_keeps keeps_complaint_update)

lemma keeps_feedback_ops [keeps_intros]:
  "keeps feedback_inv (rate_order E r)" "keeps feedback_inv (file_complaint E f)"
  "keeps feedback_inv (respond_to_complaint E i v u s)" "keeps feedback_inv (escalate_complaint E i u)"
  "keeps feedback_inv (employee_resolve_complaint E i u)"
  "keeps feedback_inv (admin_resolve_complaint E rv i a s b)"
  unfolding rate_order_def rate_body_def file_complaint_def file_body_def respond_to_complaint_def
    escalate_complaint_def employee_resolve_complaint_def admin_resolve_complaint_def Let_def
  by (intro feedback_keeps keeps_rating_create keeps_complaint_create keeps_transition
      feedback_payroll.keeps_payroll_ops; auto simp: new_complaint_def stamps_ok_def admin_transition_def)+

section \<open>The workflow\<close>

text \<open>The abstract state: where every complaint stands.\<close>

definition complaint_at :: "db \<Rightarrow> uuid \<Rightarrow> complaint_status option" where
  "complaint_at d i = map_option c_status (by_key c_id i (complaints d))"

text \<open>One step of the abstract machine: nothing, a new open complaint, or one complaint moving along an edge.\<close>

inductive workflow_step :: "(uuid \<Rightarrow> complaint_status option) \<Rightarrow> (uuid \<Rightarrow> complaint_status option) \<Rightarrow> bool" where
  Stay: "workflow_step s s"
| File: "s i = None \<Longrightarrow> workflow_step s (s(i \<mapsto> COpen))"
| Move: "s i = Some a \<Longrightarrow> complaint_edge a b \<Longrightarrow> workflow_step s (s(i \<mapsto> b))"

inductive_cases workflow_stepE: "workflow_step s s'"

inductive_simps workflow_from_empty: "workflow_step Map.empty s'"

text \<open>A step never takes a complaint back, and a resolved complaint stays resolved.\<close>

lemma workflow_rank:
  assumes "workflow_step s s'" "s i = Some a"
  shows "\<exists>b. s' i = Some b \<and> complaint_rank a \<le> complaint_rank b"
  using assms by (cases rule: workflow_step.cases) (auto dest!: edge_rank)

lemma complaint_at_cong: "complaints d' = complaints d \<Longrightarrow> complaint_at d' = complaint_at d"
  by (simp add: complaint_at_def fun_eq_iff)

interpretation at_order: order_frame "\<lambda>d. complaint_at d = s" for s
  by unfold_locales (simp_all add: complaint_at_def fun_eq_iff)

interpretation at_payroll: payroll_frame "\<lambda>d. complaint_at d = s" for s
  by unfold_locales (simp_all add: complaint_at_def fun_eq_iff)

lemma complaint_update_at:
  assumes "distinct (map c_id (complaints (w_db w)))"
    and "complaint_update_status_tx E from to f i w = (Inr (), w')"
  shows "complaint_at (w_db w) i = Some from" "complaint_at (w_db w') = (complaint_at (w_db w))(i \<mapsto> to)"
proof -
  note R = complaint_update_ok [OF assms(2)]
  from R(2) assms(1) obtain c where c: "by_key c_id i (complaints (w_db w)) = Some c" "c_status c = from"
    by (auto simp: by_key_iff)
  show "complaint_at (w_db w) i = Some from" using c by (simp add: complaint_at_def)
  show "complaint_at (w_db w') = (complaint_at (w_db w))(i \<mapsto> to)"
  proof
    fix j
    show "complaint_at (w_db w') j = ((complaint_at (w_db w))(i \<mapsto> to)) j"
      using c by (cases "by_key c_id j (complaints (w_db w))")
        (auto simp: complaint_at_def R(1) by_key_sql_update dest: by_key_SomeD)
  qed
qed

lemma transition_ok:
  assumes "feedback_inv (w_db w)" "transition E c t w = (Inr (), w')"
  shows "complaint_at (w_db w) (c_id c) = Some (ct_from t)"
    and "complaint_at (w_db w') = (complaint_at (w_db w))(c_id c \<mapsto> ct_to t)"
    and "\<exists>a. w_db w' = (w_db w)\<lparr>complaints := complaints (w_db w'), audits := audits (w_db w) @ [a]\<rparr>
           \<and> au_action a = ct_action t \<and> au_actor a = Some (ct_actor t) \<and> au_target a = c_id c
           \<and> au_payload a = transition_payload c t"
    and "complaints (w_db w') = sql_update (\<lambda>x. c_id x = c_id c \<and> c_status x = ct_from t)
      (apply_complaint_update (e_dbnow E) (ct_to t) (ct_fields t)) (complaints (w_db w))"
proof -
  from assms(2) obtain v v' where v: "w_db v = w_db w" "transition_body E c t v = (Inr (), v')" "w_db w' = w_db v'"
    unfolding transition_def by (metis begin_func_run)
  then obtain v1 where 1: "complaint_update_status_tx E (ct_from t) (ct_to t) (ct_fields t) (c_id c) v = (Inr (), v1)"
    and 2: "audit_write_tx E (feedback_audit (ct_actor t) (ct_role t) (ct_action t) ''meal_complaint'' (c_id c)
       (transition_payload c t)) v1 = (Inr (), v')"
    by (auto simp: transition_body_def bind_ok)
  have dist: "distinct (map c_id (complaints (w_db v)))" using assms(1) v(1) by (simp add: feedback_inv_def)
  note U = complaint_update_at [OF dist 1] and C = complaint_update_ok [OF 1] and A = audit_write_tx_ok [OF 2]
  show "complaint_at (w_db w) (c_id c) = Some (ct_from t)" using U(1) v(1) by simp
  have "complaint_at (w_db w') = complaint_at (w_db v1)"
    by (rule complaint_at_cong) (simp add: v(3) A)
  then show "complaint_at (w_db w') = (complaint_at (w_db w))(c_id c \<mapsto> ct_to t)" using U(2) v(1) by simp
  show "\<exists>a. w_db w' = (w_db w)\<lparr>complaints := complaints (w_db w'), audits := audits (w_db w) @ [a]\<rparr>
           \<and> au_action a = ct_action t \<and> au_actor a = Some (ct_actor t) \<and> au_target a = c_id c
           \<and> au_payload a = transition_payload c t"
    using C(1) A v by (intro exI [of _ "last (audits (w_db w'))"])
      (simp add: feedback_audit_def audit_of_def audit_entry.defs audit_row.defs)
  show "complaints (w_db w') = sql_update (\<lambda>x. c_id x = c_id c \<and> c_status x = ct_from t)
      (apply_complaint_update (e_dbnow E) (ct_to t) (ct_fields t)) (complaints (w_db w))"
    using C(1) A v by simp
qed

end
