(* ===== verification/Payroll_Inv.thy ===== *)
theory Payroll_Inv
  imports Payroll_Effects
begin

text \<open>
  The invariant of the payroll tables and its preservation: every entry charges orders that were
  picked up or missed, each once, at the sum of their prices, and what was refunded on it is
  covered by its refunded orders; every dispute on an entry is about one of its orders.
\<close>

section \<open>The invariant\<close>

definition charged :: "db \<Rightarrow> uuid \<Rightarrow> bool" where
  "charged d oid \<longleftrightarrow> status_at d oid \<in> {Some PickedUp, Some NoShow, Some Refunded}"

definition total_of :: "db \<Rightarrow> uuid \<Rightarrow> int" where
  "total_of d oid = (case by_key o_id oid (orders d) of None \<Rightarrow> 0 | Some r \<Rightarrow> o_total r)"

definition entry_ok :: "db \<Rightarrow> entry \<Rightarrow> bool" where
  "entry_ok d e \<longleftrightarrow> distinct (e_orders e) \<and> (\<forall>oid\<in>set (e_orders e). charged d oid)
     \<and> e_amount e = i64 (sum_list (map (total_of d) (e_orders e)))
     \<and> e_refunded e \<le> refunded_total d e"

definition dispute_ok :: "db \<Rightarrow> dispute \<Rightarrow> bool" where
  "dispute_ok d x \<longleftrightarrow> (\<forall>i. d_entry x = Some i \<longrightarrow> (\<exists>e\<in>set (entries d). e_id e = i \<and> d_order x \<in> set (e_orders e)))"

definition payroll_inv :: "db \<Rightarrow> bool" where
  "payroll_inv d \<longleftrightarrow> order_inv d \<and> entry_tbl.keyed d
     \<and> (\<forall>e\<in>set (entries d). entry_ok d e) \<and> (\<forall>x\<in>set (disputes d). dispute_ok d x)"

lemma payroll_invD:
  "payroll_inv d \<Longrightarrow> order_inv d" "payroll_inv d \<Longrightarrow> entry_tbl.keyed d"
  "payroll_inv d \<Longrightarrow> e \<in> set (entries d) \<Longrightarrow> entry_ok d e"
  "payroll_inv d \<Longrightarrow> x \<in> set (disputes d) \<Longrightarrow> dispute_ok d x"
  by (simp_all add: payroll_inv_def)

lemma charges_cong:
  assumes "orders d' = orders d"
  shows "charged d' = charged d" "total_of d' = total_of d" "refund_of d' = refund_of d"
    "entry_ok d' = entry_ok d"
proof -
  show c: "charged d' = charged d" "total_of d' = total_of d" "refund_of d' = refund_of d"
    by (simp_all add: charged_def total_of_def refund_of_def status_at_def fun_eq_iff assms)
  show "entry_ok d' = entry_ok d" by (rule ext) (simp add: entry_ok_def refunded_total_def c)
qed

text \<open>The refunded part of an entry never exceeds what its orders cost.\<close>

lemma refund_of_le_total: "order_inv d \<Longrightarrow> refund_of d oid \<le> total_of d oid \<and> 0 \<le> refund_of d oid"
  by (auto simp: refund_of_def total_of_def order_inv_def wf_orders_def split: option.splits dest: by_key_SomeD)

lemma refunded_le_total:
  "payroll_inv d \<Longrightarrow> e \<in> set (entries d) \<Longrightarrow> e_refunded e \<le> sum_list (map (total_of d) (e_orders e))"
proof -
  assume I: "payroll_inv d" and e: "e \<in> set (entries d)"
  have "refunded_total d e \<le> sum_list (map (total_of d) (e_orders e))"
    unfolding refunded_total_def
    by (rule sum_list_mono) (use refund_of_le_total [OF payroll_invD(1) [OF I]] in blast)
  then show ?thesis using payroll_invD(3) [OF I e] by (simp add: entry_ok_def)
qed

section \<open>Frames\<close>

text \<open>
  What an operation that leaves entries and disputes alone has to keep: the status and the price
  of every charged order, except that it may become refunded.
\<close>

lemma payroll_inv_frame:
  assumes "payroll_inv d" "order_inv d'" "entries d' = entries d" "disputes d' = disputes d"
    and "\<And>oid. charged d oid \<Longrightarrow> charged d' oid \<and> total_of d' oid = total_of d oid \<and> refund_of d oid \<le> refund_of d' oid"
  shows "payroll_inv d'"
proof -
  have "entry_ok d' e" if "e \<in> set (entries d)" for e
  proof -
    note E = payroll_invD(3) [OF assms(1) that, unfolded entry_ok_def]
    have tot: "sum_list (map (total_of d') (e_orders e)) = sum_list (map (total_of d) (e_orders e))"
      by (intro arg_cong [where f = sum_list] map_cong) (use E assms(5) in auto)
    moreover have "refunded_total d e \<le> refunded_total d' e"
      unfolding refunded_total_def by (rule sum_list_mono) (use E assms(5) in auto)
    ultimately show ?thesis using E assms(5) unfolding entry_ok_def tot by fastforce
  qed
  with assms show ?thesis by (auto simp: payroll_inv_def dispute_ok_def entry_tbl.keyed_def)
qed

lemma payroll_inv_same_orders:
  assumes "payroll_inv d" "order_inv d'" "entries d' = entries d" "disputes d' = disputes d" "orders d' = orders d"
  shows "payroll_inv d'"
  by (rule payroll_inv_frame [OF assms(1-4)])
    (simp_all add: charges_cong [OF assms(5)])

lemma order_inv_cong:
  assumes "supplies d' = supplies d" "orders d' = orders d" "order_items d' = order_items d"
    "state_events d' = state_events d"
  shows "order_inv d' = order_inv d"
  using assms history_ok_cong [of d' d]
  by (simp add: order_inv_def wf_supplies_def wf_orders_def wf_order_ids_def status_at_def fun_eq_iff)

lemma payroll_inv_cong:
  assumes "supplies d' = supplies d" "orders d' = orders d" "order_items d' = order_items d"
    "state_events d' = state_events d" "entries d' = entries d" "disputes d' = disputes d"
  shows "payroll_inv d' = payroll_inv d"
proof
  assume "payroll_inv d'"
  then show "payroll_inv d"
    by (rule payroll_inv_same_orders) (use payroll_invD(1) [of d'] order_inv_cong [of d' d] assms \<open>payroll_inv d'\<close> in simp_all)
next
  assume "payroll_inv d"
  then show "payroll_inv d'"
    by (rule payroll_inv_same_orders) (use payroll_invD(1) [of d] order_inv_cong [of d' d] assms \<open>payroll_inv d\<close> in simp_all)
qed

section \<open>Refunds\<close>

lemma sum_list_point:
  assumes "distinct xs" "\<And>j. j \<noteq> k \<Longrightarrow> f j = (g j :: int)"
  shows "sum_list (map f xs) = sum_list (map g xs) + (if k \<in> set xs then f k - g k else 0)"
  using assms(1)
proof (induction xs)
  case (Cons a xs)
  then show ?case by (cases "a = k") (simp_all add: assms(2))
qed simp

text \<open>One order becomes refunded at price \<open>t\<close>, and an entry that charges it is bumped by at most \<open>t\<close>.\<close>

lemma payroll_inv_refund:
  assumes "payroll_inv d" "order_inv d'" "disputes d' = disputes d"
    and "entries d' = (case ent of None \<Rightarrow> entries d | Some i \<Rightarrow> bumped (entries d) i n)"
    and "\<And>i. ent = Some i \<Longrightarrow> \<exists>e\<in>set (entries d). e_id e = i \<and> oid \<in> set (e_orders e)"
    and "status_at d' = (status_at d)(oid \<mapsto> Refunded)" "total_of d' = total_of d"
    and "\<And>j. j \<noteq> oid \<Longrightarrow> refund_of d' j = refund_of d j" "refund_of d oid = 0"
    and "n \<le> refund_of d' oid" "0 \<le> refund_of d' oid"
  shows "payroll_inv d'"
proof -
  have tot: "refunded_total d' e = refunded_total d e + (if oid \<in> set (e_orders e) then refund_of d' oid else 0)"
    if "distinct (e_orders e)" for e
    using sum_list_point [OF that assms(8)] by (simp add: refunded_total_def assms(9))
  have ch: "charged d k \<Longrightarrow> charged d' k" for k by (simp add: charged_def assms(6))
  have old: "entry_ok d' e" if "e \<in> set (entries d)" for e
    using payroll_invD(3) [OF assms(1) that] tot [of e] ch assms(11) by (auto simp: entry_ok_def assms(7))
  have new: "entry_ok d' (e\<lparr>e_refunded := e_refunded e + n\<rparr>)" if "e \<in> set (entries d)" "ent = Some (e_id e)" for e
  proof -
    from assms(5) [OF that(2)] obtain e2 where "e2 \<in> set (entries d)" "e_id e2 = e_id e" "oid \<in> set (e_orders e2)" by blast
    with that(1) payroll_invD(2) [OF assms(1)] have "oid \<in> set (e_orders e)"
      by (metis by_key_mem entry_tbl.keyed_def option.inject)
    then show ?thesis using payroll_invD(3) [OF assms(1) that(1)] tot [of e] ch assms(10)
      by (auto simp: entry_ok_def refunded_total_def assms(7))
  qed
  have "\<forall>e\<in>set (entries d'). entry_ok d' e"
    using old new by (auto simp: assms(4) bumped_def set_sql_update split: option.splits)
  moreover have "\<forall>x\<in>set (disputes d'). dispute_ok d' x"
  proof
    fix x assume "x \<in> set (disputes d')"
    then have "dispute_ok d x" using payroll_invD(4) [OF assms(1)] assms(3) by simp
    moreover have "\<exists>e'\<in>set (entries d'). e_id e' = e_id e \<and> e_orders e' = e_orders e" if "e \<in> set (entries d)" for e
    proof -
      let ?p = "\<lambda>e. (e_id e, e_orders e)"
      have eq: "map ?p (entries d') = map ?p (entries d)"
        by (simp add: assms(4) bumped_def map_sql_update split: option.split)
      have "?p e \<in> set (map ?p (entries d))" using that by simp
      then have "?p e \<in> set (map ?p (entries d'))" by (simp only: eq)
      then show ?thesis by auto
    qed
    ultimately show "dispute_ok d' x" unfolding dispute_ok_def by fastforce
  qed
  moreover have "map e_id (entries d') = map e_id (entries d)" by (simp add: assms(4) split: option.split)
  ultimately show ?thesis using assms(2) payroll_invD(2) [OF assms(1)]
    by (simp add: payroll_inv_def entry_tbl.keyed_def)
qed


section \<open>Preservation\<close>

lemma total_of_orders: "map o_id (orders d') = map o_id (orders d) \<Longrightarrow> map o_total (orders d') = map o_total (orders d)
    \<Longrightarrow> total_of d' oid = total_of d oid"
proof -
  have gen: "map o_id xs = map o_id ys \<Longrightarrow> map o_total xs = map o_total ys \<Longrightarrow>
     map_option o_total (by_key o_id oid xs) = map_option o_total (by_key o_id oid ys)" for xs ys :: "order_row list"
  proof (induction xs arbitrary: ys)
    case (Cons x xs)
    then obtain y zs where "ys = y # zs" by (cases ys) auto
    with Cons show ?case by auto
  qed auto
  assume "map o_id (orders d') = map o_id (orders d)" "map o_total (orders d') = map o_total (orders d)"
  from gen [OF this] show ?thesis by (auto simp: total_of_def split: option.splits)
qed

lemma reverse_body_inv:
  assumes "payroll_inv (w_db w)" "by_key o_id oid (orders (w_db w)) = Some r"
    and "x = with_items r is" "o_status x = PickedUp \<or> o_status x = NoShow"
    and "reverse_body E x oid (map_option e_id (entry_charging (w_db w) (o_user r) oid)) w = (Inr (), w')"
  shows "payroll_inv (w_db w')"
proof -
  note B = reverse_body_ok [OF payroll_invD(1) [OF assms(1)] assms(4,5)]
  from assms(3) have x: "o_total x = o_total r" "o_status x = o_status r" by simp_all
  note R = B(6) [OF assms(2)]
  have nn: "0 \<le> o_total r" using by_key_SomeD [OF assms(2)] payroll_invD(1) [OF assms(1)]
    by (auto simp: order_inv_def wf_orders_def)
  show ?thesis
  proof (rule payroll_inv_refund [OF assms(1) B(1)])
    show "disputes (w_db w') = disputes (w_db w)" and "total_of (w_db w') = total_of (w_db w)"
      using B(11) total_of_orders [OF B(12,13)] by auto
    show "entries (w_db w') = (case map_option e_id (entry_charging (w_db w) (o_user r) oid) of
        None \<Rightarrow> entries (w_db w) | Some i \<Rightarrow> bumped (entries (w_db w)) i (o_total x))" by (rule B(4))
    show "\<exists>e\<in>set (entries (w_db w)). e_id e = i \<and> oid \<in> set (e_orders e)"
      if "map_option e_id (entry_charging (w_db w) (o_user r) oid) = Some i" for i
      using that by (auto dest: entry_charging_SomeD)
  qed (use B(3,5) R x nn in simp_all)
qed

lemma keeps_payroll_reverse [keeps_intros]: "keeps payroll_inv (reverse_order E oid)"
proof (rule keeps_of_ok)
  fix w a w'
  assume I: "payroll_inv (w_db w)" and run: "reverse_order E oid w = (Inr a, w')"
  from run have run': "reverse_order E oid w = (Inr (), w')" by simp
  show "payroll_inv (w_db w')"
  proof (cases rule: reverse_order_run [OF run'])
    case (2 r x v v')
    have "payroll_inv (w_db v')"
      by (rule reverse_body_inv [of v oid r x "items_of (w_db w) oid" E]) (use I 2 in simp_all)
    then show ?thesis by (simp only: 2(6))
  qed (use I in simp)
qed (intro atomic_intros)

text \<open>Resolving a dispute keeps it too, unless the order was refunded in the meantime.\<close>

lemma resolve_dispute_inv:
  assumes "payroll_inv (w_db w)" "resolve_dispute E inp w = (Inr (), w')"
    and "\<And>x. by_key d_id (rd_dispute inp) (disputes (w_db w)) = Some x \<Longrightarrow> rd_status inp = DRefund \<Longrightarrow>
      charged (w_db w) (d_order x) \<Longrightarrow> status_at (w_db w) (d_order x) \<noteq> Some Refunded"
  shows "payroll_inv (w_db w')"
proof (rule resolve_dispute_run [OF assms(2)])
  fix x v1 v'
  assume x: "by_key d_id (rd_dispute inp) (disputes (w_db w)) = Some x"
    and v1: "w_db v1 = (w_db w)\<lparr>disputes := disputes (w_db v1)\<rparr>"
    and b: "(if rd_status inp = DRefund then apply_dispute_refund E (w_db w) inp x else ret ()) v1 = (Inr (), v')"
    and w': "w_db w' = (w_db v')\<lparr>outbox := outbox (w_db w'), audits := audits (w_db w')\<rparr>"
    and dd: "\<forall>y\<in>set (disputes (w_db v1)). \<exists>z\<in>set (disputes (w_db w)). d_entry y = d_entry z \<and> d_order y = d_order z"
  have same: "entries (w_db v1) = entries (w_db w)" "orders (w_db v1) = orders (w_db w)"
    "supplies (w_db v1) = supplies (w_db w)" "order_items (w_db v1) = order_items (w_db w)"
    "state_events (w_db v1) = state_events (w_db w)" by (subst v1, simp)+
  have I1: "order_inv (w_db v1)" using payroll_invD(1) [OF assms(1)] order_inv_cong [of "w_db v1" "w_db w"] same by simp
  have "entry_ok (w_db v1) e" if "e \<in> set (entries (w_db w))" for e
    using payroll_invD(3) [OF assms(1) that]
    by (simp add: charges_cong [OF same(2)])
  moreover have "\<forall>y\<in>set (disputes (w_db v1)). dispute_ok (w_db v1) y"
    using dd payroll_invD(4) [OF assms(1)] by (fastforce simp: dispute_ok_def same)
  ultimately have P1: "payroll_inv (w_db v1)"
    using I1 payroll_invD(2) [OF assms(1)] by (simp add: payroll_inv_def same entry_tbl.keyed_def)
  have "payroll_inv (w_db v')"
  proof (cases "rd_status inp = DRefund")
    case False
    with b P1 show ?thesis by (simp add: io_simps)
  next
    case True
    with b have b': "apply_dispute_refund E (w_db w) inp x v1 = (Inr (), v')" by simp
    show ?thesis
    proof (rule refund_steps_ok [OF I1 _ b'])
      show "orders (w_db w) = orders (w_db v1)" by (simp add: same)
      fix r
      assume r: "by_key o_id (d_order x) (orders (w_db v1)) = Some r" and nn: "0 \<le> rd_refund inp"
        and le: "rd_refund inp \<le> o_total r" and inv: "order_inv (w_db v')"
        and ent: "entries (w_db v') = (case d_entry x of None \<Rightarrow> entries (w_db v1)
           | Some i \<Rightarrow> bumped (entries (w_db v1)) i (rd_refund inp))"
        and st: "status_at (w_db v') = (if o_status r = PickedUp \<or> o_status r = NoShow
           then (status_at (w_db v1))(d_order x \<mapsto> Refunded) else status_at (w_db v1))"
        and oth: "\<And>j. j \<noteq> d_order x \<Longrightarrow> refund_of (w_db v') j = refund_of (w_db v1) j"
        and now: "o_status r = PickedUp \<or> o_status r = NoShow \<Longrightarrow> refund_of (w_db v') (d_order x) = o_total r"
        and was: "o_status r = PickedUp \<or> o_status r = NoShow \<Longrightarrow> refund_of (w_db v1) (d_order x) = 0"
        and same': "\<not> (o_status r = PickedUp \<or> o_status r = NoShow) \<Longrightarrow>
           refund_of (w_db v') (d_order x) = refund_of (w_db v1) (d_order x)"
        and fr: "w_db v' = (w_db v1)\<lparr>orders := orders (w_db v'), entries := entries (w_db v')\<rparr>"
        and ids: "map o_id (orders (w_db v')) = map o_id (orders (w_db v1))"
          "map o_total (orders (w_db v')) = map o_total (orders (w_db v1))"
      have d: "disputes (w_db v') = disputes (w_db v1)" by (subst fr, simp)
      have tot: "total_of (w_db v') = total_of (w_db v1)" using total_of_orders [OF ids] by auto
      have entry: "\<exists>e\<in>set (entries (w_db v1)). e_id e = i \<and> d_order x \<in> set (e_orders e)" if "d_entry x = Some i" for i
        using payroll_invD(4) [OF assms(1)] by_key_SomeD [OF x] that by (auto simp: dispute_ok_def same)
      have st1: "status_at (w_db v1) (d_order x) = Some (o_status r)" using r by (simp add: status_at_def)
      show ?thesis
      proof (cases "o_status r = PickedUp \<or> o_status r = NoShow")
        case True
        show ?thesis
          by (rule payroll_inv_refund [OF P1 inv d ent entry])
            (use True st tot oth now was le nn in auto)
      next
        case False
        have "d_entry x = None"
        proof (rule ccontr)
          assume "d_entry x \<noteq> None"
          then obtain i where "d_entry x = Some i" by auto
          from entry [OF this] obtain e where "e \<in> set (entries (w_db v1))" "d_order x \<in> set (e_orders e)" by blast
          with payroll_invD(3) [OF P1] have c: "charged (w_db v1) (d_order x)" by (auto simp: entry_ok_def)
          then have "charged (w_db w) (d_order x)" by (simp add: charged_def status_at_def same)
          from assms(3) [OF x \<open>rd_status inp = DRefund\<close> this] c False st1
          show False by (auto simp: charged_def status_at_def same)
        qed
        with ent have e: "entries (w_db v') = entries (w_db v1)" by simp
        show ?thesis
        proof (rule payroll_inv_frame [OF P1 inv e d])
          fix oid assume "charged (w_db v1) oid"
          then show "charged (w_db v') oid \<and> total_of (w_db v') oid = total_of (w_db v1) oid
              \<and> refund_of (w_db v1) oid \<le> refund_of (w_db v') oid"
            using False st oth [of oid] same' by (cases "oid = d_order x") (simp_all add: charged_def tot)
        qed
      qed
    qed
  qed
  moreover have "payroll_inv (w_db w') = payroll_inv (w_db v')" by (rule payroll_inv_cong) (subst w', simp)+
  ultimately show ?thesis by simp
qed

lemma payroll_inv_fields [simp]:
  "payroll_inv (batches_update f d) = payroll_inv d" "payroll_inv (exceptions_update g d) = payroll_inv d"
  "payroll_inv (outbox_update h d) = payroll_inv d" "payroll_inv (audits_update k d) = payroll_inv d"
  by (rule payroll_inv_cong; simp)+

lemma keeps_payroll_statements [keeps_intros]:
  "keeps payroll_inv (batch_update_status_tx E st st' u i)" "keeps payroll_inv (exception_create E x)"
  "keeps payroll_inv (exception_resolve E i xs r v)" "keeps payroll_inv (exception_upsert_departed_tx E i)"
  "keeps payroll_inv (batch_set_export_info_tx E i uri t)"
  "keeps payroll_inv (outbox_append_tx E ty i subj pl hs)" "keeps payroll_inv (audit_write_tx E e)"
  unfolding batch_update_status_tx_def exception_create_def exception_resolve_def batch_set_export_info_tx_def
    exception_upsert_departed_tx_def
  by (simp_all add: keeps_table_writes keeps_outbox_append keeps_audit_write)
    (auto intro!: keeps_exec simp: Let_def split: sum.splits)

lemmas payroll_reads_keep = ro_payroll_reads [THEN keeps_ro] ro_order_reads [THEN keeps_ro]

lemma keeps_payroll_services [keeps_intros]:
  "keeps payroll_inv (lock_batch E bid admin)" "keeps payroll_inv (list_exceptions E bid)"
  "keeps payroll_inv (flag_exception E fe)" "keeps payroll_inv (resolve_exception E i xs r v)"
  unfolding lock_batch_def lock_body_def list_exceptions_def flag_exception_def resolve_exception_def
    exception_upsert_departed_def Let_def
  by (intro keeps_op keeps_tx keeps_payroll_statements payroll_reads_keep)+

lemma dispute_create_inv:
  assumes "payroll_inv (w_db w)" "dispute_create E x w = (Inr y, w')" "dispute_ok (w_db w) x"
  shows "payroll_inv (w_db w')"
proof -
  note C = insert_row_ok [OF assms(2) [unfolded dispute_create_def]]
  have "dispute_ok (w_db w) y" using assms(3) by (simp add: C(1) dispute_ok_def)
  moreover have "entry_ok (w_db w') = entry_ok (w_db w)" "order_inv (w_db w') = order_inv (w_db w)"
    by (rule charges_cong(4), simp add: C(3)) (rule order_inv_cong, simp_all add: C(3))
  ultimately show ?thesis using assms(1) by (auto simp: C(3) payroll_inv_def dispute_ok_def entry_tbl.keyed_def)
qed

lemma open_dispute_inv:
  assumes "payroll_inv (w_db w)" "open_dispute E inp w = (Inr y, w')"
  shows "payroll_inv (w_db w')"
proof -
  from assms(2) obtain e w1 where g: "entry_get_by_id E (od_entry inp) w = (Inr e, w1)"
    and m: "list_ex (\<lambda>i. i = od_order inp) (e_orders e)"
    and c: "dispute_create E (new_dispute (Some (od_entry inp)) (od_order inp) (od_opened_by inp) (od_reason inp)) w1
       = (Inr y, w')"
    unfolding open_dispute_def bind_ok guard_ok by auto
  from g have e: "by_key e_id (od_entry inp) (entries (w_db w)) = Some e" and w1: "w_db w1 = w_db w"
    by (auto simp: entry_get_by_id_def io_simps)
  have "dispute_ok (w_db w1) (new_dispute (Some (od_entry inp)) (od_order inp) (od_opened_by inp) (od_reason inp))"
    using by_key_SomeD [OF e] m by (auto simp: dispute_ok_def new_dispute_def w1 list_ex_iff)
  from dispute_create_inv [OF _ c this] assms(1) w1 show ?thesis by simp
qed

lemma keeps_payroll_open [keeps_intros]:
  "keeps payroll_inv (open_dispute E inp)" "keeps payroll_inv (open_dispute_by_order E oid user reason)"
proof -
  show op: "keeps payroll_inv (open_dispute E inp)" for inp
    by (rule keeps_of_ok [OF atomic_payroll_ops(3)]) (rule open_dispute_inv)
  have "keeps payroll_inv (dispute_create E (new_dispute None i u r))" for i u r
    by (rule keeps_of_ok [OF atomic_payroll_statements(5)], erule (1) dispute_create_inv)
      (simp add: dispute_ok_def new_dispute_def)
  then show "keeps payroll_inv (open_dispute_by_order E oid user reason)"
    unfolding open_dispute_by_order_def by (intro keeps_op op payroll_reads_keep)
qed

subsection \<open>The draft\<close>

text \<open>What the entries of a draft say, in terms of the orders of the period.\<close>

lemma draft_orders:
  assumes "order_inv d" "mset (map row_of xs) = mset (chargeable d from until)"
  shows "distinct (map o_id xs)" "mset (map o_id xs) = mset (map o_id (chargeable d from until))"
    and "x \<in> set xs \<Longrightarrow> by_key o_id (o_id x) (orders d) = Some (row_of x)
       \<and> (o_status x = PickedUp \<or> o_status x = NoShow) \<and> from \<le> o_date x \<and> o_date x \<le> until"
    and "x \<in> set xs \<Longrightarrow> charged d (o_id x) \<and> total_of d (o_id x) = o_total x"
proof -
  have ids: "distinct (map o_id (orders d))" using order_invD(4) [OF assms(1)] by (simp add: wf_order_ids_def)
  have "mset (map o_id (map row_of xs)) = mset (map o_id (chargeable d from until))"
    using assms(2) by (metis mset_map)
  then show m: "mset (map o_id xs) = mset (map o_id (chargeable d from until))" by (simp add: comp_def)
  have "distinct (map o_id (chargeable d from until))"
    unfolding chargeable_def by (rule distinct_map_filter [OF ids])
  with m show "distinct (map o_id xs)" by (metis mset_eq_imp_distinct_iff)
  show *: "by_key o_id (o_id x) (orders d) = Some (row_of x)
     \<and> (o_status x = PickedUp \<or> o_status x = NoShow) \<and> from \<le> o_date x \<and> o_date x \<le> until" if "x \<in> set xs" for x
  proof -
    have "row_of x \<in> set (chargeable d from until)"
      using that mset_eq_setD [OF assms(2)] by auto
    then have r: "row_of x \<in> set (orders d)" "o_status x = PickedUp \<or> o_status x = NoShow"
      "from \<le> o_date x" "o_date x \<le> until" by (auto simp: chargeable_def)
    from by_key_mem [OF ids r(1)] r show ?thesis by simp
  qed
  show "charged d (o_id x) \<and> total_of d (o_id x) = o_total x" if "x \<in> set xs"
    using * [OF that] by (auto simp: charged_def status_at_def total_of_def)
qed

lemma list_all2_ex: "list_all2 P xs ys \<Longrightarrow> x \<in> set xs \<Longrightarrow> \<exists>y\<in>set ys. P x y"
  by (induction rule: list_all2_induct) auto

lemma draft_entry:
  assumes "list_all2 (entry_of bid) new (map_order p (aggregate_orders_by_user xs))" "e \<in> set new"
  shows "e_batch e = bid" "e_refunded e = 0" "0 \<le> e_amount e"
    and "e_orders e = map o_id (filter (\<lambda>x. o_user x = e_user e) xs)"
    and "e_amount e = i64 (sum_list (map o_total (filter (\<lambda>x. o_user x = e_user e) xs)))"
    and "e_user e \<in> o_user ` set xs"
proof -
  from list_all2_ex [OF assms] obtain u a where
    "(u, a) \<in> set (aggregate_orders_by_user xs)" and e: "entry_of bid e (u, a)"
    by (auto simp: map_order_props)
  from aggregate_values [OF this(1)] have a: "a = user_total xs u" "u \<in> o_user ` set xs" by auto
  with e show "e_batch e = bid" "e_refunded e = 0" "0 \<le> e_amount e"
    "e_orders e = map o_id (filter (\<lambda>x. o_user x = e_user e) xs)"
    "e_amount e = i64 (sum_list (map o_total (filter (\<lambda>x. o_user x = e_user e) xs)))"
    "e_user e \<in> o_user ` set xs"
    by (auto simp: entry_of_def user_total_def Let_def)
qed

lemma build_draft_inv:
  assumes "payroll_inv (w_db w)" "build_draft E inp w = (Inr b, w')"
  shows "payroll_inv (w_db w')"
proof (rule build_draft_run [OF assms(2)])
  fix xs m new ex
  assume ms: "mset (map row_of xs) = mset (chargeable (w_db w) (bd_start inp) (bd_end inp))"
    and m: "m = map_order (e_pick E) (aggregate_orders_by_user xs)" "list_all2 (entry_of (b_id b)) new m"
    and w': "w_db w' = (w_db w)\<lparr>batches := batches (w_db w) @ [b], entries := entries (w_db w) @ new,
       exceptions := exceptions (w_db w) @ ex\<rparr>"
    and kd: "entry_tbl.keyed (w_db w) \<longrightarrow> entry_tbl.keyed (w_db w')"
  note I = payroll_invD [OF assms(1)]
  note D = draft_orders [OF I(1) ms]
  have cong: "entry_ok (w_db w') = entry_ok (w_db w)" "order_inv (w_db w') = order_inv (w_db w)"
    by (rule charges_cong(4), simp add: w') (rule order_inv_cong, simp_all add: w')
  have "entry_ok (w_db w) e" if "e \<in> set new" for e
  proof -
    let ?xs = "filter (\<lambda>x. o_user x = e_user e) xs"
    note N = draft_entry [OF m(2) [unfolded m(1)] that]
    have tot: "sum_list (map (total_of (w_db w)) (e_orders e)) = sum_list (map o_total ?xs)"
      unfolding N(4) map_map by (intro arg_cong [where f = sum_list] map_cong) (use D(4) in auto)
    have ch: "\<forall>oid\<in>set (e_orders e). charged (w_db w) oid" unfolding N(4) using D(4) by auto
    have "distinct (e_orders e)" unfolding N(4) by (rule distinct_map_filter [OF D(1)])
    moreover have "0 \<le> refunded_total (w_db w) e"
      unfolding refunded_total_def by (rule sum_list_nonneg) (use refund_of_le_total [OF I(1)] in auto)
    ultimately show ?thesis
      using N(2,5) ch by (simp add: entry_ok_def tot)
  qed
  then have "\<forall>e\<in>set (entries (w_db w')). entry_ok (w_db w') e"
    unfolding cong using I(3) by (auto simp: w')
  moreover have "\<forall>x\<in>set (disputes (w_db w')). dispute_ok (w_db w') x"
    using I(4) by (fastforce simp: dispute_ok_def w')
  ultimately show ?thesis using I(1,2) kd by (simp add: payroll_inv_def cong)
qed

lemma keeps_payroll_build [keeps_intros]: "keeps payroll_inv (build_draft E inp)"
  by (rule keeps_of_ok [OF atomic_payroll_ops(1)]) (rule build_draft_inv)

end
