(* ===== verification/Payroll_Scenario.thy ===== *)
theory Payroll_Scenario
  imports Payroll_Inv Scenario
begin

text \<open>
  A concrete period for the payroll properties: one order of the system of theory
  \<open>Scenario\<close>, picked up on the day it was for, before any batch exists.
\<close>

definition pay_db :: db where
  "pay_db = db0\<lparr>supplies := [supply1 ''s1'' ''m1'' 10 8, supply1 ''s2'' ''m2'' 2 1],
     orders := [row1 PickedUp (Some now0) (Some now0)], order_items := items1,
     state_events := [event1 1 None Placed ''emp'' Employee ''place_order'',
       event1 2 (Some Placed) Ready ''op'' VendorOperator ''vendor_ready'',
       event1 3 (Some Ready) PickedUp ''emp'' Employee ''qr_pickup'']\<rparr>"

definition pay0 :: world where
  "pay0 = \<lparr>w_db = pay_db, w_tick = 10, w_order_seq = 1002, w_event_seq = 4, w_audit_seq = 1, w_outbox_seq = 1,
     w_cache = [], w_idp = []\<rparr>"

definition period0 :: build_draft_input where
  "period0 = \<lparr>bd_start = d0 - 1, bd_end = d0 + 1\<rparr>"

lemmas pay_defs = pay0_def pay_db_def period0_def scenario1_defs scenario_defs now0_def

lemma pay_db_world [simp]: "w_db pay0 = pay_db"
  by (simp add: pay0_def)

lemma pay_order_inv: "order_inv pay_db"
proof -
  have "history_ok pay_db"
    by (auto simp: pay_defs history_ok_def trace_ok_def status_at_def history_def can_transition_def)
  moreover have "wf_supplies pay_db" "wf_orders pay_db"
    by (simp_all add: pay_defs wf_supplies_def wf_orders_def wf_order_ids_def skey_def int4_max_def)
  ultimately show ?thesis by (simp add: order_inv_def)
qed

lemma pay_inv: "payroll_inv pay_db"
  using pay_order_inv by (simp add: payroll_inv_def entry_tbl.keyed_def pay_defs)

text \<open>The draft of the period, and a dispute the employee opens on its only entry.\<close>

definition batch1 :: "batch_status \<Rightarrow> batch" where
  "batch1 st = \<lparr>b_id = ''uuuuuuuuuuuuu'', b_start = 20460, b_end = 20462, b_status = st,
     b_locked_at = None, b_locked_by = None, b_exported_at = None, b_export_uri = None,
     b_created_at = 1767614400000000000, b_updated_at = 1767614400000000000\<rparr>"

definition entry1 :: "int \<Rightarrow> entry" where
  "entry1 n = \<lparr>e_id = ''uuuuuuuuuuuuuu'', e_batch = ''uuuuuuuuuuuuu'', e_user = ''emp'',
     e_orders = [''uuuuuuu''], e_amount = 280, e_refunded = n, e_created_at = 1767614400000000000\<rparr>"

definition pay1 :: world where
  "pay1 = pay0\<lparr>w_tick := 17, w_db := pay_db\<lparr>batches := [batch1 BDraft], entries := [entry1 0]\<rparr>\<rparr>"

lemmas pay1_defs = pay1_def batch1_def entry1_def pay_defs

lemma draft0_ok: "build_draft env0 period0 pay0 = (Inr (batch1 BDraft), pay1)"
  by (simp add: pay1_defs run_simps departed_entries_def map_filter_simps map_order_run del: set_filter)

lemma pay1_inv: "payroll_inv (w_db pay1)"
  using keepsD [OF keeps_payroll_build _ draft0_ok] pay_inv by simp

definition dispute1 :: dispute where
  "dispute1 = \<lparr>d_id = ''uuuuuuuuuuuuuuuuuuu'', d_entry = Some ''uuuuuuuuuuuuuu'', d_order = ''uuuuuuu'',
     d_opened_by = ''emp'', d_reason = ''cold'', d_status = DOpen, d_resolution = '''', d_resolved_by = None,
     d_resolved_at = None, d_refund = 0, d_created_at = 1767614400000000000,
     d_updated_at = 1767614400000000000\<rparr>"

definition pay2 :: world where
  "pay2 = pay1\<lparr>w_tick := 20, w_db := (w_db pay1)\<lparr>disputes := [dispute1]\<rparr>\<rparr>"

lemmas pay2_defs = pay2_def dispute1_def pay1_defs

lemma dispute0_ok: "open_dispute_by_order env0 oid1 ''emp'' ''cold'' pay1 = (Inr dispute1, pay2)"
  by (simp add: pay2_defs run_simps)

lemma pay2_inv: "payroll_inv (w_db pay2)"
  using keepsD [OF keeps_payroll_open(2) pay1_inv dispute0_ok] .

end
