(* ===== verification/Payroll_Props.thy ===== *)
theory Payroll_Props
  imports Payroll_Scenario
begin

text \<open>
  The properties of payroll: what a draft charges, that it is locked once, that a reversal is
  idempotent, that refunds stay covered, what the employee's current view shows, and the two
  ways in which the refund and exception operations fall short of what their comments promise.
\<close>

section \<open>Drafts and locks\<close>

lemma mset_concat_perm: "mset xs = mset ys \<Longrightarrow> mset (concat (map f xs)) = mset (concat (map f ys))"
  by (metis mset_concat mset_map sum_mset_sum_list map_map)

lemma draft_mset:
  assumes "list_all2 (entry_of bid) new (map_order p (aggregate_orders_by_user xs))"
  shows "mset (concat (map e_orders new)) = mset (map o_id xs)"
    and "distinct (map e_user new)"
proof -
  let ?m = "map_order p (aggregate_orders_by_user xs)" and ?f = "\<lambda>u. map o_id (filter (\<lambda>x. o_user x = u) xs)"
  have "map e_orders new = map (\<lambda>ua. ua_orders (snd ua)) ?m" and us: "map e_user new = map fst ?m"
    using assms by (induction rule: list_all2_induct) (auto simp: entry_of_def)
  moreover have "map (\<lambda>ua. ua_orders (snd ua)) ?m = map (\<lambda>ua. ?f (fst ua)) ?m"
    by (rule map_cong) (auto simp: map_order_props user_total_def Let_def dest!: aggregate_values)
  ultimately have "mset (concat (map e_orders new)) = mset (concat (map (\<lambda>ua. ?f (fst ua)) ?m))" by simp
  also have "\<dots> = mset (concat (map (\<lambda>ua. ?f (fst ua)) (aggregate_orders_by_user xs)))"
    by (rule mset_concat_perm [OF mset_map_order])
  also have "\<dots> = mset (concat (map ?f (map fst (aggregate_orders_by_user xs))))" by (simp add: comp_def)
  also have "\<dots> = mset (map o_id xs)"
    by (rule mset_split_by [OF aggregate_distinct]) (simp add: aggregate_keys)
  finally show "mset (concat (map e_orders new)) = mset (map o_id xs)" .
  show "distinct (map e_user new)" unfolding us using aggregate_distinct by (simp add: map_order_props)
qed

text \<open>C13: A draft batch partitions the charged orders of its period: every order picked up or
  missed in the period is in exactly one new entry, that of the employee it belongs to, and an
  entry's amount is the (wrapped) sum of its orders' prices with nothing refunded yet.\<close>

theorem build_draft_partitions:
  assumes "order_inv (w_db w)" "build_draft E inp w = (Inr b, w')"
  shows "\<exists>new. entries (w_db w') = entries (w_db w) @ new \<and> distinct (map e_user new)
    \<and> mset (concat (map e_orders new)) = mset (map o_id (chargeable (w_db w) (bd_start inp) (bd_end inp)))
    \<and> (\<forall>e\<in>set new. e_batch e = b_id b \<and> e_refunded e = 0
         \<and> (\<forall>oid\<in>set (e_orders e). \<exists>r. by_key o_id oid (orders (w_db w)) = Some r \<and> o_user r = e_user e)
         \<and> e_amount e = i64 (sum_list (map (total_of (w_db w)) (e_orders e))))
    \<and> orders (w_db w') = orders (w_db w)"
proof (rule build_draft_run [OF assms(2)])
  fix xs m new ex
  assume ms: "mset (map row_of xs) = mset (chargeable (w_db w) (bd_start inp) (bd_end inp))"
    and m: "m = map_order (e_pick E) (aggregate_orders_by_user xs)" "list_all2 (entry_of (b_id b)) new m"
    and w': "w_db w' = (w_db w)\<lparr>batches := batches (w_db w) @ [b], entries := entries (w_db w) @ new,
       exceptions := exceptions (w_db w) @ ex\<rparr>"
  note D = draft_orders [OF assms(1) ms] and M = draft_mset [OF m(2) [unfolded m(1)]]
  have "e_batch e = b_id b \<and> e_refunded e = 0
      \<and> (\<forall>oid\<in>set (e_orders e). \<exists>r. by_key o_id oid (orders (w_db w)) = Some r \<and> o_user r = e_user e)
      \<and> e_amount e = i64 (sum_list (map (total_of (w_db w)) (e_orders e)))" if "e \<in> set new" for e
  proof -
    note N = draft_entry [OF m(2) [unfolded m(1)] that]
    have "sum_list (map (total_of (w_db w)) (e_orders e))
        = sum_list (map o_total (filter (\<lambda>x. o_user x = e_user e) xs))"
      unfolding N(4) map_map by (intro arg_cong [where f = sum_list] map_cong) (use D(4) in auto)
    moreover have "\<forall>oid\<in>set (e_orders e). \<exists>r. by_key o_id oid (orders (w_db w)) = Some r \<and> o_user r = e_user e"
      unfolding N(4) using D(3) by fastforce
    ultimately show ?thesis using N by simp
  qed
  with M D(2) w' show ?thesis by (intro exI [of _ new]) simp
qed

theorem build_draft_partitions_witness:
  "\<exists>new. entries (w_db pay1) = new \<and> mset (concat (map e_orders new)) = {#oid1#}"
proof -
  from build_draft_partitions [OF _ draft0_ok] pay_order_inv obtain new where
    "entries (w_db pay1) = entries pay_db @ new"
    "mset (concat (map e_orders new)) = mset (map o_id (chargeable pay_db (bd_start period0) (bd_end period0)))"
    by auto
  then show ?thesis by (simp add: chargeable_def pay_defs)
qed

lemma atomic_stuck:
  assumes "atomic m" "\<And>v. m w \<noteq> (Inr (), v)"
  shows "\<exists>e w2. m w = (Inl e, w2) \<and> w_db w2 = w_db w"
proof -
  obtain r w2 where r: "m w = (r, w2)" by fastforce
  show ?thesis
  proof (cases r)
    case (Inl e)
    with r atomicD [OF assms(1), of w e w2] show ?thesis by blast
  next
    case (Inr u)
    with r assms(2) [of w2] show ?thesis by simp
  qed
qed

lemma lock_transaction_refuses:
  assumes "batch_tbl.keyed (w_db v)" "map_option b_status (by_key b_id bid (batches (w_db v))) \<noteq> Some BDraft"
  shows "\<exists>e v'. begin_func E (\<lambda>_. lock_body E b bid admin) v = (Inl e, v') \<and> w_db v' = w_db v"
proof (rule atomic_stuck [OF atomic_begin_func])
  fix v'
  show "begin_func E (\<lambda>_. lock_body E b bid admin) v \<noteq> (Inr (), v')"
  proof
    assume "begin_func E (\<lambda>_. lock_body E b bid admin) v = (Inr (), v')"
    then obtain x x' where "w_db x = w_db v" "lock_body E b bid admin x = (Inr (), x')" by (rule begin_func_run) auto
    with lock_body_ok(1) assms show False by metis
  qed
qed

text \<open>C14: A batch is locked at most once, from the draft state, and the lock leaves exactly one
  message for the settler; a second lock fails and changes nothing, also when the batch was locked only after that call
  had looked at it: its transaction refuses every batch that is not a draft when it runs.\<close>

theorem lock_once:
  assumes "batch_tbl.keyed (w_db w)" "lock_batch E bid admin w = (Inr (), w')"
  shows "map_option b_status (by_key b_id bid (batches (w_db w))) = Some BDraft
    \<and> map_option b_status (by_key b_id bid (batches (w_db w'))) = Some BLocked
    \<and> (\<exists>m. outbox (w_db w') = outbox (w_db w) @ [m] \<and> ox_agg m = bid
         \<and> ox_subject m = ''payroll.batch_locked.v1'' \<and> ox_published_at m = None)
    \<and> (\<exists>e w2. lock_batch E2 bid admin2 w' = (Inl e, w2) \<and> w_db w2 = w_db w')
    \<and> (\<forall>E3 b3 admin3 v. batch_tbl.keyed (w_db v) \<and> map_option b_status (by_key b_id bid (batches (w_db v))) \<noteq> Some BDraft \<longrightarrow>
        (\<exists>e v'. begin_func E3 (\<lambda>_. lock_body E3 b3 bid admin3) v = (Inl e, v') \<and> w_db v' = w_db v))"
proof (rule lock_batch_run [OF assms(2)])
  fix b v v'
  assume b: "by_key b_id bid (batches (w_db w)) = Some b" "b_status b = BDraft" "w_db v = w_db w"
    "lock_body E b bid admin v = (Inr (), v')" "w_db w' = w_db v'"
  have k: "batch_tbl.keyed (w_db v)" using assms(1) b(3) by simp
  note L = lock_body_ok [OF k b(4)]
  have locked: "map_option b_status (by_key b_id bid (batches (w_db w'))) = Some BLocked" using L(2) b(5) by simp
  have "lock_batch E2 bid admin2 w' \<noteq> (Inr (), w2)" for w2
  proof
    assume "lock_batch E2 bid admin2 w' = (Inr (), w2)"
    from lock_batch_run [OF this] locked show False by (metis batch_status.distinct(1) option.map(2) option.inject)
  qed
  then have again: "\<exists>e w2. lock_batch E2 bid admin2 w' = (Inl e, w2) \<and> w_db w2 = w_db w'"
    by (rule atomic_stuck [OF atomic_payroll_ops(2)])
  from L(5) obtain m a where
    eq: "w_db v' = (w_db v)\<lparr>batches := batches (w_db v'), outbox := outbox (w_db v) @ [m],
       audits := audits (w_db v) @ [a]\<rparr>"
    and m: "ox_agg m = bid" "ox_subject m = ''payroll.batch_locked.v1''" "ox_published_at m = None" by blast
  have "outbox (w_db v') = outbox (w_db v) @ [m]" by (subst eq, simp)
  then have "outbox (w_db w') = outbox (w_db w) @ [m]" unfolding b(3,5) .
  with m have "\<exists>m. outbox (w_db w') = outbox (w_db w) @ [m] \<and> ox_agg m = bid
      \<and> ox_subject m = ''payroll.batch_locked.v1'' \<and> ox_published_at m = None" by blast
  moreover have "map_option b_status (by_key b_id bid (batches (w_db w))) = Some BDraft" using b(1,2) by simp
  ultimately show ?thesis using locked again lock_transaction_refuses by blast
qed

lemma pay1_keyed: "batch_tbl.keyed (w_db pay1)"
  by (simp add: batch_tbl.keyed_def pay1_defs)

lemma lock1_ok: "\<exists>w'. lock_batch env0 ''uuuuuuuuuuuuu'' ''adm'' pay1 = (Inr (), w')"
  by (simp add: pay1_defs run_simps)

theorem lock_once_witness:
  "\<exists>w' e w2. lock_batch env0 ''uuuuuuuuuuuuu'' ''adm'' pay1 = (Inr (), w')
    \<and> lock_batch env0 ''uuuuuuuuuuuuu'' ''adm'' w' = (Inl e, w2) \<and> w_db w2 = w_db w'"
proof -
  obtain w' where w': "lock_batch env0 ''uuuuuuuuuuuuu'' ''adm'' pay1 = (Inr (), w')" using lock1_ok by blast
  from lock_once [OF pay1_keyed w', of env0 "''adm''"] w' show ?thesis by blast
qed

section \<open>Refunds\<close>

lemma reverse_again:
  assumes "wf_order_ids (w_db w)" "status_at (w_db w) oid = Some Refunded" "reverse_order E oid w = (r, w')"
  shows "w_db w' = w_db w"
proof (cases r)
  case (Inl e)
  with assms(3) show ?thesis using atomicD [OF atomic_payroll_ops(6)] by simp
next
  case (Inr u)
  with assms(3) have run: "reverse_order E oid w = (Inr (), w')" by simp
  show ?thesis
  proof (cases rule: reverse_order_run [OF run])
    case (2 r x v v')
    with assms(2) have "o_status x = Refunded" by (simp add: status_at_def)
    with 2(3) show ?thesis by simp
  qed
qed

lemma reverse_order_effect:
  assumes "payroll_inv (w_db w)" "reverse_order E oid w = (Inr (), w')"
    and "by_key o_id oid (orders (w_db w)) = Some r" "o_status r \<noteq> Refunded"
  shows "(o_status r = PickedUp \<or> o_status r = NoShow)
    \<and> status_at (w_db w') = (status_at (w_db w))(oid \<mapsto> Refunded)
    \<and> entries (w_db w') = (case entry_charging (w_db w) (o_user r) oid of
         None \<Rightarrow> entries (w_db w)
       | Some e \<Rightarrow> bumped (entries (w_db w)) (e_id e) (o_total r))
    \<and> (\<forall>res w2. reverse_order E2 oid w' = (res, w2) \<longrightarrow> w_db w2 = w_db w')"
proof (cases rule: reverse_order_run [OF assms(2)])
  case (1 r')
  with assms(3,4) show ?thesis by simp
next
  case (2 r' x v v')
  have r: "r' = r" using 2(1) assms(3) by simp
  have x: "o_status x = o_status r" "o_total x = o_total r" using 2(2) r by simp_all
  have inv: "order_inv (w_db v)" using payroll_invD(1) [OF assms(1)] 2(4) by simp
  note B = reverse_body_ok [OF inv 2(3,5)]
  have st: "status_at (w_db w') = (status_at (w_db w))(oid \<mapsto> Refunded)" using B(3) 2(4,6) by simp
  have ids: "wf_order_ids (w_db w')" using order_invD(4) [OF B(1)] 2(6) by simp
  have "status_at (w_db w') oid = Some Refunded" unfolding st by simp
  then have again: "\<forall>res w2. reverse_order E2 oid w' = (res, w2) \<longrightarrow> w_db w2 = w_db w'"
    by (intro allI impI) (rule reverse_again [OF ids])
  have "entries (w_db w') = (case entry_charging (w_db w) (o_user r) oid of
         None \<Rightarrow> entries (w_db w) | Some e \<Rightarrow> bumped (entries (w_db w)) (e_id e) (o_total r))"
    using B(4) 2(4,6) x(2) r by (simp split: option.splits)
  moreover have "o_status r = PickedUp \<or> o_status r = NoShow" using 2(3) x(1) by simp
  ultimately show ?thesis using st again by blast
qed

text \<open>C15: Reversing a charged order refunds it once: the order becomes refunded, the entry that
  charges it, if there is one, is credited with the price, no other entry or order moves, and
  another reversal of the same order, whatever its outcome, changes nothing.\<close>

theorem reverse_refunds_once:
  assumes "payroll_inv (w_db w)" "reverse_order E oid w = (Inr (), w')"
    and "by_key o_id oid (orders (w_db w)) = Some r" "o_status r \<noteq> Refunded"
  shows "(o_status r = PickedUp \<or> o_status r = NoShow)
    \<and> status_at (w_db w') = (status_at (w_db w))(oid \<mapsto> Refunded)
    \<and> entries (w_db w') = (case entry_charging (w_db w) (o_user r) oid of
         None \<Rightarrow> entries (w_db w)
       | Some e \<Rightarrow> bumped (entries (w_db w)) (e_id e) (o_total r))
    \<and> (\<forall>res w2. reverse_order E2 oid w' = (res, w2) \<longrightarrow> w_db w2 = w_db w')"
  using assms by (rule reverse_order_effect)

lemma reverse2_ok: "\<exists>w'. reverse_order env0 oid1 pay2 = (Inr (), w')"
  by (simp add: pay2_defs run_simps int8_ok_def in_i64_def)

theorem reverse_refunds_once_witness:
  "\<exists>w'. reverse_order env0 oid1 pay2 = (Inr (), w') \<and> entries (w_db w') = [entry1 280]"
proof -
  obtain w' where w': "reverse_order env0 oid1 pay2 = (Inr (), w')" using reverse2_ok by blast
  have r: "by_key o_id oid1 (orders (w_db pay2)) = Some (row1 PickedUp (Some now0) (Some now0))"
    "o_status (row1 PickedUp (Some now0) (Some now0)) \<noteq> Refunded"
    by (simp_all add: pay2_defs)
  from reverse_refunds_once [OF pay2_inv w' r, of env0]
  have "entries (w_db w') = (case entry_charging (w_db pay2) (o_user (row1 PickedUp (Some now0) (Some now0))) oid1 of
       None \<Rightarrow> entries (w_db pay2)
     | Some e \<Rightarrow> bumped (entries (w_db pay2)) (e_id e) (o_total (row1 PickedUp (Some now0) (Some now0))))"
    by blast
  also have "\<dots> = [entry1 280]" by (simp add: row1_def entry_charging_def bumped_def pay2_defs)
  finally show ?thesis using w' by blast
qed

text \<open>C16: No operation of payroll except the resolution of a dispute can break the invariant of
  the payroll tables: every entry charges distinct orders that were picked up or missed at the
  sum of their prices, and what was refunded on it is covered by its refunded orders. The
  resolution of a dispute keeps it whenever the disputed order has not been refunded before.\<close>

theorem payroll_invariant:
  "keeps payroll_inv (build_draft E bd) \<and> keeps payroll_inv (lock_batch E bid admin)
   \<and> keeps payroll_inv (open_dispute E od) \<and> keeps payroll_inv (open_dispute_by_order E oid user reason)
   \<and> keeps payroll_inv (reverse_order E oid) \<and> keeps payroll_inv (list_exceptions E bid)
   \<and> keeps payroll_inv (flag_exception E fe) \<and> keeps payroll_inv (resolve_exception E i xs res user)
   \<and> (\<forall>w r w' x. payroll_inv (w_db w) \<longrightarrow> by_key d_id (rd_dispute rd) (disputes (w_db w)) = Some x
        \<longrightarrow> status_at (w_db w) (d_order x) \<noteq> Some Refunded \<longrightarrow> resolve_dispute E rd w = (r, w')
        \<longrightarrow> payroll_inv (w_db w'))"
proof -
  have "payroll_inv (w_db w')" if "payroll_inv (w_db w)" "by_key d_id (rd_dispute rd) (disputes (w_db w)) = Some x"
    "status_at (w_db w) (d_order x) \<noteq> Some Refunded" "resolve_dispute E rd w = (r, w')" for w r w' x
  proof (cases r)
    case (Inl e)
    with that show ?thesis using atomicD [OF atomic_payroll_ops(5)] by simp
  next
    case (Inr u)
    with that(4) have "resolve_dispute E rd w = (Inr (), w')" by simp
    then show ?thesis by (rule resolve_dispute_inv [OF that(1)]) (use that(2,3) in simp)
  qed
  then show ?thesis by (intro conjI keeps_intros) blast
qed

definition resolve1 :: resolve_dispute_input where
  "resolve1 = \<lparr>rd_dispute = ''uuuuuuuuuuuuuuuuuuu'', rd_resolved_by = ''adm'', rd_status = DRefund,
     rd_resolution = ''ok'', rd_refund = 280\<rparr>"

lemma resolve1_ok: "\<exists>w'. resolve_dispute env0 resolve1 pay2 = (Inr (), w')"
  by (simp add: resolve1_def pay2_defs run_simps int8_ok_def in_i64_def)

theorem payroll_invariant_witness:
  "\<exists>w'. resolve_dispute env0 resolve1 pay2 = (Inr (), w') \<and> payroll_inv (w_db w')"
proof -
  obtain w' where w': "resolve_dispute env0 resolve1 pay2 = (Inr (), w')" using resolve1_ok by blast
  have "by_key d_id (rd_dispute resolve1) (disputes (w_db pay2)) = Some dispute1"
    "status_at (w_db pay2) (d_order dispute1) \<noteq> Some Refunded"
    by (simp_all add: resolve1_def pay2_defs status_at_def)
  with payroll_invariant [where E = env0 and rd = resolve1] pay2_inv w' show ?thesis by blast
qed


section \<open>Where payroll falls short\<close>

definition twice_refunded :: world where
  "twice_refunded = snd (resolve_dispute env0 resolve1 (snd (reverse_order env0 oid1 pay2)))"

lemma twice_refunded_run:
  "\<exists>v. reverse_order env0 oid1 pay2 = (Inr (), v) \<and> resolve_dispute env0 resolve1 v = (Inr (), twice_refunded)
     \<and> entries (w_db twice_refunded) = [entry1 560]"
  by (simp add: twice_refunded_def resolve1_def pay2_defs run_simps int8_ok_def in_i64_def)

text \<open>Reversing an order and then resolving a dispute that was already open on it refunds the
  same order twice: both calls succeed, the entry's refunds exceed the amount it charges, and the
  invariant of the payroll tables is lost.\<close>

theorem dispute_refunds_again:
  "\<exists>E w oid v rd w' e. payroll_inv (w_db w) \<and> reverse_order E oid w = (Inr (), v)
     \<and> by_key d_id (rd_dispute rd) (disputes (w_db v)) \<noteq> None \<and> status_at (w_db v) oid = Some Refunded
     \<and> resolve_dispute E rd v = (Inr (), w') \<and> e \<in> set (entries (w_db w')) \<and> e_amount e < e_refunded e
     \<and> \<not> payroll_inv (w_db w')"
proof -
  obtain v where v: "reverse_order env0 oid1 pay2 = (Inr (), v)"
      "resolve_dispute env0 resolve1 v = (Inr (), twice_refunded)"
      "entries (w_db twice_refunded) = [entry1 560]"
    using twice_refunded_run by blast
  have d: "by_key d_id (rd_dispute resolve1) (disputes (w_db v)) \<noteq> None"
    and st: "status_at (w_db v) oid1 = Some Refunded"
    using v(1) by (auto simp: resolve1_def pay2_defs run_simps int8_ok_def in_i64_def status_at_def)
  have tot: "total_of (w_db twice_refunded) oid1 = 280"
    by (simp add: total_of_def twice_refunded_def resolve1_def pay2_defs run_simps int8_ok_def in_i64_def)
  have "\<not> payroll_inv (w_db twice_refunded)"
  proof
    assume "payroll_inv (w_db twice_refunded)"
    from refunded_le_total [OF this] v(3)
    have "e_refunded (entry1 560) \<le> sum_list (map (total_of (w_db twice_refunded)) (e_orders (entry1 560)))" by simp
    then show False using tot by (simp add: entry1_def oid1_def)
  qed
  moreover have "entry1 560 \<in> set (entries (w_db twice_refunded))" "e_amount (entry1 560) < e_refunded (entry1 560)"
    using v(3) by (simp_all add: entry1_def)
  ultimately show ?thesis using pay2_inv v(1,2) d st by blast
qed

text \<open>Flagging a failed deduction is not one transaction: when the audit entry cannot be
  written the call reports the failure but the exception stays.\<close>

theorem flag_exception_partial:
  "\<exists>E w inp e w'. flag_exception E inp w = (Inl e, w') \<and> exceptions (w_db w') \<noteq> exceptions (w_db w)
     \<and> audits (w_db w') = audits (w_db w)"
proof -
  define inp where "inp = \<lparr>fe_batch = ''uuuuuuuuuuuuu'', fe_entry = ''uuuuuuuuuuuuuu'', fe_detail = ''left'', fe_by = ''adm''\<rparr>"
  define E where "E = env0\<lparr>e_fault := (\<lambda>n. if n < 22 then None else Some IoErr)\<rparr>"
  have "fst (flag_exception E inp pay2) = Inl (DbErr IoErr) \<and>
      length (exceptions (w_db (snd (flag_exception E inp pay2)))) = Suc (length (exceptions (w_db pay2)))
      \<and> audits (w_db (snd (flag_exception E inp pay2))) = audits (w_db pay2)"
    by (simp add: inp_def E_def pay2_defs run_simps)
  then have "flag_exception E inp pay2 = (Inl (DbErr IoErr), snd (flag_exception E inp pay2))
      \<and> exceptions (w_db (snd (flag_exception E inp pay2))) \<noteq> exceptions (w_db pay2)
      \<and> audits (w_db (snd (flag_exception E inp pay2))) = audits (w_db pay2)"
    by (metis n_not_Suc_n prod.collapse)
  then show ?thesis by blast
qed

end
