(* ===== verification/Feedback_Props.thy ===== *)
theory Feedback_Props
  imports Feedback_Inv Payroll_Props
begin

text \<open>
  The properties of the feedback service: the complaint workflow as an abstract machine every
  operation implements, the compensation of a resolved complaint and where it gets lost, and the
  scanner against a reference definition of the vendors it has to report.
\<close>

section \<open>The workflow\<close>

datatype feedback_call =
    RateOrder rate_order_input
  | FileComplaint file_complaint_input
  | Respond uuid uuid uuid string
  | Escalate uuid uuid
  | EmployeeResolve uuid uuid
  | AdminResolve bool uuid uuid string bool

fun feedback_run :: "env \<Rightarrow> feedback_call \<Rightarrow> unit io" where
  "feedback_run E (RateOrder r) = bind (rate_order E r) (\<lambda>_. ret ())"
| "feedback_run E (FileComplaint f) = bind (file_complaint E f) (\<lambda>_. ret ())"
| "feedback_run E (Respond i v u s) = respond_to_complaint E i v u s"
| "feedback_run E (Escalate i u) = escalate_complaint E i u"
| "feedback_run E (EmployeeResolve i u) = employee_resolve_complaint E i u"
| "feedback_run E (AdminResolve rv i a s b) = admin_resolve_complaint E rv i a s b"

section \<open>Calls in flight\<close>

text \<open>
  A call first reads and checks, outside any transaction, and then runs one transaction on what
  it has decided; a resolution with compensation reverses the order after that. \<open>decide\<close> is the
  first part of every call and \<open>commit_call\<close> its transaction, which may run when the database has
  long moved on; \<open>run_splits\<close> says that a whole call is the parts in a row.
\<close>

datatype pending =
    PRate rate_order_input uuid
  | PFile file_complaint_input complaint_category uuid string
  | PMove complaint complaint_transition "uuid option"

fun decide :: "env \<Rightarrow> feedback_call \<Rightarrow> pending io" where
  "decide E (RateOrder inp) =
     (if ro_score inp < 1 \<or> 5 < ro_score inp then fail validation
      else if 500 < length (ro_comment inp) then fail validation
      else bind (get_order_info E (ro_order inp)) (\<lambda>oi.
        if oi_user oi \<noteq> ro_user inp then fail (FeedbackErr ErrFbForbidden)
        else if oi_status oi \<noteq> PickedUp then fail (FeedbackErr ErrOrderNotPickedUp)
        else bind (attempt (rating_get_by_order E (ro_order inp))) (\<lambda>r. case r of
            Inr _ \<Rightarrow> fail (FeedbackErr ErrAlreadyRated)
          | Inl e \<Rightarrow> if e \<noteq> FeedbackErr ErrRatingNotFound then fail e else ret (PRate inp (oi_vendor oi)))))"
| "decide E (FileComplaint inp) = (case valid_category (fc_category inp) of
       None \<Rightarrow> fail validation
     | Some cat \<Rightarrow>
         if length (trim_space (fc_description inp)) < 5 \<or> 1000 < length (trim_space (fc_description inp))
         then fail validation
         else bind (get_order_info E (fc_order inp)) (\<lambda>oi.
           if oi_user oi \<noteq> fc_user inp then fail (FeedbackErr ErrFbForbidden)
           else if oi_status oi \<noteq> PickedUp then fail (FeedbackErr ErrOrderNotPickedUp)
           else ret (PFile inp cat (oi_vendor oi) (trim_space (fc_description inp)))))"
| "decide E (Respond cid vid actor response) = bind (complaint_get_by_id E cid) (\<lambda>c.
       if c_vendor c \<noteq> vid then fail (FeedbackErr ErrFbForbidden)
       else if c_status c \<noteq> COpen then fail (FeedbackErr ErrFbInvalidTransition)
       else if length (trim_space response) < 5 then fail validation
       else ret (PMove c \<lparr>ct_from = COpen, ct_to = CVendorResponded,
         ct_fields = no_fields\<lparr>cu_response := trim_space response\<rparr>, ct_actor = actor, ct_role = VendorOperator,
         ct_action = ''feedback.complaint_respond'', ct_extra = [(''vendor_id'', JStr vid)]\<rparr> None))"
| "decide E (Escalate cid user) = bind (complaint_get_by_id E cid) (\<lambda>c.
       if c_user c \<noteq> user then fail (FeedbackErr ErrFbForbidden)
       else if c_status c \<noteq> COpen \<and> c_status c \<noteq> CVendorResponded then fail (FeedbackErr ErrFbInvalidTransition)
       else if e_now E < c_created_at c + escalate_gate then fail (FeedbackErr ErrEscalateTooEarly)
       else ret (PMove c \<lparr>ct_from = c_status c, ct_to = CEscalated, ct_fields = no_fields, ct_actor = user,
         ct_role = Employee, ct_action = ''feedback.complaint_escalate'',
         ct_extra = [(''from'', JStr (complaint_status_text (c_status c)))]\<rparr> None))"
| "decide E (EmployeeResolve cid user) = bind (complaint_get_by_id E cid) (\<lambda>c.
       if c_user c \<noteq> user then fail (FeedbackErr ErrFbForbidden)
       else if c_status c \<noteq> COpen \<and> c_status c \<noteq> CVendorResponded then fail (FeedbackErr ErrFbInvalidTransition)
       else ret (PMove c \<lparr>ct_from = c_status c, ct_to = CResolved,
         ct_fields = no_fields\<lparr>cu_resolution := ''resolved by employee (satisfied)'', cu_resolved_by := Some user\<rparr>,
         ct_actor = user, ct_role = Employee, ct_action = ''feedback.complaint_resolve'',
         ct_extra = [(''resolved_by_role'', JStr ''employee''), (''from'', JStr (complaint_status_text (c_status c)))]\<rparr> None))"
| "decide E (AdminResolve reverser cid admin resolution compensate) = bind (complaint_get_by_id E cid) (\<lambda>c.
       if c_status c \<noteq> CEscalated then fail (FeedbackErr ErrFbInvalidTransition)
       else if length (trim_space resolution) < 5 then fail validation
       else if compensate \<and> \<not> reverser then fail (FeedbackErr ErrReverserMissing)
       else ret (PMove c (admin_transition admin resolution compensate) (if compensate then Some (c_order c) else None)))"

fun commit_call :: "env \<Rightarrow> pending \<Rightarrow> unit io" where
  "commit_call E (PRate inp vid) = bind (begin_func E (\<lambda>_. rate_body E inp vid)) (\<lambda>_. ret ())"
| "commit_call E (PFile inp cat vid desc) = bind (begin_func E (\<lambda>_. file_body E inp cat vid desc)) (\<lambda>_. ret ())"
| "commit_call E (PMove c t oid) = transition E c t"

fun compensate_call :: "env \<Rightarrow> pending \<Rightarrow> unit io" where
  "compensate_call E (PMove c t (Some oid)) = reverse_order E oid"
| "compensate_call E _ = ret ()"

lemma compensate_if: "compensate_call E (PMove c t (if b then Some i else None)) = (if b then reverse_order E i else ret ())"
  by simp

lemma run_splits:
  "feedback_run E call = bind (decide E call) (\<lambda>p. bind (commit_call E p) (\<lambda>_. compensate_call E p))"
  by (cases call) (simp_all add: monad_laws bind_ret_right compensate_if rate_order_def file_complaint_def respond_to_complaint_def
    escalate_complaint_def employee_resolve_complaint_def admin_resolve_complaint_def Let_def cong: if_cong option.case_cong)

text \<open>
  Calls overlapping in any way, from a database \<open>d\<close>: at any moment a call reads and decides, a
  decided transaction runs, a compensation runs, or another service writes its own tables. A decided
  transaction stays in the set, so one that never runs, or runs again, is covered too.
\<close>

inductive overlapping :: "db \<Rightarrow> pending set \<Rightarrow> db \<Rightarrow> bool" for d :: db where
  Idle: "overlapping d {} d"
| Decide: "overlapping d P (w_db w) \<Longrightarrow> decide E call w = (Inr p, w') \<Longrightarrow> overlapping d (insert p P) (w_db w')"
| Commit: "overlapping d P (w_db w) \<Longrightarrow> p \<in> P \<Longrightarrow> commit_call E p w = (r, w') \<Longrightarrow> overlapping d P (w_db w')"
| Compensate: "overlapping d P (w_db w) \<Longrightarrow> p \<in> P \<Longrightarrow> compensate_call E p w = (r, w') \<Longrightarrow> overlapping d P (w_db w')"
| Other: "overlapping d P d1 \<Longrightarrow> complaints d2 = complaints d1 \<Longrightarrow> ratings d2 = ratings d1 \<Longrightarrow> overlapping d P d2"

text \<open>What a decided call knows for good: its move is along an edge.\<close>

fun pending_ok :: "pending \<Rightarrow> bool" where
  "pending_ok (PMove c t oid) \<longleftrightarrow> complaint_edge (ct_from t) (ct_to t)"
| "pending_ok _ \<longleftrightarrow> True"

lemma ro_decide: "ro (decide E call)"
  by (cases call) (auto intro!: ro_intros ro_attempt ro_feedback_reads)

lemma decide_ok: "decide E call w = (Inr p, w') \<Longrightarrow> pending_ok p"
  apply (cases call)
       apply (auto simp: bind_ok guard_ok ret_ok fail_ok attempt_ok admin_transition_def split: option.splits if_splits)
  subgoal for r oi w1 x by (cases x) (auto simp: guard_ok fail_ok ret_ok)
  done

text \<open>A run of an atomic operation is an abstract step if its success is one.\<close>

lemma step_of_ok:
  assumes "atomic m" "m w = (r, w')" "\<And>a. m w = (Inr a, w') \<Longrightarrow> workflow_step (complaint_at (w_db w)) (complaint_at (w_db w'))"
  shows "workflow_step (complaint_at (w_db w)) (complaint_at (w_db w'))"
  using assms atomicD [OF assms(1)] by (cases r) (auto intro: workflow_step.intros)

lemma get_complaint_ok:
  "complaint_get_by_id E i w = (Inr c, w') \<Longrightarrow> w_db w' = w_db w \<and> by_key c_id i (complaints (w_db w)) = Some c \<and> c_id c = i"
  by (auto simp: complaint_get_by_id_def io_simps dest: by_key_SomeD)

lemma file_commits:
  assumes "begin_func E (\<lambda>_. file_body E f cat vid desc) w = (Inr c, w')"
  shows "workflow_step (complaint_at (w_db w)) (complaint_at (w_db w'))"
proof -
  from assms obtain v v' where v: "w_db v = w_db w" "file_body E f cat vid desc v = (Inr c, v')" "w_db w' = w_db v'"
    by (rule begin_func_run)
  then obtain v1 where 1: "complaint_create_tx E (new_complaint f cat vid desc) v = (Inr c, v1)"
    and 2: "\<exists>e. audit_write_tx E e v1 = (Inr (), v')"
    unfolding file_body_def by (auto simp: io_simps)
  note C = complaint_create_ok [OF 1]
  from 2 obtain e where 2: "audit_write_tx E e v1 = (Inr (), v')" by blast
  have db: "complaints (w_db w') = complaints (w_db w) @ [c]" using C(2) v audit_write_tx_ok [OF 2] by simp
  have "c_status c = COpen" by (subst C(1)) (simp add: new_complaint_def)
  moreover have "c_id c \<notin> c_id ` set (complaints (w_db w))" using C(3) v(1) by simp
  ultimately have "complaint_at (w_db w') = (complaint_at (w_db w))(c_id c \<mapsto> COpen)"
      "complaint_at (w_db w) (c_id c) = None"
    by (auto simp: complaint_at_def db by_key_append fun_eq_iff by_key_None [symmetric] split: option.splits)
  then show ?thesis by (metis workflow_step.File)
qed

lemma rate_commits: "keeps (\<lambda>d. complaint_at d = s) (commit_call E (PRate inp vid))"
proof -
  have "keeps (\<lambda>d. complaint_at d = s) (rating_create_tx E x)" for x
    unfolding rating_create_tx_def by (rule keeps_table_writes) (simp add: complaint_at_def fun_eq_iff)
  then show ?thesis
    unfolding commit_call.simps rate_body_def by (intro feedback_keeps at_order.keeps_logs)
qed

text \<open>The heart of the matter: a decided transaction is a step of the workflow in \<^emph>\<open>any\<close> state it meets.\<close>

lemma commit_step:
  assumes "pending_ok p" "feedback_inv (w_db w)" "commit_call E p w = (r, w')"
  shows "workflow_step (complaint_at (w_db w)) (complaint_at (w_db w'))"
proof (cases p)
  case (PRate inp vid)
  from keepsD [OF rate_commits refl assms(3) [unfolded PRate]] show ?thesis by (simp add: workflow_step.Stay)
next
  case (PFile f cat vid desc)
  show ?thesis
    by (rule step_of_ok [where m = "commit_call E p", OF _ assms(3)])
      (auto simp: PFile bind_ok ret_ok intro: file_commits atomic_intros)
next
  case (PMove c t oid)
  show ?thesis
  proof (rule step_of_ok [where m = "commit_call E p", OF _ assms(3)])
    fix a assume "commit_call E p w = (Inr a, w')"
    then have "transition E c t w = (Inr (), w')" by (simp add: PMove)
    from transition_ok(1,2) [OF assms(2) this] assms(1)
    show "workflow_step (complaint_at (w_db w)) (complaint_at (w_db w'))"
      by (metis PMove pending_ok.simps(1) workflow_step.Move)
  qed (simp add: PMove transition_def atomic_begin_func)
qed

lemma keeps_commit: "pending_ok p \<Longrightarrow> keeps feedback_inv (commit_call E p)"
  by (cases p) (auto simp: rate_body_def file_body_def new_complaint_def stamps_ok_def
    intro!: feedback_keeps keeps_rating_create keeps_complaint_create keeps_transition)

lemma compensate_leaves:
  "keeps (\<lambda>d. complaint_at d = s) (compensate_call E p)" "keeps feedback_inv (compensate_call E p)"
  by (cases "(E, p)" rule: compensate_call.cases;
      auto intro: keeps_intros at_payroll.keeps_payroll_ops feedback_payroll.keeps_payroll_ops)+

lemma run_step:
  assumes "feedback_inv (w_db w)" "feedback_run E call w = (r, w')"
  shows "workflow_step (complaint_at (w_db w)) (complaint_at (w_db w'))"
proof -
  obtain x w1 where d: "decide E call w = (x, w1)" by fastforce
  have w1: "w_db w1 = w_db w" by (rule roD [OF ro_decide d])
  show ?thesis
  proof (cases x)
    case (Inl e)
    with d assms(2) w1 show ?thesis by (simp add: run_splits bind_run workflow_step.Stay)
  next
    case (Inr p)
    obtain y w2 where c: "commit_call E p w1 = (y, w2)" by fastforce
    have "workflow_step (complaint_at (w_db w1)) (complaint_at (w_db w2))"
      using commit_step [OF decide_ok _ c] d Inr assms(1) w1 by simp
    moreover have "complaint_at (w_db w') = complaint_at (w_db w2)"
      using assms(2) d Inr c keepsD [OF compensate_leaves(1) refl]
      by (cases y) (auto simp: run_splits bind_run)
    ultimately show ?thesis using w1 by simp
  qed
qed

lemma keeps_feedback_run: "keeps feedback_inv (feedback_run E call)"
  by (cases call) (auto intro!: keeps_intros)

lemma workflow_path:
  "workflow_step\<^sup>*\<^sup>* s s' \<Longrightarrow> s i = Some a \<Longrightarrow> \<exists>b. s' i = Some b \<and> complaint_edge\<^sup>*\<^sup>* a b"
proof (induction rule: rtranclp_induct)
  case (step s1 s2)
  then obtain b where b: "s1 i = Some b" "complaint_edge\<^sup>*\<^sup>* a b" by blast
  from step(2) b show ?case
    by (cases rule: workflow_step.cases) (auto intro: rtranclp.rtrancl_into_rtrancl)
qed auto

lemma path_rank: "complaint_edge\<^sup>*\<^sup>* a b \<Longrightarrow> complaint_rank a \<le> complaint_rank b"
  by (induction rule: rtranclp_induct) (auto dest: edge_rank)

lemma overlapping_inv:
  assumes "feedback_inv d" "overlapping d P d'"
  shows "feedback_inv d' \<and> (\<forall>p\<in>P. pending_ok p) \<and> workflow_step\<^sup>*\<^sup>* (complaint_at d) (complaint_at d')"
  using assms(2)
proof induction
  case Idle
  then show ?case using assms(1) by simp
next
  case (Decide P w E call p w')
  then show ?case using decide_ok roD [OF ro_decide Decide(2)] by simp
next
  case (Commit P w p E r w')
  then show ?case using commit_step [of p w E r w'] keepsD [OF keeps_commit, of p w E r w'] by auto
next
  case (Compensate P w p E r w')
  then show ?case
    using keepsD [OF compensate_leaves(1) refl, of E p w r w'] keepsD [OF compensate_leaves(2), of w E p r w'] by auto
next
  case (Other P d1 d2)
  then show ?case using feedback_inv_cong [of d2 d1] complaint_at_cong [of d2 d1] by simp
qed

section \<open>A concrete complaint\<close>

text \<open>The picked-up order of theory \<open>Payroll_Scenario\<close>, charged in a batch, with an escalated complaint.\<close>

definition complaint0 :: "complaint_status \<Rightarrow> complaint" where
  "complaint0 st = \<lparr>c_id = ''c1'', c_order = ''uuuuuuu'', c_user = ''emp'', c_vendor = ''v1'', c_category = Quality,
     c_description = ''stale rice'', c_status = st, c_response = '''', c_responded_at = None,
     c_escalated_at = (if st = CEscalated then Some 0 else None), c_resolution = '''', c_resolved_by = None,
     c_resolved_at = None, c_created_at = 0, c_updated_at = 0\<rparr>"

definition fb :: "complaint_status \<Rightarrow> world" where
  "fb st = pay1\<lparr>w_db := (w_db pay1)\<lparr>complaints := [complaint0 st]\<rparr>\<rparr>"

lemmas fb_defs = fb_def complaint0_def pay1_defs

lemma fb_inv: "st \<in> {COpen, CEscalated} \<Longrightarrow> feedback_inv (w_db (fb st))"
  by (auto simp: fb_defs feedback_inv_def unresolved_def stamps_ok_def)

lemma fb_payroll: "payroll_inv (w_db (fb st))"
proof -
  have "payroll_inv (w_db (fb st)) = payroll_inv (w_db pay1)"
    by (rule payroll_inv_cong) (simp_all add: fb_def)
  with pay1_inv show ?thesis by simp
qed

section \<open>Properties\<close>

text \<open>C25: Calls of the feedback service may overlap: each reads and decides at one moment and commits
  its transaction at any later one, whatever other calls committed in between, with faults anywhere.
  Starting from a database with one rating per order, scores from 1 to 5, one unresolved complaint
  per order and workflow columns that agree with the status, every database such calls lead to has
  these again, and each complaint has moved along the edges open, responded, escalated, resolved
  and never back. There a decided transaction, however stale, and likewise a whole call, does one
  step of the workflow: nothing, one new open complaint, or one complaint moving along one edge.\<close>

theorem complaint_workflow:
  assumes "feedback_inv d" "overlapping d P (w_db w)"
  shows "feedback_inv (w_db w)
    \<and> (\<forall>i a. complaint_at d i = Some a \<longrightarrow>
         (\<exists>b. complaint_at (w_db w) i = Some b \<and> complaint_edge\<^sup>*\<^sup>* a b \<and> complaint_rank a \<le> complaint_rank b))
    \<and> (\<forall>E p r w'. p \<in> P \<longrightarrow> commit_call E p w = (r, w') \<longrightarrow>
         feedback_inv (w_db w') \<and> workflow_step (complaint_at (w_db w)) (complaint_at (w_db w')))
    \<and> (\<forall>E call r w'. feedback_run E call w = (r, w') \<longrightarrow>
         feedback_inv (w_db w') \<and> workflow_step (complaint_at (w_db w)) (complaint_at (w_db w')))"
proof -
  from overlapping_inv [OF assms] have I: "feedback_inv (w_db w)" "\<And>p. p \<in> P \<Longrightarrow> pending_ok p"
    "workflow_step\<^sup>*\<^sup>* (complaint_at d) (complaint_at (w_db w))" by auto
  have "feedback_inv (w_db w') \<and> workflow_step (complaint_at (w_db w)) (complaint_at (w_db w'))"
    if "p \<in> P" "commit_call E p w = (r, w')" for E p r w'
    using commit_step [OF I(2) I(1) that(2)] keepsD [OF keeps_commit [OF I(2)] I(1) that(2)] that(1) by simp
  moreover have "feedback_inv (w_db w') \<and> workflow_step (complaint_at (w_db w)) (complaint_at (w_db w'))"
    if "feedback_run E call w = (r, w')" for E call r w'
    using run_step [OF I(1) that] keepsD [OF keeps_feedback_run I(1) that] by simp
  moreover have "\<exists>b. complaint_at (w_db w) i = Some b \<and> complaint_edge\<^sup>*\<^sup>* a b \<and> complaint_rank a \<le> complaint_rank b"
    if "complaint_at d i = Some a" for i a
    using workflow_path [OF I(3) that] path_rank by blast
  ultimately show ?thesis using I(1) by blast
qed

text \<open>Two calls decide on the same open complaint; the escalation wins and the answer comes too late.\<close>

lemma escalate0_decides: "\<exists>p w'. decide env0 (Escalate ''c1'' ''emp'') (fb COpen) = (Inr p, w') \<and> w_db w' = w_db (fb COpen)"
  by (simp add: fb_defs run_simps escalate_gate_def hour_ns_def)

lemma respond0_decides:
  "\<exists>p w'. decide env0 (Respond ''c1'' ''v1'' ''op'' ''sorry for that'') (fb COpen) = (Inr p, w') \<and> w_db w' = w_db (fb COpen)"
proof -
  have "trim_space ''sorry for that'' = ''sorry for that''" by code_simp
  then show ?thesis by (simp add: fb_defs run_simps)
qed

theorem complaint_workflow_witness:
  "\<exists>p q. overlapping (w_db (fb COpen)) {p, q} (w_db (fb COpen))
     \<and> (\<forall>E r w'. commit_call E q (fb COpen) = (r, w') \<longrightarrow> feedback_inv (w_db w'))"
proof -
  obtain p w1 where p: "decide env0 (Escalate ''c1'' ''emp'') (fb COpen) = (Inr p, w1)" "w_db w1 = w_db (fb COpen)"
    using escalate0_decides by blast
  obtain q w2 where q: "decide env0 (Respond ''c1'' ''v1'' ''op'' ''sorry for that'') (fb COpen) = (Inr q, w2)"
    "w_db w2 = w_db (fb COpen)"
    using respond0_decides by blast
  have o: "overlapping (w_db (fb COpen)) {p, q} (w_db (fb COpen))"
    using overlapping.Decide [OF overlapping.Decide [OF overlapping.Idle q(1), unfolded q(2)] p(1)] p(2) by simp
  have "feedback_inv (w_db w')" if "commit_call E q (fb COpen) = (r, w')" for E r w'
    using complaint_workflow [OF fb_inv o, THEN conjunct2, THEN conjunct2, THEN conjunct1, rule_format, OF _ _ that] by simp
  with o show ?thesis by (intro exI conjI) auto
qed

text \<open>A complaint resolved with compensation was escalated, is resolved, and its order is
  refunded: the entry that charges it is credited with the price exactly if the order was not
  refunded before.\<close>

theorem compensation_refunds_order:
  assumes "feedback_inv (w_db w)" "payroll_inv (w_db w)"
    and "admin_resolve_complaint E reverser cid admin resolution True w = (Inr (), w')"
  shows "\<exists>c r. by_key c_id cid (complaints (w_db w)) = Some c \<and> c_status c = CEscalated
    \<and> complaint_at (w_db w') = (complaint_at (w_db w))(cid \<mapsto> CResolved)
    \<and> by_key o_id (c_order c) (orders (w_db w)) = Some r
    \<and> status_at (w_db w') = (status_at (w_db w))(c_order c \<mapsto> Refunded)
    \<and> entries (w_db w') = (if o_status r = Refunded then entries (w_db w)
        else case entry_charging (w_db w) (o_user r) (c_order c) of
            None \<Rightarrow> entries (w_db w) | Some e \<Rightarrow> bumped (entries (w_db w)) (e_id e) (o_total r))"
proof -
  from assms(3) obtain c w1 w2 where g: "complaint_get_by_id E cid w = (Inr c, w1)" and c: "c_status c = CEscalated"
    and t: "transition E c (admin_transition admin resolution True) w1 = (Inr (), w2)"
    and rv: "reverse_order E (c_order c) w2 = (Inr (), w')"
    by (auto simp: admin_resolve_complaint_def bind_ok guard_ok)
  note G = get_complaint_ok [OF g]
  have "feedback_inv (w_db w1)" using assms(1) G by simp
  note T = transition_ok [OF this t]
  from T(3) obtain a where db: "w_db w2 = (w_db w)\<lparr>complaints := complaints (w_db w2), audits := audits (w_db w) @ [a]\<rparr>"
    using G by auto
  have same: "orders (w_db w2) = orders (w_db w)" "entries (w_db w2) = entries (w_db w)"
    by (subst db, simp)+
  have eq: "status_at (w_db w2) = status_at (w_db w)" "entry_charging (w_db w2) = entry_charging (w_db w)"
    by (simp_all add: status_at_def entry_charging_def same fun_eq_iff)
  have pay2: "payroll_inv (w_db w2)"
  proof -
    have "payroll_inv (w_db w2) = payroll_inv (w_db w)"
      by (rule payroll_inv_cong; subst db; simp)
    with assms(2) show ?thesis by simp
  qed
  have at: "complaint_at (w_db w') = (complaint_at (w_db w))(cid \<mapsto> CResolved)"
    using keepsD [OF at_payroll.keeps_payroll_ops(6) refl rv] T(2) G
    by (simp add: admin_transition_def)
  obtain r where r: "by_key o_id (c_order c) (orders (w_db w2)) = Some r"
    by (cases rule: reverse_order_run [OF rv]) auto
  have "status_at (w_db w') = (status_at (w_db w))(c_order c \<mapsto> Refunded) \<and>
    entries (w_db w') = (if o_status r = Refunded then entries (w_db w)
        else case entry_charging (w_db w) (o_user r) (c_order c) of
            None \<Rightarrow> entries (w_db w) | Some e \<Rightarrow> bumped (entries (w_db w)) (e_id e) (o_total r))"
  proof (cases "o_status r = Refunded")
    case True
    then have st: "status_at (w_db w2) (c_order c) = Some Refunded" using r by (simp add: status_at_def)
    have "w_db w' = w_db w2"
      by (rule reverse_again [OF order_invD(4) [OF payroll_invD(1) [OF pay2]] st rv])
    with st True show ?thesis by (auto simp: eq same fun_eq_iff)
  next
    case False
    from reverse_order_effect [OF pay2 rv r False] show ?thesis using False by (simp add: eq same split: option.splits)
  qed
  with G c at r same show ?thesis by auto
qed

lemma compensate0_ok: "\<exists>w'. admin_resolve_complaint env0 True ''c1'' ''adm'' ''refund it'' True (fb CEscalated) = (Inr (), w')"
proof -
  have "trim_space ''refund it'' = ''refund it''" by code_simp
  then show ?thesis by (simp add: fb_defs run_simps int8_ok_def in_i64_def)
qed

theorem compensation_refunds_order_witness:
  "\<exists>w'. admin_resolve_complaint env0 True ''c1'' ''adm'' ''refund it'' True (fb CEscalated) = (Inr (), w')
     \<and> status_at (w_db w') ''uuuuuuu'' = Some Refunded"
proof -
  obtain w' where w': "admin_resolve_complaint env0 True ''c1'' ''adm'' ''refund it'' True (fb CEscalated) = (Inr (), w')"
    using compensate0_ok by blast
  have "c_order c = ''uuuuuuu''" if "by_key c_id ''c1'' (complaints (w_db (fb CEscalated))) = Some c" for c
    using that by (auto simp: fb_defs)
  with compensation_refunds_order [OF fb_inv fb_payroll w'] w' show ?thesis by auto
qed

text \<open>
  Where the resolution falls short: it commits before the reversal, and a reversal that fails
  cannot be replayed, because the complaint is no longer escalated.
\<close>

definition lossy :: env where
  "lossy = env0\<lparr>e_fault := (\<lambda>n. if n = 22 then Some IoErr else None)\<rparr>"

definition lost1 :: world where
  "lost1 = snd (admin_resolve_complaint lossy True ''c1'' ''adm'' ''refund it'' True (fb CEscalated))"

lemma lost1_run:
  "fst (admin_resolve_complaint lossy True ''c1'' ''adm'' ''refund it'' True (fb CEscalated)) = Inl (DbErr IoErr)
   \<and> complaint_at (w_db lost1) ''c1'' = Some CResolved \<and> status_at (w_db lost1) ''uuuuuuu'' = Some PickedUp"
proof -
  have "trim_space ''refund it'' = ''refund it''" by code_simp
  then show ?thesis
    by (simp add: lost1_def lossy_def fb_defs run_simps complaint_at_def status_at_def)
qed

lemma not_escalated_stuck:
  assumes "complaint_at (w_db w) i \<noteq> Some CEscalated" "admin_resolve_complaint E rv i a s b w = (r, w')"
  shows "(\<exists>e. r = Inl e) \<and> w_db w' = w_db w"
proof -
  obtain x w1 where g: "complaint_get_by_id E i w = (x, w1)" by fastforce
  have w1: "w_db w1 = w_db w" by (rule roD [OF ro_feedback_reads(4) g])
  show ?thesis
  proof (cases x)
    case (Inl e)
    with assms(2) g w1 show ?thesis by (auto simp: admin_resolve_complaint_def bind_run)
  next
    case (Inr c)
    with g have "c_status c \<noteq> CEscalated" using get_complaint_ok [of E i w c w1] assms(1) by (auto simp: complaint_at_def)
    with Inr assms(2) g w1 show ?thesis by (auto simp: admin_resolve_complaint_def bind_run fail_def)
  qed
qed

theorem compensation_lost:
  "fst (admin_resolve_complaint lossy True ''c1'' ''adm'' ''refund it'' True (fb CEscalated)) = Inl (DbErr IoErr)
   \<and> complaint_at (w_db lost1) ''c1'' = Some CResolved \<and> status_at (w_db lost1) ''uuuuuuu'' = Some PickedUp
   \<and> (\<forall>E s r w'. admin_resolve_complaint E True ''c1'' ''adm'' s True lost1 = (r, w') \<longrightarrow>
        (\<exists>e. r = Inl e) \<and> status_at (w_db w') ''uuuuuuu'' = Some PickedUp)"
proof -
  have "complaint_at (w_db lost1) ''c1'' \<noteq> Some CEscalated" using lost1_run by simp
  from not_escalated_stuck [OF this] show ?thesis using lost1_run by metis
qed

end
