(* ===== verification/Order_Props.thy ===== *)
theory Order_Props
  imports Scenario
begin

text \<open>
  The properties of the order service. Each is stated over the operations themselves and over
  what can be read back from the database; the witnesses run the operations on the system of
  theory \<open>Scenario\<close>.
\<close>


section \<open>Placing an order\<close>

text \<open>C1: A placed order takes from the supply of every item and day exactly the number of
  units the request asks for of it, out of what was left, and changes no capacity.\<close>

theorem place_takes_quota:
  assumes "order_inv (w_db w)" "menu_ok (w_db w)" "place E inp w = (Inr y, w')"
  shows "(\<forall>k. remain_at (w_db w') k
        = map_option (\<lambda>v. v - wanted_at (p_date inp) (p_items inp) k) (remain_at (w_db w) k))
    \<and> (\<forall>p\<in>set (p_items inp). \<exists>v. remain_at (w_db w) (pi_item p, p_date inp) = Some v
          \<and> wanted (p_items inp) (pi_item p) \<le> v)
    \<and> capacity_at (w_db w') = capacity_at (w_db w)"
proof -
  note L = place_ledger [OF assms]
  have rem: "remain_at (w_db w') k
      = map_option (\<lambda>v. v - wanted_at (p_date inp) (p_items inp) k) (remain_at (w_db w) k)" for k
    by (simp add: remain_of_taken L(1,3) option.map_comp comp_def algebra_simps)
  from place_run [OF assms(3) assms(2) [unfolded menu_ok_def]] obtain x v v' where
    l: "map line (o_items x) = price_lines (w_db w) (p_items inp)"
    and v: "w_db v = w_db w" "place_body E inp x v = (Inr y, v')" by metis
  have "wf_supplies (w_db v)" using order_invD(1) assms(1) v(1) by simp
  from create_body_ok [OF this v(2) [unfolded place_body_def]]
  have have_it: "\<And>i. i \<in> set (o_items x) \<Longrightarrow> \<exists>u. remain_at (w_db v) (i_menu_item i, p_date inp) = Some u
        \<and> demand (o_items x) (i_menu_item i) \<le> u" by metis
  have "\<exists>v. remain_at (w_db w) (pi_item p, p_date inp) = Some v \<and> wanted (p_items inp) (pi_item p) \<le> v"
    if "p \<in> set (p_items inp)" for p
  proof -
    from that have "pi_item p \<in> fst ` set (price_lines (w_db w) (p_items inp))"
      by (force simp: price_lines_def)
    then have "pi_item p \<in> fst ` set (map line (o_items x))" by (simp only: l)
    then obtain i where "i \<in> set (o_items x)" "i_menu_item i = pi_item p" by (auto simp: line_def)
    with have_it [of i] show ?thesis by (simp add: v(1) demand_lines(1) [OF l])
  qed
  with rem L(3) show ?thesis by blast
qed

theorem place_takes_quota_witness:
  "\<exists>y. place env0 place0 world0 = (Inr y, world1)
    \<and> remain_at (w_db world1) (''m1'', d0) = Some 8 \<and> remain_at (w_db world1) (''m2'', d0) = Some 1"
proof -
  obtain y where y: "place env0 place0 world0 = (Inr y, world1)" using place0_ok by blast
  from place_takes_quota [OF _ _ y] order_inv0 menu_ok0
  have "\<forall>k. remain_at (w_db world1) k
      = map_option (\<lambda>v. v - wanted_at (p_date place0) (p_items place0) k) (remain_at db0 k)" by simp
  moreover have "remain_at db0 (''m1'', d0) = Some 10" "remain_at db0 (''m2'', d0) = Some 2"
    by (simp_all add: remain_at_def scenario_defs skey_def)
  ultimately show ?thesis using y by (simp add: wanted_at_def wanted_def place0_def)
qed

lemma place_stored:
  assumes "order_inv (w_db w)" "menu_ok (w_db w)" "place E inp w = (Inr y, w')"
  shows "\<exists>r. by_key o_id (o_id y) (orders (w_db w')) = Some r
    \<and> o_user r = p_user inp \<and> o_plant r = p_plant inp \<and> o_date r = p_date inp \<and> o_notes r = p_notes inp
    \<and> o_status r = Placed \<and> o_placed_at r = Some (e_now E)
    \<and> map line (items_of (w_db w') (o_id y)) = price_lines (w_db w) (p_items inp)
    \<and> o_total r = i64 (lines_total (price_lines (w_db w) (p_items inp)))
    \<and> (\<forall>p\<in>set (p_items inp). 0 < pi_qty p \<and> (\<exists>m. by_key m_id (pi_item p) (menu_items (w_db w)) = Some m
          \<and> m_vendor m = o_vendor r))"
proof -
  from place_run [OF assms(3) assms(2) [unfolded menu_ok_def]] obtain x vd v v' where
    x: "x = new_order (p_user inp) (o_vendor x) (p_plant inp) (p_date inp) (o_total x) (p_notes inp)
           (e_now E) (cutoff_of E (p_date inp) vd) (o_items x)"
    and l: "map line (o_items x) = price_lines (w_db w) (p_items inp)"
    and t: "o_total x = i64 (lines_total (price_lines (w_db w) (p_items inp)))"
    and its: "\<forall>p\<in>set (p_items inp). 0 < pi_qty p \<and> (\<exists>m. by_key m_id (pi_item p) (menu_items (w_db w)) = Some m
           \<and> m_vendor m = o_vendor x)"
    and v: "w_db v = w_db w" "place_body E inp x v = (Inr y, v')" "w_db w' = w_db v'" by metis
  have xf: "o_user x = p_user inp" "o_plant x = p_plant inp" "o_date x = p_date inp" "o_notes x = p_notes inp"
    "o_status x = Placed" "o_placed_at x = Some (e_now E)" by (subst x, simp)+
  have inv: "order_inv (w_db v)" using assms(1) v(1) by simp
  from create_body_stored [OF inv v(2) [unfolded place_body_def]] xf t its l
  show ?thesis by (simp add: v(3)) metis
qed

text \<open>C2: A placed order is stored as requested: owner, plant, day, notes and lines, every line
  at the current menu price and of one vendor, status placed, and the total the (wrapped) sum
  of the lines.\<close>

theorem place_records_request:
  assumes "order_inv (w_db w)" "menu_ok (w_db w)" "place E inp w = (Inr y, w')"
  shows "\<exists>r. by_key o_id (o_id y) (orders (w_db w')) = Some r
    \<and> o_user r = p_user inp \<and> o_plant r = p_plant inp \<and> o_date r = p_date inp \<and> o_notes r = p_notes inp
    \<and> o_status r = Placed \<and> o_placed_at r = Some (e_now E)
    \<and> map line (items_of (w_db w') (o_id y)) = price_lines (w_db w) (p_items inp)
    \<and> o_total r = i64 (lines_total (price_lines (w_db w) (p_items inp)))
    \<and> (\<forall>p\<in>set (p_items inp). 0 < pi_qty p \<and> (\<exists>m. by_key m_id (pi_item p) (menu_items (w_db w)) = Some m
          \<and> m_vendor m = o_vendor r))"
  by (rule place_stored [OF assms])

theorem place_records_request_witness:
  "\<exists>(y :: order) r. by_key o_id (o_id y) (orders (w_db world1)) = Some r \<and> o_user r = ''emp'' \<and> o_total r = 280"
proof -
  obtain y where y: "place env0 place0 world0 = (Inr y, world1)" using place0_ok by blast
  from place_records_request [OF _ _ y] order_inv0 menu_ok0 obtain r where
    "by_key o_id (o_id y) (orders (w_db world1)) = Some r" "o_user r = p_user place0"
    "o_total r = i64 (lines_total (price_lines db0 (p_items place0)))" by auto
  moreover have "i64 (lines_total (price_lines db0 (p_items place0))) = 280"
    by (simp add: lines_total_def price_lines_def menu_price_def scenario_defs i64_run)
  ultimately show ?thesis by (intro exI [of _ y] exI [of _ r]) (simp add: place0_def)
qed


text \<open>C3: An order is only accepted for a plant its vendor actively serves, strictly before the
  cutoff, which is stored with the order, and not beyond the preorder window.\<close>

theorem place_within_rules:
  assumes "menu_ok (w_db w)" "order_inv (w_db w)" "place E inp w = (Inr y, w')"
  shows "serves (w_db w) (o_vendor y) (p_plant inp)
    \<and> (\<exists>vd. by_key v_id (o_vendor y) (vendors (w_db w)) = Some vd
         \<and> o_cutoff_at y = cutoff_of E (p_date inp) vd \<and> e_now E < o_cutoff_at y
         \<and> midnight_utc (p_date inp) \<le> date_in (e_tz E) (utc_day (e_now E) + v_preorder_days vd) 0)"
proof -
  from place_run [OF assms(3) assms(1) [unfolded menu_ok_def]] obtain x vd v v' where
    x: "x = new_order (p_user inp) (o_vendor x) (p_plant inp) (p_date inp) (o_total x) (p_notes inp)
           (e_now E) (cutoff_of E (p_date inp) vd) (o_items x)"
    and r: "serves (w_db w) (o_vendor x) (p_plant inp)"
      "by_key v_id (o_vendor x) (vendors (w_db w)) = Some vd" "in_window E (p_date inp) vd"
    and v: "w_db v = w_db w" "place_body E inp x v = (Inr y, v')" by metis
  have "wf_supplies (w_db v)" using order_invD(1) assms(2) v(1) by simp
  from create_body_ok [OF this v(2) [unfolded place_body_def]]
  have "o_vendor y = o_vendor x" "o_cutoff_at y = o_cutoff_at x" by metis+
  moreover have "o_cutoff_at x = cutoff_of E (p_date inp) vd" by (subst x, simp)
  ultimately show ?thesis using r by (simp add: in_window_def)
qed

theorem place_within_rules_witness: "serves db0 ''v1'' ''P1'' \<and> e_now env0 < d0 * day_ns"
proof -
  obtain y where y: "place env0 place0 world0 = (Inr y, world1)" using place0_ok by blast
  from place_within_rules [OF _ _ y] order_inv0 menu_ok0 obtain vd where
    vd: "serves db0 (o_vendor y) (p_plant place0)" "by_key v_id (o_vendor y) (vendors db0) = Some vd"
      "e_now env0 < cutoff_of env0 (p_date place0) vd" by auto
  from vd(2) have "o_vendor y = ''v1''" "v_cutoff_hour vd = 18"
    by (auto simp: scenario_defs split: if_splits)
  with vd(1,3) show ?thesis
    by (simp add: place0_def cutoff_of_def date_in_def d0_def env0_def day_ns_def hour_ns_def sec_ns_def)
qed

text \<open>East of UTC the last day of the preorder window is never accepted: the window is
  compared with midnight in the business location, the supply date is midnight UTC.\<close>

theorem preorder_window_short:
  assumes "menu_ok (w_db w)" "0 < e_tz E" "e_tz E \<le> 86400" "place E inp w = (Inr y, w')"
  shows "\<exists>vd \<in> set (vendors (w_db w)). p_date inp < utc_day (e_now E) + v_preorder_days vd"
proof -
  from place_run [OF assms(4) assms(1) [unfolded menu_ok_def]] obtain x vd v v' where
    x: "x = new_order (p_user inp) (o_vendor x) (p_plant inp) (p_date inp) (o_total x) (p_notes inp)
           (e_now E) (cutoff_of E (p_date inp) vd) (o_items x)"
    and vd: "by_key v_id (o_vendor x) (vendors (w_db w)) = Some vd" and win: "in_window E (p_date inp) vd"
    and v: "w_db v = w_db w" "place_body E inp x v = (Inr y, v')" by metis
  from win have "p_date inp * day_ns \<le> (utc_day (e_now E) + v_preorder_days vd) * day_ns - e_tz E * 1000000000"
    by (simp add: in_window_def midnight_utc_def date_in_def sec_ns_def)
  with assms(2) have "p_date inp * day_ns < (utc_day (e_now E) + v_preorder_days vd) * day_ns"
    by linarith
  then have "p_date inp < utc_day (e_now E) + v_preorder_days vd"
    using day_ns_pos(1) mult_less_cancel_right_pos by blast
  with by_key_SomeD [OF vd] show ?thesis by blast
qed

theorem preorder_window_short_witness: "\<exists>vd \<in> set (vendors db0). d0 < 20458 + v_preorder_days vd"
proof -
  obtain y where y: "place env0 place0 world0 = (Inr y, world1)" using place0_ok by blast
  have "0 < e_tz env0" "e_tz env0 \<le> 86400" by (simp_all add: env0_def)
  from preorder_window_short [OF _ this y] menu_ok0
  have "\<exists>vd \<in> set (vendors db0). p_date place0 < utc_day (e_now env0) + v_preorder_days vd" by simp
  then show ?thesis
    by (simp add: place0_def env0_def utc_day_def day_ns_def hour_ns_def sec_ns_def)
qed

section \<open>Failures\<close>

text \<open>
  A modification commits and then reads the order back: when only that read fails, the call reports
  an error although the order was modified.
\<close>

definition modified_to :: "env \<Rightarrow> modify_input \<Rightarrow> db \<Rightarrow> db \<Rightarrow> bool" where
  "modified_to E inp d d' \<longleftrightarrow> (\<exists>x new tot w1 w2. w_db w1 = d \<and> w_db w2 = d' \<and> modify_check E x (mo_user inp) = None
     \<and> o_id x = mo_order inp \<and> map line new = price_lines d (mo_items inp)
     \<and> persist_modified_order E inp x new tot (quota_delta_for_modify (o_items x) new) w1 = (Inr (), w2))"

lemma keeps_row: "keeps (\<lambda>d. by_key o_id k (orders d) \<noteq> None) (outbox_append_tx E ty i subj pl hs)"
  "keeps (\<lambda>d. by_key o_id k (orders d) \<noteq> None) (audit_write_tx E ev)"
  by (simp_all add: keeps_outbox_append keeps_audit_write)

lemma modified_stays:
  assumes "persist_modified_order E inp x new tot delta w = (Inr (), w')"
  shows "by_key o_id (o_id x) (orders (w_db w')) \<noteq> None"
proof -
  from assms have "begin_func E (\<lambda>_. modify_body E inp x new tot delta) w = (Inr (), w')"
    by (simp add: persist_modified_order_def map_err_ok)
  then obtain v v' where b: "modify_body E inp x new tot delta v = (Inr (), v')" "w_db w' = w_db v'"
    by (rule begin_func_run) auto
  then obtain v1 v2 js v3 pl where r: "replace_items_tx E (o_id x) new tot (mo_notes inp) v1 = (Inr js, v2)"
    and o: "outbox_append_tx E ''order'' (o_id x) ''order.modified.v1'' pl [] v2 = (Inr (), v3)"
    and a: "audit_write_tx E (order_audit (Some (mo_user inp)) (Some Employee) ''order.modify'' (o_id x) pl) v3 = (Inr (), v')"
    by (auto simp: modify_body_def Let_def bind_ok)
  have "by_key o_id (o_id x) (orders (w_db v2)) \<noteq> None"
    using replace_items_tx_ok(1,5) [OF r] by (simp add: by_key_sql_update)
  from keepsD [OF keeps_row(2) keepsD [OF keeps_row(1) this o] a] b(2) show ?thesis by simp
qed

lemma modify_failed:
  assumes "modify E inp w = (Inl e, w')"
  shows "w_db w' = w_db w \<or> (\<exists>p. e = DbErr p) \<and> modified_to E inp (w_db w) (w_db w')"
proof (cases "mo_items inp = []")
  case True
  with assms show ?thesis by (simp add: modify_def fail_def)
next
  case False
  obtain q w1 where 1: "order_get_by_id E (mo_order inp) w = (q, w1)" by fastforce
  have d1: "w_db w1 = w_db w" by (rule roD [OF ro_order_reads(1) 1])
  show ?thesis
  proof (cases q)
    case (Inl y)
    with assms 1 d1 False show ?thesis by (simp add: modify_def bind_def)
  next
    case (Inr x)
    have rest: "(case modify_check E x (mo_user inp) of Some e \<Rightarrow> fail e | None \<Rightarrow>
        bind (resolve_modify_items E (mo_items inp) (o_vendor x) [] 0) (\<lambda>(newItems, tot).
        bind (persist_modified_order E inp x newItems tot (quota_delta_for_modify (o_items x) newItems)) (\<lambda>_.
        order_get_by_id E (o_id x)))) w1 = (Inl e, w')"
      using assms 1 Inr False by (simp add: modify_def bind_def)
    show ?thesis
    proof (cases "modify_check E x (mo_user inp)")
      case (Some y)
      with rest d1 show ?thesis by (simp add: fail_def)
    next
      case None
      obtain q2 w2 where 2: "resolve_modify_items E (mo_items inp) (o_vendor x) [] 0 w1 = (q2, w2)" by fastforce
      have d2: "w_db w2 = w_db w" using roD [OF ro_resolve(2) 2] d1 by simp
      show ?thesis
      proof (cases q2)
        case (Inl y)
        with rest None 2 d2 show ?thesis by (simp add: bind_def)
      next
        case q2: (Inr nt)
        obtain new tot where nt: "nt = (new, tot)" by fastforce
        let ?m = "persist_modified_order E inp x new tot (quota_delta_for_modify (o_items x) new)"
        obtain q3 w3 where 3: "?m w2 = (q3, w3)" by fastforce
        have run: "bind ?m (\<lambda>_. order_get_by_id E (o_id x)) w2 = (Inl e, w')"
          using rest None 2 q2 nt by (simp add: bind_def)
        show ?thesis
        proof (cases q3)
          case (Inl y)
          have "atomic ?m" unfolding persist_modified_order_def by (intro atomic_op)
          with run 3 Inl d2 show ?thesis by (auto simp: bind_def dest: atomicD)
        next
          case q3: (Inr u)
          with run 3 have g: "order_get_by_id E (o_id x) w3 = (Inl e, w')" by (simp add: bind_def)
          have x: "o_id x = mo_order inp" using order_get_ok [OF 1 [unfolded Inr]] by (auto simp: with_items_def order_row.defs order.defs)
          have "w_db w' = w_db w3" by (rule roD [OF ro_order_reads(1) g])
          moreover have "by_key o_id (o_id x) (orders (w_db w3)) \<noteq> None" using modified_stays 3 q3 by (metis (full_types) old.unit.exhaust)
          then have "\<exists>p. e = DbErr p"
            using g by (auto simp: order_get_by_id_def bind_err query_err order_get_row_def ret_ok split: option.splits)
          moreover have "map line new = price_lines (w_db w) (mo_items inp)"
            using resolve_modify_items_ok [OF 2 [unfolded q2 nt]] d1 by (simp add: in_i64_def)
          ultimately show ?thesis using 3 q3 d2 None x unfolding modified_to_def by (metis (full_types) old.unit.exhaust)
        qed
      qed
    qed
  qed
qed

text \<open>C4: A call of the order service that fails leaves the database as it was; only a modification can report a
  failure after its transaction has committed, when the database does not answer the read that follows, and then the
  order is modified as requested.\<close>

theorem failing_calls_change_nothing:
  "(place E pin w = (Inl e, w') \<longrightarrow> w_db w' = w_db w)
   \<and> (cancel E oid user w = (Inl e, w') \<longrightarrow> w_db w' = w_db w)
   \<and> (persist_modified_order E minp x new tot delta w = (Inl e, w') \<longrightarrow> w_db w' = w_db w)
   \<and> (modify E minp w = (Inl e, w') \<longrightarrow> w_db w' = w_db w \<or> (\<exists>p. e = DbErr p) \<and> modified_to E minp (w_db w) (w_db w'))
   \<and> (mark_ready E vid oids actor w = (Inl e, w') \<longrightarrow> w_db w' = w_db w)
   \<and> (pickup E oid user w = (Inl e, w') \<longrightarrow> w_db w' = w_db w)
   \<and> (no_show_one E x w = (Inl e, w') \<longrightarrow> w_db w' = w_db w)"
proof -
  have M: "atomic (persist_modified_order E minp x new tot delta)"
    unfolding persist_modified_order_def by (intro atomic_op)
  show ?thesis
    by (intro conjI impI; (erule modify_failed | elim atomicD [rotated]; intro atomic_order_ops M))
qed

definition place_too_many :: place_input where
  "place_too_many = place0\<lparr>p_items := [\<lparr>pi_item = ''m1'', pi_qty = 2\<rparr>, \<lparr>pi_item = ''m2'', pi_qty = 3\<rparr>]\<rparr>"

theorem failing_calls_change_nothing_witness:
  "\<exists>w'. place env0 place_too_many world0 = (Inl (QuotaErr ErrOutOfStock), w') \<and> w_db w' = db0"
proof -
  have r: "\<exists>w'. place env0 place_too_many world0 = (Inl (QuotaErr ErrOutOfStock), w')"
    by (simp add: place_too_many_def run_simps scenario_defs)
  then obtain w' where w': "place env0 place_too_many world0 = (Inl (QuotaErr ErrOutOfStock), w')" by blast
  with failing_calls_change_nothing [of env0 place_too_many world0 "QuotaErr ErrOutOfStock" w'] show ?thesis
    by auto
qed

section \<open>Cancelling\<close>

text \<open>
  What is left of a supply once \<open>n\<close> units are taken from it, or given back when \<open>n\<close> is negative:
  never more than the capacity.
\<close>

definition left_after :: "db \<Rightarrow> supply_key \<Rightarrow> int \<Rightarrow> int option" where
  "left_after d k n = map_option (\<lambda>s. min (s_capacity s) (s_remain s - n)) (by_key skey k (supplies d))"

lemma left_after_taken:
  assumes "wf_supplies d" "capacity_at d' = capacity_at d" "taken d' k = (if 0 \<le> n then taken d k + n else max (taken d k + n) 0)"
  shows "remain_at d' k = left_after d k n"
proof -
  have "remain_at d' k = map_option (\<lambda>c. c - (if 0 \<le> n then taken d k + n else max (taken d k + n) 0)) (capacity_at d k)"
    by (simp only: remain_of_taken assms(2,3))
  moreover have "0 \<le> taken d k" by (rule taken_nonneg [OF assms(1)])
  ultimately show ?thesis
    by (cases "by_key skey k (supplies d)") (auto simp: left_after_def capacity_at_def taken_def min_def max_def)
qed

text \<open>C5: A successful cancellation was asked for by the owner of a placed order; it gives the units of
  the order back to their supplies, up to the capacity of each, and stops counting them as sold. As long as the
  supplies are in balance, the units come back exactly and the balance stays.\<close>

theorem cancel_returns_quota:
  assumes "order_inv (w_db w)" "cancel E oid user w = (Inr (), w')"
  shows "(\<exists>r. by_key o_id oid (orders (w_db w)) = Some r \<and> o_user r = user \<and> o_status r = Placed)
    \<and> status_at (w_db w') oid = Some Cancelled
    \<and> (\<forall>k. remain_at (w_db w') k = left_after (w_db w) k (- sales_of (w_db w) oid k))
    \<and> (\<forall>k. sold_at (w_db w') k = sold_at (w_db w) k - sales_of (w_db w) oid k)
    \<and> capacity_at (w_db w') = capacity_at (w_db w)
    \<and> (balanced (w_db w) \<longrightarrow> balanced (w_db w')
        \<and> (\<forall>k. remain_at (w_db w') k = map_option (\<lambda>v. v + sales_of (w_db w) oid k) (remain_at (w_db w) k)))"
proof -
  from cancel_ledger [OF assms(1,2)] obtain r where
    r: "by_key o_id oid (orders (w_db w)) = Some r" "o_user r = user" "o_status r = Placed"
    and m: "moved (w_db w) oid Placed Cancelled (w_db w')"
    and t: "\<And>k. taken (w_db w') k = max (taken (w_db w) k - sales_of (w_db w) oid k) 0"
    and s: "\<And>k. sold_at (w_db w') k = sold_at (w_db w) k - sales_of (w_db w) oid k"
    and c: "capacity_at (w_db w') = capacity_at (w_db w)" by metis
  note I = order_invD [OF assms(1)]
  have "remain_at (w_db w') k = left_after (w_db w) k (- sales_of (w_db w) oid k)" for k
    using sales_of_nonneg [OF I(2), of oid k] taken_nonneg [OF I(1), of k]
    by (intro left_after_taken [OF I(1) c]) (simp add: t)
  moreover have "remain_at (w_db w') k = map_option (\<lambda>v. v + sales_of (w_db w) oid k) (remain_at (w_db w) k)"
    if "balanced (w_db w)" for k
  proof -
    have "sales_of (w_db w) oid k \<le> taken (w_db w) k"
      using spec [OF that [unfolded balanced_def], of k] sales_of_le_sold [OF I(2), of oid k] by simp
    then show ?thesis by (simp add: remain_of_taken c t option.map_comp comp_def algebra_simps)
  qed
  ultimately show ?thesis
    using r m s c balanced_release [OF _ I(2) t s] by (auto simp: moved_def)
qed

theorem cancel_returns_quota_witness:
  "\<exists>w2. cancel env0 oid1 ''emp'' world1 = (Inr (), w2) \<and> balanced (w_db w2)
    \<and> status_at (w_db w2) oid1 = Some Cancelled"
proof -
  obtain w2 where w2: "cancel env0 oid1 ''emp'' world1 = (Inr (), w2)"
    using cancel1_ok by (cases "cancel env0 oid1 ''emp'' world1") auto
  with cancel_returns_quota [OF order_inv1 w2] balanced1 show ?thesis by blast
qed

text \<open>C6: Placing an order and cancelling it, with nothing in between, restores every remaining
  quota and the number of units sold, of whatever items and day.\<close>

theorem place_cancel_roundtrip:
  assumes "order_inv (w_db w)" "menu_ok (w_db w)"
    and "place E inp w = (Inr y, w1)" "cancel E2 (o_id y) user w1 = (Inr (), w2)"
  shows "remain_at (w_db w2) = remain_at (w_db w) \<and> sold_at (w_db w2) = sold_at (w_db w)
    \<and> capacity_at (w_db w2) = capacity_at (w_db w)"
proof -
  note L = place_ledger [OF assms(1,2,3)]
  have inv1: "order_inv (w_db w1)" by (rule keepsD [OF keeps_inv_place assms(1) assms(3)])
  from place_stored [OF assms(1,2,3)] obtain r where
    r: "by_key o_id (o_id y) (orders (w_db w1)) = Some r" "o_date r = p_date inp" "o_status r = Placed"
    "map line (items_of (w_db w1) (o_id y)) = price_lines (w_db w) (p_items inp)" by metis
  have sales: "sales_of (w_db w1) (o_id y) k = wanted_at (p_date inp) (p_items inp) k" for k
    by (simp add: sales_of_row [OF r(1)] r(2,3) demand_lines(2) [OF r(4)])
  from cancel_ledger [OF inv1 assms(4)] obtain
    m: "moved (w_db w1) (o_id y) Placed Cancelled (w_db w2)"
    and t: "\<And>k. taken (w_db w2) k = max (taken (w_db w1) k - sales_of (w_db w1) (o_id y) k) 0"
    and s: "\<And>k. sold_at (w_db w2) k = sold_at (w_db w1) k - sales_of (w_db w1) (o_id y) k"
    and c: "capacity_at (w_db w2) = capacity_at (w_db w1)" by metis
  have "taken (w_db w2) k = taken (w_db w) k" for k
    using t [of k] L(1) [of k] sales [of k] taken_nonneg [OF order_invD(1) [OF assms(1)], of k] by simp
  then have "remain_at (w_db w2) = remain_at (w_db w)"
    by (simp add: fun_eq_iff remain_of_taken c L(3))
  moreover have "sold_at (w_db w2) = sold_at (w_db w)" using s L(2) sales by (simp add: fun_eq_iff)
  ultimately show ?thesis using c L(3) by simp
qed

theorem place_cancel_roundtrip_witness:
  "\<exists>w2. cancel env0 oid1 ''emp'' world1 = (Inr (), w2) \<and> remain_at (w_db w2) = remain_at db0"
proof -
  obtain y where y: "place env0 place0 world0 = (Inr y, world1)" "o_id y = oid1"
    using place0_ok by blast
  obtain w2 where w2: "cancel env0 (o_id y) ''emp'' world1 = (Inr (), w2)"
    using cancel1_ok y(2) by (cases "cancel env0 oid1 ''emp'' world1") auto
  from place_cancel_roundtrip [OF _ _ y(1) w2] order_inv0 menu_ok0 w2 y(2) show ?thesis by auto
qed

text \<open>C7: The owner of a placed order can cancel it whenever the database answers and the units to give
  back fit the integer column on top of what is left of their supplies: the call returns without an error. Supplies
  in balance always have that room.\<close>

theorem cancel_always_succeeds:
  assumes "order_inv (w_db w)" "e_fault E = (\<lambda>_. None)"
    and "by_key o_id oid (orders (w_db w)) = Some r" "o_user r = user" "o_status r = Placed"
    and "by_key u_id user (users (w_db w)) \<noteq> None"
  shows "((\<forall>k. has_room (w_db w) k (sales_of (w_db w) oid k)) \<longrightarrow> (\<exists>w'. cancel E oid user w = (Inr (), w')))
    \<and> (balanced (w_db w) \<longrightarrow> (\<forall>k. has_room (w_db w) k (sales_of (w_db w) oid k)))"
proof (intro conjI impI)
  let ?x = "with_items r (items_of (w_db w) oid)"
  assume room: "\<forall>k. has_room (w_db w) k (sales_of (w_db w) oid k)"
  obtain w1 where 1: "order_get_by_id E oid w = (Inr ?x, w1)" and w1: "w_db w1 = w_db w"
    using order_get_succeeds [OF assms(2,3)] by blast
  have "\<exists>v'. cancel_body E ?x user v = (Inr (), v')" if "w_db v = w_db w1" for v
  proof -
    have v: "w_db v = w_db w" using that w1 by simp
    have "\<exists>v'. cancel_body E (with_items r (items_of (w_db v) oid)) user v = (Inr (), v')"
      by (rule cancel_body_succeeds) (unfold v, (rule assms room)+)
    then show ?thesis by (simp add: v)
  qed
  then obtain w' where "begin_func E (\<lambda>_. cancel_body E ?x user) w1 = (Inr (), w')"
    using begin_func_succeeds [OF assms(2), of w1 "\<lambda>_. cancel_body E ?x user" "()"] by blast
  with 1 assms(4,5) show "\<exists>w'. cancel E oid user w = (Inr (), w')"
    by (simp add: cancel_def bind_run cancel_check_def can_transition_def persist_cancel_order_def map_err_def)
next
  note I = order_invD [OF assms(1)]
  assume b: "balanced (w_db w)"
  show "\<forall>k. has_room (w_db w) k (sales_of (w_db w) oid k)"
  proof
    fix k
    have le: "sales_of (w_db w) oid k \<le> taken (w_db w) k"
      using spec [OF b [unfolded balanced_def], of k] sales_of_le_sold [OF I(2), of oid k] by simp
    have "c \<le> int4_max" if "capacity_at (w_db w) k = Some c" for c
      using that wf_supplies_row [OF I(1)] unfolding capacity_at_def by fastforce
    with le show "has_room (w_db w) k (sales_of (w_db w) oid k)"
      unfolding has_room_def remain_of_taken by fastforce
  qed
qed

theorem cancel_always_succeeds_witness: "\<exists>w'. cancel env0 oid1 ''emp'' world1 = (Inr (), w')"
proof -
  have u: "users (w_db world1) = users db0" "\<exists>r. by_key o_id oid1 (orders (w_db world1)) = Some r
      \<and> o_user r = ''emp'' \<and> o_status r = Placed"
    by (simp_all add: scenario1_defs db1_eq scenario_defs)
  from u(2) obtain r where r: "by_key o_id oid1 (orders (w_db world1)) = Some r"
    "o_user r = ''emp''" "o_status r = Placed" by blast
  have "by_key u_id ''emp'' (users (w_db world1)) \<noteq> None" "e_fault env0 = (\<lambda>_. None)"
    by (simp_all add: u(1) scenario_defs)
  from cancel_always_succeeds [OF order_inv1 this(2) r this(1)] balanced1 show ?thesis by blast
qed

section \<open>Modifying\<close>

text \<open>C8: A successful modification was asked for by the owner of a placed order before its
  cutoff. Whatever the order in which the quota map is visited, every supply moves by the
  difference between the new and the old quantities, up to its capacity when units come back, and exactly as long
  as the supplies are in balance, which stays; the stored lines are the requested ones, and no status changes.\<close>

theorem modify_moves_quota:
  assumes "order_inv (w_db w)" "modify E inp w = (Inr y, w')"
  shows "(\<exists>r. by_key o_id (mo_order inp) (orders (w_db w)) = Some r \<and> o_user r = mo_user inp
      \<and> o_status r = Placed \<and> e_now E < o_cutoff_at r
      \<and> (\<forall>k. remain_at (w_db w') k = left_after (w_db w) k
           (wanted_at (o_date r) (mo_items inp) k - sales_of (w_db w) (mo_order inp) k))
      \<and> (balanced (w_db w) \<longrightarrow> (\<forall>k. remain_at (w_db w') k = map_option
           (\<lambda>v. v + sales_of (w_db w) (mo_order inp) k - wanted_at (o_date r) (mo_items inp) k)
           (remain_at (w_db w) k))))
    \<and> map line (items_of (w_db w') (mo_order inp)) = price_lines (w_db w) (mo_items inp)
    \<and> status_at (w_db w') = status_at (w_db w) \<and> capacity_at (w_db w') = capacity_at (w_db w)
    \<and> (balanced (w_db w) \<longrightarrow> balanced (w_db w'))"
proof -
  from modify_ledger [OF assms(1,2)] obtain r where
    r: "by_key o_id (mo_order inp) (orders (w_db w)) = Some r" "o_user r = mo_user inp"
      "o_status r = Placed" "e_now E < o_cutoff_at r"
    and st: "status_at (w_db w') = status_at (w_db w)" and cap: "capacity_at (w_db w') = capacity_at (w_db w)"
    and l: "map line (items_of (w_db w') (mo_order inp)) = price_lines (w_db w) (mo_items inp)"
    and s: "\<And>k. sold_at (w_db w') k = sold_at (w_db w) k - sales_of (w_db w) (mo_order inp) k
       + wanted_at (o_date r) (mo_items inp) k"
    and t: "\<And>k. let n = wanted_at (o_date r) (mo_items inp) k - sales_of (w_db w) (mo_order inp) k in
       taken (w_db w') k = (if 0 \<le> n then taken (w_db w) k + n else max (taken (w_db w) k + n) 0)" by metis
  from modify_run [OF assms(2)] have "\<forall>p\<in>set (mo_items inp). 0 < pi_qty p" by metis
  then have "0 \<le> wanted (mo_items inp) m" for m
    unfolding wanted_def by (intro sum_list_nonneg) (auto simp: order.strict_implies_order)
  then have pos: "0 \<le> wanted_at (o_date r) (mo_items inp) k" for k by (simp add: wanted_at_def)
  note I = order_invD [OF assms(1)]
  have left: "remain_at (w_db w') k = left_after (w_db w) k
      (wanted_at (o_date r) (mo_items inp) k - sales_of (w_db w) (mo_order inp) k)" for k
    by (rule left_after_taken [OF I(1) cap]) (use t [of k] in \<open>simp add: Let_def\<close>)
  have tk: "taken (w_db w') k = taken (w_db w) k + wanted_at (o_date r) (mo_items inp) k
      - sales_of (w_db w) (mo_order inp) k" if "balanced (w_db w)" for k
    using t [of k] pos [of k] spec [OF that [unfolded balanced_def], of k]
      sales_of_le_sold [OF I(2), of "mo_order inp" k]
    by (simp add: Let_def max_def)
  have bal: "balanced (w_db w')" if "balanced (w_db w)"
    unfolding balanced_def using tk [OF that] s spec [OF that [unfolded balanced_def]] by simp
  have "remain_at (w_db w') k = map_option
      (\<lambda>v. v + sales_of (w_db w) (mo_order inp) k - wanted_at (o_date r) (mo_items inp) k)
      (remain_at (w_db w) k)" if "balanced (w_db w)" for k
    by (simp add: remain_of_taken cap tk [OF that] option.map_comp comp_def algebra_simps)
  then show ?thesis using r st l cap left bal by blast
qed

definition modify0 :: modify_input where
  "modify0 = \<lparr>mo_order = oid1, mo_user = ''emp'',
     mo_items = [\<lparr>pi_item = ''m2'', pi_qty = 2\<rparr>, \<lparr>pi_item = ''m1'', pi_qty = 1\<rparr>], mo_notes = ''y''\<rparr>"

lemma modify0_ok: "\<exists>y w'. modify env0 modify0 world1 = (Inr y, w')"
  by (simp add: modify0_def run_simps scenario1_defs db1_eq scenario_defs quota_delta_for_modify_def
      bump_def map_order_run del: set_filter)

theorem modify_moves_quota_witness:
  "\<exists>y w'. modify env0 modify0 world1 = (Inr y, w') \<and> balanced (w_db w')
    \<and> map line (items_of (w_db w') oid1) = [(''m2'', 2, 80), (''m1'', 1, 100)]"
proof -
  obtain y w' where m: "modify env0 modify0 world1 = (Inr y, w')" using modify0_ok by blast
  have "price_lines (w_db world1) (mo_items modify0) = [(''m2'', 2, 80), (''m1'', 1, 100)]"
    by (simp add: price_lines_def menu_price_def modify0_def scenario1_defs db1_eq scenario_defs)
  with modify_moves_quota [OF order_inv1 m] balanced1 m show ?thesis by (auto simp: modify0_def)
qed

section \<open>Ready, pickup, no show\<close>

text \<open>C9: A ready batch is all or nothing: it names every order once, every one of the calling
  vendor and placed or cut off; afterwards exactly these are ready, each with one new state
  event that records the status it left.\<close>

theorem mark_ready_batch:
  assumes "order_inv (w_db w)" "mark_ready E vid oids actor w = (Inr (), w')"
  shows "distinct oids
    \<and> (\<forall>k\<in>set oids. \<exists>r. by_key o_id k (orders (w_db w)) = Some r \<and> o_vendor r = vid
          \<and> (o_status r = Placed \<or> o_status r = Cutoff))
    \<and> (\<forall>k. status_at (w_db w') k = (if k \<in> set oids then Some Ready else status_at (w_db w) k))
    \<and> length (state_events (w_db w')) = length (state_events (w_db w)) + length oids
    \<and> order_inv (w_db w')"
proof -
  from mark_ready_run [OF assms(2)] obtain v v' where v: "w_db v = w_db w"
    "for_each (mark_one_ready E (w_db w) vid actor) oids v = (Inr (), v')" "w_db w' = w_db v'" by blast
  have inv: "order_inv (w_db v)" using assms(1) v(1) by simp
  have "order_inv (w_db v')" by (rule mark_ready_loop_inv [OF inv]) (use v in simp)
  with mark_ready_loop [OF v(2) order_invD(4,3) [OF inv]] v(1) show ?thesis by (simp add: v(3)) metis
qed

theorem mark_ready_batch_witness: "status_at (w_db world2) oid1 = Some Ready \<and> order_inv (w_db world2)"
  using mark_ready_batch [OF order_inv1 ready1_ok] by simp

text \<open>C10: An order is picked up once: a successful pickup was of a ready order by its owner, and
  as long as nothing else moves the order, every later attempt fails, whoever makes it.\<close>

theorem pickup_once:
  assumes "order_inv (w_db w)" "pickup E oid user w = (Inr (), w')"
    and "order_inv (w_db w2)" "status_at (w_db w2) oid = status_at (w_db w') oid"
  shows "(\<exists>r. by_key o_id oid (orders (w_db w)) = Some r \<and> o_user r = user \<and> o_status r = Ready)
    \<and> status_at (w_db w') = (status_at (w_db w))(oid \<mapsto> PickedUp)
    \<and> pickup E2 oid user2 w2 \<noteq> (Inr (), w3)
    \<and> mark_picked_up_tx E2 oid w2 \<noteq> (Inr (), w4)"
proof -
  from pickup_run [OF assms(2)] obtain r v v' where r: "by_key o_id oid (orders (w_db w)) = Some r"
    "o_user r = user" "o_status r = Ready" and v: "w_db v = w_db w"
    "pickup_body E (with_items r (items_of (w_db w) oid)) oid user v = (Inr (), v')" "w_db w' = w_db v'"
    by metis
  have "wf_order_ids (w_db v)" using order_invD(4) assms(1) v(1) by simp
  from pickup_body_effect [OF this v(2)] have
    st: "status_at (w_db w') = (status_at (w_db w))(oid \<mapsto> PickedUp)"
    by (simp add: quiet_move_def moved_def v(1,3))
  have "pickup E2 oid user2 w2 \<noteq> (Inr (), w3)"
  proof
    assume "pickup E2 oid user2 w2 = (Inr (), w3)"
    from pickup_run [OF this] obtain r2 where "by_key o_id oid (orders (w_db w2)) = Some r2" "o_status r2 = Ready"
      by metis
    then have "status_at (w_db w2) oid = Some Ready" by (simp add: status_at_def)
    with assms(4) st show False by simp
  qed
  moreover have "mark_picked_up_tx E2 oid w2 \<noteq> (Inr (), w4)"
    using pickup_upd.upd_from [OF order_invD(4) [OF assms(3)], of E2 oid w4] assms(4) st by auto
  ultimately show ?thesis using r st by blast
qed

theorem pickup_once_witness:
  "status_at (w_db world3) oid1 = Some PickedUp \<and> pickup env0 oid1 ''emp'' world3 \<noteq> (Inr (), world3)"
  using pickup_once [OF order_inv23(1) pickup1_ok order_inv23(2) refl] by simp

text \<open>The no-show sweep never fails as a whole; it counts exactly the orders it moved from
  ready to no-show, each with one state event, and touches no other status.\<close>

theorem no_show_sweep_counts:
  assumes "order_inv (w_db w)" "mark_no_show E age w = (Inr n, w')"
  shows "\<exists>S. finite S \<and> n = card S
    \<and> (\<forall>k\<in>S. \<exists>r\<in>set (orders (w_db w)). o_id r = k \<and> o_status r = Ready
          \<and> (\<exists>t. o_ready_at r = Some t \<and> t < e_now E - age))
    \<and> (\<forall>k. status_at (w_db w') k = (if k \<in> S then Some NoShow else status_at (w_db w) k))
    \<and> length (state_events (w_db w')) = length (state_events (w_db w)) + n
    \<and> order_inv (w_db w')"
proof -
  from assms(2) obtain xs w1 where 1: "list_ready_older_than E (e_now E - age) w = (Inr xs, w1)"
    and 2: "sweep (no_show_one E) xs 0 w1 = (Inr n, w')"
    by (auto simp: mark_no_show_def io_simps)
  note X = select_orders_ok [OF 1 [unfolded list_ready_older_than_def]]
  have inv1: "order_inv (w_db w1)" using assms(1) X by simp
  have step: "moved (w_db v) (o_id x) Ready NoShow (w_db v')"
    if inv: "order_inv (w_db v)" and run: "no_show_one E x v = (Inr (), v')" for x v v'
  proof -
    from run obtain u u' where u: "w_db u = w_db v" "no_show_body E x u = (Inr (), u')" "w_db v' = w_db u'"
      unfolding no_show_one_def map_err_ok by (metis begin_func_run)
    have "wf_order_ids (w_db u)" using order_invD(4) inv u(1) by simp
    from no_show_body_effect [OF this u(2)] show ?thesis by (simp add: quiet_move_def u(1,3))
  qed
  from sweep_moves [OF 2 inv1 keeps_inv_order_ops(4) atomic_order_ops(5) step] obtain S where
    S: "S \<subseteq> o_id ` set xs" "finite S" "n = card S"
      "\<forall>k. status_at (w_db w') k = (if k \<in> S then Some NoShow else status_at (w_db w) k)"
      "length (state_events (w_db w')) = length (state_events (w_db w)) + n" using X by auto
  have "\<exists>r\<in>set (orders (w_db w)). o_id r = k \<and> o_status r = Ready
          \<and> (\<exists>t. o_ready_at r = Some t \<and> t < e_now E - age)" if "k \<in> S" for k
  proof -
    from S(1) that obtain r where "r \<in> set (orders (w_db w))" "o_id r = k" "o_status r = Ready"
      "case o_ready_at r of None \<Rightarrow> False | Some t \<Rightarrow> t < e_now E - age" using X by auto
    then show ?thesis by (intro bexI [of _ r]) (auto split: option.splits)
  qed
  moreover have "order_inv (w_db w')" by (rule keepsD [OF keeps_inv_mark_no_show assms])
  ultimately show ?thesis using S by blast
qed

theorem no_show_sweep_counts_witness:
  "\<exists>n w'. mark_no_show env0 (- 1) world2 = (Inr n, w') \<and> status_at (w_db w') oid1 = Some NoShow"
proof -
  have "\<exists>w'. mark_no_show env0 (- 1) world2 = (Inr 1, w')"
    by (simp add: run_simps scenario2_defs)
  then obtain w' where r: "mark_no_show env0 (- 1) world2 = (Inr 1, w')" by blast
  from no_show_sweep_counts [OF order_inv23(1) r] obtain S where
    S: "1 = card S" "\<forall>k\<in>S. \<exists>r\<in>set (orders (w_db world2)). o_id r = k"
      "\<forall>k. status_at (w_db w') k = (if k \<in> S then Some NoShow else status_at (w_db world2) k)" by blast
  have "o_id ` set (orders (w_db world2)) = {oid1}" by (simp add: scenario2_defs)
  moreover have "S \<subseteq> o_id ` set (orders (w_db world2))" by (rule subsetI) (metis S(2) imageI)
  ultimately have "S \<subseteq> {oid1}" by simp
  moreover have "S \<noteq> {}" using S(1) by auto
  ultimately have "oid1 \<in> S" by blast
  with S(3) r show ?thesis by auto
qed

end
