(* ===== verification/Reorder_Props.thy ===== *)
theory Reorder_Props
  imports Reorder Sweepers Scenario
begin

text \<open>
  The properties of reordering and of the cutoff sweep.
\<close>

section \<open>Reordering\<close>

text \<open>C11: A reorder splits the lines of the caller's own order by what the catalogue says of each:
  the unavailable ones are reported with their reason, the others become one placed order of
  the caller for the target day at today's prices, and when none is left nothing is written.\<close>

theorem reorder_splits_lines:
  assumes "order_inv (w_db w)" "reorder E inp w = (Inr rr, w')"
  shows "\<exists>day r. ri_date inp = Some day
    \<and> by_key o_id (ri_source inp) (orders (w_db w)) = Some r \<and> o_user r = ri_user inp
    \<and> serves (w_db w) (o_vendor r) (ri_plant inp)
    \<and> map (\<lambda>u. (ui_item u, Some (ui_reason u))) (rr_unavailable rr)
        = map (\<lambda>it. (i_menu_item it, fate (w_db w) day (e_now E) it))
            (filter (\<lambda>it. fate (w_db w) day (e_now E) it \<noteq> None) (items_of (w_db w) (ri_source inp)))
    \<and> (if survivors (w_db w) day (e_now E) (ri_source inp) = []
       then rr_new_order rr = '''' \<and> w_db w' = w_db w
       else \<exists>r'. by_key o_id (rr_new_order rr) (orders (w_db w')) = Some r'
         \<and> o_user r' = ri_user inp \<and> o_vendor r' = o_vendor r \<and> o_plant r' = ri_plant inp
         \<and> o_date r' = day \<and> o_status r' = Placed
         \<and> map line (items_of (w_db w') (rr_new_order rr))
            = map (\<lambda>it. (i_menu_item it, i_qty it, menu_price (w_db w) (i_menu_item it)))
                (survivors (w_db w) day (e_now E) (ri_source inp)))"
proof (rule reorder_run [OF assms(2)], goal_cases)
  case (1 day r)
  have "if survivors (w_db w) day (e_now E) (ri_source inp) = []
       then rr_new_order rr = '''' \<and> w_db w' = w_db w
       else \<exists>r'. by_key o_id (rr_new_order rr) (orders (w_db w')) = Some r'
         \<and> o_user r' = ri_user inp \<and> o_vendor r' = o_vendor r \<and> o_plant r' = ri_plant inp
         \<and> o_date r' = day \<and> o_status r' = Placed
         \<and> map line (items_of (w_db w') (rr_new_order rr))
            = map (\<lambda>it. (i_menu_item it, i_qty it, menu_price (w_db w) (i_menu_item it)))
                (survivors (w_db w) day (e_now E) (ri_source inp))"
    using 1(6)
  proof (elim disjE exE conjE, goal_cases)
    case 1
    then show ?case by (simp add: survivors_def)
  next
    case (2 x vd v v' y)
    have x: "o_user x = ri_user inp" "o_vendor x = o_vendor r" "o_plant x = ri_plant inp" "o_date x = day"
      "o_status x = Placed" by (subst 2(3), simp)+
    have "order_inv (w_db v)" using assms(1) 2(6) by simp
    from create_body_stored [OF this 2(7) [unfolded reorder_body_def]] obtain r' where
      "by_key o_id (o_id y) (orders (w_db v')) = Some r'" "o_user r' = o_user x" "o_vendor r' = o_vendor x"
      "o_plant r' = o_plant x" "o_date r' = o_date x" "o_status r' = o_status x"
      "map line (items_of (w_db v') (o_id y)) = map line (o_items x)" by blast
    with 2(1,5,8,9) x show ?case by (simp add: survivors_def)
  qed
  with 1(1-5) show ?case by blast
qed

definition reorder0 :: reorder_input where
  "reorder0 = \<lparr>ri_user = ''emp'', ri_source = oid1, ri_date = Some d0, ri_plant = ''P1''\<rparr>"

lemma reorder0_ok: "\<exists>rr w'. reorder env0 reorder0 world1 = (Inr rr, w')"
  by (simp add: reorder0_def run_simps scenario1_defs db1_eq scenario_defs)

theorem reorder_splits_lines_witness:
  "\<exists>rr w' r. reorder env0 reorder0 world1 = (Inr rr, w')
    \<and> by_key o_id (rr_new_order rr) (orders (w_db w')) = Some r \<and> o_status r = Placed"
proof -
  obtain rr w' where r: "reorder env0 reorder0 world1 = (Inr rr, w')" using reorder0_ok by blast
  have "survivors (w_db world1) d0 (e_now env0) oid1 \<noteq> []"
    by (simp add: survivors_def fate_def items_of_def item_name_in_def skey_def
        scenario1_defs db1_eq scenario_defs day_ns_def hour_ns_def sec_ns_def)
  with reorder_splits_lines [OF order_inv1 r] r show ?thesis by (auto simp: reorder0_def)
qed

lemma sold_out_not_reordered:
  assumes inv: "order_inv (w_db w)" and date: "ri_date inp = Some day"
    and it: "it \<in> set (survivors (w_db w) day (e_now E) (ri_source inp))"
    and so: "sold_out_at (w_db w) (i_menu_item it, day)"
  shows "reorder E inp w \<noteq> (Inr rr, w')"
proof
  assume run: "reorder E inp w = (Inr rr, w')"
  show False
  proof (rule reorder_run [OF run], goal_cases)
    case (1 day' r)
    from 1(1) date have d: "day' = day" by simp
    from 1(6) show ?case
    proof (elim disjE exE conjE, goal_cases)
      case 1
      with it show ?case by (auto simp: survivors_def d filter_empty_conv)
    next
      case (2 x vd v v' y)
      from 2(7) obtain v1 where dec: "decrement_items E day (o_items x) v = (Inr (), v1)"
        by (auto simp: reorder_body_def create_body_def io_simps d)
      have wf: "wf_supplies (w_db v)" using order_invD(1) inv 2(6) by simp
      from it have "i_menu_item it \<in> fst ` set (map line (o_items x))"
        unfolding 2(5) by (force simp: survivors_def d)
      then obtain i where "i \<in> set (o_items x)" "i_menu_item i = i_menu_item it" by (auto simp: line_def)
      with decrement_items_sold_out [OF wf dec, of i] so 2(6) show ?case by simp
    qed
  qed
qed

text \<open>Although out-of-quota items are meant to be dropped from a reorder, one surviving line
  whose supply is flagged sold out makes the whole reorder fail and order nothing: the flag is
  only looked at by the decrement inside the transaction.\<close>

theorem reorder_sold_out_aborts:
  assumes "order_inv (w_db w)" "ri_date inp = Some day"
    and "it \<in> set (survivors (w_db w) day (e_now E) (ri_source inp))"
    and "sold_out_at (w_db w) (i_menu_item it, day)"
  shows "\<exists>e w'. reorder E inp w = (Inl e, w') \<and> w_db w' = w_db w"
proof (cases "reorder E inp w")
  case (Pair r w')
  with sold_out_not_reordered [OF assms] atomicD [OF atomic_reorder] show ?thesis
    by (cases r) auto
qed

definition world1_sold_out :: world where
  "world1_sold_out = world1\<lparr>w_db := db1\<lparr>supplies := [supply1 ''s1'' ''m1'' 10 8,
     (supply1 ''s2'' ''m2'' 2 1)\<lparr>s_sold_out := True\<rparr>]\<rparr>\<rparr>"

theorem reorder_sold_out_aborts_witness:
  "\<exists>e w'. reorder env0 reorder0 world1_sold_out = (Inl e, w') \<and> w_db w' = w_db world1_sold_out"
proof -
  have "w_db world1_sold_out = db1\<lparr>supplies := [supply1 ''s1'' ''m1'' 10 8,
     (supply1 ''s2'' ''m2'' 2 1)\<lparr>s_sold_out := True\<rparr>]\<rparr>" by (simp add: world1_sold_out_def)
  moreover have "w_db world1 = db1" by (simp add: world1_def)
  moreover have "wf_supplies (w_db world1_sold_out)"
    by (simp add: wf_supplies_def world1_sold_out_def scenario1_defs db1_eq scenario_defs skey_def int4_max_def)
  ultimately have inv: "order_inv (w_db world1_sold_out)"
    using order_inv1 history_ok_cong [of "w_db world1_sold_out" db1] by (simp add: order_inv_def)
  let ?it = "item_name_in db1 (items1 ! 1)"
  have it: "?it \<in> set (survivors (w_db world1_sold_out) d0 (e_now env0) (ri_source reorder0))"
    by (simp add: reorder0_def survivors_def fate_def items_of_def item_name_in_def skey_def
        world1_sold_out_def scenario1_defs db1_eq scenario_defs day_ns_def hour_ns_def sec_ns_def)
  have so: "sold_out_at (w_db world1_sold_out) (i_menu_item ?it, d0)"
    by (simp add: sold_out_at_def skey_def world1_sold_out_def scenario1_defs db1_eq scenario_defs)
  have "ri_date reorder0 = Some d0" by (simp add: reorder0_def)
  from reorder_sold_out_aborts [OF inv this it so] show ?thesis .
qed

section \<open>The cutoff sweep\<close>

text \<open>C12: When the database answers, one tick of the cutoff scheduler moves every placed order
  whose cutoff has passed to cutoff, and no other order.\<close>

theorem cutoff_sweep_complete:
  assumes "order_inv (w_db w)" "e_fault E = (\<lambda>_. None)"
  shows "\<exists>n w'. cutoff_run_once E w = (Inr n, w')
    \<and> (\<forall>k. status_at (w_db w') k =
         (if \<exists>r. by_key o_id k (orders (w_db w)) = Some r \<and> o_status r = Placed \<and> o_cutoff_at r \<le> e_now E
          then Some Cutoff else status_at (w_db w) k))
    \<and> taken (w_db w') = taken (w_db w) \<and> sold_at (w_db w') = sold_at (w_db w)"
proof -
  let ?P = "\<lambda>r. o_status r = Placed \<and> o_cutoff_at r \<le> e_now E"
  let ?xs = "map (\<lambda>r. with_items r []) (sort_key o_cutoff_at (filter ?P (orders (w_db w))))"
  obtain w1 where 1: "list_placed_due_for_cutoff E (e_now E) w = (Inr ?xs, w1)" "w_db w1 = w_db w"
    using assms(2) by (simp add: list_placed_due_for_cutoff_def select_orders_def query_def exec_def)
  have ids: "distinct (map o_id (orders (w_db w)))"
    using order_invD(4) [OF assms(1)] by (simp add: wf_order_ids_def)
  have inv1: "order_inv (w_db w1)" using assms(1) 1(2) by simp
  have dist: "distinct (map o_id ?xs)"
    using ids by (simp add: comp_def distinct_map inj_on_def)
  have placed: "status_at (w_db w1) (o_id x) = Some Placed" if "x \<in> set ?xs" for x
    using that by_key_mem [OF ids] by (auto simp: status_at_def 1(2))
  from cutoff_sweep_all [OF assms(2) inv1 dist placed, of 0] obtain w' where
    2: "sweep (transition_one E) ?xs 0 w1 = (Inr (length ?xs), w')"
    and st: "\<forall>k. status_at (w_db w') k = (if k \<in> o_id ` set ?xs then Some Cutoff else status_at (w_db w1) k)"
    by auto
  note L = sweep_ledger [OF 2 inv1 keeps_inv_transition_one atomic_transition_one transition_one_moved]
  have "k \<in> o_id ` set ?xs \<longleftrightarrow> (\<exists>r. by_key o_id k (orders (w_db w)) = Some r \<and> ?P r)" for k
    using by_key_iff [OF ids] by (auto simp: image_iff)
  with st 1 2 L show ?thesis by (auto simp: cutoff_run_once_def bind_run)
qed

definition env_late :: env where "env_late = env0\<lparr>e_now := 20461 * day_ns\<rparr>"

theorem cutoff_sweep_complete_witness:
  "\<exists>n w'. cutoff_run_once env_late world1 = (Inr n, w') \<and> status_at (w_db w') oid1 = Some Cutoff"
proof -
  have "e_fault env_late = (\<lambda>_. None)" by (simp add: env_late_def env0_def)
  from cutoff_sweep_complete [OF order_inv1 this] obtain n w' where
    c: "cutoff_run_once env_late world1 = (Inr n, w')"
      "status_at (w_db w') oid1 = (if \<exists>r. by_key o_id oid1 (orders (w_db world1)) = Some r
          \<and> o_status r = Placed \<and> o_cutoff_at r \<le> e_now env_late
          then Some Cutoff else status_at (w_db world1) oid1)" by metis
  have "\<exists>r. by_key o_id oid1 (orders (w_db world1)) = Some r \<and> o_status r = Placed \<and> o_cutoff_at r \<le> e_now env_late"
    by (simp add: env_late_def scenario1_defs db1_eq scenario_defs day_ns_def hour_ns_def sec_ns_def)
  with c show ?thesis by auto
qed

end
