(* ===== verification/Settlement_Props.thy ===== *)
theory Settlement_Props
  imports Settlement Payroll_Scenario
begin

text \<open>
  The properties of settlements: what a close writes, that it happens once per vendor and period
  until it is voided, that the merchant's live view agrees with it, and that periods which
  overlap without being equal settle the same order twice.
\<close>

section \<open>What a close writes\<close>

lemma vendors_of_props [simp]: "distinct (vendors_of rs)" "set (vendors_of rs) = o_vendor ` set rs"
  by (simp_all add: vendors_of_def)

lemma settles_vendors: "list_all2 (settles inp) as out \<Longrightarrow> map st_vendor out = map va_vendor as"
  by (induction rule: list_all2_induct) (auto simp: settles_def)

lemma settles_in:
  "list_all2 (settles inp) as out \<Longrightarrow> s \<in> set out \<Longrightarrow> \<exists>a\<in>set as. settles inp a s"
  by (induction rule: list_all2_induct) auto

lemma aggregate_rows_simps [simp]:
  "va_vendor (aggregate_rows d v rs) = v" "va_count (aggregate_rows d v rs) = int (length rs)"
  "va_gross (aggregate_rows d v rs) = sum_list (map o_total rs)"
  "va_portions (aggregate_rows d v rs) = sum_list (map (\<lambda>r. portions_of d (o_id r)) rs)"
  "mset (va_orders (aggregate_rows d v rs)) = mset (map o_id rs)"
  by (simp_all add: aggregate_rows_def)

lemma mset_split_rows:
  assumes "distinct us" "g ` set rs \<subseteq> set us"
  shows "mset (concat (map (\<lambda>u. map f (filter (\<lambda>r. g r = u) rs)) us)) = mset (map f rs)"
  using assms(2)
proof (induction rs)
  case (Cons r rs)
  have "mset (concat (map (\<lambda>u. map f (filter (\<lambda>x. g x = u) (r # rs))) us))
      = mset (concat (map (\<lambda>u. if g r = u then [f r] else []) us))
        + mset (concat (map (\<lambda>u. map f (filter (\<lambda>x. g x = u) rs)) us))"
    by (induction us) auto
  moreover have "g r \<in> set us \<Longrightarrow> mset (concat (map (\<lambda>u. if g r = u then [f r] else []) us)) = {#f r#}"
    using assms(1) by (induction us) (auto simp: concat_eq_Nil_conv)
  ultimately show ?case using Cons by simp
qed (simp add: concat_eq_Nil_conv)

lemma settled_orders:
  assumes "as = map (\<lambda>v. aggregate_rows d v (charged_vendor d inp v)) vs" "list_all2 (settles inp) as out"
  shows "mset (concat (map st_orders out)) = mset (concat (map (\<lambda>v. map o_id (charged_vendor d inp v)) vs))"
proof -
  have "mset (concat (map st_orders out)) = mset (concat (map va_orders as))"
    using assms(2) by (induction rule: list_all2_induct) (auto simp: settles_def)
  also have "\<dots> = mset (concat (map (\<lambda>v. map o_id (charged_vendor d inp v)) vs))"
    unfolding assms(1) by (induction vs) auto
  finally show ?thesis .
qed

text \<open>C17: Closing a period writes exactly one active settlement per vendor with charged orders in
  it, holding the ids, the count and the exact sum of those orders; together the new settlements
  hold every charged order of the period once, and nothing else of the system changes.\<close>

theorem close_settles_period:
  assumes "close_settlement E inp w = (Inr out, w')"
  defines "due \<equiv> chargeable (w_db w) (ci_start inp) (ci_end inp)"
  shows "settlements (w_db w') = settlements (w_db w) @ out \<and> orders (w_db w') = orders (w_db w)
    \<and> distinct (map st_vendor out) \<and> set (map st_vendor out) = o_vendor ` set due
    \<and> mset (concat (map st_orders out)) = mset (map o_id due)
    \<and> (\<forall>s\<in>set out. st_status s = StClosed
         \<and> mset (st_orders s) = mset (map o_id (filter (\<lambda>r. o_vendor r = st_vendor s) due))
         \<and> st_order_count s = int (length (st_orders s))
         \<and> st_gross s = sum_list (map o_total (filter (\<lambda>r. o_vendor r = st_vendor s) due)))"
proof (rule close_run [OF assms(1)])
  fix as a
  assume as: "as = map (\<lambda>v. aggregate_rows (w_db w) v (charged_vendor (w_db w) inp v))
         (vendors_of (chargeable (w_db w) (ci_start inp) (ci_end inp)))"
    and s: "list_all2 (settles inp) as out"
    and w': "w_db w' = (w_db w)\<lparr>settlements := settlements (w_db w) @ out, audits := audits (w_db w) @ [a]\<rparr>"
  have v: "map st_vendor out = vendors_of due"
    using settles_vendors [OF s] as by (simp add: due_def comp_def)
  have each: "st_status x = StClosed \<and> mset (st_orders x) = mset (map o_id (filter (\<lambda>r. o_vendor r = st_vendor x) due))
      \<and> st_order_count x = int (length (st_orders x))
      \<and> st_gross x = sum_list (map o_total (filter (\<lambda>r. o_vendor r = st_vendor x) due))" if x: "x \<in> set out" for x
  proof -
    obtain v where v: "settles inp (aggregate_rows (w_db w) v (charged_vendor (w_db w) inp v)) x"
      using settles_in [OF s x] as by auto
    then have "st_vendor x = v" "length (st_orders x) = length (charged_vendor (w_db w) inp v)"
      by (simp_all add: settles_def aggregate_rows_def)
    with v show ?thesis by (simp add: settles_def charged_vendor_def due_def)
  qed
  have "mset (concat (map st_orders out)) = mset (map o_id due)"
    unfolding settled_orders [OF as s] charged_vendor_def due_def [symmetric]
    by (rule mset_split_rows) simp_all
  moreover have "distinct (map st_vendor out)" "set (map st_vendor out) = o_vendor ` set due"
    unfolding v by simp_all
  ultimately show ?thesis using w' each by simp
qed

definition close0 :: close_input where
  "close0 = \<lparr>ci_start = d0 - 1, ci_end = d0 + 1, ci_closed_by = ''adm''\<rparr>"

definition settled1 :: settlement where
  "settled1 = \<lparr>st_id = ''uuuuuuuuuuuu'', st_vendor = ''v1'', st_start = 20460, st_end = 20462, st_order_count = 1,
     st_portions = 3, st_gross = 280, st_orders = [''uuuuuuu''], st_status = StClosed, st_closed_at = now0,
     st_closed_by = Some ''adm'', st_created_at = now0\<rparr>"

lemma close0_ok: "\<exists>w'. close_settlement env0 close0 pay0 = (Inr [settled1], w')"
  by (simp add: close0_def settled1_def pay_defs run_simps chargeable_def del: set_filter)

theorem close_settles_period_witness:
  "\<exists>w'. close_settlement env0 close0 pay0 = (Inr [settled1], w') \<and> settlements (w_db w') = [settled1]"
proof -
  obtain w' where w': "close_settlement env0 close0 pay0 = (Inr [settled1], w')" using close0_ok by blast
  with close_settles_period [OF w'] show ?thesis by (simp add: pay_defs)
qed

section \<open>Once per period\<close>

lemma active_in: "s \<in> set ss \<Longrightarrow> st_status s = StClosed \<Longrightarrow> active_for ss (st_vendor s) (st_start s) (st_end s)"
  by (auto simp: active_for_def list_ex_iff)

text \<open>A period that was just closed cannot be closed again: the second call fails, whatever the
  database does, and writes nothing.\<close>

theorem close_once:
  assumes "close_settlement E inp w = (Inr out, w')" "ci_start inp2 = ci_start inp" "ci_end inp2 = ci_end inp"
  shows "\<exists>e w2. close_settlement E2 inp2 w' = (Inl e, w2) \<and> w_db w2 = w_db w'"
proof (rule close_run [OF assms(1)])
  fix as a
  assume as: "as = map (\<lambda>v. aggregate_rows (w_db w) v (charged_vendor (w_db w) inp v))
         (vendors_of (chargeable (w_db w) (ci_start inp) (ci_end inp)))" "as \<noteq> []"
    and s: "list_all2 (settles inp) as out"
    and w': "w_db w' = (w_db w)\<lparr>settlements := settlements (w_db w) @ out, audits := audits (w_db w) @ [a]\<rparr>"
  have ch: "chargeable (w_db w') = chargeable (w_db w)" using w' by (simp add: chargeable_def fun_eq_iff)
  obtain r w2 where run: "close_settlement E2 inp2 w' = (r, w2)" by fastforce
  show ?thesis
  proof (cases r)
    case (Inl e)
    with run atomicD [OF atomic_settlement_ops(1)] show ?thesis by blast
  next
    case (Inr out2)
    obtain x s1 where x: "x \<in> set as" "settles inp x s1" "s1 \<in> set out"
      using s as(2) by (cases as; cases out; fastforce)
    then have "active_for (settlements (w_db w')) (va_vendor x) (ci_start inp) (ci_end inp)"
      using active_in [of s1 "settlements (w_db w')"] w' by (simp add: settles_def)
    moreover have "va_vendor x \<in> set (vendors_of (chargeable (w_db w') (ci_start inp2) (ci_end inp2)))"
      using x(1) as(1) ch assms(2,3) by auto
    ultimately have False using assms(2,3)
      by - (rule close_run [OF run [unfolded Inr]], fastforce)
    then show ?thesis ..
  qed
qed

theorem close_once_witness:
  "\<exists>w' e w2. close_settlement env0 close0 pay0 = (Inr [settled1], w')
     \<and> close_settlement env0 close0 w' = (Inl e, w2) \<and> w_db w2 = w_db w'"
proof -
  obtain w' where w': "close_settlement env0 close0 pay0 = (Inr [settled1], w')" using close0_ok by blast
  with close_once [OF w' refl refl, of env0] show ?thesis by blast
qed

text \<open>The unique index of active settlements: at most one per vendor and period.\<close>

definition period_of :: "settlement \<Rightarrow> uuid \<times> date \<times> date" where
  "period_of s = (st_vendor s, st_start s, st_end s)"

definition active_periods :: "settlement list \<Rightarrow> (uuid \<times> date \<times> date) list" where
  "active_periods ss = map period_of (filter (\<lambda>s. st_status s = StClosed) ss)"

definition settlement_inv :: "db \<Rightarrow> bool" where
  "settlement_inv d \<longleftrightarrow> settlement_tbl.keyed d \<and> distinct (active_periods (settlements d))
     \<and> (\<forall>s\<in>set (settlements d). st_start s \<le> st_end s \<and> 0 \<le> st_gross s \<and> int (length (st_orders s)) = st_order_count s)"

lemma active_for_periods: "active_for ss v s u \<longleftrightarrow> (v, s, u) \<in> set (active_periods ss)"
  by (auto simp: active_for_def active_periods_def period_of_def list_ex_iff)

lemma active_periods_append [simp]: "active_periods (xs @ ys) = active_periods xs @ active_periods ys"
  by (simp add: active_periods_def)

lemma active_periods_void: "(v, s, u) \<in> set (active_periods (sql_update P (\<lambda>s. s\<lparr>st_status := StVoid\<rparr>) ss)) \<Longrightarrow>
    (v, s, u) \<in> set (active_periods ss)"
  by (auto simp: active_periods_def sql_update_def period_of_def split: if_splits)

lemma distinct_void:
  "distinct (active_periods ss) \<Longrightarrow> distinct (active_periods (sql_update P (\<lambda>s. s\<lparr>st_status := StVoid\<rparr>) ss))"
proof (induction ss)
  case (Cons s ss)
  have "period_of s \<notin> set (active_periods (sql_update P (\<lambda>s. s\<lparr>st_status := StVoid\<rparr>) ss))"
    if "st_status s = StClosed"
  proof
    assume "period_of s \<in> set (active_periods (sql_update P (\<lambda>s. s\<lparr>st_status := StVoid\<rparr>) ss))"
    then have "period_of s \<in> set (active_periods ss)"
      using active_periods_void [of "st_vendor s" "st_start s" "st_end s"] by (simp add: period_of_def)
    with Cons.prems that show False by (simp add: active_periods_def)
  qed
  moreover have "distinct (active_periods ss)" using Cons.prems by (auto simp: active_periods_def split: if_splits)
  ultimately show ?case using Cons.IH by (auto simp: active_periods_def split: if_splits)
qed (simp add: active_periods_def)

lemma close_active:
  assumes "list_all2 (settles inp) as out"
  shows "active_periods out = map (\<lambda>a. (va_vendor a, ci_start inp, ci_end inp)) as"
  using assms by (induction rule: list_all2_induct) (auto simp: active_periods_def period_of_def settles_def)

lemma close_keeps_inv:
  assumes "settlement_inv (w_db w)" "close_settlement E inp w = (Inr out, w')"
  shows "settlement_inv (w_db w')"
proof (rule close_run [OF assms(2)])
  fix as a
  assume as: "as = map (\<lambda>v. aggregate_rows (w_db w) v (charged_vendor (w_db w) inp v))
         (vendors_of (chargeable (w_db w) (ci_start inp) (ci_end inp)))"
    and s: "list_all2 (settles inp) as out" "ci_start inp \<le> ci_end inp"
    and w': "w_db w' = (w_db w)\<lparr>settlements := settlements (w_db w) @ out, audits := audits (w_db w) @ [a]\<rparr>"
    and free: "\<forall>x\<in>set as. \<not> active_for (settlements (w_db w)) (va_vendor x) (ci_start inp) (ci_end inp)"
    and k: "settlement_tbl.keyed (w_db w) \<longrightarrow> settlement_tbl.keyed (w_db w')"
    and pos: "\<forall>x\<in>set as. 0 \<le> va_gross x"
  have ss: "settlements (w_db w') = settlements (w_db w) @ out" using w' by simp
  have "distinct (map va_vendor as)" unfolding as by (simp add: comp_def)
  then have "distinct (active_periods out)"
    unfolding close_active [OF s(1)] by (auto simp: distinct_map inj_on_def)
  moreover have "set (active_periods (settlements (w_db w))) \<inter> set (active_periods out) = {}"
    using free unfolding close_active [OF s(1)] active_for_periods by auto
  moreover have "st_start x \<le> st_end x \<and> 0 \<le> st_gross x \<and> int (length (st_orders x)) = st_order_count x"
    if "x \<in> set out" for x
  proof -
    from settles_in [OF s(1) that] obtain y where y: "y \<in> set as" "settles inp y x" by blast
    then have "int (length (va_orders y)) = va_count y" unfolding as by (auto simp: aggregate_rows_def)
    with y s(2) pos show ?thesis by (simp add: settles_def)
  qed
  ultimately show ?thesis using assms(1) k unfolding settlement_inv_def ss by auto
qed

lemma void_run:
  assumes "void_settlement E i u w = (Inr (), w')"
  obtains s a where "by_key st_id i (settlements (w_db w)) = Some s" "st_status s = StClosed"
    "w_db w' = (w_db w)\<lparr>settlements := sql_update (\<lambda>s. st_id s = i \<and> st_status s = StClosed)
        (\<lambda>s. s\<lparr>st_status := StVoid\<rparr>) (settlements (w_db w)), audits := audits (w_db w) @ [a]\<rparr>"
proof -
  from assms obtain s v where g: "settlement_get_by_id E i w = (Inr s, v)"
    and k: "(if st_status s \<noteq> StClosed then fail (SettlementErr ErrSettlementInvalidTransition)
       else begin_func E (\<lambda>_. void_body E s i u)) v = (Inr (), w')"
    unfolding void_settlement_def bind_ok by blast
  have s: "by_key st_id i (settlements (w_db w)) = Some s" "w_db v = w_db w"
    using g by (simp_all add: settlement_get_by_id_def io_simps)
  have v: "st_status s = StClosed" "begin_func E (\<lambda>_. void_body E s i u) v = (Inr (), w')"
    using k by (simp_all add: io_simps split: if_splits)
  from v(2) obtain v1 v3 where v1: "w_db v1 = w_db v" "w_db w' = w_db v3" and b: "void_body E s i u v1 = (Inr (), v3)"
    by (rule begin_func_run)
  from b obtain v2 e where up: "settlement_void_tx E i v1 = (Inr (), v2)" and au: "audit_write_tx E e v2 = (Inr (), v3)"
    unfolding void_body_def bind_ok by auto
  from au obtain a where "w_db v3 = (w_db v2)\<lparr>audits := audits (w_db v2) @ [a]\<rparr>"
    by (auto simp: audit_write_tx_def io_simps Let_def split: if_splits)
  with update_rows_ok(1) [OF up [unfolded settlement_void_tx_def]] s v(1) v1 show thesis
    by (intro that [of s a]) simp_all
qed

lemma void_keeps_inv:
  assumes "settlement_inv (w_db w)" "void_settlement E i u w = (Inr (), w')"
  shows "settlement_inv (w_db w')"
proof (rule void_run [OF assms(2)])
  fix s a
  let ?P = "\<lambda>s. st_id s = i \<and> st_status s = StClosed" and ?f = "\<lambda>s. s\<lparr>st_status := StVoid\<rparr>"
  assume "w_db w' = (w_db w)\<lparr>settlements := sql_update ?P ?f (settlements (w_db w)), audits := audits (w_db w) @ [a]\<rparr>"
  then have ss: "settlements (w_db w') = sql_update ?P ?f (settlements (w_db w))" by simp
  have "map st_id (sql_update ?P ?f (settlements (w_db w))) = map st_id (settlements (w_db w))"
    by (rule map_sql_update) simp
  with assms(1) show ?thesis
    unfolding settlement_inv_def settlement_tbl.keyed_def ss
    by (auto simp: distinct_void set_sql_update split: if_splits)
qed

text \<open>Refunds after the close leave the settlements as they were written.\<close>

lemma settlements_statements:
  "keeps (\<lambda>d. settlements d = ss) (update_status_tx E f t oid)"
  "keeps (\<lambda>d. settlements d = ss) (entry_increment_refunded_tx E i n)"
  "keeps (\<lambda>d. settlements d = ss) (dispute_update_status_tx E i ds u res n)"
  "keeps (\<lambda>d. settlements d = ss) (outbox_append_tx E ty i subj pl hs)"
  "keeps (\<lambda>d. settlements d = ss) (audit_write_tx E e)"
  unfolding update_status_tx_def order_update_where_def entry_increment_refunded_tx_def dispute_update_status_tx_def
  by (simp_all add: keeps_table_writes keeps_outbox_append keeps_audit_write)
    (auto intro!: keeps_exec simp: Let_def split: if_splits)

lemma settlements_frozen:
  "keeps (\<lambda>d. settlements d = ss) (reverse_order E oid)" "keeps (\<lambda>d. settlements d = ss) (resolve_dispute E rd)"
  unfolding reverse_order_def reverse_body_def resolve_dispute_def resolve_body_def apply_dispute_refund_def
    record_dispute_resolution_def Let_def
  by (intro keeps_op keeps_tx settlements_statements payroll_reads_keep)+

text \<open>C18: No operation on settlements breaks their invariant: ids are unique, at most one
  settlement is active per vendor and period, and every row has an ordered period, a non-negative
  sum and as many orders as it counts. No other module touches the table.\<close>

theorem settlement_invariant:
  "keeps settlement_inv (close_settlement E inp) \<and> keeps settlement_inv (void_settlement E i u)
   \<and> keeps settlement_inv (reconcile E v s t) \<and> keeps settlement_inv (get_vendor_settlement E v i)
   \<and> keeps (\<lambda>d. settlements d = ss) (reverse_order E oid) \<and> keeps (\<lambda>d. settlements d = ss) (resolve_dispute E rd)"
proof -
  have "keeps settlement_inv (close_settlement E inp)"
    by (rule keeps_of_ok [OF atomic_settlement_ops(1)]) (rule close_keeps_inv)
  moreover have "keeps settlement_inv (void_settlement E i u)"
    by (rule keeps_of_ok [OF atomic_settlement_ops(2)]) (use void_keeps_inv in auto)
  moreover have "keeps settlement_inv (reconcile E v s t)" "keeps settlement_inv (get_vendor_settlement E v i)"
    by (intro keeps_ro ro_settlement_reads)+
  ultimately show ?thesis using settlements_frozen by blast
qed

text \<open>C19: The merchant's live view of a period shows, as long as its orders do not change, exactly
  what closing the period charges: the same count, portions and sum.\<close>

theorem reconciliation_matches_close:
  assumes "reconcile E v (ci_start inp) (ci_end inp) w = (Inr rc, w1)"
    and "close_settlement E2 inp w1 = (Inr out, w2)" "s \<in> set out" "st_vendor s = v"
  shows "rc_count rc = st_order_count s \<and> rc_portions rc = st_portions s \<and> rc_gross rc = st_gross s
    \<and> sb_picked_up (rc_breakdown rc) + sb_no_show (rc_breakdown rc) = st_order_count s"
proof (rule close_run [OF assms(2)])
  fix as a
  assume as: "as = map (\<lambda>v. aggregate_rows (w_db w1) v (charged_vendor (w_db w1) inp v))
         (vendors_of (chargeable (w_db w1) (ci_start inp) (ci_end inp)))"
    and so: "list_all2 (settles inp) as out"
  have db: "w_db w1 = w_db w" using roD [OF ro_settlement_reads(8) assms(1)] .
  from settles_in [OF so assms(3)] as assms(4)
  have s: "settles inp (aggregate_rows (w_db w) v (charged_vendor (w_db w) inp v)) s"
    by (auto simp: settles_def db)
  let ?in = "\<lambda>r. o_vendor r = v \<and> ci_start inp \<le> o_date r \<and> o_date r \<le> ci_end inp"
  have split: "length (filter (\<lambda>r. o_status r = PickedUp) (filter ?in rs))
      + length (filter (\<lambda>r. o_status r = NoShow) (filter ?in rs))
      = length (filter (\<lambda>r. o_vendor r = v) (filter (\<lambda>r. (o_status r = PickedUp \<or> o_status r = NoShow)
          \<and> ci_start inp \<le> o_date r \<and> o_date r \<le> ci_end inp) rs))" for rs
    by (induction rs) auto
  from assms(1) have rc: "rc_count rc = int (length (charged_vendor (w_db w) inp v))"
    "rc_portions rc = sum_list (map (\<lambda>r. portions_of (w_db w) (o_id r)) (charged_vendor (w_db w) inp v))"
    "rc_gross rc = sum_list (map o_total (charged_vendor (w_db w) inp v))"
    "sb_picked_up (rc_breakdown rc) = count_status (filter ?in (orders (w_db w))) PickedUp"
    "sb_no_show (rc_breakdown rc) = count_status (filter ?in (orders (w_db w))) NoShow"
    unfolding reconcile_def aggregate_for_vendor_def status_breakdown_for_vendor_def
    by (auto simp: io_simps Let_def charged_vendor_def split: if_splits)
  show ?thesis
    using s rc split [of "orders (w_db w)"]
    by (simp add: settles_def count_status_def sql_affected_def charged_vendor_def chargeable_def
        flip: of_nat_add)
qed

lemma reconcile0_ok: "\<exists>rc. reconcile env0 ''v1'' (ci_start close0) (ci_end close0) pay0 = (Inr rc, pay0\<lparr>w_tick := 12\<rparr>)"
  by (simp add: close0_def pay_defs run_simps chargeable_def del: set_filter)

lemma close0_later: "\<exists>w'. close_settlement env0 close0 (pay0\<lparr>w_tick := 12\<rparr>) = (Inr [settled1\<lparr>st_id := replicate 14 (CHR ''u'')\<rparr>], w')"
  by (simp add: close0_def settled1_def pay_defs run_simps chargeable_def numeral_eq_Suc del: set_filter)

theorem reconciliation_matches_close_witness:
  "\<exists>rc w1. reconcile env0 ''v1'' (ci_start close0) (ci_end close0) pay0 = (Inr rc, w1) \<and> rc_gross rc = 280 \<and> rc_portions rc = 3"
proof -
  obtain rc where rc: "reconcile env0 ''v1'' (ci_start close0) (ci_end close0) pay0 = (Inr rc, pay0\<lparr>w_tick := 12\<rparr>)"
    using reconcile0_ok by blast
  obtain w' where "close_settlement env0 close0 (pay0\<lparr>w_tick := 12\<rparr>) = (Inr [settled1\<lparr>st_id := replicate 14 (CHR ''u'')\<rparr>], w')"
    using close0_later by blast
  from reconciliation_matches_close [OF rc this, of "settled1\<lparr>st_id := replicate 14 (CHR ''u'')\<rparr>"] rc
  show ?thesis by (simp add: settled1_def)
qed

text \<open>Only equal periods exclude each other: two periods that overlap can both be closed, and
  then the same order is in two active settlements of its vendor.\<close>

theorem overlapping_periods_settle_twice:
  "\<exists>E w inp1 out1 w1 inp2 out2 w2 s1 s2 oid. settlement_inv (w_db w)
     \<and> close_settlement E inp1 w = (Inr out1, w1) \<and> close_settlement E inp2 w1 = (Inr out2, w2)
     \<and> s1 \<in> set (settlements (w_db w2)) \<and> s2 \<in> set (settlements (w_db w2)) \<and> st_id s1 \<noteq> st_id s2
     \<and> st_vendor s1 = st_vendor s2 \<and> st_status s1 = StClosed \<and> st_status s2 = StClosed
     \<and> oid \<in> set (st_orders s1) \<and> oid \<in> set (st_orders s2)"
proof -
  define w1 where "w1 = snd (close_settlement env0 close0 pay0)"
  define inp2 where "inp2 = close0\<lparr>ci_start := d0\<rparr>"
  define s2 where "s2 = settled1\<lparr>st_id := replicate 17 (CHR ''u''), st_start := d0\<rparr>"
  have 1: "close_settlement env0 close0 pay0 = (Inr [settled1], w1)"
    unfolding w1_def using close0_ok by auto
  have "fst (close_settlement env0 inp2 w1) = Inr [s2]"
    "settlements (w_db (snd (close_settlement env0 inp2 w1))) = [settled1, s2]"
    by (simp_all add: w1_def inp2_def s2_def close0_def settled1_def pay_defs run_simps chargeable_def numeral_eq_Suc del: set_filter)
  then have 2: "close_settlement env0 inp2 w1 = (Inr [s2], snd (close_settlement env0 inp2 w1))"
    and ss: "settlements (w_db (snd (close_settlement env0 inp2 w1))) = [settled1, s2]" by (simp_all add: prod_eq_iff)
  have "settlement_inv (w_db pay0)"
    by (simp add: settlement_inv_def settlement_tbl.keyed_def active_periods_def pay_defs)
  moreover have "st_id settled1 \<noteq> st_id s2" "st_vendor settled1 = st_vendor s2" "st_status settled1 = StClosed"
    "st_status s2 = StClosed" "''uuuuuuu'' \<in> set (st_orders settled1)" "''uuuuuuu'' \<in> set (st_orders s2)"
    by (simp_all add: s2_def settled1_def numeral_eq_Suc)
  moreover have "settled1 \<in> set (settlements (w_db (snd (close_settlement env0 inp2 w1))))"
    "s2 \<in> set (settlements (w_db (snd (close_settlement env0 inp2 w1))))" unfolding ss by simp_all
  ultimately show ?thesis using 1 2 by blast
qed

end
