(* ===== verification/Relay.thy ===== *)
theory Relay
  imports Tables
begin

text \<open>
  The outbox relay: \<open>order/relay/relay.go\<close> over \<open>LockBatch\<close>, \<open>MarkPublished\<close> and
  \<open>MarkFailed\<close> of \<open>order/postgres/outbox_repo.go\<close>. One cycle is one transaction the relay
  begins and commits by hand: a statement that fails inside it aborts it, every later statement
  then fails, and the commit becomes a rollback.

  The broker is outside the repository. What a publication does is a parameter: it is
  acknowledged, which JetStream does only once the message is stored, or it fails, in which case
  the message may or may not have been stored.
\<close>

section \<open>The state of the relay\<close>

datatype publish_result = Acked | Failed bool string

record message =
  msg_id :: string
  msg_subject :: string
  msg_payload :: payload

record relay =
  rl_world :: world
  rl_stream :: "message list"
  rl_count :: nat

type_synonym publisher = "nat \<Rightarrow> outbox_event \<Rightarrow> publish_result"

definition dedup_id :: "int \<Rightarrow> string" where
  "dedup_id i = ''outbox-'' @ int_text i"

definition message_of :: "outbox_event \<Rightarrow> message" where
  "message_of e = \<lparr>msg_id = dedup_id (ox_id e), msg_subject = ox_subject e, msg_payload = ox_payload e\<rparr>"

section \<open>The outbox repository\<close>

text \<open>
  \<open>busy\<close> are the rows other workers hold locked, which \<open>SKIP LOCKED\<close> passes over. The first
  statement is \<open>BEGIN\<close>; with no row the transaction is rolled back again.
\<close>

definition pending :: "outbox_event \<Rightarrow> bool" where
  "pending e \<longleftrightarrow> ox_published_at e = None"

definition outbox_lock_batch :: "env \<Rightarrow> (int \<Rightarrow> bool) \<Rightarrow> nat \<Rightarrow> outbox_event list io" where
  "outbox_lock_batch E busy limit =
     bind (exec E (\<lambda>w. Inr ((), w))) (\<lambda>_.
     query E (\<lambda>d. Inr (take limit (sort_key ox_id (filter (\<lambda>e. pending e \<and> \<not> busy (ox_id e)) (outbox d))))))"

definition aborted_tx :: err where "aborted_tx = DbErr (PgErr ''25P02'')"

text \<open>\<open>attempts\<close> is an \<open>INT\<close> column. \<open>ab\<close> tells that the transaction is already aborted.\<close>

definition outbox_mark_failed :: "env \<Rightarrow> bool \<Rightarrow> int \<Rightarrow> string \<Rightarrow> unit io" where
  "outbox_mark_failed E ab i msg =
     (if ab then exec E (\<lambda>w. Inl aborted_tx)
      else update_rows E outbox outbox_update
        (\<lambda>d e. checks [(\<not> int4_ok (ox_attempts e), out_of_range)]) None
        (\<lambda>e. ox_id e = i) (\<lambda>e. e\<lparr>ox_attempts := ox_attempts e + 1, ox_last_error := Some msg\<rparr>))"

definition commit_or_rollback :: "env \<Rightarrow> bool \<Rightarrow> db \<Rightarrow> unit io" where
  "commit_or_rollback E ab d0 = (\<lambda>w. case exec E (\<lambda>x. if ab then Inl (DbErr IoErr) else Inr ((), x)) w of
       (Inl e, w1) \<Rightarrow> (Inl e, w1\<lparr>w_db := d0\<rparr>)
     | (Inr _, w1) \<Rightarrow> (Inr (), w1))"

definition outbox_mark_published :: "env \<Rightarrow> bool \<Rightarrow> db \<Rightarrow> int list \<Rightarrow> unit io" where
  "outbox_mark_published E ab d0 ids =
     (if ids = [] then commit_or_rollback E ab d0
      else (\<lambda>w. case (if ab then exec E (\<lambda>w. Inl aborted_tx)
                  else update_rows E outbox outbox_update no_check None (\<lambda>e. ox_id e \<in> set ids)
                    (\<lambda>e. e\<lparr>ox_published_at := Some (e_dbnow E)\<rparr>)) w of
          (Inl e, w1) \<Rightarrow> (Inl e, w1\<lparr>w_db := d0\<rparr>)
        | (Inr _, w1) \<Rightarrow> commit_or_rollback E ab d0 w1))"

section \<open>A cycle\<close>

text \<open>
  The publications of a cycle, with what it accumulates: whether the transaction is aborted and
  the ids of the acknowledged events. A failure to stage a failed publication is only logged.
\<close>

fun relay_publish ::
    "env \<Rightarrow> publisher \<Rightarrow> outbox_event list \<Rightarrow> bool \<Rightarrow> int list \<Rightarrow> relay \<Rightarrow> bool \<times> int list \<times> relay" where
  "relay_publish E pub [] ab ids s = (ab, ids, s)"
| "relay_publish E pub (e # es) ab ids s =
     (let s1 = s\<lparr>rl_count := Suc (rl_count s)\<rparr> in
      case pub (rl_count s) e of
        Acked \<Rightarrow> relay_publish E pub es ab (ids @ [ox_id e]) (s1\<lparr>rl_stream := rl_stream s @ [message_of e]\<rparr>)
      | Failed kept msg \<Rightarrow>
          (case outbox_mark_failed E ab (ox_id e) msg (rl_world s) of
             (r, w1) \<Rightarrow> relay_publish E pub es (case r of Inl x \<Rightarrow> True | Inr _ \<Rightarrow> ab) ids
               (s1\<lparr>rl_stream := (if kept then rl_stream s @ [message_of e] else rl_stream s), rl_world := w1\<rparr>)))"

definition relay_cycle ::
    "env \<Rightarrow> publisher \<Rightarrow> (int \<Rightarrow> bool) \<Rightarrow> nat \<Rightarrow> relay \<Rightarrow> (nat \<times> err option) \<times> relay" where
  "relay_cycle E pub busy limit s =
     (case outbox_lock_batch E busy limit (rl_world s) of
        (Inl e, w1) \<Rightarrow> ((0, Some e), s\<lparr>rl_world := w1\<rparr>)
      | (Inr evs, w1) \<Rightarrow>
          if evs = [] then ((0, None), s\<lparr>rl_world := w1\<rparr>)
          else (case relay_publish E pub evs False [] (s\<lparr>rl_world := w1\<rparr>) of
            (ab, ids, s2) \<Rightarrow>
              (case outbox_mark_published E ab (w_db (rl_world s)) ids (rl_world s2) of
                 (Inl e, w3) \<Rightarrow> ((length evs, Some e), s2\<lparr>rl_world := w3\<rparr>)
               | (Inr _, w3) \<Rightarrow> ((length evs, None), s2\<lparr>rl_world := w3\<rparr>))))"

text \<open>\<open>Run\<close> takes 100 events per cycle unless configured otherwise.\<close>

definition relay_limit :: "int \<Rightarrow> nat" where
  "relay_limit b = (if b \<le> 0 then 100 else nat b)"

text \<open>The loop of \<open>Run\<close>, as the list of its cycles, each with the environment it meets.\<close>

fun relay_run :: "nat \<Rightarrow> (env \<times> publisher \<times> (int \<Rightarrow> bool)) list \<Rightarrow> relay \<Rightarrow> relay" where
  "relay_run limit [] s = s"
| "relay_run limit ((E, pub, busy) # cs) s = relay_run limit cs (snd (relay_cycle E pub busy limit s))"

lemmas relay_runs [run_simps] = fun_cong [OF outbox_lock_batch_def] fun_cong [OF outbox_mark_failed_def]
  fun_cong [OF outbox_mark_published_def] fun_cong [OF commit_or_rollback_def] pending_def

section \<open>What a cycle leaves\<close>

text \<open>The outbox with what a cycle staged: the failures of the given events, and the marks.\<close>

definition picked :: "(int \<Rightarrow> bool) \<Rightarrow> nat \<Rightarrow> db \<Rightarrow> outbox_event list" where
  "picked busy limit d = take limit (sort_key ox_id (filter (\<lambda>e. pending e \<and> \<not> busy (ox_id e)) (outbox d)))"

definition bump_failed :: "int \<Rightarrow> string \<Rightarrow> outbox_event list \<Rightarrow> outbox_event list" where
  "bump_failed i msg = sql_update (\<lambda>e. ox_id e = i)
     (\<lambda>e. e\<lparr>ox_attempts := ox_attempts e + 1, ox_last_error := Some msg\<rparr>)"

definition mark_all :: "time \<Rightarrow> int list \<Rightarrow> outbox_event list \<Rightarrow> outbox_event list" where
  "mark_all t ids = sql_update (\<lambda>e. ox_id e \<in> set ids) (\<lambda>e. e\<lparr>ox_published_at := Some t\<rparr>)"

text \<open>Publications numbered from \<open>n\<close>: the acknowledged ids, and the failures in order.\<close>

fun acked_ids :: "publisher \<Rightarrow> nat \<Rightarrow> outbox_event list \<Rightarrow> int list" where
  "acked_ids pub n [] = []"
| "acked_ids pub n (e # es) = (case pub n e of Acked \<Rightarrow> [ox_id e] | Failed _ _ \<Rightarrow> []) @ acked_ids pub (Suc n) es"

fun failures :: "publisher \<Rightarrow> nat \<Rightarrow> outbox_event list \<Rightarrow> (int \<times> string) list" where
  "failures pub n [] = []"
| "failures pub n (e # es) = (case pub n e of Acked \<Rightarrow> [] | Failed _ m \<Rightarrow> [(ox_id e, m)]) @ failures pub (Suc n) es"

fun stored_messages :: "publisher \<Rightarrow> nat \<Rightarrow> outbox_event list \<Rightarrow> message list" where
  "stored_messages pub n [] = []"
| "stored_messages pub n (e # es) =
     (case pub n e of Acked \<Rightarrow> [message_of e] | Failed st m \<Rightarrow> if st then [message_of e] else [])
     @ stored_messages pub (Suc n) es"

definition bump_all :: "(int \<times> string) list \<Rightarrow> outbox_event list \<Rightarrow> outbox_event list" where
  "bump_all fs = fold (\<lambda>(i, m). bump_failed i m) fs"

lemma lock_batch_ok:
  "outbox_lock_batch E busy limit w = (Inr evs, w1) \<Longrightarrow> evs = picked busy limit (w_db w) \<and> w_db w1 = w_db w"
  by (auto simp: outbox_lock_batch_def picked_def io_simps)

lemma ro_lock_batch: "ro (outbox_lock_batch E busy limit)"
  unfolding outbox_lock_batch_def
  by (intro ro_intros) (auto simp: ro_def exec_def split: option.splits)

text \<open>
  The stream and the acknowledged ids do not depend on the database; the rows do, and only as
  long as no statement failed.
\<close>

lemma mark_failed_ok:
  "outbox_mark_failed E ab i msg w = (Inr (), w1) \<Longrightarrow>
     \<not> ab \<and> w_db w1 = (w_db w)\<lparr>outbox := bump_failed i msg (outbox (w_db w))\<rparr>"
  by (auto simp: outbox_mark_failed_def bump_failed_def update_rows_def exec_ok Let_def io_simps sql_update_def
      filter_empty_conv intro!: db.equality map_idI [symmetric] split: if_splits option.splits)

lemma mark_failed_db: "outbox_mark_failed E ab i msg w = (Inl e, w1) \<Longrightarrow> w_db w1 = w_db w"
  by (auto simp: outbox_mark_failed_def exec_def split: if_splits option.splits
      dest: atomicD [OF atomic_table_writes(2)])

lemma publish_run:
  "relay_publish E pub es ab ids s = (ab', ids', s') \<Longrightarrow>
     ids' = ids @ acked_ids pub (rl_count s) es
     \<and> rl_stream s' = rl_stream s @ stored_messages pub (rl_count s) es
     \<and> rl_count s' = rl_count s + length es \<and> (ab \<longrightarrow> ab')
     \<and> (\<not> ab' \<longrightarrow> w_db (rl_world s') = (w_db (rl_world s))\<lparr>outbox :=
          bump_all (failures pub (rl_count s) es) (outbox (w_db (rl_world s)))\<rparr>)"
proof (induction es arbitrary: ab ids s)
  case Nil
  then show ?case by (simp add: bump_all_def)
next
  case (Cons e es)
  show ?case
  proof (cases "pub (rl_count s) e")
    case Acked
    with Cons.prems have "relay_publish E pub es ab (ids @ [ox_id e])
        (s\<lparr>rl_count := Suc (rl_count s), rl_stream := rl_stream s @ [message_of e]\<rparr>) = (ab', ids', s')"
      by simp
    from Cons.IH [OF this] Acked show ?thesis by simp
  next
    case (Failed st m)
    obtain r w1 where r: "outbox_mark_failed E ab (ox_id e) m (rl_world s) = (r, w1)" by fastforce
    let ?ab = "case r of Inl x \<Rightarrow> True | Inr _ \<Rightarrow> ab"
    from Cons.prems Failed r have "relay_publish E pub es ?ab ids
        (s\<lparr>rl_count := Suc (rl_count s), rl_stream := (if st then rl_stream s @ [message_of e] else rl_stream s),
           rl_world := w1\<rparr>) = (ab', ids', s')"
      by simp
    note IH = Cons.IH [OF this]
    have "\<not> ab' \<Longrightarrow> w_db w1 = (w_db (rl_world s))\<lparr>outbox := bump_failed (ox_id e) m (outbox (w_db (rl_world s)))\<rparr>"
      using IH r mark_failed_ok [of E ab "ox_id e" m "rl_world s" w1] by (cases r) auto
    then show ?thesis using IH Failed by (auto simp: bump_all_def split: sum.splits)
  qed
qed

lemma commit_run:
  "commit_or_rollback E ab d0 w = (r, w') \<Longrightarrow>
     (case r of Inl e \<Rightarrow> w_db w' = d0 | Inr _ \<Rightarrow> \<not> ab \<and> w_db w' = w_db w)"
  by (auto simp: commit_or_rollback_def exec_def split: option.splits if_splits)

lemma mark_published_run:
  assumes "outbox_mark_published E ab d0 ids w = (r, w')"
  shows "case r of Inl e \<Rightarrow> w_db w' = d0
     | Inr _ \<Rightarrow> \<not> ab \<and> w_db w' = (w_db w)\<lparr>outbox := mark_all (e_dbnow E) ids (outbox (w_db w))\<rparr>"
proof (cases "ids = []")
  case True
  with assms have "commit_or_rollback E ab d0 w = (r, w')" by (simp add: outbox_mark_published_def)
  from commit_run [OF this] True show ?thesis
    by (auto simp: mark_all_def sql_update_def split: sum.splits)
next
  case False
  show ?thesis
  proof (cases ab)
    case True
    with assms False show ?thesis
      by (auto simp: outbox_mark_published_def exec_def split: option.splits)
  next
    case nab: False
    let ?up = "update_rows E outbox outbox_update no_check None (\<lambda>e. ox_id e \<in> set ids)
                    (\<lambda>e. e\<lparr>ox_published_at := Some (e_dbnow E)\<rparr>)"
    obtain r1 w1 where u: "?up w = (r1, w1)" by fastforce
    show ?thesis
    proof (cases r1)
      case (Inl e)
      with assms False nab u show ?thesis by (auto simp: outbox_mark_published_def)
    next
      case (Inr x)
      with assms False nab u have c: "commit_or_rollback E ab d0 w1 = (r, w')"
        by (auto simp: outbox_mark_published_def)
      have "w_db w1 = (w_db w)\<lparr>outbox := mark_all (e_dbnow E) ids (outbox (w_db w))\<rparr>"
        using u Inr by (auto simp: update_rows_def exec_ok Let_def mark_all_def sql_update_def no_check_def
            first_err_None filter_empty_conv intro!: db.equality map_idI [symmetric] split: if_splits option.splits)
      with commit_run [OF c] show ?thesis by (auto split: sum.splits)
    qed
  qed
qed

end
