(* ===== verification/Relay_Props.thy ===== *)
theory Relay_Props
  imports Relay Scenario
begin

text \<open>
  The properties of the outbox relay: what a cycle marks, that no published event is lost
  whatever fails, that deduplication by message id makes the deliveries unique, that a relay
  whose broker answers empties the outbox, and what one failing bookkeeping statement costs.
\<close>

section \<open>A cycle as a whole\<close>

text \<open>A failed cycle rolls its bookkeeping back; the broker keeps what it stored.\<close>

lemma cycle_run:
  assumes "relay_cycle E pub busy limit s = ((n, r), s')"
  obtains (idle) "n = 0" "w_db (rl_world s') = w_db (rl_world s)" "rl_stream s' = rl_stream s" "rl_count s' = rl_count s"
      "r = None \<longrightarrow> picked busy limit (w_db (rl_world s)) = []"
  | (rolled_back) x where "n = length (picked busy limit (w_db (rl_world s)))" "r = Some x"
      "w_db (rl_world s') = w_db (rl_world s)"
      "rl_stream s' = rl_stream s @ stored_messages pub (rl_count s) (picked busy limit (w_db (rl_world s)))"
  | (committed) "n = length (picked busy limit (w_db (rl_world s)))" "r = None"
      "rl_stream s' = rl_stream s @ stored_messages pub (rl_count s) (picked busy limit (w_db (rl_world s)))"
      "w_db (rl_world s') = (w_db (rl_world s))\<lparr>outbox :=
         mark_all (e_dbnow E) (acked_ids pub (rl_count s) (picked busy limit (w_db (rl_world s))))
           (bump_all (failures pub (rl_count s) (picked busy limit (w_db (rl_world s)))) (outbox (w_db (rl_world s))))\<rparr>"
proof -
  obtain q w1 where q: "outbox_lock_batch E busy limit (rl_world s) = (q, w1)" by fastforce
  show thesis
  proof (cases q)
    case (Inl e)
    with assms q roD [OF ro_lock_batch q] show thesis by (intro idle) (auto simp: relay_cycle_def)
  next
    case (Inr evs)
    with q have L: "evs = picked busy limit (w_db (rl_world s))" "w_db w1 = w_db (rl_world s)"
      using lock_batch_ok by auto
    show thesis
    proof (cases "evs = []")
      case True
      with assms q Inr L show thesis by (intro idle) (auto simp: relay_cycle_def)
    next
      case False
      obtain ab ids s2 where p: "relay_publish E pub evs False [] (s\<lparr>rl_world := w1\<rparr>) = (ab, ids, s2)"
        by (metis prod.collapse)
      note P = publish_run [OF p]
      obtain r3 w3 where m: "outbox_mark_published E ab (w_db (rl_world s)) ids (rl_world s2) = (r3, w3)" by fastforce
      note M = mark_published_run [OF m]
      have res: "((n, r), s') = ((length evs, case r3 of Inl e \<Rightarrow> Some e | Inr _ \<Rightarrow> None), s2\<lparr>rl_world := w3\<rparr>)"
        using assms q Inr False p m by (simp add: relay_cycle_def split: sum.splits)
      show thesis
      proof (cases r3)
        case (Inl e)
        with res M P L show thesis by (intro rolled_back [of e]) auto
      next
        case (Inr u)
        with res M P L show thesis by (intro committed) auto
      qed
    qed
  qed
qed

section \<open>What a cycle marks\<close>

lemma bump_all_simps [simp]:
  "bump_all [] xs = xs" "bump_all ((i, m) # fs) xs = bump_all fs (bump_failed i m xs)"
  by (simp_all add: bump_all_def)

lemma bump_failed_keys [simp]:
  "map ox_id (bump_failed i m xs) = map ox_id xs" "map message_of (bump_failed i m xs) = map message_of xs"
  "map ox_published_at (bump_failed i m xs) = map ox_published_at xs"
  by (simp_all add: bump_failed_def map_sql_update message_of_def)

lemma bump_all_keys [simp]:
  "map ox_id (bump_all fs xs) = map ox_id xs" "map message_of (bump_all fs xs) = map message_of xs"
  "map ox_published_at (bump_all fs xs) = map ox_published_at xs"
  by (induction fs arbitrary: xs) auto

lemma mark_all_keys [simp]:
  "map ox_id (mark_all t ids xs) = map ox_id xs" "map message_of (mark_all t ids xs) = map message_of xs"
  by (simp_all add: mark_all_def map_sql_update message_of_def)

lemma bump_all_at:
  "distinct (map fst fs) \<Longrightarrow> by_key ox_id i (bump_all fs xs) = map_option (\<lambda>e. case map_of fs i of
     None \<Rightarrow> e | Some m \<Rightarrow> e\<lparr>ox_attempts := ox_attempts e + 1, ox_last_error := Some m\<rparr>) (by_key ox_id i xs)"
proof (induction fs arbitrary: xs)
  case (Cons im fs)
  obtain j m where im: "im = (j, m)" by fastforce
  have "by_key ox_id i (bump_failed j m xs) = map_option (\<lambda>e. if ox_id e = j
      then e\<lparr>ox_attempts := ox_attempts e + 1, ox_last_error := Some m\<rparr> else e) (by_key ox_id i xs)"
    unfolding bump_failed_def by (rule by_key_sql_update) simp
  moreover have "distinct (map fst fs)" "j \<notin> fst ` set fs" using Cons.prems im by auto
  ultimately show ?case unfolding im bump_all_simps Cons.IH [OF \<open>distinct (map fst fs)\<close>]
  proof (cases "by_key ox_id i xs")
    case (Some e)
    then have "ox_id e = i" by (auto dest: by_key_SomeD)
    moreover have "map_of fs j = None" using \<open>j \<notin> fst ` set fs\<close> by (simp add: map_of_eq_None_iff)
    ultimately show "map_option (\<lambda>e. case map_of fs i of None \<Rightarrow> e
        | Some m \<Rightarrow> e\<lparr>ox_attempts := ox_attempts e + 1, ox_last_error := Some m\<rparr>)
        (by_key ox_id i (bump_failed j m xs)) = map_option (\<lambda>e. case map_of ((j, m) # fs) i of None \<Rightarrow> e
        | Some m \<Rightarrow> e\<lparr>ox_attempts := ox_attempts e + 1, ox_last_error := Some m\<rparr>) (by_key ox_id i xs)"
      using Some \<open>by_key ox_id i (bump_failed j m xs) = _\<close> by (cases "i = j") simp_all
  qed simp
qed (simp add: option.map_ident)

lemma mark_all_at:
  "by_key ox_id i (mark_all t ids xs) =
     map_option (\<lambda>e. if ox_id e \<in> set ids then e\<lparr>ox_published_at := Some t\<rparr> else e) (by_key ox_id i xs)"
  unfolding mark_all_def by (rule by_key_sql_update) simp

text \<open>Where an event is among the picked ones decides which publication was its own.\<close>

lemma acked_iff:
  "distinct (map ox_id es) \<Longrightarrow> k < length es \<Longrightarrow>
     ox_id (es ! k) \<in> set (acked_ids pub n es) \<longleftrightarrow> pub (n + k) (es ! k) = Acked"
proof (induction es arbitrary: n k)
  case (Cons e es)
  have sub: "set (acked_ids pub m es) \<subseteq> ox_id ` set es" for m
    by (induction es arbitrary: m) (fastforce split: publish_result.splits)+
  show ?case
  proof (cases k)
    case 0
    with Cons.prems sub [of "Suc n"] show ?thesis by (auto split: publish_result.splits)
  next
    case (Suc j)
    then have "ox_id (es ! j) \<in> ox_id ` set es" "ox_id e \<notin> ox_id ` set es" using Cons.prems by simp_all
    then have "ox_id (es ! j) \<noteq> ox_id e" by metis
    with Cons.IH [of j "Suc n"] Cons.prems Suc show ?thesis by (auto split: publish_result.splits)
  qed
qed simp

lemma failures_keys: "set (map fst (failures pub n es)) \<subseteq> ox_id ` set es"
  by (induction es arbitrary: n) (fastforce split: publish_result.splits)+

lemma distinct_failures: "distinct (map ox_id es) \<Longrightarrow> distinct (map fst (failures pub n es))"
proof (induction es arbitrary: n)
  case (Cons e es)
  with failures_keys [of pub "Suc n" es] show ?case by (auto split: publish_result.splits)
qed simp

lemma failures_at:
  "distinct (map ox_id es) \<Longrightarrow> k < length es \<Longrightarrow>
     map_of (failures pub n es) (ox_id (es ! k)) = (case pub (n + k) (es ! k) of Acked \<Rightarrow> None | Failed st m \<Rightarrow> Some m)"
proof (induction es arbitrary: n k)
  case (Cons e es)
  have miss: "map_of (failures pub (Suc n) es) (ox_id e) = None"
    using failures_keys [of pub "Suc n" es] Cons.prems(1) by (auto simp: map_of_eq_None_iff)
  show ?case
  proof (cases k)
    case 0
    with miss show ?thesis by (simp split: publish_result.splits)
  next
    case (Suc j)
    then have "ox_id (es ! j) \<in> ox_id ` set es" "ox_id e \<notin> ox_id ` set es" using Cons.prems by simp_all
    then have "ox_id (es ! j) \<noteq> ox_id e" by metis
    with Cons.IH [of j "Suc n"] Cons.prems Suc show ?thesis by (auto split: publish_result.splits)
  qed
qed simp

lemma picked_props:
  "set (picked busy limit d) \<subseteq> set (outbox d)" "e \<in> set (picked busy limit d) \<Longrightarrow> pending e \<and> \<not> busy (ox_id e)"
  "distinct (map ox_id (outbox d)) \<Longrightarrow> distinct (map ox_id (picked busy limit d))"
proof -
  let ?f = "filter (\<lambda>e. pending e \<and> \<not> busy (ox_id e)) (outbox d)"
  have sub: "set (picked busy limit d) \<subseteq> set ?f" unfolding picked_def using set_take_subset by fastforce
  then show "set (picked busy limit d) \<subseteq> set (outbox d)" by auto
  show "e \<in> set (picked busy limit d) \<Longrightarrow> pending e \<and> \<not> busy (ox_id e)" using sub by auto
  assume "distinct (map ox_id (outbox d))"
  then have "distinct (map ox_id ?f)" by (rule distinct_map_filter)
  then have "distinct (map ox_id (sort_key ox_id ?f))" unfolding distinct_map by (simp only: distinct_sort set_sort)
  then show "distinct (map ox_id (picked busy limit d))" unfolding picked_def by (simp add: take_map [symmetric])
qed

text \<open>C20: A cycle that commits marks exactly the acknowledged events as published; an event whose
  publication failed stays pending with one more attempt and the error; every other row stays as
  it was.\<close>

theorem relay_marks_acknowledged:
  fixes s :: relay
  defines "d \<equiv> w_db (rl_world s)"
  assumes "distinct (map ox_id (outbox d))" "relay_cycle E pub busy limit s = ((n, None), s')"
  shows "n = length (picked busy limit d)
    \<and> map ox_id (outbox (w_db (rl_world s'))) = map ox_id (outbox d)
    \<and> (\<forall>k<n. let e = picked busy limit d ! k in by_key ox_id (ox_id e) (outbox (w_db (rl_world s'))) =
         Some (case pub (rl_count s + k) e of
             Acked \<Rightarrow> e\<lparr>ox_published_at := Some (e_dbnow E)\<rparr>
           | Failed st m \<Rightarrow> e\<lparr>ox_attempts := ox_attempts e + 1, ox_last_error := Some m\<rparr>))
    \<and> (\<forall>e\<in>set (outbox d). e \<notin> set (picked busy limit d) \<longrightarrow>
         by_key ox_id (ox_id e) (outbox (w_db (rl_world s'))) = Some e)"
proof (cases rule: cycle_run [OF assms(3)])
  case 1
  then have p: "picked busy limit d = []" by (simp add: d_def)
  have db: "outbox (w_db (rl_world s')) = outbox d" using 1 by (simp add: d_def)
  show ?thesis unfolding p db using 1(1) by_key_mem [OF assms(2)] by simp
next
  case 2
  then show ?thesis by simp
next
  case 3
  let ?es = "picked busy limit d" and ?n = "rl_count s"
  have ox: "outbox (w_db (rl_world s')) = mark_all (e_dbnow E) (acked_ids pub ?n ?es) (bump_all (failures pub ?n ?es) (outbox d))"
    using 3(4) by (simp add: d_def)
  have n: "n = length ?es" using 3(1) by (simp add: d_def)
  note D = picked_props(3) [OF assms(2), of busy limit]
  have at: "by_key ox_id i (outbox (w_db (rl_world s'))) = map_option (\<lambda>e.
      let e1 = (case map_of (failures pub ?n ?es) i of None \<Rightarrow> e
                | Some m \<Rightarrow> e\<lparr>ox_attempts := ox_attempts e + 1, ox_last_error := Some m\<rparr>)
      in if i \<in> set (acked_ids pub ?n ?es) then e1\<lparr>ox_published_at := Some (e_dbnow E)\<rparr> else e1) (by_key ox_id i (outbox d))" for i
    unfolding ox mark_all_at bump_all_at [OF distinct_failures [OF D]]
    by (cases "by_key ox_id i (outbox d)") (auto simp: Let_def dest: by_key_SomeD split: option.splits)
  have "by_key ox_id (ox_id (?es ! k)) (outbox (w_db (rl_world s'))) =
      Some (case pub (?n + k) (?es ! k) of Acked \<Rightarrow> (?es ! k)\<lparr>ox_published_at := Some (e_dbnow E)\<rparr>
        | Failed st m \<Rightarrow> (?es ! k)\<lparr>ox_attempts := ox_attempts (?es ! k) + 1, ox_last_error := Some m\<rparr>)"
    if "k < length ?es" for k
  proof -
    have "by_key ox_id (ox_id (?es ! k)) (outbox d) = Some (?es ! k)"
      by (rule by_key_mem [OF assms(2)]) (use that picked_props(1) in \<open>meson nth_mem subsetD\<close>)
    then show ?thesis unfolding at
      by (simp add: acked_iff [OF D that] failures_at [OF D that] Let_def split: publish_result.splits)
  qed
  moreover have "by_key ox_id (ox_id e) (outbox (w_db (rl_world s'))) = Some e"
    if e: "e \<in> set (outbox d)" "e \<notin> set ?es" for e
  proof -
    have out: "ox_id e \<notin> ox_id ` set ?es"
      using e assms(2) picked_props(1) [of busy limit d] by (auto simp: distinct_map dest: inj_onD)
    have "set (acked_ids pub m es) \<subseteq> ox_id ` set es" for m es
      by (induction es arbitrary: m) (fastforce split: publish_result.splits)+
    then have "ox_id e \<notin> set (acked_ids pub ?n ?es)" "map_of (failures pub ?n ?es) (ox_id e) = None"
      using out failures_keys [of pub ?n ?es] by (auto simp: map_of_eq_None_iff)
    then show ?thesis unfolding at by_key_mem [OF assms(2) e(1)] by (simp add: Let_def)
  qed
  moreover have "map ox_id (outbox (w_db (rl_world s'))) = map ox_id (outbox d)" unfolding ox by simp
  ultimately show ?thesis using n by (simp add: Let_def)
qed

definition event0 :: "int \<Rightarrow> outbox_event" where
  "event0 i = \<lparr>ox_id = i, ox_type = ''order'', ox_agg = ''o'', ox_subject = ''order.placed.v1'', ox_payload = [],
     ox_headers = [], ox_created_at = 0, ox_published_at = None, ox_attempts = 0, ox_last_error = None\<rparr>"

definition relay0 :: relay where
  "relay0 = \<lparr>rl_world = world0\<lparr>w_db := db0\<lparr>outbox := [event0 1, event0 2]\<rparr>, w_outbox_seq := 3\<rparr>,
     rl_stream = [], rl_count = 0\<rparr>"

text \<open>The second publication fails.\<close>

definition flaky :: publisher where
  "flaky n e = (if n = 1 then Failed False ''timeout'' else Acked)"

lemmas relay0_defs = relay0_def event0_def flaky_def world0_def scenario_defs

lemma relay0_ok: "\<exists>s'. relay_cycle env0 flaky (\<lambda>_. False) 100 relay0 = ((2, None), s')"
  by (simp add: relay_cycle_def relay0_defs run_simps)

theorem relay_marks_acknowledged_witness:
  "\<exists>s'. relay_cycle env0 flaky (\<lambda>_. False) 100 relay0 = ((2, None), s')
     \<and> by_key ox_id 2 (outbox (w_db (rl_world s'))) = Some ((event0 2)\<lparr>ox_attempts := 1, ox_last_error := Some ''timeout''\<rparr>)"
proof -
  obtain s' where s': "relay_cycle env0 flaky (\<lambda>_. False) 100 relay0 = ((2, None), s')" using relay0_ok by blast
  have "distinct (map ox_id (outbox (w_db (rl_world relay0))))" by (simp add: relay0_defs)
  note M = relay_marks_acknowledged [OF this s']
  have P: "picked (\<lambda>_. False) 100 (w_db (rl_world relay0)) = [event0 1, event0 2]"
    by (simp add: picked_def pending_def relay0_defs)
  from M have "\<forall>k<2. let e = [event0 1, event0 2] ! k in by_key ox_id (ox_id e) (outbox (w_db (rl_world s'))) =
      Some (case flaky (rl_count relay0 + k) e of Acked \<Rightarrow> e\<lparr>ox_published_at := Some (e_dbnow env0)\<rparr>
        | Failed st m \<Rightarrow> e\<lparr>ox_attempts := ox_attempts e + 1, ox_last_error := Some m\<rparr>)"
    unfolding P by blast
  from this [rule_format, of 1] s' show ?thesis by (simp add: relay0_def event0_def flaky_def)
qed

section \<open>Nothing is lost, nothing is delivered twice\<close>

text \<open>
  The relay, its broker and the services that append events, as a transition system: a service
  commits an event, or the relay runs a cycle in whatever environment.
\<close>

inductive relay_reach :: "nat \<Rightarrow> relay \<Rightarrow> relay \<Rightarrow> bool" for limit :: nat and s0 :: relay where
  start: "relay_reach limit s0 s0"
| commit: "relay_reach limit s0 s \<Longrightarrow> outbox_append_tx E ty i subj pl hs (rl_world s) = (Inr (), w) \<Longrightarrow>
     relay_reach limit s0 (s\<lparr>rl_world := w\<rparr>)"
| cycle: "relay_reach limit s0 s \<Longrightarrow> relay_cycle E pub busy limit s = (r, s') \<Longrightarrow> relay_reach limit s0 s'"

definition relay_inv :: "relay \<Rightarrow> bool" where
  "relay_inv s \<longleftrightarrow> (let ox = outbox (w_db (rl_world s)) in
     distinct (map ox_id ox) \<and> (\<forall>e\<in>set ox. ox_id e < w_outbox_seq (rl_world s))
     \<and> set (rl_stream s) \<subseteq> message_of ` set ox
     \<and> (\<forall>e\<in>set ox. ox_published_at e \<noteq> None \<longrightarrow> message_of e \<in> set (rl_stream s)))"

lemma message_of_inj: "message_of a = message_of b \<Longrightarrow> ox_id a = ox_id b"
  by (auto simp: message_of_def dedup_id_def int_text_inj)

lemma stored_sub: "set (stored_messages pub n es) \<subseteq> message_of ` set es"
  by (induction es arbitrary: n) (fastforce split: publish_result.splits)+

lemma acked_stored: "i \<in> set (acked_ids pub n es) \<Longrightarrow> \<exists>e\<in>set es. ox_id e = i \<and> message_of e \<in> set (stored_messages pub n es)"
  by (induction es arbitrary: n) (fastforce split: publish_result.splits)+

text \<open>Only appending draws from the sequence of ids.\<close>

lemma mark_failed_seq: "outbox_mark_failed E ab i m w = (r, w') \<Longrightarrow> w_outbox_seq w' = w_outbox_seq w"
  unfolding outbox_mark_failed_def update_rows_def
  by (auto simp: exec_def Let_def split: if_splits option.splits)

lemma publish_seq: "relay_publish E pub es ab ids s = (ab', ids', s') \<Longrightarrow> w_outbox_seq (rl_world s') = w_outbox_seq (rl_world s)"
proof (induction es arbitrary: ab ids s)
  case (Cons e es)
  show ?case
  proof (cases "pub (rl_count s) e")
    case Acked
    with Cons.prems show ?thesis by (auto simp: Let_def dest: Cons.IH)
  next
    case (Failed st m)
    obtain r w1 where r: "outbox_mark_failed E ab (ox_id e) m (rl_world s) = (r, w1)" by fastforce
    with Cons.prems Failed mark_failed_seq [OF r] show ?thesis by (auto simp: Let_def dest: Cons.IH)
  qed
qed simp

lemma commit_seq: "commit_or_rollback E ab dd w = (r, w') \<Longrightarrow> w_outbox_seq w' = w_outbox_seq w"
  by (auto simp: commit_or_rollback_def exec_def split: option.splits sum.splits if_splits)

lemma mark_published_seq: "outbox_mark_published E ab dd ids w = (r, w') \<Longrightarrow> w_outbox_seq w' = w_outbox_seq w"
  unfolding outbox_mark_published_def update_rows_def
  by (auto simp: exec_def Let_def dest!: commit_seq split: if_splits option.splits sum.splits prod.splits)

lemma cycle_seq: "relay_cycle E pub busy limit s = (r, s') \<Longrightarrow> w_outbox_seq (rl_world s') = w_outbox_seq (rl_world s)"
proof -
  assume run: "relay_cycle E pub busy limit s = (r, s')"
  obtain q w1 where q: "outbox_lock_batch E busy limit (rl_world s) = (q, w1)" by fastforce
  have w1: "w_outbox_seq w1 = w_outbox_seq (rl_world s)"
    using q by (auto simp: outbox_lock_batch_def bind_def query_def exec_def split: option.splits sum.splits prod.splits)
  show ?thesis
  proof (cases q)
    case (Inl e)
    with run q w1 show ?thesis by (auto simp: relay_cycle_def)
  next
    case (Inr evs)
    obtain ab ids s2 where p: "relay_publish E pub evs False [] (s\<lparr>rl_world := w1\<rparr>) = (ab, ids, s2)" by (metis prod.collapse)
    obtain r3 w3 where m: "outbox_mark_published E ab (w_db (rl_world s)) ids (rl_world s2) = (r3, w3)" by fastforce
    show ?thesis
      using run q Inr p m w1 publish_seq [OF p] mark_published_seq [OF m]
      by (auto simp: relay_cycle_def split: if_splits sum.splits)
  qed
qed

text \<open>What is stored and marked, before a row is looked at by its key.\<close>

lemma messages_marked:
  "message_of ` set (mark_all t ids (bump_all fs xs)) = message_of ` set xs"
  "ox_id ` set (mark_all t ids (bump_all fs xs)) = ox_id ` set xs"
  by (metis bump_all_keys(2) mark_all_keys(2) list.set_map, metis bump_all_keys(1) mark_all_keys(1) list.set_map)

lemma marked_published:
  assumes "e \<in> set (mark_all t ids (bump_all fs xs))" "ox_published_at e \<noteq> None"
  shows "ox_id e \<in> set ids \<or> (\<exists>e0\<in>set xs. message_of e0 = message_of e \<and> ox_published_at e0 \<noteq> None)"
proof -
  from assms(1) obtain e1 where e1: "e1 \<in> set (bump_all fs xs)"
    "e = (if ox_id e1 \<in> set ids then e1\<lparr>ox_published_at := Some t\<rparr> else e1)"
    by (auto simp: mark_all_def set_sql_update)
  show ?thesis
  proof (cases "ox_id e1 \<in> set ids")
    case False
    with e1 assms(2) have e: "e \<in> set (bump_all fs xs)" by simp
    have "\<exists>e0\<in>set xs. message_of e0 = message_of e \<and> ox_published_at e0 = ox_published_at e"
      using e
    proof (induction fs arbitrary: xs)
      case (Cons im fs)
      obtain i m where im: "im = (i, m)" by fastforce
      with Cons obtain e2 where "e2 \<in> set (bump_failed i m xs)" "message_of e2 = message_of e"
        "ox_published_at e2 = ox_published_at e" by force
      moreover from this(1) obtain e3 where "e3 \<in> set xs" "message_of e2 = message_of e3" "ox_published_at e2 = ox_published_at e3"
        by (auto simp: bump_failed_def set_sql_update message_of_def split: if_splits)
      ultimately show ?case by metis
    qed auto
    with assms(2) show ?thesis by metis
  qed (use e1 in simp)
qed

lemma cycle_keeps_inv:
  assumes I: "relay_inv s" and run: "relay_cycle E pub busy limit s = (r, s')"
  shows "relay_inv s' \<and> message_of ` set (outbox (w_db (rl_world s'))) = message_of ` set (outbox (w_db (rl_world s)))"
proof -
  obtain n x where r: "r = (n, x)" by fastforce
  let ?es = "picked busy limit (w_db (rl_world s))" and ?st = "stored_messages pub (rl_count s)"
  have es: "message_of ` set ?es \<subseteq> message_of ` set (outbox (w_db (rl_world s)))"
    using picked_props(1) by (rule image_mono)
  note I' = I [unfolded relay_inv_def Let_def] and sq = cycle_seq [OF run]
  show ?thesis
  proof (cases rule: cycle_run [OF run [unfolded r]])
    case 1
    with I sq show ?thesis by (simp add: relay_inv_def)
  next
    case (2 x)
    have "set (rl_stream s') \<subseteq> message_of ` set (outbox (w_db (rl_world s)))"
      using I' 2(4) es stored_sub [of pub "rl_count s" ?es] by auto
    with I' 2 sq show ?thesis by (auto simp: relay_inv_def Let_def)
  next
    case 3
    let ?ids = "acked_ids pub (rl_count s) ?es" and ?fs = "failures pub (rl_count s) ?es"
    have ox: "outbox (w_db (rl_world s')) = mark_all (e_dbnow E) ?ids (bump_all ?fs (outbox (w_db (rl_world s))))"
      using 3(4) by simp
    have "set (rl_stream s') \<subseteq> message_of ` set (outbox (w_db (rl_world s')))"
      using I' 3(3) es stored_sub [of pub "rl_count s" ?es] unfolding ox messages_marked by auto
    moreover have "message_of e \<in> set (rl_stream s')"
      if e: "e \<in> set (outbox (w_db (rl_world s')))" "ox_published_at e \<noteq> None" for e
      using marked_published [OF e [unfolded ox]]
    proof
      assume "ox_id e \<in> set ?ids"
      then obtain e0 where e0: "e0 \<in> set ?es" "ox_id e0 = ox_id e" "message_of e0 \<in> set (?st ?es)"
        using acked_stored by blast
      have "message_of e \<in> message_of ` set (outbox (w_db (rl_world s)))"
        using imageI [OF e(1), of message_of] unfolding ox messages_marked .
      then obtain e1 where e1: "e1 \<in> set (outbox (w_db (rl_world s)))" "message_of e = message_of e1" by blast
      then have "ox_id e1 = ox_id e0" using e0(2) message_of_inj by metis
      moreover have "e0 \<in> set (outbox (w_db (rl_world s)))" using e0(1) picked_props(1) by blast
      ultimately have "e1 = e0" using I' e1(1) by (meson distinct_map inj_onD)
      with e1(2) e0(3) 3(3) show ?thesis by simp
    next
      assume "\<exists>e0\<in>set (outbox (w_db (rl_world s))). message_of e0 = message_of e \<and> ox_published_at e0 \<noteq> None"
      with I' have "message_of e \<in> set (rl_stream s)" by metis
      with 3(3) show ?thesis by simp
    qed
    moreover have "distinct (map ox_id (outbox (w_db (rl_world s'))))" using I' unfolding ox by simp
    moreover have "\<forall>e\<in>set (outbox (w_db (rl_world s'))). ox_id e < w_outbox_seq (rl_world s')"
    proof
      fix e assume "e \<in> set (outbox (w_db (rl_world s')))"
      then have "ox_id e \<in> ox_id ` set (outbox (w_db (rl_world s')))" by (rule imageI)
      then have "ox_id e \<in> ox_id ` set (outbox (w_db (rl_world s)))" unfolding ox messages_marked(2) .
      with I' sq show "ox_id e < w_outbox_seq (rl_world s')" by auto
    qed
    ultimately show ?thesis unfolding relay_inv_def Let_def by (simp add: ox messages_marked)
  qed
qed

lemma append_keeps_relay_inv:
  assumes "relay_inv s" "outbox_append_tx E ty i subj pl hs (rl_world s) = (Inr (), w)"
  shows "relay_inv (s\<lparr>rl_world := w\<rparr>)"
    and "message_of ` set (outbox (w_db (rl_world s))) \<subseteq> message_of ` set (outbox (w_db w))"
proof -
  let ?e = "\<lparr>ox_id = w_outbox_seq (rl_world s), ox_type = ty, ox_agg = i, ox_subject = subj, ox_payload = pl,
     ox_headers = hs, ox_created_at = e_dbnow E, ox_published_at = None, ox_attempts = 0, ox_last_error = None\<rparr>"
  have "outbox (w_db w) = outbox (w_db (rl_world s)) @ [?e]" "w_outbox_seq w = w_outbox_seq (rl_world s) + 1"
    using assms(2) by (auto simp: outbox_append_tx_def io_simps Let_def)
  then obtain e where e: "ox_id e = w_outbox_seq (rl_world s)" "ox_published_at e = None"
    "outbox (w_db w) = outbox (w_db (rl_world s)) @ [e]" "w_outbox_seq w = w_outbox_seq (rl_world s) + 1"
    by (intro that [of ?e]) simp_all
  with assms(1) show "relay_inv (s\<lparr>rl_world := w\<rparr>)"
    by (auto simp: relay_inv_def Let_def less_le_not_le)
  show "message_of ` set (outbox (w_db (rl_world s))) \<subseteq> message_of ` set (outbox (w_db w))" using e(3) by auto
qed

text \<open>C21: However services and relay cycles interleave and whatever fails, no event is lost and no
  message is forged: every event that was ever in the outbox is still there with its subject and
  payload, an event is only marked as published when its message is in the stream, and every
  message of the stream is that of an event.\<close>

theorem relay_never_loses:
  assumes "relay_inv s0" "relay_reach limit s0 s"
  shows "relay_inv s \<and> message_of ` set (outbox (w_db (rl_world s0))) \<subseteq> message_of ` set (outbox (w_db (rl_world s)))
    \<and> (\<forall>e\<in>set (outbox (w_db (rl_world s))). ox_published_at e \<noteq> None \<longrightarrow> message_of e \<in> set (rl_stream s))
    \<and> set (rl_stream s) \<subseteq> message_of ` set (outbox (w_db (rl_world s)))"
proof -
  from assms(2) have "relay_inv s \<and> message_of ` set (outbox (w_db (rl_world s0))) \<subseteq> message_of ` set (outbox (w_db (rl_world s)))"
  proof (induction rule: relay_reach.induct)
    case start
    with assms(1) show ?case by simp
  next
    case (commit s E ty i subj pl hs w)
    then have "relay_inv s" by blast
    from append_keeps_relay_inv [OF this commit(2)] commit(3) show ?case
      using subset_trans by (metis relay.select_convs(1) relay.surjective relay.update_convs(1))
  next
    case (cycle s E pub busy r s')
    with cycle_keeps_inv [OF _ cycle(2)] show ?case by simp
  qed
  then show ?thesis by (simp add: relay_inv_def Let_def)
qed

lemma relay0_inv: "relay_inv relay0"
  by (simp add: relay_inv_def relay0_defs)

theorem relay_never_loses_witness:
  "\<exists>s. relay_cycle env0 flaky (\<lambda>_. False) 100 relay0 = ((2, None), s) \<and> relay_inv s"
proof -
  obtain s' where s': "relay_cycle env0 flaky (\<lambda>_. False) 100 relay0 = ((2, None), s')" using relay0_ok by blast
  from relay_never_loses [OF relay0_inv relay_reach.cycle [OF relay_reach.start s']] s' show ?thesis by blast
qed

text \<open>The broker deduplicates by message id, and that makes the deliveries of an event one: in
  every reachable state two messages of the stream with the same id are the same message, and
  messages of different events have different ids.\<close>

theorem relay_dedup_sound:
  assumes "relay_inv s0" "relay_reach limit s0 s"
  shows "inj_on msg_id (set (rl_stream s))
    \<and> (\<forall>a\<in>set (outbox (w_db (rl_world s))). \<forall>b\<in>set (outbox (w_db (rl_world s))).
         msg_id (message_of a) = msg_id (message_of b) \<longrightarrow> a = b)"
proof -
  have I: "relay_inv s"
    using assms(2)
  proof (induction rule: relay_reach.induct)
    case start
    show ?case by (rule assms(1))
  next
    case (commit s E ty i subj pl hs w)
    then show ?case using append_keeps_relay_inv(1) by blast
  next
    case (cycle s E pub busy r s')
    then show ?case using cycle_keeps_inv by blast
  qed
  have ids: "a = b" if "a \<in> set (outbox (w_db (rl_world s)))" "b \<in> set (outbox (w_db (rl_world s)))"
    "msg_id (message_of a) = msg_id (message_of b)" for a b
    using I that by (auto simp: relay_inv_def Let_def message_of_def dedup_id_def int_text_inj distinct_map dest: inj_onD)
  then have "inj_on msg_id (message_of ` set (outbox (w_db (rl_world s))))" by (auto intro!: inj_onI)
  then have "inj_on msg_id (set (rl_stream s))"
    by (rule inj_on_subset) (use I in \<open>simp add: relay_inv_def Let_def\<close>)
  with ids show ?thesis by blast
qed

theorem relay_dedup_sound_witness:
  "\<exists>s. relay_cycle env0 flaky (\<lambda>_. False) 100 relay0 = ((2, None), s) \<and> inj_on msg_id (set (rl_stream s))"
proof -
  obtain s' where s': "relay_cycle env0 flaky (\<lambda>_. False) 100 relay0 = ((2, None), s')" using relay0_ok by blast
  from relay_dedup_sound [OF relay0_inv relay_reach.cycle [OF relay_reach.start s']] s' show ?thesis by blast
qed

section \<open>Draining\<close>

definition all_acked :: publisher where
  "all_acked n e = Acked"

definition backlog :: "relay \<Rightarrow> nat" where
  "backlog s = length (filter pending (outbox (w_db (rl_world s))))"

lemma all_acked_run:
  "relay_publish E all_acked es False ids s = (ab, ids', s') \<Longrightarrow>
     \<not> ab \<and> ids' = ids @ map ox_id es \<and> w_db (rl_world s') = w_db (rl_world s)"
proof (induction es arbitrary: ids s)
  case (Cons e es)
  then have "relay_publish E all_acked es False (ids @ [ox_id e])
      (s\<lparr>rl_count := Suc (rl_count s), rl_stream := rl_stream s @ [message_of e]\<rparr>) = (ab, ids', s')"
    by (simp add: all_acked_def [of "rl_count s" e])
  from Cons.IH [OF this] show ?case by simp
qed simp

lemma acked_cycle:
  assumes "e_fault E = (\<lambda>_. None)" "relay_cycle E all_acked (\<lambda>_. False) limit s = (r, s')"
  shows "outbox (w_db (rl_world s')) =
      mark_all (e_dbnow E) (map ox_id (picked (\<lambda>_. False) limit (w_db (rl_world s)))) (outbox (w_db (rl_world s)))"
proof -
  let ?es = "picked (\<lambda>_. False) limit (w_db (rl_world s))"
  obtain w1 where w1: "outbox_lock_batch E (\<lambda>_. False) limit (rl_world s) = (Inr ?es, w1)" "w_db w1 = w_db (rl_world s)"
    using assms(1) by (simp add: outbox_lock_batch_def picked_def bind_def query_def exec_def)
  show ?thesis
  proof (cases "?es = []")
    case True
    with assms(2) w1 show ?thesis by (auto simp: relay_cycle_def mark_all_def sql_update_def)
  next
    case False
    obtain ab ids s2 where p: "relay_publish E all_acked ?es False [] (s\<lparr>rl_world := w1\<rparr>) = (ab, ids, s2)"
      by (metis prod.collapse)
    note P = all_acked_run [OF p]
    obtain r3 w3 where m: "outbox_mark_published E ab (w_db (rl_world s)) ids (rl_world s2) = (r3, w3)" by fastforce
    from m P False assms(1) have "r3 = Inr ()"
      by (auto simp: outbox_mark_published_def update_rows_def exec_def commit_or_rollback_def no_check_passes
          Let_def split: option.splits if_splits)
    with mark_published_run [OF m] P w1(2) have "outbox (w_db w3) = mark_all (e_dbnow E) (map ox_id ?es) (outbox (w_db (rl_world s)))"
      by simp
    with assms(2) w1(1) False p m show ?thesis by (auto simp: relay_cycle_def split: sum.splits)
  qed
qed

lemma acked_cycle_backlog:
  assumes "e_fault E = (\<lambda>_. None)" "distinct (map ox_id (outbox (w_db (rl_world s))))"
    and "relay_cycle E all_acked (\<lambda>_. False) limit s = (r, s')"
  shows "backlog s' = backlog s - limit" "distinct (map ox_id (outbox (w_db (rl_world s'))))"
proof -
  let ?xs = "outbox (w_db (rl_world s))" and ?es = "picked (\<lambda>_. False) limit (w_db (rl_world s))"
  note ox = acked_cycle [OF assms(1,3)]
  show "distinct (map ox_id (outbox (w_db (rl_world s'))))" unfolding ox using assms(2) by simp
  have "filter pending (mark_all t ids xs) = filter (\<lambda>e. pending e \<and> ox_id e \<notin> set ids) xs" for t ids xs
    by (induction xs) (auto simp: mark_all_def pending_def)
  then have "backlog s' = length (filter (\<lambda>e. pending e \<and> ox_id e \<notin> ox_id ` set ?es) ?xs)"
    by (simp add: backlog_def ox)
  also have "\<dots> = length (filter (\<lambda>e. e \<notin> set ?es) (filter pending ?xs))"
    using assms(2) picked_props(1) [of "\<lambda>_. False" limit "w_db (rl_world s)"]
    by (auto simp: distinct_map conj_commute intro!: arg_cong [where f = length] filter_cong dest: inj_onD)
  also have "\<dots> = card (set (filter pending ?xs) - set ?es)"
    using distinct_card [of "filter (\<lambda>e. e \<notin> set ?es) (filter pending ?xs)"] assms(2)
    by (simp add: distinct_map set_diff_eq)
  also have "\<dots> = card (set (filter pending ?xs)) - card (set ?es)"
    by (rule card_Diff_subset)
      (use picked_props(1,2) [where busy = "\<lambda>_. False" and limit = limit and d = "w_db (rl_world s)"] in auto)
  also have "card (set (filter pending ?xs)) = backlog s"
    using distinct_card [of "filter pending ?xs"] assms(2) by (simp add: backlog_def distinct_map)
  also have "card (set ?es) = length ?es"
    using picked_props(3) [OF assms(2)] by (simp add: distinct_card distinct_map)
  also have "backlog s - length ?es = backlog s - limit"
    by (simp add: picked_def backlog_def)
  finally show "backlog s' = backlog s - limit" .
qed

text \<open>C22: While the database and the broker answer, every cycle takes the configured number of
  events off the backlog: after \<open>k\<close> cycles of \<open>limit\<close> events the backlog has shrunk by
  \<open>k * limit\<close>, so the relay empties the outbox.\<close>

theorem relay_drains:
  assumes "distinct (map ox_id (outbox (w_db (rl_world s))))"
    and "\<And>E. E \<in> set Es \<Longrightarrow> e_fault E = (\<lambda>_. None)"
  shows "backlog (relay_run limit (map (\<lambda>E. (E, all_acked, \<lambda>_. False)) Es) s) = backlog s - length Es * limit"
  using assms
proof (induction Es arbitrary: s)
  case (Cons E Es)
  obtain r s' where c: "relay_cycle E all_acked (\<lambda>_. False) limit s = (r, s')" by fastforce
  have E: "e_fault E = (\<lambda>_. None)" using Cons.prems(2) by simp
  note B = acked_cycle_backlog [OF E Cons.prems(1) c]
  have "backlog (relay_run limit (map (\<lambda>E. (E, all_acked, \<lambda>_. False)) Es) s') = backlog s' - length Es * limit"
    by (rule Cons.IH [OF B(2)]) (use Cons.prems(2) in simp)
  with c B(1) show ?case by simp
qed simp

theorem relay_drains_witness:
  "backlog (relay_run (relay_limit 1) (map (\<lambda>E. (E, all_acked, \<lambda>_. False)) [env0, env0]) relay0) = 0"
proof -
  have "distinct (map ox_id (outbox (w_db (rl_world relay0))))" by (simp add: relay0_defs)
  from relay_drains [OF this, of "[env0, env0]"] show ?thesis
    by (simp add: env0_def backlog_def relay_limit_def relay0_defs pending_def)
qed

section \<open>What a failed bookkeeping statement costs\<close>

text \<open>Delivery is at least once, not exactly once: when staging one failed publication fails,
  the marks of the whole cycle are rolled back, and the next cycle publishes again the events the
  broker had already acknowledged, under the same message id.\<close>

theorem relay_redelivers:
  "\<exists>E pub s s1 s2 x n e. relay_inv s \<and> relay_cycle E pub (\<lambda>_. False) 100 s = ((n, Some x), s1)
     \<and> relay_cycle E pub (\<lambda>_. False) 100 s1 = ((n, None), s2)
     \<and> e \<in> set (outbox (w_db (rl_world s))) \<and> outbox (w_db (rl_world s1)) = outbox (w_db (rl_world s))
     \<and> rl_stream s1 = rl_stream s @ [message_of e] \<and> filter (\<lambda>m. msg_id m = msg_id (message_of e)) (rl_stream s2)
         = [message_of e, message_of e]"
proof -
  define E where "E = env0\<lparr>e_fault := (\<lambda>n. if n = 2 then Some IoErr else None)\<rparr>"
  define s1 where "s1 = snd (relay_cycle E flaky (\<lambda>_. False) 100 relay0)"
  define s2 where "s2 = snd (relay_cycle E flaky (\<lambda>_. False) 100 s1)"
  note defs = relay_cycle_def relay0_defs run_simps message_of_def dedup_id_def int_text_def nat_text.simps aborted_tx_def
  have 1: "fst (relay_cycle E flaky (\<lambda>_. False) 100 relay0) = (2, Some (DbErr (PgErr ''25P02'')))"
    by (simp add: E_def defs)
  have 2: "fst (relay_cycle E flaky (\<lambda>_. False) 100 s1) = (2, None)"
    by (simp add: s1_def E_def defs)
  have o1: "outbox (w_db (rl_world s1)) = outbox (w_db (rl_world relay0))"
    and st1: "rl_stream s1 = rl_stream relay0 @ [message_of (event0 1)]"
    by (simp_all add: s1_def E_def defs)
  have st2: "filter (\<lambda>m. msg_id m = msg_id (message_of (event0 1))) (rl_stream s2) = [message_of (event0 1), message_of (event0 1)]"
    by (simp add: s2_def s1_def E_def defs)
  have "event0 1 \<in> set (outbox (w_db (rl_world relay0)))" by (simp add: relay0_defs)
  moreover have "relay_cycle E flaky (\<lambda>_. False) 100 relay0 = ((2, Some (DbErr (PgErr ''25P02''))), s1)"
    "relay_cycle E flaky (\<lambda>_. False) 100 s1 = ((2, None), s2)"
    using 1 2 by (simp_all add: s1_def s2_def prod_eq_iff)
  ultimately show ?thesis using relay0_inv o1 st1 st2 by blast
qed

end
