(* ===== verification/Settler.thy ===== *)
theory Settler
  imports Payroll Text Objects
begin

text \<open>
  The payroll settler, \<open>payroll/settler\<close>: on a \<open>payroll.batch_locked.v1\<close> event it renders the
  batch as CSV (with Go's \<open>encoding/csv\<close> writer), uploads it, marks the batch as exported and
  appends \<open>payroll.export_ready.v1\<close> to the outbox. Text is a list of bytes.

  The object store is outside the repository: whether an upload is accepted is a parameter, and
  an accepted one holds the bytes under its key.
\<close>

section \<open>Go's CSV writer\<close>

definition nl :: char where "nl = CHR 0x0A"
definition cr :: char where "cr = CHR 0x0D"
definition dq :: char where "dq = CHR 0x22"
definition comma :: char where "comma = CHR 0x2C"

definition csv_special :: "char \<Rightarrow> bool" where
  "csv_special c \<longleftrightarrow> c = nl \<or> c = cr \<or> c = dq \<or> c = comma"

definition field_needs_quotes :: "string \<Rightarrow> bool" where
  "field_needs_quotes f \<longleftrightarrow> f \<noteq> [] \<and> (f = [CHR 0x5C, CHR ''.''] \<or> list_ex csv_special f \<or> starts_space f)"

definition quote_char :: "char \<Rightarrow> string" where
  "quote_char c = (if c = dq then [dq, dq] else [c])"

definition csv_field :: "string \<Rightarrow> string" where
  "csv_field f = (if field_needs_quotes f then dq # concat (map quote_char f) @ [dq] else f)"

definition csv_record :: "string list \<Rightarrow> string" where
  "csv_record fs = join_text [comma] (map csv_field fs) @ [nl]"

definition csv_text :: "string list list \<Rightarrow> string" where
  "csv_text rows = concat (map csv_record rows)"

definition bom :: string where
  "bom = bytes [0xEF, 0xBB, 0xBF]"

section \<open>The HR file\<close>

record payroll_user =
  pu_id :: uuid
  pu_employee_id :: "string option"
  pu_email :: string
  pu_name :: string
  pu_plant :: "string option"
  pu_department :: "string option"

definition user_lookup :: "env \<Rightarrow> uuid \<Rightarrow> payroll_user io" where
  "user_lookup E i = query E (\<lambda>d. case by_key u_id i (users d) of
     None \<Rightarrow> Inl (PayrollErr ErrUserNotFound)
   | Some u \<Rightarrow> Inr \<lparr>pu_id = u_id u, pu_employee_id = u_employee_id u, pu_email = u_email u, pu_name = u_name u,
       pu_plant = u_plant u, pu_department = u_department u\<rparr>)"

definition or_empty :: "string option \<Rightarrow> string" where
  "or_empty x = (case x of None \<Rightarrow> '''' | Some s \<Rightarrow> s)"

definition csv_row :: "payroll_user \<Rightarrow> entry \<Rightarrow> string \<Rightarrow> string list \<Rightarrow> string list" where
  "csv_row u e period flagged =
     [or_empty (pu_employee_id u), pu_email u, pu_name u, or_empty (pu_plant u), or_empty (pu_department u),
      int_text (e_amount e), int_text (e_refunded e), int_text (i64 (e_amount e - e_refunded e)), period,
      join_text '';'' flagged]"

text \<open>\<open>writeCSVRow\<close>: the user is looked up for every row; any failure gives a placeholder.\<close>

definition write_csv_row :: "env \<Rightarrow> string \<Rightarrow> entry \<Rightarrow> string list \<Rightarrow> string io" where
  "write_csv_row E period e flagged =
     bind (attempt (user_lookup E (e_user e))) (\<lambda>r.
       let u = (case r of Inr u \<Rightarrow> u
         | Inl _ \<Rightarrow> \<lparr>pu_id = e_user e, pu_employee_id = None, pu_email = ''?'', pu_name = ''?'',
                    pu_plant = None, pu_department = None\<rparr>) in
       ret (csv_record (csv_row u e period flagged)))"

text \<open>The excluded entries and the kinds flagged per entry.\<close>

definition excluded_entries :: "payroll_exception list \<Rightarrow> uuid list" where
  "excluded_entries xs = map x_entry (filter (\<lambda>x. x_status x = ExExcluded) xs)"

definition flagged_kinds :: "payroll_exception list \<Rightarrow> uuid \<Rightarrow> string list" where
  "flagged_kinds xs i = map (\<lambda>x. exception_kind_text (x_kind x)) (filter (\<lambda>x. x_entry x = i) xs)"

definition load_exception_groups :: "env \<Rightarrow> uuid \<Rightarrow> (uuid list \<times> (uuid \<Rightarrow> string list)) io" where
  "load_exception_groups E bid =
     bind (exception_list_by_batch E bid) (\<lambda>xs. ret (excluded_entries xs, flagged_kinds xs))"

definition csv_header :: "string list" where
  "csv_header = [''employee_id'', ''primary_email'', ''display_name'', ''plant'', ''department'',
     ''amount_ntd'', ''refunded_ntd'', ''net_ntd'', ''batch_period'', ''exception'']"

definition period_text :: "batch \<Rightarrow> string" where
  "period_text b = date_text (b_start b) @ '' ~ '' @ date_text (b_end b)"

definition render_csv :: "env \<Rightarrow> batch \<Rightarrow> entry list \<Rightarrow> string io" where
  "render_csv E b es =
     bind (load_exception_groups E (b_id b)) (\<lambda>(excluded, flagged).
     bind (collect (\<lambda>e. write_csv_row E (period_text b) e (flagged (e_id e)))
             (filter (\<lambda>e. e_id e \<notin> set excluded) es)) (\<lambda>rows.
     ret (bom @ csv_record csv_header @ concat rows)))"

section \<open>Handling an event\<close>

record settler =
  sv_world :: world
  sv_objects :: "(string \<times> string) list"

definition json_text :: "json \<Rightarrow> string option" where
  "json_text j = (case j of JStr s \<Rightarrow> Some s | _ \<Rightarrow> None)"

text \<open>
  The event as its three string fields; a field that is missing stays empty, one that is not a
  string cannot be decoded. \<open>None\<close> is data that is not a JSON object.
\<close>

definition event_field :: "payload \<Rightarrow> string \<Rightarrow> string option" where
  "event_field pl k = (case map_of pl k of None \<Rightarrow> Some '''' | Some j \<Rightarrow> json_text j)"

definition decode_event :: "payload option \<Rightarrow> err + string" where
  "decode_event data = (case data of None \<Rightarrow> Inl (PayrollErr ErrDecodeEvent)
   | Some pl \<Rightarrow> (case (event_field pl ''batch_id'', event_field pl ''period_start'', event_field pl ''period_end'') of
       (Some bid, Some _, Some _) \<Rightarrow> if bid = '''' then Inl (PayrollErr ErrEventMissingBatch) else Inr bid
     | _ \<Rightarrow> Inl (PayrollErr ErrDecodeEvent)))"

definition object_key :: "uuid \<Rightarrow> string" where
  "object_key i = ''payroll/'' @ i @ ''.csv''"

text \<open>The transaction after the upload.\<close>

definition export_body :: "env \<Rightarrow> batch \<Rightarrow> string \<Rightarrow> nat \<Rightarrow> unit io" where
  "export_body E b uri n =
     (let pl = [(''batch_id'', JStr (b_id b)), (''export_uri'', JStr uri), (''entries'', JInt (int n))] in
      bind (batch_set_export_info_tx E (b_id b) uri (e_now E)) (\<lambda>_.
      bind (outbox_append_tx E ''payroll_batch'' (b_id b) ''payroll.export_ready.v1'' pl []) (\<lambda>_.
      audit_write_tx E (audit_of None (Some WelfareAdmin) ''payroll.export'' ''payroll_batch'' (b_id b) pl))))"

text \<open>What is read and rendered before the upload; \<open>None\<close> when there is nothing to do.\<close>

definition settle_prepare :: "env \<Rightarrow> payload option \<Rightarrow> (batch \<times> nat \<times> string) option io" where
  "settle_prepare E data =
     (case decode_event data of
        Inl e \<Rightarrow> fail e
      | Inr bid \<Rightarrow>
          bind (batch_get_by_id E bid) (\<lambda>b.
          if b_status b = BExported then ret None
          else bind (entry_list_by_batch E bid) (\<lambda>es.
               bind (render_csv E b es) (\<lambda>csv.
               ret (Some (b, length es, csv))))))"

text \<open>\<open>put\<close> tells for a key and its bytes whether the store accepts the upload.\<close>

definition settle_handle ::
    "env \<Rightarrow> string \<Rightarrow> (string \<Rightarrow> string \<Rightarrow> bool) \<Rightarrow> payload option \<Rightarrow> settler \<Rightarrow> (err + unit) \<times> settler" where
  "settle_handle E bucket put data s =
     (case settle_prepare E data (sv_world s) of
        (Inl e, w1) \<Rightarrow> (Inl e, s\<lparr>sv_world := w1\<rparr>)
      | (Inr None, w1) \<Rightarrow> (Inr (), s\<lparr>sv_world := w1\<rparr>)
      | (Inr (Some (b, n, csv)), w1) \<Rightarrow>
          (let key = object_key (b_id b) in
           if \<not> put key csv then (Inl (PayrollErr ErrUpload), s\<lparr>sv_world := w1\<rparr>)
           else (case begin_func E (\<lambda>_. export_body E b (object_uri bucket key) n) w1 of
              (r, w2) \<Rightarrow> (r, \<lparr>sv_world = w2, sv_objects = AList.update key csv (sv_objects s)\<rparr>))))"

lemmas settler_runs [run_simps] = fun_cong [OF user_lookup_def] fun_cong [OF write_csv_row_def]
  fun_cong [OF load_exception_groups_def] fun_cong [OF render_csv_def] fun_cong [OF export_body_def]
  fun_cong [OF settle_prepare_def] decode_event_def event_field_def json_text_def excluded_entries_def
  flagged_kinds_def

lemma ro_settle_prepare [ro_intros]: "ro (settle_prepare E data)" "ro (render_csv E b es)" "ro (user_lookup E i)"
  "ro (load_exception_groups E i)"
  by (auto simp: settle_prepare_def render_csv_def load_exception_groups_def write_csv_row_def user_lookup_def
      intro!: ro_intros ro_payroll_reads split: sum.splits)

end
