(* ===== verification/Settler_Props.thy ===== *)
theory Settler_Props
  imports Settler Payroll_Scenario
begin

text \<open>
  The properties of the settler: its CSV can be read back, the HR file is the one the payroll
  tables describe, an export is recorded once per event and a redelivered event does nothing, and
  two workers on one event announce the export twice.
\<close>

section \<open>Reading the CSV back\<close>

text \<open>
  A reader in the sense of RFC 4180, as the state machine over the bytes: at the start of a
  field, in a plain or a quoted field, or after a quote that ends it or escapes another.
\<close>

datatype csv_mode = FieldStart | Plain string | Quoted string | QuoteSeen string

definition end_field :: "(csv_mode \<Rightarrow> string list \<Rightarrow> string list list option) \<Rightarrow> char \<Rightarrow> string \<Rightarrow> string list \<Rightarrow>
    string list list option \<Rightarrow> string list list option" where
  "end_field k c f fs other = (if c = comma then k FieldStart (fs @ [f])
     else if c = nl then map_option ((#) (fs @ [f])) (k FieldStart []) else other)"

fun csv_read :: "string \<Rightarrow> csv_mode \<Rightarrow> string list \<Rightarrow> string list list option" where
  "csv_read [] m fs = (if m = FieldStart \<and> fs = [] then Some [] else None)"
| "csv_read (c # cs) FieldStart fs =
     (if c = dq then csv_read cs (Quoted []) fs else end_field (csv_read cs) c [] fs (csv_read cs (Plain [c]) fs))"
| "csv_read (c # cs) (Plain f) fs =
     end_field (csv_read cs) c f fs (if c = dq then None else csv_read cs (Plain (f @ [c])) fs)"
| "csv_read (c # cs) (Quoted f) fs =
     (if c = dq then csv_read cs (QuoteSeen f) fs else csv_read cs (Quoted (f @ [c])) fs)"
| "csv_read (c # cs) (QuoteSeen f) fs =
     (if c = dq then csv_read cs (Quoted (f @ [dq])) fs else end_field (csv_read cs) c f fs None)"

definition parse_csv :: "string \<Rightarrow> string list list option" where
  "parse_csv s = csv_read s FieldStart []"

lemma separators [simp]: "comma \<noteq> nl" "nl \<noteq> comma" "dq \<noteq> nl" "nl \<noteq> dq" "dq \<noteq> comma" "comma \<noteq> dq"
  by (simp_all add: comma_def nl_def dq_def)

lemma read_plain:
  "\<not> list_ex csv_special g \<Longrightarrow> sep = comma \<or> sep = nl \<Longrightarrow>
     csv_read (g @ sep # cs) (Plain f) fs = end_field (csv_read cs) sep (f @ g) fs None"
  by (induction g arbitrary: f) (auto simp: csv_special_def end_field_def)

lemma read_quoted:
  "csv_read (concat (map quote_char g) @ dq # cs) (Quoted f) fs = csv_read cs (QuoteSeen (f @ g)) fs"
proof (induction g arbitrary: f)
  case (Cons c g)
  from Cons.IH [of "f @ [c]"] show ?case by (cases "c = dq") (simp_all add: quote_char_def [of c] quote_char_def [of dq])
qed simp

lemma read_field:
  assumes "sep = comma \<or> sep = nl"
  shows "csv_read (csv_field f @ sep # cs) FieldStart fs = end_field (csv_read cs) sep f fs None"
proof (cases "field_needs_quotes f")
  case True
  have "csv_read (concat (map quote_char f) @ dq # sep # cs) (Quoted []) fs = csv_read (sep # cs) (QuoteSeen f) fs"
    using read_quoted [of f "sep # cs" "[]" fs] by simp
  with True assms show ?thesis by (auto simp: csv_field_def)
next
  case False
  show ?thesis
  proof (cases f)
    case Nil
    with assms show ?thesis by (auto simp: csv_field_def field_needs_quotes_def end_field_def)
  next
    case (Cons c g)
    with False have "\<not> list_ex csv_special f" by (simp add: field_needs_quotes_def)
    with Cons have "\<not> csv_special c" "\<not> list_ex csv_special g" by simp_all
    with Cons False assms read_plain [of g sep cs "[c]" fs] show ?thesis
      by (auto simp: csv_field_def csv_special_def end_field_def)
  qed
qed

lemma read_fields:
  "fs \<noteq> [] \<Longrightarrow> csv_read (join_text [comma] (map csv_field fs) @ nl # cs) FieldStart gs =
     map_option ((#) (gs @ fs)) (csv_read cs FieldStart [])"
proof (induction fs arbitrary: gs)
  case (Cons f fs)
  show ?case
  proof (cases fs)
    case Nil
    then show ?thesis using read_field [of nl f cs gs] by (simp add: end_field_def)
  next
    case (Cons f2 fs2)
    then have "join_text [comma] (map csv_field (f # fs)) @ nl # cs
        = csv_field f @ comma # (join_text [comma] (map csv_field fs) @ nl # cs)" by simp
    then show ?thesis using read_field [of comma f] Cons.IH [of "gs @ [f]"] Cons by (simp add: end_field_def)
  qed
qed simp

lemma read_records: "\<forall>r\<in>set rows. r \<noteq> [] \<Longrightarrow> parse_csv (csv_text rows) = Some rows"
proof (induction rows)
  case (Cons r rows)
  then show ?case
    using read_fields [of r "csv_text rows" "[]"] by (simp add: parse_csv_def csv_text_def csv_record_def)
qed (simp add: parse_csv_def csv_text_def)

text \<open>Whatever the fields hold (commas, quotes, line breaks, leading spaces), the file the writer
  produces reads back as exactly the records it was given, as long as each has a field.\<close>

theorem csv_roundtrip:
  assumes "\<forall>r\<in>set rows. r \<noteq> []"
  shows "parse_csv (csv_text rows) = Some rows"
  using assms by (rule read_records)

theorem csv_roundtrip_witness:
  "parse_csv (csv_text [[''a,b'', [dq], '''', '' x''], [[nl, cr]]]) = Some [[''a,b'', [dq], '''', '' x''], [[nl, cr]]]"
  by (rule csv_roundtrip) simp

section \<open>The HR file\<close>

text \<open>The file the payroll tables describe: one row per entry that is not excluded, in order.\<close>

definition batch_exceptions :: "db \<Rightarrow> uuid \<Rightarrow> payroll_exception list" where
  "batch_exceptions d bid = sort_key x_created_at (filter (\<lambda>x. x_batch x = bid) (exceptions d))"

definition hr_user :: "db \<Rightarrow> uuid \<Rightarrow> payroll_user" where
  "hr_user d i = (case by_key u_id i (users d) of
     None \<Rightarrow> \<lparr>pu_id = i, pu_employee_id = None, pu_email = ''?'', pu_name = ''?'', pu_plant = None, pu_department = None\<rparr>
   | Some u \<Rightarrow> \<lparr>pu_id = u_id u, pu_employee_id = u_employee_id u, pu_email = u_email u, pu_name = u_name u,
       pu_plant = u_plant u, pu_department = u_department u\<rparr>)"

definition deducted :: "db \<Rightarrow> uuid \<Rightarrow> entry \<Rightarrow> bool" where
  "deducted d bid e \<longleftrightarrow> \<not> (\<exists>x\<in>set (exceptions d). x_batch x = bid \<and> x_entry x = e_id e \<and> x_status x = ExExcluded)"

definition hr_rows :: "db \<Rightarrow> batch \<Rightarrow> entry list \<Rightarrow> string list list" where
  "hr_rows d b es = map (\<lambda>e. csv_row (hr_user d (e_user e)) e (period_text b)
      (flagged_kinds (batch_exceptions d (b_id b)) (e_id e))) (filter (deducted d (b_id b)) es)"

definition hr_file :: "db \<Rightarrow> batch \<Rightarrow> entry list \<Rightarrow> string" where
  "hr_file d b es = bom @ csv_text (csv_header # hr_rows d b es)"

lemma excluded_deducted: "e_id e \<notin> set (excluded_entries (batch_exceptions d bid)) \<longleftrightarrow> deducted d bid e"
  by (auto simp: excluded_entries_def batch_exceptions_def deducted_def image_iff)

lemma write_row_run:
  assumes "e_fault E = (\<lambda>_. None)"
  shows "\<exists>w'. write_csv_row E p e fl w = (Inr (csv_record (csv_row (hr_user (w_db w) (e_user e)) e p fl)), w')
     \<and> w_db w' = w_db w"
  using assms
  by (cases "by_key u_id (e_user e) (users (w_db w))")
    (auto simp: write_csv_row_def user_lookup_def hr_user_def bind_def attempt_def query_def exec_def ret_def Let_def
      split: option.splits)

lemma collect_rows_run:
  assumes "e_fault E = (\<lambda>_. None)"
  shows "\<exists>w'. collect (\<lambda>e. write_csv_row E p e (fl e)) es w =
      (Inr (map (\<lambda>e. csv_record (csv_row (hr_user (w_db w) (e_user e)) e p (fl e))) es), w') \<and> w_db w' = w_db w"
proof (induction es arbitrary: w)
  case Nil
  then show ?case by (simp add: ret_def)
next
  case (Cons e es)
  from write_row_run [OF assms, of p e "fl e" w] obtain w1 where
    1: "write_csv_row E p e (fl e) w = (Inr (csv_record (csv_row (hr_user (w_db w) (e_user e)) e p (fl e))), w1)"
    "w_db w1 = w_db w" by blast
  from Cons.IH [of w1] 1(2) obtain w2 where
    2: "collect (\<lambda>e. write_csv_row E p e (fl e)) es w1 =
      (Inr (map (\<lambda>e. csv_record (csv_row (hr_user (w_db w) (e_user e)) e p (fl e))) es), w2)" "w_db w2 = w_db w" by auto
  from 1 2 show ?case by (simp add: bind_def ret_def)
qed

text \<open>C23: Rendering implements the file the tables describe: when the database answers, it always
  returns, its bytes are the byte order mark and the records of the header and of every entry
  that is not excluded, and reading them back gives exactly those records.\<close>

theorem render_csv_refines:
  assumes "e_fault E = (\<lambda>_. None)"
  shows "\<exists>w'. render_csv E b es w = (Inr (hr_file (w_db w) b es), w') \<and> w_db w' = w_db w
    \<and> (\<exists>t. hr_file (w_db w) b es = bom @ t \<and> parse_csv t = Some (csv_header # hr_rows (w_db w) b es))"
proof -
  let ?xs = "batch_exceptions (w_db w) (b_id b)"
  obtain w1 where 1: "load_exception_groups E (b_id b) w = (Inr (excluded_entries ?xs, flagged_kinds ?xs), w1)"
    "w_db w1 = w_db w"
    using assms by (simp add: load_exception_groups_def exception_list_by_batch_def select_rows_def bind_def query_def
        exec_def ret_def batch_exceptions_def)
  from collect_rows_run [OF assms, of "period_text b" "\<lambda>e. flagged_kinds ?xs (e_id e)"
      "filter (\<lambda>e. e_id e \<notin> set (excluded_entries ?xs)) es" w1] 1(2)
  obtain w2 where 2: "collect (\<lambda>e. write_csv_row E (period_text b) e (flagged_kinds ?xs (e_id e)))
      (filter (\<lambda>e. e_id e \<notin> set (excluded_entries ?xs)) es) w1
      = (Inr (map csv_record (hr_rows (w_db w) b es)), w2)" "w_db w2 = w_db w"
    by (auto simp: hr_rows_def excluded_deducted comp_def)
  have "render_csv E b es w = (Inr (hr_file (w_db w) b es), w2)"
    using 1 2 by (simp add: render_csv_def hr_file_def csv_text_def bind_def ret_def)
  moreover have "parse_csv (csv_text (csv_header # hr_rows (w_db w) b es)) = Some (csv_header # hr_rows (w_db w) b es)"
    by (rule read_records) (auto simp: csv_header_def hr_rows_def csv_row_def)
  ultimately show ?thesis using 2(2) by (auto simp: hr_file_def)
qed

lemma period1_text: "period_text (batch1 BLocked) = ''2026-01-07 ~ 2026-01-09''"
    "int_text 280 = ''280''" "int_text 0 = ''0''"
  by code_simp+

theorem render_csv_refines_witness:
  "\<exists>w' t. render_csv env0 (batch1 BLocked) [entry1 0] pay1 = (Inr (bom @ t), w')
     \<and> parse_csv t = Some [csv_header, [''emp'', ''emp'', ''emp'', ''P1'', '''', ''280'', ''0'', ''280'',
          ''2026-01-07 ~ 2026-01-09'', '''']]"
proof -
  have "e_fault env0 = (\<lambda>_. None)" by (simp add: env0_def)
  from render_csv_refines [OF this, of "batch1 BLocked" "[entry1 0]" pay1] obtain w' t where
    r: "render_csv env0 (batch1 BLocked) [entry1 0] pay1 = (Inr (bom @ t), w')"
    and t: "parse_csv t = Some (csv_header # hr_rows (w_db pay1) (batch1 BLocked) [entry1 0])" by auto
  have "hr_rows (w_db pay1) (batch1 BLocked) [entry1 0] = [[''emp'', ''emp'', ''emp'', ''P1'', '''', ''280'', ''0'', ''280'',
          ''2026-01-07 ~ 2026-01-09'', '''']]"
    using period1_text
    by (simp add: hr_rows_def deducted_def csv_row_def hr_user_def or_empty_def flagged_kinds_def
        batch_exceptions_def pay1_defs i64_run del: set_filter)
  with r t show ?thesis by metis
qed

section \<open>One export per event\<close>

lemma set_export_ok:
  "batch_set_export_info_tx E i uri t w = (Inr (), w') \<Longrightarrow>
     w_db w' = (w_db w)\<lparr>batches := sql_update (\<lambda>b. b_id b = i)
       (\<lambda>b. b\<lparr>b_status := BExported, b_exported_at := Some t, b_export_uri := Some uri, b_updated_at := e_dbnow E\<rparr>)
       (batches (w_db w))\<rparr>"
  by (auto simp: batch_set_export_info_tx_def update_rows_def exec_ok Let_def no_check_passes filter_empty_conv
      sql_update_def intro!: db.equality map_idI [symmetric] split: if_splits option.splits)

lemma export_body_ok:
  assumes "export_body E b uri n w = (Inr (), w')"
  obtains m a where "w_db w' = (w_db w)\<lparr>batches := sql_update (\<lambda>x. b_id x = b_id b)
       (\<lambda>x. x\<lparr>b_status := BExported, b_exported_at := Some (e_now E), b_export_uri := Some uri, b_updated_at := e_dbnow E\<rparr>)
       (batches (w_db w)), outbox := outbox (w_db w) @ [m], audits := audits (w_db w) @ [a]\<rparr>"
    "ox_agg m = b_id b" "ox_subject m = ''payroll.export_ready.v1''" "ox_published_at m = None"
proof -
  from assms obtain w1 w2 pl e where 1: "batch_set_export_info_tx E (b_id b) uri (e_now E) w = (Inr (), w1)"
    and 2: "outbox_append_tx E ''payroll_batch'' (b_id b) ''payroll.export_ready.v1'' pl [] w1 = (Inr (), w2)"
    and 3: "audit_write_tx E e w2 = (Inr (), w')"
    unfolding export_body_def Let_def bind_ok by auto
  have "\<exists>m. w_db w2 = (w_db w1)\<lparr>outbox := outbox (w_db w1) @ [m]\<rparr> \<and> ox_agg m = b_id b
      \<and> ox_subject m = ''payroll.export_ready.v1'' \<and> ox_published_at m = None"
    using 2 by (auto simp: outbox_append_tx_def io_simps Let_def intro!: exI)
  then obtain m where m: "w_db w2 = (w_db w1)\<lparr>outbox := outbox (w_db w1) @ [m]\<rparr>" "ox_agg m = b_id b"
      "ox_subject m = ''payroll.export_ready.v1''" "ox_published_at m = None" by blast
  obtain a where a: "w_db w' = (w_db w2)\<lparr>audits := audits (w_db w2) @ [a]\<rparr>"
    using 3 by (auto simp: audit_write_tx_def io_simps Let_def split: if_splits)
  show thesis by (rule that [of a m]) (simp_all add: a m set_export_ok [OF 1])
qed

lemma prepare_run:
  assumes "settle_prepare E data w = (Inr x, w1)"
  obtains bid b where "decode_event data = Inr bid" "by_key b_id bid (batches (w_db w)) = Some b" "w_db w1 = w_db w"
    "b_status b = BExported \<longleftrightarrow> x = None" "x \<noteq> None \<longrightarrow> (\<exists>n csv. x = Some (b, n, csv))"
proof -
  from assms obtain bid where d: "decode_event data = Inr bid"
    by (auto simp: settle_prepare_def io_simps split: sum.splits)
  with assms obtain b v where g: "batch_get_by_id E bid w = (Inr b, v)"
    and k: "(if b_status b = BExported then ret None
          else bind (entry_list_by_batch E bid) (\<lambda>es. bind (render_csv E b es) (\<lambda>csv. ret (Some (b, length es, csv))))) v = (Inr x, w1)"
    unfolding settle_prepare_def by (auto simp: bind_ok)
  have "by_key b_id bid (batches (w_db w)) = Some b" using g by (simp add: batch_get_by_id_def io_simps)
  moreover have "w_db w1 = w_db w" using roD [OF ro_settle_prepare(1) assms] .
  ultimately show thesis using d k by (intro that [of bid b]) (auto simp: io_simps split: if_splits)
qed

text \<open>C24: Handling a locked batch's event uploads a file under the batch's key, marks the batch as
  exported at that place and announces it once; the entries stay as they are. A redelivery of the
  event afterwards, whatever its outcome, touches neither the tables nor the objects.\<close>

theorem export_once:
  assumes "batch_tbl.keyed (w_db (sv_world s))" "decode_event data = Inr bid"
    and "by_key b_id bid (batches (w_db (sv_world s))) = Some b" "b_status b \<noteq> BExported"
    and "settle_handle E bucket put data s = (Inr (), s')"
  shows "(\<exists>csv. map_of (sv_objects s') (object_key bid) = Some csv \<and> put (object_key bid) csv)
    \<and> (\<exists>b'. by_key b_id bid (batches (w_db (sv_world s'))) = Some b' \<and> b_status b' = BExported
         \<and> b_export_uri b' = Some (object_uri bucket (object_key bid)))
    \<and> (\<exists>m. outbox (w_db (sv_world s')) = outbox (w_db (sv_world s)) @ [m] \<and> ox_agg m = bid
         \<and> ox_subject m = ''payroll.export_ready.v1'')
    \<and> entries (w_db (sv_world s')) = entries (w_db (sv_world s))
    \<and> (\<forall>E2 put2 r s2. settle_handle E2 bucket put2 data s' = (r, s2) \<longrightarrow>
         w_db (sv_world s2) = w_db (sv_world s') \<and> sv_objects s2 = sv_objects s')"
proof -
  obtain q w1 where p: "settle_prepare E data (sv_world s) = (q, w1)" by fastforce
  with assms(5) obtain x where q: "q = Inr x" by (cases q) (auto simp: settle_handle_def)
  from prepare_run [OF p [unfolded q]] assms(2-4) obtain n csv where x: "x = Some (b, n, csv)"
    and w1: "w_db w1 = w_db (sv_world s)" by force
  have bid: "b_id b = bid" using by_key_SomeD [OF assms(3)] by simp
  let ?k = "object_key bid"
  obtain w2 where put: "put ?k csv" and tx: "begin_func E (\<lambda>_. export_body E b (object_uri bucket ?k) n) w1 = (Inr (), w2)"
    and s': "s' = \<lparr>sv_world = w2, sv_objects = AList.update ?k csv (sv_objects s)\<rparr>"
    using assms(5) p q x bid by (auto simp: settle_handle_def Let_def split: if_splits prod.splits)
  from tx obtain v v' where v: "w_db v = w_db w1" "export_body E b (object_uri bucket ?k) n v = (Inr (), v')" "w_db w2 = w_db v'"
    by (rule begin_func_run)
  from v(2) obtain m a where db: "w_db v' = (w_db v)\<lparr>batches := sql_update (\<lambda>x. b_id x = b_id b)
       (\<lambda>x. x\<lparr>b_status := BExported, b_exported_at := Some (e_now E), b_export_uri := Some (object_uri bucket ?k),
          b_updated_at := e_dbnow E\<rparr>) (batches (w_db v)), outbox := outbox (w_db v) @ [m], audits := audits (w_db v) @ [a]\<rparr>"
    and m: "ox_agg m = b_id b" "ox_subject m = ''payroll.export_ready.v1''" by (rule export_body_ok)
  have ex: "\<exists>b'. by_key b_id bid (batches (w_db (sv_world s'))) = Some b' \<and> b_status b' = BExported
         \<and> b_export_uri b' = Some (object_uri bucket ?k)"
    using assms(3) bid by (simp add: s' v(3) db v(1) w1 by_key_sql_update)
  have again: "w_db (sv_world s2) = w_db (sv_world s') \<and> sv_objects s2 = sv_objects s'"
    if run2: "settle_handle E2 bucket put2 data s' = (r, s2)" for E2 put2 r s2
  proof -
    obtain q2 w3 where p2: "settle_prepare E2 data (sv_world s') = (q2, w3)" by fastforce
    have ro: "w_db w3 = w_db (sv_world s')" using roD [OF ro_settle_prepare(1) p2] .
    show ?thesis
    proof (cases q2)
      case (Inl e)
      with run2 p2 ro show ?thesis by (auto simp: settle_handle_def)
    next
      case (Inr y)
      from prepare_run [OF p2 [unfolded Inr]] ex assms(2) have "y = None" by force
      with run2 p2 ro Inr show ?thesis by (auto simp: settle_handle_def)
    qed
  qed
  have "map_of (sv_objects s') ?k = Some csv" by (simp add: s' update_conv)
  moreover have "outbox (w_db (sv_world s')) = outbox (w_db (sv_world s)) @ [m]" "entries (w_db (sv_world s')) = entries (w_db (sv_world s))"
    by (simp_all add: s' v(3) db v(1) w1)
  ultimately show ?thesis using put ex m bid again by blast
qed

definition locked_event :: "payload option" where
  "locked_event = Some [(''batch_id'', JStr ''uuuuuuuuuuuuu''), (''period_start'', JStr ''2026-01-07''),
     (''period_end'', JStr ''2026-01-09'')]"

definition settler0 :: settler where
  "settler0 = \<lparr>sv_world = pay1\<lparr>w_db := (w_db pay1)\<lparr>batches := [batch1 BLocked]\<rparr>\<rparr>, sv_objects = []\<rparr>"

lemma settler0_decodes: "decode_event locked_event = Inr ''uuuuuuuuuuuuu''"
  by (simp add: locked_event_def run_simps)

lemma settler0_ok: "\<exists>s'. settle_handle env0 ''hr'' (\<lambda>_ _. True) locked_event settler0 = (Inr (), s')"
  by (simp add: settle_handle_def settler0_def locked_event_def pay1_defs run_simps del: set_filter)

theorem export_once_witness:
  "\<exists>s'. settle_handle env0 ''hr'' (\<lambda>_ _. True) locked_event settler0 = (Inr (), s')
     \<and> w_db (sv_world (snd (settle_handle env0 ''hr'' (\<lambda>_ _. False) locked_event s'))) = w_db (sv_world s')"
proof -
  obtain s' where s': "settle_handle env0 ''hr'' (\<lambda>_ _. True) locked_event settler0 = (Inr (), s')" using settler0_ok by blast
  have "batch_tbl.keyed (w_db (sv_world settler0))" by (simp add: settler0_def batch_tbl.keyed_def)
  moreover have "by_key b_id ''uuuuuuuuuuuuu'' (batches (w_db (sv_world settler0))) = Some (batch1 BLocked)" "b_status (batch1 BLocked) \<noteq> BExported"
    by (simp_all add: settler0_def batch1_def)
  ultimately have "\<forall>E2 put2 r s2. settle_handle E2 ''hr'' put2 locked_event s' = (r, s2) \<longrightarrow>
      w_db (sv_world s2) = w_db (sv_world s') \<and> sv_objects s2 = sv_objects s'"
    using export_once [OF _ settler0_decodes _ _ s'] by blast
  with s' show ?thesis by (metis prod.collapse)
qed

text \<open>The status is only looked at before the upload: when two workers hold the same event (a
  redelivery while the first still uploads), both go through and the export is announced twice.\<close>

theorem export_announced_twice:
  "\<exists>E data w w1 w2 w3 w4 b n csv uri. settle_prepare E data w = (Inr (Some (b, n, csv)), w1)
     \<and> settle_prepare E data w1 = (Inr (Some (b, n, csv)), w2)
     \<and> begin_func E (\<lambda>_. export_body E b uri n) w2 = (Inr (), w3) \<and> begin_func E (\<lambda>_. export_body E b uri n) w3 = (Inr (), w4)
     \<and> outbox (w_db w) = [] \<and> map ox_subject (outbox (w_db w4)) = [''payroll.export_ready.v1'', ''payroll.export_ready.v1'']"
proof -
  let ?w = "sv_world settler0" and ?b = "batch1 BLocked"
  define uri where "uri = object_uri ''hr'' (object_key (b_id ?b))"
  define csv where "csv = hr_file (w_db ?w) ?b [entry1 0]"
  have nf: "e_fault env0 = (\<lambda>_. None)" by (simp add: env0_def)
  have prep: "\<exists>v'. settle_prepare env0 locked_event v = (Inr (Some (?b, 1, csv)), v') \<and> w_db v' = w_db ?w"
    if v: "w_db v = w_db ?w" for v
  proof -
    define v1 where "v1 = v\<lparr>w_tick := Suc (Suc (w_tick v))\<rparr>"
    have "w_db v1 = w_db ?w" using v by (simp add: v1_def)
    with render_csv_refines [OF nf, of ?b "[entry1 0]" v1] obtain v' where
      r: "render_csv env0 ?b [entry1 0] v1 = (Inr csv, v')" "w_db v' = w_db ?w" by (auto simp: csv_def)
    have "settle_prepare env0 locked_event v = (Inr (Some (?b, 1, csv)), v')"
      using r(1) v unfolding settle_prepare_def settler0_decodes v1_def
      by (simp add: batch_get_by_id_def entry_list_by_batch_def get_row_def select_rows_def query_def exec_def bind_def
          ret_def nf settler0_def pay1_defs)
    with r(2) show ?thesis by blast
  qed
  obtain w1 where 1: "settle_prepare env0 locked_event ?w = (Inr (Some (?b, 1, csv)), w1)" "w_db w1 = w_db ?w" using prep by blast
  obtain w2 where 2: "settle_prepare env0 locked_event w1 = (Inr (Some (?b, 1, csv)), w2)" "w_db w2 = w_db ?w" using prep [OF 1(2)] by blast
  have tx: "\<exists>v' m. begin_func env0 (\<lambda>_. export_body env0 ?b uri 1) v = (Inr (), v')
      \<and> outbox (w_db v') = outbox (w_db v) @ [m] \<and> ox_subject m = ''payroll.export_ready.v1''" for v
    by (auto simp: begin_func_def export_body_def batch_set_export_info_tx_def update_rows_def outbox_append_tx_def
        audit_write_tx_def audit_of_def exec_def bind_def nf Let_def no_check_passes split: option.splits)
  obtain w3 m where 3: "begin_func env0 (\<lambda>_. export_body env0 ?b uri 1) w2 = (Inr (), w3)"
    "outbox (w_db w3) = outbox (w_db w2) @ [m]" "ox_subject m = ''payroll.export_ready.v1''" using tx by blast
  obtain w4 m2 where 4: "begin_func env0 (\<lambda>_. export_body env0 ?b uri 1) w3 = (Inr (), w4)"
    "outbox (w_db w4) = outbox (w_db w3) @ [m2]" "ox_subject m2 = ''payroll.export_ready.v1''" using tx by blast
  have "outbox (w_db ?w) = []" by (simp add: settler0_def pay1_defs)
  moreover from this have "map ox_subject (outbox (w_db w4)) = [''payroll.export_ready.v1'', ''payroll.export_ready.v1'']"
    using 2(2) 3(2,3) 4(2,3) by simp
  ultimately have H: "settle_prepare env0 locked_event ?w = (Inr (Some (?b, 1, csv)), w1)
     \<and> settle_prepare env0 locked_event w1 = (Inr (Some (?b, 1, csv)), w2)
     \<and> begin_func env0 (\<lambda>_. export_body env0 ?b uri 1) w2 = (Inr (), w3)
     \<and> begin_func env0 (\<lambda>_. export_body env0 ?b uri 1) w3 = (Inr (), w4)
     \<and> outbox (w_db ?w) = [] \<and> map ox_subject (outbox (w_db w4)) = [''payroll.export_ready.v1'', ''payroll.export_ready.v1'']"
    using 1(1) 2(1) 3(1) 4(1) by (intro conjI)
  show ?thesis
    by (rule exI [of _ env0], rule exI [of _ locked_event], rule exI [of _ ?w], rule exI [of _ w1], rule exI [of _ w2],
        rule exI [of _ w3], rule exI [of _ w4], rule exI [of _ ?b], rule exI [of _ 1], rule exI [of _ csv],
        rule exI [of _ uri]) (rule H)
qed

end
