(* ===== verification/Spec2Isabelle.thy ===== *)
theory Spec2Isabelle
  imports Home_Props Menu_Props Compliance_Props Doc_Scan_Props On_Time_Props Vendor_Props Identity_Props Session_Props Feedback_Props Feedback_Scan Order_Props Reorder_Props Payroll_Props Settlement_Props Relay_Props Settler_Props
begin

text \<open>
  A model of the corporate catering backend, the Go program under \<open>src/services/api\<close>, with the
  theorems that say what its services do.

  \<^bold>\<open>The program.\<close> Vendors publish menus and supplies of meals per day; employees order ahead for
  their plant until the vendor's cutoff; the vendor marks orders ready and hands them out; what was
  picked up or missed is charged through payroll batches, exported to HR, and settled with the
  vendors; ratings, complaints, documents that expire and late orders raise anomalies, which
  administrators triage. All services share one PostgreSQL database; they are tied together by
  transactions, by rows one service writes and another reads, and by the outbox: a transaction
  appends its message to the table, the relay publishes it, the payroll settler and the on-time
  evaluator consume it. Sessions live in Redis, accounts at an identity provider, files in an
  object store.

  \<^bold>\<open>State and effects.\<close> \<open>Schema\<close> holds the records of the tables (one per table of
  \<open>src/migrations\<close>, in the columns the code uses), the errors of all packages, the database
  \<open>db\<close> (a list of rows per table, in the order of insertion) and the \<open>world\<close> around it: sequences,
  the Redis store, the calls made to the identity provider, and a counter of statements. An
  operation of Go code with a \<open>context\<close> and an \<open>error\<close> is a function \<open>world \<Rightarrow> (err + 'a) \<times> world\<close>
  of theory \<open>Store\<close>, with \<open>bind\<close> for the sequence of statements with early return. The
  environment \<open>env\<close> carries what an operation reads but does not control: the clock, the transaction
  time, the offset of the business location, the ids the server draws, the order in which Go
  iterates a map, and a fault oracle that may make any single statement fail. \<open>begin_func\<close> is
  \<open>pgx.BeginFunc\<close> and the hand-written transactions of the same shape: rollback restores the
  database, not the sequences, the cache or calls already made. Every operation is executable, and
  the witnesses run them on the system of theory \<open>Scenario\<close>.

  \<^bold>\<open>The library.\<close> \<open>Prelude\<close> has the collections of rules, wrap-around of \<open>int64\<close>, dates, updates and
  sums of row lists, Go's map iteration, and numerals as text. \<open>Store\<close> has the monad and four calculi:
  read-only operations (\<open>ro\<close>), operations without effect when they fail (\<open>atomic\<close>), predicates kept on
  every outcome (\<open>keeps\<close>, \<open>hoare\<close>), possible errors (\<open>raises\<close>); and the contracts \<open>append_log\<close> (tables
  that only grow) and \<open>guarded_update\<close> (conditional status updates have one winner). \<open>Tables\<close> has the
  statement shapes of the repositories and the locale \<open>table\<close>. \<open>Frames\<close> states per service what it
  does not touch, \<open>World_Parts\<close> does so for the cache and the identity provider; the theories that own
  other tables interpret these on their invariants. \<open>Text\<close>, \<open>Objects\<close> and \<open>Catalog\<close> hold trimming and
  case conversion, object URIs, and the reads every service makes.

  \<^bold>\<open>The components.\<close>
  \<^item> Orders. \<open>Order_Repo\<close> (\<open>order/state_machine.go\<close>, \<open>order/postgres\<close>), \<open>Quota\<close> (\<open>quota\<close>), \<open>Orders\<close>
    (\<open>order/service.go\<close>), \<open>Reorder\<close> (\<open>order/reorder_service.go\<close>), \<open>Sweepers\<close> (\<open>order/scheduler\<close>).
    \<open>Order_Effects\<close>, \<open>Order_Service\<close> and \<open>Sales\<close> give the effect of each operation on the tables and the
    balance of supplies and sold units; \<open>Order_Props\<close> and \<open>Reorder_Props\<close> the properties: quota taken, and
    returned up to the capacity (exactly while supplies are in balance, which lowering a capacity below
    the units sold ends), acceptance rules, one-way status changes, no effect on failure, sweeps.
  \<^item> Payroll. \<open>Payroll_Repo\<close>, \<open>Payroll\<close> (\<open>payroll/service.go\<close>, \<open>reversal.go\<close>), \<open>Payroll_Effects\<close>,
    \<open>Payroll_Inv\<close>, \<open>Payroll_Props\<close>: drafts partition the charged orders, refunds stay covered.
    \<open>Settlement\<close>, \<open>Settlement_Props\<close> (\<open>settlement\<close>): one settlement per vendor and period, exact sums.
  \<^item> Messages. \<open>Relay\<close>, \<open>Relay_Props\<close> (\<open>order/relay\<close>): no event lost or forged, the backlog drains.
    \<open>Settler\<close>, \<open>Settler_Props\<close> (\<open>payroll/settler\<close>): the HR file against the tables, one export per batch.
  \<^item> Feedback. \<open>Feedback_Repo\<close>, \<open>Feedback\<close>, \<open>Feedback_Inv\<close>, \<open>Feedback_Props\<close>, \<open>Feedback_Scan\<close> (\<open>feedback\<close>):
    the complaint workflow as an abstract machine, for calls in flight too (\<open>overlapping\<close>: a call reads
    at one moment and commits later), the satisfaction scan against its definition.
  \<^item> Access. \<open>Sessions\<close>, \<open>Identity\<close>, \<open>Session_Props\<close>, \<open>Identity_Props\<close> (\<open>identity\<close> without its \<open>hydra\<close> and
    \<open>authentik\<close> clients): logins, authentication of requests, revocation after operations of the
    session store run one after another, and what two overlaps of them do.
  \<^item> Vendors. \<open>Vendors\<close>, \<open>Vendor_Inv\<close>, \<open>Vendor_Props\<close> (\<open>vendors\<close>): approval, suspension, settings, plants
    served, operators.
  \<^item> Governance. \<open>Anomalies\<close>, \<open>Documents\<close>, \<open>Doc_Scanner\<close>, \<open>On_Time\<close> (\<open>compliance\<close>) with \<open>Compliance_Props\<close>,
    \<open>Doc_Scan_Props\<close>, \<open>On_Time_Props\<close>: uploads, triage, the two sources of alerts against references.
  \<^item> Menu. \<open>Menu\<close>, \<open>Menu_Props\<close> (\<open>menu/service.go\<close>, \<open>menu/postgres\<close>): the listing of employees, ownership.
    \<open>Home\<close> (\<open>menu/home_service.go\<close>, \<open>recommend.go\<close>, \<open>favorites_service.go\<close>) and \<open>Home_Props\<close>: the day
    of the home page, the recommendations and their pages.

  \<^bold>\<open>Modelling decisions.\<close> Money and counts are \<open>int64\<close> with Go's wrap-around written out where Go adds or
  multiplies; column types bound what a row can hold (\<open>out_of_range\<close>); a \<open>SUM\<close> is exact and fails to
  scan when it leaves \<open>int64\<close>. Times are nanoseconds, dates day numbers; a date compared with a timestamp
  is compared by UTC day. The clock of a call is read once. Text is bytes, compared bytewise; case
  conversion and \<open>ILIKE\<close> are those of ASCII. \<open>SELECT\<close> without \<open>ORDER BY\<close> returns rows in the order of the
  table; \<open>GROUP BY\<close> and Go maps are iterated in any order \<open>env\<close> picks; sorting is stable. An error of the
  server is its SQLSTATE with the violated constraint; wrapping with \<open>fmt.Errorf\<close> is transparent. A
  failing \<open>COMMIT\<close> has rolled back. \<open>LIMIT 1\<close> without \<open>ORDER BY\<close> takes the first row. The keys of an
  event are matched in their exact case, and a null in a text field of it is refused. Enumerations are typed, so invalid enumeration text is not
  represented, nor is the syntax of a uuid. Averages and thresholds are exact quotients, the scores of
  the recommender rationals. Logging, metrics and tracing are left out.

  \<^bold>\<open>Parameters.\<close> Code outside the repository is an argument: the broker (which publications it
  acknowledges), the object store (which puts succeed; a refused one stores nothing), the identity
  provider, the OpenID Connect and JWT libraries and the address parser. The hypotheses on them are named
  in the theorems and discharged by concrete functions in the witnesses.

  \<^bold>\<open>Bounds.\<close> Loops over rows are structural. \<open>next_orderable_day\<close> looks at 14 days, as the code does;
  a relay cycle takes at most \<open>relay_limit\<close> events, and \<open>relay_drains\<close> says how many cycles empty
  a backlog of a given size; \<open>take_nth\<close> bounds the choice of map orders by the length of the list. No
  definition uses fuel.

  \<^bold>\<open>Not modelled.\<close> The HTTP handlers except those of \<open>identity/http\<close>, the MCP server, the Hydra and Authentik
  clients and the command-line programs decode, forward and encode; the tickers around the scans and
  sweeps, the JetStream consumer loops, leader election, connection pools, configuration and
  observability are concurrency, I/O and glue around the operations modelled here; \<open>cmd/lunch-flow\<close>
  and \<open>cmd/stress\<close> are load tests. The manifest lists every part with its status. Concurrent
  transactions appear as sequences of operations in any order, each of them one step, as queries
  that see the state committed before a transaction, and for complaints and payroll locks as transactions
  that run on what was read in an earlier state; anomalies of weaker isolation inside one
  transaction are not represented.
\<close>

end
